(* ===== verification/Prelude.thy ===== *)
theory Prelude
  imports Complex_Main "HOL-Library.Word" "HOL-Library.List_Lexorder" "HOL-Library.Char_ord"
    "HOL-Library.AList" "HOL-Library.Sublist" "HOL-Library.Multiset"
begin

text \<open>
  Shared vocabulary of the development: the fragments of Go and of its standard library that the
  controller is written in.

  \<^item> A Go string is a sequence of bytes: the type \<open>string\<close> (a \<open>char\<close> is a byte).
  \<^item> A Go map is an association list with distinct keys (\<open>gomap\<close>). The order of the list is
    the order in which \<open>range\<close> visits the map: Go leaves it open, so a theorem about every list
    is a theorem about every iteration order.
  \<^item> A Go error is a value of \<^verbatim>\<open>goerr\<close>; \<open>fmt.Errorf\<close> with \<open>%w\<close> is \<open>Wrap\<close>.
  \<^item> \<open>strings.TrimSpace\<close>, \<open>ToLower\<close>, \<open>EqualFold\<close>, \<open>Split\<close>, \<open>Cut\<close>,
    \<open>strconv.ParseInt\<close> and \<open>%d\<close> are defined on bytes.
\<close>

named_theorems gomap_simps \<open>lookup laws of Go maps\<close>
named_theorems wf_intros \<open>well-formedness of Go maps is kept\<close>
named_theorems str_simps \<open>string library\<close>

section \<open>Errors\<close>

text \<open>The API errors that \<^verbatim>\<open>k8s.io/apimachinery/pkg/api/errors\<close> tells apart.\<close>

datatype kube_reason =
    NotFound | AlreadyExists | Conflict | TimeoutReason | ServerTimeout
  | TooManyRequests | ServiceUnavailable | OtherReason

datatype goerr =
    ErrMsg string
  | KubeErr kube_reason string
  | Wrap string goerr
  | Joined "goerr list"

type_synonym 'a result = "goerr + 'a"

text \<open>
  \<open>errors.As\<close> looks through wrapping and joining, depth first, so the reason of a wrapped error is
  the inner one.
\<close>

fun reason_of :: "goerr \<Rightarrow> kube_reason option" where
  "reason_of (ErrMsg s) = None"
| "reason_of (KubeErr r s) = Some r"
| "reason_of (Wrap s e) = reason_of e"
| "reason_of (Joined es) =
     foldr (\<lambda>r acc. case r of None \<Rightarrow> acc | Some x \<Rightarrow> Some x) (map reason_of es) None"

definition IsNotFound :: "goerr \<Rightarrow> bool" where
  "IsNotFound e \<longleftrightarrow> reason_of e = Some NotFound"

definition IsConflict :: "goerr \<Rightarrow> bool" where
  "IsConflict e \<longleftrightarrow> reason_of e = Some Conflict"

text \<open>\<open>x, err := f(); if err != nil { return err }\<close>.\<close>

definition bindE :: "'a result \<Rightarrow> ('a \<Rightarrow> 'b result) \<Rightarrow> 'b result" where
  "bindE m f = (case m of Inl e \<Rightarrow> Inl e | Inr x \<Rightarrow> f x)"

lemma bindE_simps [simp]: "bindE (Inl e) f = Inl e" "bindE (Inr x) f = f x"
  by (simp_all add: bindE_def)

lemma bindE_Inr_conv: "bindE m f = Inr y \<longleftrightarrow> (\<exists>x. m = Inr x \<and> f x = Inr y)"
  by (cases m) auto

lemma bindE_Inl_conv: "bindE m f = Inl e \<longleftrightarrow> m = Inl e \<or> (\<exists>x. m = Inr x \<and> f x = Inl e)"
  by (cases m) auto

text \<open>\<open>fmt.Errorf("...: %w", err)\<close> on the error path.\<close>

definition wrapE :: "string \<Rightarrow> 'a result \<Rightarrow> 'a result" where
  "wrapE ctx m = (case m of Inl e \<Rightarrow> Inl (Wrap ctx e) | Inr x \<Rightarrow> Inr x)"

lemma wrapE_simps [simp]:
  "wrapE c (Inl e) = Inl (Wrap c e)" "wrapE c (Inr x) = Inr x" "wrapE c m = Inr y \<longleftrightarrow> m = Inr y"
  by (cases m; simp add: wrapE_def)+

section \<open>Go maps\<close>

type_synonym 'v gomap = "(string \<times> 'v) list"

definition wf_map :: "'v gomap \<Rightarrow> bool" where
  "wf_map m \<longleftrightarrow> distinct (map fst m)"

definition go_get :: "'v gomap \<Rightarrow> string \<Rightarrow> 'v option" where
  "go_get m k = map_of m k"

definition go_put :: "'v gomap \<Rightarrow> string \<Rightarrow> 'v \<Rightarrow> 'v gomap" where
  "go_put m k v = AList.update k v m"

definition go_del :: "'v gomap \<Rightarrow> string \<Rightarrow> 'v gomap" where
  "go_del m k = AList.delete k m"

definition go_keys :: "'v gomap \<Rightarrow> string list" where
  "go_keys m = map fst m"

text \<open>\<open>m[k]\<close> for a \<open>map[string]string\<close>: the zero value when the key is missing.\<close>

definition get_str :: "string gomap \<Rightarrow> string \<Rightarrow> string" where
  "get_str m k = (case go_get m k of None \<Rightarrow> [] | Some v \<Rightarrow> v)"

text \<open>
  The interface every component relies on: what a lookup returns after an assignment or a
  \<open>delete\<close>, and that both keep the keys distinct. The lemmas about maps filled by a loop are
  proved once from it.
\<close>

locale go_map_spec =
  fixes get :: "'m \<Rightarrow> string \<Rightarrow> 'v option"
    and put :: "'m \<Rightarrow> string \<Rightarrow> 'v \<Rightarrow> 'm"
    and del :: "'m \<Rightarrow> string \<Rightarrow> 'm"
    and keys :: "'m \<Rightarrow> string list"
    and empty :: "'m"
    and invar :: "'m \<Rightarrow> bool"
  assumes get_empty: "get empty k = None"
    and get_put: "get (put m k v) k' = (if k' = k then Some v else get m k')"
    and get_del: "get (del m k) k' = (if k' = k then None else get m k')"
    and set_keys: "set (keys m) = {k. get m k \<noteq> None}"
    and invar_empty: "invar empty"
    and invar_put: "invar m \<Longrightarrow> invar (put m k v)"
    and invar_del: "invar m \<Longrightarrow> invar (del m k)"
begin

text \<open>A loop \<open>for x in xs: m[key x] = val x\<close>: the last assignment to a key wins.\<close>

lemma get_fold_put:
  "get (fold (\<lambda>x m. put m (key x) (val x)) xs m) k =
     (case find (\<lambda>x. key x = k) (rev xs) of None \<Rightarrow> get m k | Some x \<Rightarrow> Some (val x))"
proof (induction xs arbitrary: m)
  case Nil
  then show ?case by simp
next
  case (Cons x xs)
  have "find P (ys @ [x]) = (case find P ys of None \<Rightarrow> if P x then Some x else None | Some y \<Rightarrow> Some y)"
    for P ys by (induction ys) auto
  with Cons show ?case by (simp add: get_put split: option.split)
qed

lemma keys_fold_put:
  "set (keys (fold (\<lambda>x m. put m (key x) (val x)) xs m)) = set (keys m) \<union> key ` set xs"
  by (induction xs arbitrary: m) (auto simp: set_keys get_put split: if_splits)

lemma invar_fold_put:
  "invar m \<Longrightarrow> invar (fold (\<lambda>x m. put m (key x) (val x)) xs m)"
  by (induction xs arbitrary: m) (auto intro: invar_put)

lemma get_fold_del:
  "get (fold (\<lambda>x m. del m x) xs m) k = (if k \<in> set xs then None else get m k)"
  by (induction xs arbitrary: m) (auto simp: get_del)

end

lemma go_get_Nil [simp]: "go_get [] k = None"
  by (simp add: go_get_def)

lemma go_get_Cons [gomap_simps]: "go_get ((a, v) # m) k = (if k = a then Some v else go_get m k)"
  by (simp add: go_get_def)

lemma go_get_put [simp]: "go_get (go_put m k v) k' = (if k' = k then Some v else go_get m k')"
  by (simp add: go_get_def go_put_def AList.update_conv')

lemma go_get_del [simp]: "go_get (go_del m k) k' = (if k' = k then None else go_get m k')"
  by (simp add: go_get_def go_del_def AList.delete_conv')

lemma set_go_keys: "set (go_keys m) = {k. go_get m k \<noteq> None}"
  by (auto simp: go_keys_def go_get_def map_of_eq_None_iff)

lemma wf_map_Nil [simp]: "wf_map []"
  by (simp add: wf_map_def)

lemma wf_map_put [wf_intros]: "wf_map m \<Longrightarrow> wf_map (go_put m k v)"
  by (simp add: wf_map_def go_put_def AList.distinct_update)

lemma wf_map_del [wf_intros]: "wf_map m \<Longrightarrow> wf_map (go_del m k)"
  by (simp add: wf_map_def go_del_def AList.distinct_delete)

interpretation gomap: go_map_spec go_get go_put go_del go_keys "[]" wf_map
  by unfold_locales (auto simp: set_go_keys intro: wf_intros)

lemma go_get_in_set: "go_get m k = Some v \<Longrightarrow> (k, v) \<in> set m"
  by (simp add: go_get_def map_of_SomeD)

lemma go_get_wf_iff: "wf_map m \<Longrightarrow> go_get m k = Some v \<longleftrightarrow> (k, v) \<in> set m"
  by (simp add: go_get_def wf_map_def)

lemma go_put_same: "go_get m k = Some v \<Longrightarrow> go_put m k v = m"
  by (simp add: go_get_def go_put_def AList.update_triv)

lemma go_put_neq_Nil [simp]: "go_put m k v \<noteq> []"
  by (simp add: go_put_def)

lemma go_keys_put:
  "go_keys (go_put m k v) = (if k \<in> set (go_keys m) then go_keys m else go_keys m @ [k])"
  by (simp add: go_keys_def go_put_def AList.update_keys)

lemma set_go_put_subset: "set (go_put m k v) \<subseteq> insert (k, v) (set m)"
  unfolding go_put_def by (induction m) auto

lemma set_go_keys_put: "set (go_keys (go_put m k v)) = insert k (set (go_keys m))"
  by (auto simp: go_keys_put)

text \<open>A \<open>range\<close> loop that stores one entry per key it visits.\<close>

lemma go_get_map_values: "go_get (map (\<lambda>(k, v). (k, f k v)) m) k = map_option (f k) (go_get m k)"
  by (induction m) (auto simp: gomap_simps)

text \<open>Two lists of one map are permutations of each other; lookups agree.\<close>

lemma go_get_perm: "wf_map m \<Longrightarrow> set m = set m' \<Longrightarrow> wf_map m' \<Longrightarrow> go_get m = go_get m'"
  by (simp add: wf_map_def fun_eq_iff go_get_def flip: map_of_inject_set)

text \<open>
  \<open>sort.Strings\<close> over the keys of a map (\<open>sortKeys\<close>, \<open>sortedKeys\<close>): byte-wise lexicographic.
\<close>

definition sorted_keys :: "'v gomap \<Rightarrow> string list" where
  "sorted_keys m = sort (go_keys m)"

lemma set_sorted_keys [simp]: "set (sorted_keys m) = {k. go_get m k \<noteq> None}"
  by (simp add: sorted_keys_def set_go_keys)

lemma sorted_keys_sorted: "sorted (sorted_keys m)"
  by (simp add: sorted_keys_def)

lemma sorted_keys_distinct: "wf_map m \<Longrightarrow> distinct (sorted_keys m)"
  by (simp add: sorted_keys_def wf_map_def go_keys_def)

lemma sorted_keys_perm:
  assumes "wf_map m" and "wf_map m'" and "set m = set m'"
  shows "sorted_keys m = sorted_keys m'"
  by (rule sorted_distinct_set_unique)
    (use assms in \<open>auto simp: sorted_keys_sorted sorted_keys_distinct go_get_perm [OF assms(1,3,2)]\<close>)

text \<open>The last match in a sorted list is the greatest one.\<close>

lemma find_rev_sorted:
  fixes xs :: "'a::linorder list"
  assumes "sorted xs"
  shows "find P (rev xs) = (if \<exists>x \<in> set xs. P x then Some (Max {x \<in> set xs. P x}) else None)"
  using assms
proof (induction xs rule: rev_induct)
  case (snoc x xs)
  show ?case
  proof (cases "P x")
    case True
    have "Max {y \<in> set (xs @ [x]). P y} = x"
      using snoc.prems True by (intro Max_eqI) (auto simp: sorted_append)
    with True show ?thesis by auto
  next
    case False
    then have "{y \<in> set (xs @ [x]). P y} = {y \<in> set xs. P y}" by auto
    with False snoc show ?thesis by (simp add: sorted_append)
  qed
qed simp

section \<open>Loops with early return\<close>

text \<open>
  \<open>for _, x := range xs { if err := step(x); err != nil { return err } }\<close> over a local state.
\<close>

fun foldE :: "('a \<Rightarrow> 's \<Rightarrow> 's result) \<Rightarrow> 'a list \<Rightarrow> 's \<Rightarrow> 's result" where
  "foldE f [] s = Inr s"
| "foldE f (x # xs) s = (case f x s of Inl e \<Rightarrow> Inl e | Inr s' \<Rightarrow> foldE f xs s')"

lemma foldE_append: "foldE f (xs @ ys) s = (case foldE f xs s of Inl e \<Rightarrow> Inl e | Inr s' \<Rightarrow> foldE f ys s')"
  by (induction xs arbitrary: s) (auto split: sum.split)

lemma foldE_fold: "(\<And>x s. x \<in> set xs \<Longrightarrow> f x s = Inr (g x s)) \<Longrightarrow> foldE f xs s = Inr (fold g xs s)"
  by (induction xs arbitrary: s) auto

text \<open>A loop whose failures depend on the element only: it fails, or it is a plain fold.\<close>

lemma foldE_guard:
  assumes f: "\<And>x s. f x s = (case chk x of Inl e \<Rightarrow> Inl e | Inr v \<Rightarrow> Inr (g x v s))"
    and r: "foldE f xs s = Inr t"
  shows "(\<forall>x \<in> set xs. \<not> isl (chk x)) \<and> t = fold (\<lambda>x. g x (projr (chk x))) xs s"
  using r
proof (induction xs arbitrary: s)
  case Nil
  then show ?case by simp
next
  case (Cons x xs)
  then show ?case by (cases "chk x") (auto simp: f)
qed

lemma foldE_invariant:
  assumes "\<And>x s s'. x \<in> set xs \<Longrightarrow> P s \<Longrightarrow> f x s = Inr s' \<Longrightarrow> P s'"
    and "P s" and "foldE f xs s = Inr s'"
  shows "P s'"
  using assms
proof (induction xs arbitrary: s)
  case Nil
  then show ?case by simp
next
  case (Cons x xs)
  from Cons.prems(3) obtain t where t: "f x s = Inr t" "foldE f xs t = Inr s'"
    by (auto split: sum.splits)
  with Cons.prems(1) [of x s t] Cons.prems(2) have "P t" by simp
  with Cons.IH [of t] Cons.prems(1) t(2) show ?case by (metis list.set_intros(2))
qed

text \<open>A loop that appends one result per element.\<close>

lemma foldE_collect:
  "foldE (\<lambda>(k, x) out. bindE (f k x) (\<lambda>u. Inr (out @ [u]))) xs acc = Inr us \<Longrightarrow>
     \<exists>vs. us = acc @ vs \<and> list_all2 (\<lambda>(k, x) u. f k x = Inr u) xs vs"
proof (induction xs arbitrary: acc)
  case (Cons p xs)
  obtain k x where p: "p = (k, x)" by fastforce
  with Cons.prems obtain u where u: "f k x = Inr u" by (cases "f k x") auto
  with Cons.prems p Cons.IH [of "acc @ [u]"] show ?case by (fastforce simp: list_all2_Cons1)
qed simp

lemma foldE_collect_in:
  assumes "foldE (\<lambda>(k, x) out. bindE (f k x) (\<lambda>u. Inr (out @ [u]))) xs [] = Inr us" and "u \<in> set us"
  shows "\<exists>k x. (k, x) \<in> set xs \<and> f k x = Inr u"
proof -
  have l: "list_all2 (\<lambda>(k, x) u. f k x = Inr u) xs us" using foldE_collect [OF assms(1)] by simp
  from assms(2) obtain i where i: "i < length us" "us ! i = u" by (auto simp: in_set_conv_nth)
  obtain k x where kx: "xs ! i = (k, x)" by fastforce
  with list_all2_nthD2 [OF l i(1)] i(2) have "f k x = Inr u" by simp
  moreover have "(k, x) \<in> set xs" using i(1) kx list_all2_lengthD [OF l] by (metis nth_mem)
  ultimately show ?thesis by blast
qed

section \<open>Strings\<close>

subsection \<open>Cutting and joining\<close>

definition HasPrefix :: "string \<Rightarrow> string \<Rightarrow> bool" where
  "HasPrefix s p \<longleftrightarrow> prefix p s"

definition HasSuffix :: "string \<Rightarrow> string \<Rightarrow> bool" where
  "HasSuffix s p \<longleftrightarrow> suffix p s"

definition Contains :: "string \<Rightarrow> string \<Rightarrow> bool" where
  "Contains s p \<longleftrightarrow> sublist p s"

text \<open>\<open>strings.Split\<close> at a one-byte separator; the result is never empty.\<close>

fun Split :: "string \<Rightarrow> char \<Rightarrow> string list" where
  "Split [] c = [[]]"
| "Split (x # xs) c =
     (if x = c then [] # Split xs c
      else case Split xs c of [] \<Rightarrow> [[x]] | w # ws \<Rightarrow> (x # w) # ws)"

text \<open>\<open>strings.Cut\<close> and \<open>strings.SplitN(_, _, 2)\<close> at a one-byte separator.\<close>

definition Cut :: "string \<Rightarrow> char \<Rightarrow> string \<times> string \<times> bool" where
  "Cut s c =
     (case dropWhile (\<lambda>x. x \<noteq> c) s of
        [] \<Rightarrow> (s, [], False)
      | _ # r \<Rightarrow> (takeWhile (\<lambda>x. x \<noteq> c) s, r, True))"

text \<open>\<open>strings.Join\<close>.\<close>

fun Join :: "string list \<Rightarrow> string \<Rightarrow> string" where
  "Join [] sep = []"
| "Join [x] sep = x"
| "Join (x # y # ys) sep = x @ sep @ Join (y # ys) sep"

text \<open>\<open>strings.LastIndex\<close> of a one-byte pattern: the text before and after the last match.\<close>

definition CutLast :: "string \<Rightarrow> char \<Rightarrow> (string \<times> string) option" where
  "CutLast s c =
     (if c \<in> set s
      then Some (rev (tl (dropWhile (\<lambda>x. x \<noteq> c) (rev s))), rev (takeWhile (\<lambda>x. x \<noteq> c) (rev s)))
      else None)"

lemma Split_not_Nil [simp]: "Split s c \<noteq> []"
  by (induction s) (auto split: list.split)

lemma Join_Split [str_simps]: "Join (Split s c) [c] = s"
proof (induction s)
  case Nil
  then show ?case by simp
next
  case (Cons x s)
  obtain w ws where ws: "Split s c = w # ws" by (cases "Split s c") auto
  with Cons show ?case by (cases ws) auto
qed

lemma Split_no_sep: "c \<notin> set s \<Longrightarrow> Split s c = [s]"
  by (induction s) auto

lemma Split_append_sep: "c \<notin> set s \<Longrightarrow> Split (s @ c # r) c = s # Split r c"
  by (induction s) auto

lemma Split_parts_no_sep: "w \<in> set (Split s c) \<Longrightarrow> c \<notin> set w"
  by (induction s arbitrary: w) (auto split: if_splits list.splits)

lemma Split_Join:
  "xs \<noteq> [] \<Longrightarrow> \<forall>x \<in> set xs. c \<notin> set x \<Longrightarrow> Split (Join xs [c]) c = xs"
proof (induction xs "[c]" rule: Join.induct)
  case (3 x y ys)
  then show ?case by (simp add: Split_append_sep)
qed (auto simp: Split_no_sep)

lemma while_sep:
  assumes "c \<notin> set l"
  shows "dropWhile (\<lambda>x. x \<noteq> c) (l @ c # r) = c # r" and "takeWhile (\<lambda>x. x \<noteq> c) (l @ c # r) = l"
  using assms by (induction l) auto

lemma while_no_sep: "c \<notin> set s \<Longrightarrow> dropWhile (\<lambda>x. x \<noteq> c) s = []"
  by (induction s) auto

lemma CutLast_append: "c \<notin> set r \<Longrightarrow> CutLast (l @ c # r) c = Some (l, r)"
  using while_sep [of c "rev r" "rev l"] by (simp add: CutLast_def)

lemma CutLast_Some: "CutLast s c = Some (l, r) \<Longrightarrow> s = l @ c # r \<and> c \<notin> set r"
proof -
  assume eq: "CutLast s c = Some (l, r)"
  then have "c \<in> set (rev s)" by (auto simp: CutLast_def split: if_splits)
  then obtain ys zs where r: "rev s = ys @ c # zs" "c \<notin> set ys"
    by (meson split_list_first)
  then have s: "s = rev zs @ c # rev ys" by (simp add: rev_swap)
  with r eq show ?thesis using CutLast_append [of c "rev ys" "rev zs"] by auto
qed

lemma Cut_no_sep: "c \<notin> set s \<Longrightarrow> Cut s c = (s, [], False)"
  by (simp add: Cut_def while_no_sep)

lemma Cut_append: "c \<notin> set l \<Longrightarrow> Cut (l @ c # r) c = (l, r, True)"
  by (simp add: Cut_def while_sep)

subsection \<open>White space\<close>

text \<open>
  The UTF-8 encodings of the runes for which \<open>unicode.IsSpace\<close> holds. \<open>strings.TrimSpace\<close>
  removes them one at a time from both ends.
\<close>

definition white_space :: "string list" where
  "white_space =
     [[CHR 0x09], [CHR 0x0A], [CHR 0x0B], [CHR 0x0C], [CHR 0x0D], [CHR 0x20],
      [CHR 0xC2, CHR 0x85], [CHR 0xC2, CHR 0xA0], [CHR 0xE1, CHR 0x9A, CHR 0x80],
      [CHR 0xE2, CHR 0x80, CHR 0x80], [CHR 0xE2, CHR 0x80, CHR 0x81],
      [CHR 0xE2, CHR 0x80, CHR 0x82], [CHR 0xE2, CHR 0x80, CHR 0x83],
      [CHR 0xE2, CHR 0x80, CHR 0x84], [CHR 0xE2, CHR 0x80, CHR 0x85],
      [CHR 0xE2, CHR 0x80, CHR 0x86], [CHR 0xE2, CHR 0x80, CHR 0x87],
      [CHR 0xE2, CHR 0x80, CHR 0x88], [CHR 0xE2, CHR 0x80, CHR 0x89],
      [CHR 0xE2, CHR 0x80, CHR 0x8A], [CHR 0xE2, CHR 0x80, CHR 0xA8],
      [CHR 0xE2, CHR 0x80, CHR 0xA9], [CHR 0xE2, CHR 0x80, CHR 0xAF],
      [CHR 0xE2, CHR 0x81, CHR 0x9F], [CHR 0xE3, CHR 0x80, CHR 0x80]]"

text \<open>\<open>strip ws s\<close> drops leading members of \<open>ws\<close> until none is left.\<close>

function strip :: "string list \<Rightarrow> string \<Rightarrow> string" where
  "strip ws s =
     (case find (\<lambda>w. w \<noteq> [] \<and> prefix w s) ws of
        None \<Rightarrow> s
      | Some w \<Rightarrow> strip ws (drop (length w) s))"
  by pat_completeness auto
termination
  by (relation "measure (\<lambda>(ws, s). length s)") (auto simp: find_Some_iff prefix_def)

declare strip.simps [simp del]

definition TrimSpace :: "string \<Rightarrow> string" where
  "TrimSpace s = rev (strip (map rev white_space) (rev (strip white_space s)))"

lemma strip_id: "(\<forall>w \<in> set ws. w \<noteq> [] \<longrightarrow> \<not> prefix w s) \<Longrightarrow> strip ws s = s"
proof -
  assume "\<forall>w \<in> set ws. w \<noteq> [] \<longrightarrow> \<not> prefix w s"
  then have "find (\<lambda>w. w \<noteq> [] \<and> prefix w s) ws = None" by (auto simp: find_None_iff)
  then show ?thesis by (simp add: strip.simps [of ws s])
qed

lemma strip_none: "w \<in> set ws \<Longrightarrow> w \<noteq> [] \<Longrightarrow> \<not> prefix w (strip ws s)"
proof (induction ws s rule: strip.induct)
  case (1 ws s)
  show ?case
  proof (cases "find (\<lambda>w. w \<noteq> [] \<and> prefix w s) ws")
    case None
    with "1.prems" have "\<not> prefix w s" by (auto simp: find_None_iff)
    with None show ?thesis by (simp add: strip.simps [of ws s])
  next
    case (Some w')
    with "1.IH" [OF Some] "1.prems" show ?thesis by (simp add: strip.simps [of ws s])
  qed
qed

lemma suffix_strip: "suffix (strip ws s) s"
proof (induction ws s rule: strip.induct)
  case (1 ws s)
  show ?case
  proof (cases "find (\<lambda>w. w \<noteq> [] \<and> prefix w s) ws")
    case None
    then show ?thesis by (simp add: strip.simps [of ws s])
  next
    case (Some w')
    from "1.IH" [OF Some] have "suffix (strip ws (drop (length w') s)) s"
      by (meson suffix_drop suffix_order.trans)
    with Some show ?thesis by (simp add: strip.simps [of ws s])
  qed
qed

lemma white_space_nonempty [simp]: "[] \<notin> set white_space"
  by (simp add: white_space_def)

lemma TrimSpace_prefix: "prefix (TrimSpace s) (strip white_space s)"
  using suffix_strip [of "map rev white_space" "rev (strip white_space s)"]
  by (simp add: TrimSpace_def suffix_to_prefix)

text \<open>Trimming twice is trimming once; a string with no white space at its ends is unchanged.\<close>

lemma TrimSpace_id:
  assumes "\<forall>w \<in> set white_space. \<not> prefix w s \<and> \<not> suffix w s"
  shows "TrimSpace s = s"
proof -
  have "strip white_space s = s" by (rule strip_id) (use assms in auto)
  moreover have "strip (map rev white_space) (rev s) = rev s"
    by (rule strip_id) (use assms in \<open>auto simp: suffix_to_prefix\<close>)
  ultimately show ?thesis by (simp add: TrimSpace_def)
qed

lemma TrimSpace_no_space:
  assumes "w \<in> set white_space"
  shows "\<not> prefix w (TrimSpace s)" and "\<not> suffix w (TrimSpace s)"
proof -
  from assms have ne: "w \<noteq> []" using white_space_nonempty by metis
  with assms have "\<not> prefix w (strip white_space s)" by (simp add: strip_none)
  with TrimSpace_prefix [of s] show "\<not> prefix w (TrimSpace s)"
    by (meson prefix_order.trans)
  have "\<not> prefix (rev w) (strip (map rev white_space) (rev (strip white_space s)))"
    by (rule strip_none) (use assms ne in auto)
  then show "\<not> suffix w (TrimSpace s)" by (simp add: TrimSpace_def suffix_to_prefix)
qed

lemma TrimSpace_idem [simp]: "TrimSpace (TrimSpace s) = TrimSpace s"
  by (rule TrimSpace_id) (auto simp: TrimSpace_no_space)

lemma TrimSpace_Nil [simp]: "TrimSpace [] = []"
  by (rule TrimSpace_id) (auto simp: white_space_def)

subsection \<open>Letter case\<close>

definition byte_of :: "char \<Rightarrow> nat" where
  "byte_of c = of_char c"

definition ascii_lower :: "char \<Rightarrow> char" where
  "ascii_lower c = (if 65 \<le> byte_of c \<and> byte_of c \<le> 90 then char_of (byte_of c + 32) else c)"

text \<open>
  \<open>strings.ToLower\<close>. Two runes outside ASCII have an ASCII lower case: the Kelvin sign U+212A
  (\<open>k\<close>) and the dotted capital I U+0130 (\<open>i\<close>). Every other rune outside ASCII maps to a rune
  outside ASCII; which one is immaterial to the code, which only looks for ASCII bytes in the
  result, so those bytes are kept as they are.
\<close>

fun ToLower :: "string \<Rightarrow> string" where
  "ToLower [] = []"
| "ToLower (c # s) =
     (if take 3 (c # s) = [CHR 0xE2, CHR 0x84, CHR 0xAA] then CHR ''k'' # ToLower (drop 2 s)
      else if take 2 (c # s) = [CHR 0xC4, CHR 0xB0] then CHR ''i'' # ToLower (drop 1 s)
      else ascii_lower c # ToLower s)"

text \<open>
  \<open>strings.EqualFold\<close>: simple case folding identifies the Kelvin sign with \<open>k\<close> and the long s
  U+017F with \<open>s\<close>; other runes outside ASCII are compared as they are.
\<close>

fun fold_case :: "string \<Rightarrow> string" where
  "fold_case [] = []"
| "fold_case (c # s) =
     (if take 3 (c # s) = [CHR 0xE2, CHR 0x84, CHR 0xAA] then CHR ''k'' # fold_case (drop 2 s)
      else if take 2 (c # s) = [CHR 0xC5, CHR 0xBF] then CHR ''s'' # fold_case (drop 1 s)
      else ascii_lower c # fold_case s)"

definition EqualFold :: "string \<Rightarrow> string \<Rightarrow> bool" where
  "EqualFold s t \<longleftrightarrow> fold_case s = fold_case t"

lemma byte_of_lt [simp]: "byte_of c < 256"
  by (simp add: byte_of_def)

lemma byte_of_inject [simp]: "byte_of c = byte_of d \<longleftrightarrow> c = d"
  by (simp add: byte_of_def)

lemma byte_of_char_of [simp]: "n < 256 \<Longrightarrow> byte_of (char_of n) = n"
  by (simp add: byte_of_def)

section \<open>Decimal integers\<close>

definition is_digit :: "char \<Rightarrow> bool" where
  "is_digit c \<longleftrightarrow> 48 \<le> byte_of c \<and> byte_of c \<le> 57"

definition digit_char :: "nat \<Rightarrow> char" where
  "digit_char d = char_of (48 + d)"

fun dec_digits :: "nat \<Rightarrow> string" where
  "dec_digits n =
     (if n < 10 then [digit_char n] else dec_digits (n div 10) @ [digit_char (n mod 10)])"

declare dec_digits.simps [simp del]

text \<open>The verb \<open>%d\<close> of \<open>fmt\<close>, and \<open>strconv.Itoa\<close>.\<close>

definition itoa :: "int \<Rightarrow> string" where
  "itoa n = (if n < 0 then CHR ''-'' # dec_digits (nat (- n)) else dec_digits (nat n))"

definition dec_value :: "string \<Rightarrow> nat" where
  "dec_value s = foldl (\<lambda>a c. 10 * a + (byte_of c - 48)) 0 s"

definition parse_dec :: "string \<Rightarrow> nat option" where
  "parse_dec s = (if s \<noteq> [] \<and> list_all is_digit s then Some (dec_value s) else None)"

text \<open>
  \<open>strconv.ParseInt(s, 10, bits)\<close>: an optional sign, at least one digit, and a value that fits;
  \<open>None\<close> is the syntax or range error. \<open>strconv.Atoi\<close> is the case of 64 bits.
\<close>

definition ParseInt :: "nat \<Rightarrow> string \<Rightarrow> int option" where
  "ParseInt bits s =
     (let fit = (\<lambda>v. if - (2 ^ (bits - 1)) \<le> v \<and> v < 2 ^ (bits - 1) then Some v else None) in
      case s of
        [] \<Rightarrow> None
      | c # r \<Rightarrow>
          if c = CHR ''-'' then Option.bind (parse_dec r) (\<lambda>n. fit (- int n))
          else if c = CHR ''+'' then Option.bind (parse_dec r) (\<lambda>n. fit (int n))
          else Option.bind (parse_dec (c # r)) (\<lambda>n. fit (int n)))"

definition Atoi :: "string \<Rightarrow> int option" where
  "Atoi s = ParseInt 64 s"

lemma is_digit_digit_char: "d < 10 \<Longrightarrow> is_digit (digit_char d)"
  by (simp add: is_digit_def digit_char_def)

lemma byte_of_digit_char: "d < 10 \<Longrightarrow> byte_of (digit_char d) = 48 + d"
  by (simp add: digit_char_def)

lemma dec_digits_all: "list_all is_digit (dec_digits n) \<and> dec_digits n \<noteq> []"
proof (induction n rule: dec_digits.induct)
  case (1 n)
  then show ?case by (cases "n < 10") (auto simp: dec_digits.simps [of n] is_digit_digit_char)
qed

lemma dec_value_digits [simp]: "dec_value (dec_digits n) = n"
proof (induction n rule: dec_digits.induct)
  case (1 n)
  then show ?case
    by (cases "n < 10") (auto simp: dec_digits.simps [of n] dec_value_def byte_of_digit_char)
qed

lemma parse_dec_digits [simp]: "parse_dec (dec_digits n) = Some n"
  using dec_digits_all [of n] by (simp add: parse_dec_def)

lemma digit_not_sign: "is_digit c \<Longrightarrow> c \<noteq> CHR ''-'' \<and> c \<noteq> CHR ''+''"
  by (auto simp: is_digit_def byte_of_def)

lemma dec_digits_no_dash: "CHR ''-'' \<notin> set (dec_digits n)"
  using dec_digits_all [of n] digit_not_sign by (auto simp: list_all_iff)

text \<open>Printing and parsing an integer that fits is the identity.\<close>

lemma ParseInt_itoa:
  assumes "- (2 ^ (bits - 1)) \<le> n" and "n < 2 ^ (bits - 1)"
  shows "ParseInt bits (itoa n) = Some n"
proof (cases "n < 0")
  case True
  with assms show ?thesis by (simp add: itoa_def ParseInt_def Let_def)
next
  case False
  obtain c r where cr: "dec_digits (nat n) = c # r"
    using dec_digits_all [of "nat n"] by (cases "dec_digits (nat n)") auto
  have "is_digit c" using dec_digits_all [of "nat n"] cr by simp
  moreover have "parse_dec (c # r) = Some (nat n)" using parse_dec_digits [of "nat n"] cr by simp
  ultimately show ?thesis using False assms cr digit_not_sign [of c]
    by (simp add: itoa_def ParseInt_def Let_def)
qed

lemma ParseInt_range: "ParseInt bits s = Some v \<Longrightarrow> - (2 ^ (bits - 1)) \<le> v \<and> v < 2 ^ (bits - 1)"
  by (auto simp: ParseInt_def Let_def bind_eq_Some_conv split: list.splits if_splits)

end
