(* ===== verification/Sha256.thy ===== *)
theory Sha256
  imports Prelude
begin

text \<open>
  \<open>crypto/sha256\<close> and \<open>encoding/hex\<close>: the hash function of FIPS 180-4 on byte strings, written
  with 32-bit words. The controller uses it to detect a changed configuration
  (\<open>change_detection.go\<close>) and to make shortened resource names unique (\<open>sanitize.go\<close>).
  The lemmas fix what the code relies on: a digest has 32 bytes, its hexadecimal form 64
  characters, each a digit or a letter from a to f.
\<close>

unbundle bit_operations_syntax

text \<open>
  The constants of the hash are the leading 32 bits of the fractional parts of cube roots (the
  round constants) and square roots (the initial state) of the first primes; the standard gives
  them by this rule. \<open>root_search e n b 0\<close> is the integer \<open>e\<close>-th root of \<open>n\<close>, found bit by bit.
\<close>

fun root_search :: "nat \<Rightarrow> int \<Rightarrow> nat \<Rightarrow> int \<Rightarrow> int" where
  "root_search e n 0 r = r"
| "root_search e n (Suc b) r =
     root_search e n b (if (r + 2 ^ b) ^ e \<le> n then r + 2 ^ b else r)"

definition small_primes :: "int list" where
  "small_primes =
     [2, 3, 5, 7, 11, 13, 17, 19, 23, 29, 31, 37, 41, 43, 47, 53,
      59, 61, 67, 71, 73, 79, 83, 89, 97, 101, 103, 107, 109, 113, 127, 131,
      137, 139, 149, 151, 157, 163, 167, 173, 179, 181, 191, 193, 197, 199, 211, 223,
      227, 229, 233, 239, 241, 251, 257, 263, 269, 271, 277, 281, 283, 293, 307, 311]"

definition sha_k :: "32 word list" where
  "sha_k = map (\<lambda>p. of_int (root_search 3 (p * 2 ^ 96) 36 0)) small_primes"

definition sha_h0 :: "32 word list" where
  "sha_h0 = map (\<lambda>p. of_int (root_search 2 (p * 2 ^ 64) 36 0)) [2, 3, 5, 7, 11, 13, 17, 19]"

lemma root_search_correct:
  assumes "r ^ e \<le> n" and "n < (r + 2 ^ b) ^ e"
  shows "root_search e n b r ^ e \<le> n \<and> n < (root_search e n b r + 1) ^ e"
  using assms
proof (induction b arbitrary: r)
  case (Suc b)
  have "n < (r + 2 ^ b + 2 ^ b) ^ e" using Suc.prems(2) by (simp only: power_Suc mult_2 add.assoc)
  show ?case
  proof (cases "(r + 2 ^ b) ^ e \<le> n")
    case True
    with Suc.IH [OF True \<open>n < (r + 2 ^ b + 2 ^ b) ^ e\<close>] show ?thesis by simp
  next
    case False
    with Suc.IH [OF Suc.prems(1)] show ?thesis by simp
  qed
qed simp

definition sha_s0 :: "32 word \<Rightarrow> 32 word" where
  "sha_s0 x = word_rotr 7 x XOR word_rotr 18 x XOR drop_bit 3 x"

definition sha_s1 :: "32 word \<Rightarrow> 32 word" where
  "sha_s1 x = word_rotr 17 x XOR word_rotr 19 x XOR drop_bit 10 x"

definition sha_S0 :: "32 word \<Rightarrow> 32 word" where
  "sha_S0 x = word_rotr 2 x XOR word_rotr 13 x XOR word_rotr 22 x"

definition sha_S1 :: "32 word \<Rightarrow> 32 word" where
  "sha_S1 x = word_rotr 6 x XOR word_rotr 11 x XOR word_rotr 25 x"

definition sha_ch :: "32 word \<Rightarrow> 32 word \<Rightarrow> 32 word \<Rightarrow> 32 word" where
  "sha_ch x y z = (x AND y) XOR (NOT x AND z)"

definition sha_maj :: "32 word \<Rightarrow> 32 word \<Rightarrow> 32 word \<Rightarrow> 32 word" where
  "sha_maj x y z = (x AND y) XOR (x AND z) XOR (y AND z)"

text \<open>The message schedule, newest word first; 48 words are added to the 16 of a block.\<close>

fun sha_schedule :: "nat \<Rightarrow> 32 word list \<Rightarrow> 32 word list" where
  "sha_schedule 0 ws = rev ws"
| "sha_schedule (Suc n) ws =
     sha_schedule n ((sha_s1 (ws ! 1) + ws ! 6 + sha_s0 (ws ! 14) + ws ! 15) # ws)"

fun sha_round :: "32 word \<times> 32 word \<Rightarrow> 32 word list \<Rightarrow> 32 word list" where
  "sha_round (k, w) [a, b, c, d, e, f, g, h] =
     (let t1 = h + sha_S1 e + sha_ch e f g + k + w;
          t2 = sha_S0 a + sha_maj a b c
      in [t1 + t2, a, b, c, d + t1, e, f, g])"
| "sha_round kw st = st"

definition sha_block :: "32 word list \<Rightarrow> 32 word list \<Rightarrow> 32 word list" where
  "sha_block blk st =
     map2 (+) st (fold sha_round (zip sha_k (sha_schedule 48 (rev blk))) st)"

fun be_word :: "string \<Rightarrow> 32 word" where
  "be_word cs = foldl (\<lambda>a c. push_bit 8 a + of_nat (byte_of c)) 0 cs"

fun be_bytes :: "nat \<Rightarrow> nat \<Rightarrow> string" where
  "be_bytes 0 n = []"
| "be_bytes (Suc k) n = be_bytes k (n div 256) @ [char_of (n mod 256)]"

text \<open>\<open>chunks n xs\<close> cuts a list into pieces of \<open>n\<close> elements (\<open>n\<close> is 4 or 16 below).\<close>

function chunks :: "nat \<Rightarrow> 'a list \<Rightarrow> 'a list list" where
  "chunks n xs = (if xs = [] \<or> n = 0 then [] else take n xs # chunks n (drop n xs))"
  by pat_completeness auto
termination
  by (relation "measure (\<lambda>(n, xs). length xs)") auto

declare chunks.simps [simp del]

definition sha_pad :: "string \<Rightarrow> string" where
  "sha_pad m =
     m @ [CHR 0x80] @ replicate ((119 - length m mod 64) mod 64) (CHR 0x00)
       @ be_bytes 8 ((8 * length m) mod 2 ^ 64)"

definition Sum256 :: "string \<Rightarrow> string" where
  "Sum256 m =
     concat (map (\<lambda>w. be_bytes 4 (unat w))
       (fold sha_block (chunks 16 (map be_word (chunks 4 (sha_pad m)))) sha_h0))"

section \<open>Hexadecimal text\<close>

definition hex_char :: "nat \<Rightarrow> char" where
  "hex_char d = (if d < 10 then char_of (48 + d) else char_of (87 + d))"

definition EncodeToString :: "string \<Rightarrow> string" where
  "EncodeToString bs =
     concat (map (\<lambda>c. [hex_char (byte_of c div 16), hex_char (byte_of c mod 16)]) bs)"

section \<open>What the controller relies on\<close>

lemma length_be_bytes [simp]: "length (be_bytes k n) = k"
  by (induction k arbitrary: n) auto

lemma length_sha_round [simp]: "length (sha_round kw st) = length st"
  by (induction kw st rule: sha_round.induct) (auto simp: Let_def)

lemma length_fold_sha_round [simp]: "length (fold sha_round kws st) = length st"
  by (induction kws arbitrary: st) auto

lemma length_sha_block [simp]: "length (sha_block blk st) = length st"
  by (simp add: sha_block_def)

lemma length_fold_sha_block [simp]: "length (fold sha_block bs st) = length st"
  by (induction bs arbitrary: st) auto

lemma length_concat_const: "(\<And>x. length (f x) = k) \<Longrightarrow> length (concat (map f xs)) = k * length xs"
  by (induction xs) auto

lemma length_Sum256 [simp]: "length (Sum256 m) = 32"
  by (simp add: Sum256_def length_concat_const [where k = 4] sha_h0_def)

lemma length_EncodeToString [simp]: "length (EncodeToString bs) = 2 * length bs"
  unfolding EncodeToString_def by (rule length_concat_const) simp

definition is_hex :: "char \<Rightarrow> bool" where
  "is_hex c \<longleftrightarrow> is_digit c \<or> (97 \<le> byte_of c \<and> byte_of c \<le> 102)"

lemma is_hex_hex_char: "d < 16 \<Longrightarrow> is_hex (hex_char d)"
  by (auto simp: is_hex_def hex_char_def is_digit_def)

lemma EncodeToString_hex: "list_all is_hex (EncodeToString bs)"
  by (induction bs) (auto simp: EncodeToString_def is_hex_hex_char less_mult_imp_div_less)

end
