(* ===== verification/GoValue.thy ===== *)
theory GoValue
  imports Prelude
begin

text \<open>
  Go's dynamically typed values and \<open>encoding/json\<close>.

  \<^item> \<open>iface\<close> is a value of type \<open>interface{}\<close>: the constructor is the dynamic type, so a type
    assertion is a case distinction. \<open>[]interface{}\<close> and \<open>[]string\<close> are different types, and a
    nil slice or map differs from an empty one (it encodes to \<open>null\<close>).
  \<^item> \<open>raw_message\<close> is a \<open>json.RawMessage\<close>: bytes that are not JSON are kept as they are
    (\<open>RawText []\<close> is the empty message), bytes that are JSON are kept as the tree they denote.
    Two spellings of one document are therefore identified; numbers are the exact rationals of
    their literals.
  \<^item> Decoding to \<open>map[string]interface{}\<close> is \<open>unmarshal_map\<close>; \<open>null\<close> gives the nil map.
    Encoding is \<open>Marshal\<close>: keys are sorted, integers become numbers, nil becomes \<open>null\<close>, and
    a value with a float that is not finite is an error.
\<close>

datatype float64 = NaN | PosInf | NegInf | Fin rat

text \<open>The comparisons of the language: every one that involves \<open>NaN\<close> is false, so the order is not total.\<close>

instantiation float64 :: "{zero, ord}"
begin

definition zero_float64 :: float64 where
  "zero_float64 = Fin 0"

fun less_float64 :: "float64 \<Rightarrow> float64 \<Rightarrow> bool" where
  "less_float64 (Fin a) (Fin b) \<longleftrightarrow> a < b"
| "less_float64 (Fin a) PosInf \<longleftrightarrow> True"
| "less_float64 NegInf (Fin b) \<longleftrightarrow> True"
| "less_float64 NegInf PosInf \<longleftrightarrow> True"
| "less_float64 x y \<longleftrightarrow> False"

definition less_eq_float64 :: "float64 \<Rightarrow> float64 \<Rightarrow> bool" where
  "less_eq_float64 x y \<longleftrightarrow> x < y \<or> x = y \<and> x \<noteq> NaN"

instance ..

end

lemma float64_order:
  fixes x y z :: float64
  shows "\<not> x < x" "x < y \<Longrightarrow> y < z \<Longrightarrow> x < z" "\<not> NaN < x" "\<not> x < NaN" "\<not> NaN \<le> NaN"
    "x \<noteq> NaN \<Longrightarrow> y \<noteq> NaN \<Longrightarrow> x < y \<or> x = y \<or> y < x"
  by (cases x; cases y; cases z; auto simp: less_eq_float64_def)+

datatype iface =
    INil
  | IBool bool
  | IFloat64 float64
  | IFloat32 float64
  | IInt "64 word"
  | IInt8 "8 word"
  | IInt16 "16 word"
  | IInt32 "32 word"
  | IInt64 "64 word"
  | IUint "64 word"
  | IUint8 "8 word"
  | IUint16 "16 word"
  | IUint32 "32 word"
  | IUint64 "64 word"
  | IStr string
  | ISlice "iface list"
  | INilSlice
  | IStrSlice "string list"
  | INilStrSlice
  | IMap "(string \<times> iface) list"
  | INilMap

type_synonym obj = "iface gomap"

datatype raw_message = RawText string | RawJSON iface

section \<open>Reading values\<close>

text \<open>\<open>m[k]\<close> on a \<open>map[string]interface{}\<close>; a missing key gives the nil interface.\<close>

definition map_get :: "obj \<Rightarrow> string \<Rightarrow> iface" where
  "map_get m k = (case go_get m k of None \<Rightarrow> INil | Some v \<Rightarrow> v)"

text \<open>The type assertions \<open>v.(T)\<close>; \<open>None\<close> is the failed one.\<close>

fun as_map :: "iface \<Rightarrow> obj option" where
  "as_map (IMap m) = Some m"
| "as_map INilMap = Some []"
| "as_map v = None"

fun as_slice :: "iface \<Rightarrow> iface list option" where
  "as_slice (ISlice xs) = Some xs"
| "as_slice INilSlice = Some []"
| "as_slice v = None"

fun as_strs :: "iface \<Rightarrow> string list option" where
  "as_strs (IStrSlice xs) = Some xs"
| "as_strs INilStrSlice = Some []"
| "as_strs v = None"

fun as_str :: "iface \<Rightarrow> string option" where
  "as_str (IStr s) = Some s"
| "as_str v = None"

fun as_float :: "iface \<Rightarrow> float64 option" where
  "as_float (IFloat64 x) = Some x"
| "as_float v = None"

text \<open>\<open>s, _ := v.(string)\<close>: the zero value when the assertion fails.\<close>

definition str_or_empty :: "iface \<Rightarrow> string" where
  "str_or_empty v = (case as_str v of None \<Rightarrow> [] | Some s \<Rightarrow> s)"

section \<open>Decoding\<close>

definition unmarshal_map :: "raw_message \<Rightarrow> obj option result" where
  "unmarshal_map raw =
     (case raw of
        RawJSON (IMap m) \<Rightarrow> Inr (Some m)
      | RawJSON INil \<Rightarrow> Inr None
      | RawJSON _ \<Rightarrow> Inl (ErrMsg ''json: cannot unmarshal into Go value of type map'')
      | RawText _ \<Rightarrow> Inl (ErrMsg ''json: syntax error''))"

text \<open>A possibly nil map as an \<open>interface{}\<close>, and the entries a \<open>range\<close> over it sees.\<close>

definition obj_iface :: "obj option \<Rightarrow> iface" where
  "obj_iface o' = (case o' of None \<Rightarrow> INilMap | Some m \<Rightarrow> IMap m)"

definition of_nil :: "'a list option \<Rightarrow> 'a list" where
  "of_nil m = (case m of None \<Rightarrow> [] | Some x \<Rightarrow> x)"

section \<open>Encoding\<close>

fun finite_float :: "float64 \<Rightarrow> bool" where
  "finite_float (Fin r) = True"
| "finite_float x = False"

primrec marshalable :: "iface \<Rightarrow> bool" where
  "marshalable INil = True"
| "marshalable (IBool b) = True"
| "marshalable (IFloat64 x) = finite_float x"
| "marshalable (IFloat32 x) = finite_float x"
| "marshalable (IInt w) = True"
| "marshalable (IInt8 w) = True"
| "marshalable (IInt16 w) = True"
| "marshalable (IInt32 w) = True"
| "marshalable (IInt64 w) = True"
| "marshalable (IUint w) = True"
| "marshalable (IUint8 w) = True"
| "marshalable (IUint16 w) = True"
| "marshalable (IUint32 w) = True"
| "marshalable (IUint64 w) = True"
| "marshalable (IStr s) = True"
| "marshalable (ISlice xs) = list_all id (map marshalable xs)"
| "marshalable INilSlice = True"
| "marshalable (IStrSlice ss) = True"
| "marshalable INilStrSlice = True"
| "marshalable (IMap m) = list_all snd (map (map_prod id marshalable) m)"
| "marshalable INilMap = True"

text \<open>The JSON tree a value is written as; object keys are in sorted order.\<close>

primrec json_norm :: "iface \<Rightarrow> iface" where
  "json_norm INil = INil"
| "json_norm (IBool b) = IBool b"
| "json_norm (IFloat64 x) = IFloat64 x"
| "json_norm (IFloat32 x) = IFloat64 x"
| "json_norm (IInt w) = IFloat64 (Fin (of_int (sint w)))"
| "json_norm (IInt8 w) = IFloat64 (Fin (of_int (sint w)))"
| "json_norm (IInt16 w) = IFloat64 (Fin (of_int (sint w)))"
| "json_norm (IInt32 w) = IFloat64 (Fin (of_int (sint w)))"
| "json_norm (IInt64 w) = IFloat64 (Fin (of_int (sint w)))"
| "json_norm (IUint w) = IFloat64 (Fin (of_int (uint w)))"
| "json_norm (IUint8 w) = IFloat64 (Fin (of_int (uint w)))"
| "json_norm (IUint16 w) = IFloat64 (Fin (of_int (uint w)))"
| "json_norm (IUint32 w) = IFloat64 (Fin (of_int (uint w)))"
| "json_norm (IUint64 w) = IFloat64 (Fin (of_int (uint w)))"
| "json_norm (IStr s) = IStr s"
| "json_norm (ISlice xs) = ISlice (map json_norm xs)"
| "json_norm INilSlice = INil"
| "json_norm (IStrSlice ss) = ISlice (map IStr ss)"
| "json_norm INilStrSlice = INil"
| "json_norm (IMap m) = IMap (sort_key fst (map (map_prod id json_norm) m))"
| "json_norm INilMap = INil"

definition Marshal :: "iface \<Rightarrow> raw_message result" where
  "Marshal v =
     (if marshalable v then Inr (RawJSON (json_norm v))
      else Inl (ErrMsg ''json: unsupported value''))"

text \<open>The values decoding produces: JSON types only, finite numbers, distinct keys.\<close>

primrec json_wf :: "iface \<Rightarrow> bool" where
  "json_wf INil = True"
| "json_wf (IBool b) = True"
| "json_wf (IFloat64 x) = finite_float x"
| "json_wf (IFloat32 x) = False"
| "json_wf (IInt w) = False"
| "json_wf (IInt8 w) = False"
| "json_wf (IInt16 w) = False"
| "json_wf (IInt32 w) = False"
| "json_wf (IInt64 w) = False"
| "json_wf (IUint w) = False"
| "json_wf (IUint8 w) = False"
| "json_wf (IUint16 w) = False"
| "json_wf (IUint32 w) = False"
| "json_wf (IUint64 w) = False"
| "json_wf (IStr s) = True"
| "json_wf (ISlice xs) = list_all id (map json_wf xs)"
| "json_wf INilSlice = False"
| "json_wf (IStrSlice ss) = False"
| "json_wf INilStrSlice = False"
| "json_wf (IMap m) = (wf_map m \<and> list_all snd (map (map_prod id json_wf) m))"
| "json_wf INilMap = False"

fun raw_wf :: "raw_message \<Rightarrow> bool" where
  "raw_wf (RawText s) = True"
| "raw_wf (RawJSON v) = json_wf v"

section \<open>Lemmas\<close>

lemma map_get_Cons: "map_get ((a, v) # m) k = (if k = a then v else map_get m k)"
  by (simp add: map_get_def gomap_simps)

lemma map_get_put [simp]: "map_get (go_put m k v) k' = (if k' = k then v else map_get m k')"
  by (simp add: map_get_def)

lemma map_get_del [simp]: "map_get (go_del m k) k' = (if k' = k then INil else map_get m k')"
  by (simp add: map_get_def)

lemma marshalable_ISlice [simp]: "marshalable (ISlice xs) \<longleftrightarrow> (\<forall>x \<in> set xs. marshalable x)"
  by (auto simp: list_all_iff)

lemma marshalable_IMap [simp]: "marshalable (IMap m) \<longleftrightarrow> (\<forall>(k, v) \<in> set m. marshalable v)"
  by (auto simp: list_all_iff)

lemma json_wf_ISlice [simp]: "json_wf (ISlice xs) \<longleftrightarrow> (\<forall>x \<in> set xs. json_wf x)"
  by (auto simp: list_all_iff)

lemma json_wf_IMap [simp]: "json_wf (IMap m) \<longleftrightarrow> wf_map m \<and> (\<forall>(k, v) \<in> set m. json_wf v)"
  by (auto simp: list_all_iff)

declare marshalable.simps(16) [simp del] marshalable.simps(20) [simp del]
  json_wf.simps(16) [simp del] json_wf.simps(20) [simp del]

lemma json_wf_marshalable: "json_wf v \<Longrightarrow> marshalable v"
  by (induction v) (auto, (metis snd_eqD snds.intros)?)

lemma Marshal_wf: "json_wf v \<Longrightarrow> Marshal v = Inr (RawJSON (json_norm v))"
  by (simp add: Marshal_def json_wf_marshalable)

lemma wf_map_sort_key [simp]: "wf_map (sort_key fst m) = wf_map m"
  unfolding wf_map_def by (rule mset_eq_imp_distinct_iff) simp

lemma wf_map_map_prod [simp]: "wf_map (map (map_prod id f) m) = wf_map m"
  by (simp add: wf_map_def comp_def)

lemma go_get_map_prod: "go_get (map (map_prod id f) m) k = map_option f (go_get m k)"
  by (induction m) (auto simp: gomap_simps)

lemma go_get_filter: "go_get m k = (case filter (\<lambda>p. fst p = k) m of [] \<Rightarrow> None | p # _ \<Rightarrow> Some (snd p))"
  by (induction m) (auto simp: gomap_simps)

lemma go_get_sort_key [simp]: "go_get (sort_key fst m) k = go_get m k"
  by (simp add: go_get_filter sort_key_stable)

definition norm_map :: "obj \<Rightarrow> obj" where
  "norm_map m = sort_key fst (map (map_prod id json_norm) m)"

lemma json_norm_IMap [simp]: "json_norm (IMap m) = IMap (norm_map m)"
  by (simp add: norm_map_def)

declare json_norm.simps(20) [simp del]

lemma go_get_norm_map [simp]: "go_get (norm_map m) k = map_option json_norm (go_get m k)"
  by (simp add: norm_map_def go_get_map_prod)

lemma map_get_norm_map [simp]: "map_get (norm_map m) k = json_norm (map_get m k)"
  by (simp add: map_get_def split: option.split)

lemma wf_map_norm_map [simp]: "wf_map (norm_map m) = wf_map m"
  by (simp add: norm_map_def)

lemma set_norm_map: "set (norm_map m) = map_prod id json_norm ` set m"
  by (simp add: norm_map_def)

text \<open>Encoding a decoded value and decoding it again changes nothing but the order of keys.\<close>

lemma json_wf_norm: "json_wf v \<Longrightarrow> json_wf (json_norm v)"
proof (induction v)
  case (IMap m)
  then have "json_wf (json_norm w)" if "(k, w) \<in> set m" for k w
    using that by (fastforce intro: snds.intros)
  with IMap.prems show ?case by (auto simp: set_norm_map)
qed auto

lemma insort_key_map_prod:
  "map (map_prod id f) (insort_key fst x ys) = insort_key fst (map_prod id f x) (map (map_prod id f) ys)"
  by (induction ys) auto

lemma sort_key_map_prod: "map (map_prod id f) (sort_key fst m) = sort_key fst (map (map_prod id f) m)"
  by (induction m) (simp_all only: list.map sort_key_simps insort_key_map_prod)

lemma sort_key_idem [simp]: "sort_key fst (sort_key fst m) = sort_key fst (m :: 'a gomap)"
  by (simp add: sorted_sort_id sort_key_id_if_sorted)

lemma json_norm_idem [simp]: "json_norm (json_norm v) = json_norm v"
proof (induction v)
  case (IMap m)
  then have "map_prod id json_norm (map_prod id json_norm x) = map_prod id json_norm x"
    if "x \<in> set m" for x
    using that by (cases x) (auto intro: snds.intros)
  then have "map (map_prod id json_norm) (map (map_prod id json_norm) m) = map (map_prod id json_norm) m"
    by simp
  then show ?case by (simp only: json_norm_IMap norm_map_def sort_key_map_prod sort_key_idem)
qed auto

lemma json_norm_eq_iff [simp]:
  "json_wf v \<Longrightarrow> json_norm v = IStr s \<longleftrightarrow> v = IStr s"
  by (cases v) auto

lemma as_str_norm [simp]: "as_str (json_norm v) = as_str v"
  by (cases v) auto

lemma json_wf_map_get: "json_wf (IMap m) \<Longrightarrow> json_wf (map_get m k)"
  by (auto simp: map_get_def dest!: go_get_in_set split: option.split)

lemma json_wf_put: "json_wf (IMap m) \<Longrightarrow> json_wf v \<Longrightarrow> json_wf (IMap (go_put m k v))"
proof -
  assume m: "json_wf (IMap m)" and v: "json_wf v"
  have "set (go_put m k v) \<subseteq> insert (k, v) (set m)"
    by (induction m) (auto simp: go_put_def)
  with m v show ?thesis by (auto intro: wf_intros)
qed

lemma unmarshal_map_Inr:
  "unmarshal_map raw = Inr o' \<Longrightarrow> raw = RawJSON INil \<and> o' = None \<or> (\<exists>m. raw = RawJSON (IMap m) \<and> o' = Some m)"
  by (auto simp: unmarshal_map_def split: raw_message.splits iface.splits)

lemma unmarshal_map_simps [simp]:
  "unmarshal_map (RawJSON (IMap m)) = Inr (Some m)"
  "unmarshal_map (RawJSON INil) = Inr None"
  by (simp_all add: unmarshal_map_def)

end
