(* ===== verification/TraefikConfig.thy ===== *)
theory TraefikConfig
  imports GoValue
begin

text \<open>
  The dynamic configuration Pangolin serves (\<^verbatim>\<open>internal/transform/config/config.go\<close>) and how its
  JSON form is decoded (\<open>parseTraefikConfig\<close> of \<^verbatim>\<open>internal/controller/loop.go\<close>).
  A Go map field may be nil, which some handlers tell apart from an empty one: \<open>None\<close> is nil.
\<close>

definition Group :: string where
  "Group = ''traefik.io''"

definition Version :: string where
  "Version = ''v1alpha1''"

definition GroupVersion :: string where
  "GroupVersion = Group @ ''/'' @ Version"

record HTTPConfig =
  Middlewares :: "raw_message gomap option"
  Routers :: "raw_message gomap option"
  Services :: "raw_message gomap option"
  ServersTransports :: "raw_message gomap option"

record TCPUDPConfig =
  l4_Routers :: "raw_message gomap option"
  l4_Services :: "raw_message gomap option"
  l4_ServersTransports :: "raw_message gomap option"

record TraefikConfig =
  HTTP :: HTTPConfig
  TCP :: "TCPUDPConfig option"
  UDP :: "TCPUDPConfig option"

section \<open>Decoding\<close>

text \<open>
  \<open>json.Unmarshal\<close> into a struct goes through the members of the object in their order. A member whose key
  is the tag of a field, ignoring letter case, is decoded into that field as it is by then, so that
  members with the same tag merge: an object adds its entries to a map and its members to a struct.
  \<open>null\<close> makes a map or a pointer nil and leaves a struct as it is. A value of another type is an error.
\<close>

definition type_error :: goerr where
  "type_error = ErrMsg ''json: cannot unmarshal''"

text \<open>A field of type \<open>map[string]json.RawMessage\<close>.\<close>

definition decode_raw_map :: "raw_message gomap option \<Rightarrow> iface \<Rightarrow> raw_message gomap option result" where
  "decode_raw_map old v =
     (case v of
        INil \<Rightarrow> Inr None
      | IMap es \<Rightarrow> Inr (Some (fold (\<lambda>(k, x) m. go_put m k (RawJSON x)) es (of_nil old)))
      | _ \<Rightarrow> Inl type_error)"

definition http_member :: "string \<times> iface \<Rightarrow> HTTPConfig \<Rightarrow> HTTPConfig result" where
  "http_member kv h =
     (case kv of (k, v) \<Rightarrow>
        if EqualFold k ''middlewares''
        then bindE (decode_raw_map (Middlewares h) v) (\<lambda>m. Inr (h\<lparr>Middlewares := m\<rparr>))
        else if EqualFold k ''routers'' then bindE (decode_raw_map (Routers h) v) (\<lambda>m. Inr (h\<lparr>Routers := m\<rparr>))
        else if EqualFold k ''services'' then bindE (decode_raw_map (Services h) v) (\<lambda>m. Inr (h\<lparr>Services := m\<rparr>))
        else if EqualFold k ''serversTransports''
        then bindE (decode_raw_map (ServersTransports h) v) (\<lambda>m. Inr (h\<lparr>ServersTransports := m\<rparr>))
        else Inr h)"

definition l4_member :: "string \<times> iface \<Rightarrow> TCPUDPConfig \<Rightarrow> TCPUDPConfig result" where
  "l4_member kv c =
     (case kv of (k, v) \<Rightarrow>
        if EqualFold k ''routers'' then bindE (decode_raw_map (l4_Routers c) v) (\<lambda>m. Inr (c\<lparr>l4_Routers := m\<rparr>))
        else if EqualFold k ''services''
        then bindE (decode_raw_map (l4_Services c) v) (\<lambda>m. Inr (c\<lparr>l4_Services := m\<rparr>))
        else if EqualFold k ''serversTransports''
        then bindE (decode_raw_map (l4_ServersTransports c) v) (\<lambda>m. Inr (c\<lparr>l4_ServersTransports := m\<rparr>))
        else Inr c)"

definition empty_http :: HTTPConfig where
  "empty_http = \<lparr>Middlewares = None, Routers = None, Services = None, ServersTransports = None\<rparr>"

definition empty_l4 :: TCPUDPConfig where
  "empty_l4 = \<lparr>l4_Routers = None, l4_Services = None, l4_ServersTransports = None\<rparr>"

definition decode_http :: "HTTPConfig \<Rightarrow> iface \<Rightarrow> HTTPConfig result" where
  "decode_http h v = (case v of INil \<Rightarrow> Inr h | IMap m \<Rightarrow> foldE http_member m h | _ \<Rightarrow> Inl type_error)"

text \<open>A pointer to a struct: a nil pointer is set to a new struct first.\<close>

definition decode_l4 :: "TCPUDPConfig option \<Rightarrow> iface \<Rightarrow> TCPUDPConfig option result" where
  "decode_l4 p v =
     (case v of
        INil \<Rightarrow> Inr None
      | IMap m \<Rightarrow> bindE (foldE l4_member m (case p of None \<Rightarrow> empty_l4 | Some c \<Rightarrow> c)) (\<lambda>c. Inr (Some c))
      | _ \<Rightarrow> Inl type_error)"

definition config_member :: "string \<times> iface \<Rightarrow> TraefikConfig \<Rightarrow> TraefikConfig result" where
  "config_member kv c =
     (case kv of (k, v) \<Rightarrow>
        if EqualFold k ''http'' then bindE (decode_http (HTTP c) v) (\<lambda>h. Inr (c\<lparr>HTTP := h\<rparr>))
        else if EqualFold k ''tcp'' then bindE (decode_l4 (TCP c) v) (\<lambda>t. Inr (c\<lparr>TCP := t\<rparr>))
        else if EqualFold k ''udp'' then bindE (decode_l4 (UDP c) v) (\<lambda>u. Inr (c\<lparr>UDP := u\<rparr>))
        else Inr c)"

definition zero_config :: TraefikConfig where
  "zero_config = \<lparr>HTTP = empty_http, TCP = None, UDP = None\<rparr>"

text \<open>
  \<open>parseTraefikConfig\<close>: \<open>json.Unmarshal(body, &cfg)\<close> with a zero \<open>cfg\<close>. Go goes on after a value of the wrong
  type and returns the error at the end; what it has decoded is then not used.
\<close>

definition parseTraefikConfig :: "raw_message \<Rightarrow> TraefikConfig result" where
  "parseTraefikConfig body =
     (case body of
        RawText _ \<Rightarrow> Inl (ErrMsg ''json: syntax error'')
      | RawJSON INil \<Rightarrow> Inr zero_config
      | RawJSON (IMap m) \<Rightarrow> foldE config_member m zero_config
      | RawJSON _ \<Rightarrow> Inl type_error)"

text \<open>What a decoded configuration satisfies: maps with distinct keys and decoded JSON values.\<close>

definition raws_wf :: "raw_message gomap option \<Rightarrow> bool" where
  "raws_wf m \<longleftrightarrow> wf_map (of_nil m) \<and> (\<forall>(k, r) \<in> set (of_nil m). raw_wf r)"

definition http_wf :: "HTTPConfig \<Rightarrow> bool" where
  "http_wf h \<longleftrightarrow>
     raws_wf (Middlewares h) \<and> raws_wf (Routers h) \<and> raws_wf (Services h) \<and> raws_wf (ServersTransports h)"

lemma decode_raw_map_wf:
  assumes "json_wf v" and "raws_wf old" and "decode_raw_map old v = Inr m"
  shows "raws_wf m"
proof -
  have "raws_wf (Some (fold (\<lambda>(k, x) m. go_put m k (RawJSON x)) es m0))"
    if "\<forall>(k, x) \<in> set es. json_wf x" "raws_wf (Some m0)" for es m0
    using that
  proof (induction es arbitrary: m0)
    case (Cons p es)
    obtain k x where p: "p = (k, x)" by fastforce
    have "raws_wf (Some (go_put m0 k (RawJSON x)))"
      using Cons.prems set_go_put_subset [of m0 k "RawJSON x"] by (fastforce simp: p raws_wf_def of_nil_def intro: wf_intros)
    with Cons p show ?case by simp
  qed simp
  from this [of _ "of_nil old"] assms show ?thesis
    by (auto simp: decode_raw_map_def raws_wf_def of_nil_def split: iface.splits)
qed

lemma http_member_wf: "json_wf v \<Longrightarrow> http_wf h \<Longrightarrow> http_member (k, v) h = Inr h' \<Longrightarrow> http_wf h'"
  by (auto simp: http_member_def http_wf_def bindE_Inr_conv split: if_splits intro: decode_raw_map_wf)

lemma decode_http_wf: "json_wf v \<Longrightarrow> http_wf h \<Longrightarrow> decode_http h v = Inr h' \<Longrightarrow> http_wf h'"
proof (cases v)
  case (IMap m)
  then show "json_wf v \<Longrightarrow> http_wf h \<Longrightarrow> decode_http h v = Inr h' \<Longrightarrow> http_wf h'"
    using foldE_invariant [of m http_wf http_member h h'] http_member_wf by (fastforce simp: decode_http_def)
qed (auto simp: decode_http_def)

lemma config_member_wf:
  "json_wf v \<Longrightarrow> http_wf (HTTP c) \<Longrightarrow> config_member (k, v) c = Inr d \<Longrightarrow> http_wf (HTTP d)"
  by (auto simp: config_member_def bindE_Inr_conv split: if_splits intro: decode_http_wf)

lemma empty_http_wf: "http_wf empty_http"
  by (simp add: http_wf_def empty_http_def raws_wf_def of_nil_def)

lemma parseTraefikConfig_wf:
  assumes "raw_wf body" and "parseTraefikConfig body = Inr c"
  shows "http_wf (HTTP c)"
proof -
  have "http_wf (HTTP c)" if "\<forall>(k, v) \<in> set m. json_wf v" "foldE config_member m zero_config = Inr c" for m
    using foldE_invariant [of m "\<lambda>c. http_wf (HTTP c)" config_member zero_config c] config_member_wf that empty_http_wf
    by (fastforce simp: zero_config_def)
  with assms empty_http_wf show ?thesis
    by (auto simp: parseTraefikConfig_def zero_config_def split: raw_message.splits iface.splits)
qed

text \<open>Members that differ in letter case merge, and \<open>null\<close> leaves the struct they have filled.\<close>

lemma parse_merges:
  "parseTraefikConfig (RawJSON (IMap
     [(''http'', IMap [(''middlewares'', IMap [(''a'', IMap [])])]), (''HTTP'', IMap [(''Middlewares'', IMap [(''b'', IMap [])])]),
      (''Http'', INil)])) =
   Inr (zero_config\<lparr>HTTP := empty_http\<lparr>Middlewares := Some [(''a'', RawJSON (IMap [])), (''b'', RawJSON (IMap []))]\<rparr>\<rparr>)"
  by code_simp

end
