(* ===== verification/Sanitize.thy ===== *)
theory Sanitize
  imports Sha256 TraefikConfig
begin

text \<open>
  Names and references (\<^verbatim>\<open>internal/transform/sanitize/sanitize.go\<close>): every name Pangolin chose is
  rewritten to a name Kubernetes accepts, and every reference between objects is rewritten the
  same way. One definition per function of the file, in its order.

  Shown: a sanitised name is a valid resource name of at most 253 bytes; sanitising is idempotent
  and leaves clean names alone; the result does not depend on the iteration order of Go maps;
  a reference to an object of the configuration still points to an object of the sanitised one;
  and the sanitised configuration has no TCP and no UDP section.
\<close>

definition maxK8sNameLength :: nat where
  "maxK8sNameLength = 253"

definition nameHashLength :: nat where
  "nameHashLength = 10"

record nameMappings =
  nm_middlewares :: "string gomap"
  nm_services :: "string gomap"
  nm_transports :: "string gomap"

definition sortKeys :: "'v gomap option \<Rightarrow> string list" where
  "sortKeys m = sorted_keys (of_nil m)"

definition shortHash :: "string \<Rightarrow> string" where
  "shortHash input = take nameHashLength (EncodeToString (Sum256 input))"

section \<open>Names\<close>

definition isAlphaNum :: "char \<Rightarrow> bool" where
  "isAlphaNum r \<longleftrightarrow>
     (byte_of (CHR ''a'') \<le> byte_of r \<and> byte_of r \<le> byte_of (CHR ''z''))
   \<or> (byte_of (CHR ''0'') \<le> byte_of r \<and> byte_of r \<le> byte_of (CHR ''9''))"

text \<open>
  The loop of \<open>buildBaseName\<close>, with \<open>lastDash\<close> as its state. The source ranges over runes, the
  model over bytes: every byte of a rune outside ASCII is not alphanumeric, and a run of such
  bytes yields one dash, as the rune does.
\<close>

fun buildBaseName_loop :: "bool \<Rightarrow> string \<Rightarrow> string" where
  "buildBaseName_loop lastDash [] = []"
| "buildBaseName_loop lastDash (r # rs) =
     (if isAlphaNum r then r # buildBaseName_loop False rs
      else if lastDash then buildBaseName_loop lastDash rs
      else CHR ''-'' # buildBaseName_loop True rs)"

definition buildBaseName :: "string \<Rightarrow> string" where
  "buildBaseName lowered = buildBaseName_loop True lowered"

text \<open>\<open>strings.TrimRight(s, "-")\<close> and \<open>strings.Trim(s, "-")\<close>.\<close>

definition TrimRightDash :: "string \<Rightarrow> string" where
  "TrimRightDash s = rev (dropWhile (\<lambda>c. c = CHR ''-'') (rev s))"

definition TrimDash :: "string \<Rightarrow> string" where
  "TrimDash s = TrimRightDash (dropWhile (\<lambda>c. c = CHR ''-'') s)"

definition finalizeSanitizedName :: "string \<Rightarrow> string \<Rightarrow> string" where
  "finalizeSanitizedName sanitized original =
     (if sanitized = [] then ''x-'' @ shortHash original
      else if length sanitized \<le> maxK8sNameLength then sanitized
      else
        let suffix = shortHash original;
            maxBaseLen = int maxK8sNameLength - int (length suffix) - 1
        in if maxBaseLen < 1 then suffix
           else
             let maxTrimLen =
                   (if maxK8sNameLength > length sanitized then length sanitized else maxK8sNameLength);
                 trimmed = TrimRightDash (take maxTrimLen sanitized);
                 trimmed =
                   (if int (length trimmed) > maxBaseLen
                    then TrimRightDash (take (nat maxBaseLen) trimmed) else trimmed);
                 trimmed = (if trimmed = [] then ''x'' else trimmed)
             in trimmed @ ''-'' @ suffix)"

definition SanitizeResourceName :: "string \<Rightarrow> string" where
  "SanitizeResourceName name =
     (let candidate = buildBaseName (ToLower name);
          sanitized = TrimDash candidate
      in finalizeSanitizedName sanitized name)"

section \<open>References\<close>

definition sanitizeReference :: "string \<Rightarrow> string gomap \<Rightarrow> string" where
  "sanitizeReference name mapping =
     (case go_get mapping name of Some sanitized \<Rightarrow> sanitized | None \<Rightarrow> SanitizeResourceName name)"

text \<open>A list of names in which the entries that are strings are rewritten.\<close>

definition sanitize_name_list :: "string gomap \<Rightarrow> iface list \<Rightarrow> iface list" where
  "sanitize_name_list mapping =
     map (\<lambda>mw. case as_str mw of Some n \<Rightarrow> IStr (sanitizeReference n mapping) | None \<Rightarrow> mw)"

text \<open>A list of objects whose \<open>name\<close> member, when it is a string, is rewritten.\<close>

definition sanitize_named_entries :: "string gomap \<Rightarrow> iface list \<Rightarrow> iface list" where
  "sanitize_named_entries mapping =
     map (\<lambda>s. case as_map s of
                Some svcMap \<Rightarrow>
                  (case as_str (map_get svcMap ''name'') of
                     Some n \<Rightarrow> IMap (go_put svcMap ''name'' (IStr (sanitizeReference n mapping)))
                   | None \<Rightarrow> s)
              | None \<Rightarrow> s)"

text \<open>A string member of an object rewritten in place.\<close>

definition sanitize_member :: "string gomap \<Rightarrow> string \<Rightarrow> obj \<Rightarrow> obj" where
  "sanitize_member mapping key m =
     (case as_str (map_get m key) of
        Some n \<Rightarrow> go_put m key (IStr (sanitizeReference n mapping))
      | None \<Rightarrow> m)"

definition sanitizeRouterRaw :: "raw_message \<Rightarrow> nameMappings \<Rightarrow> raw_message result" where
  "sanitizeRouterRaw raw mappings =
     (if raw = RawText [] then Inr raw
      else
        bindE (wrapE ''unmarshal'' (unmarshal_map raw)) (\<lambda>obj.
          let obj = map_option (\<lambda>m.
                let m = sanitize_member (nm_services mappings) ''service'' m
                in case as_slice (map_get m ''middlewares'') of
                     Some mws \<Rightarrow>
                       go_put m ''middlewares'' (ISlice (sanitize_name_list (nm_middlewares mappings) mws))
                   | None \<Rightarrow> m) obj
          in wrapE ''marshal'' (Marshal (obj_iface obj))))"

definition sanitizeMiddlewareRaw :: "raw_message \<Rightarrow> nameMappings \<Rightarrow> raw_message result" where
  "sanitizeMiddlewareRaw raw mappings =
     (if raw = RawText [] then Inr raw
      else
        bindE (wrapE ''unmarshal'' (unmarshal_map raw)) (\<lambda>obj.
          let obj = map_option (\<lambda>m.
                case as_map (map_get m ''chain'') of
                  Some chain \<Rightarrow>
                    (let chain =
                       (case as_slice (map_get chain ''middlewares'') of
                          Some mids \<Rightarrow>
                            go_put chain ''middlewares''
                              (ISlice (sanitize_name_list (nm_middlewares mappings) mids))
                        | None \<Rightarrow> chain)
                     in go_put m ''chain'' (IMap chain))
                | None \<Rightarrow> m) obj
          in wrapE ''marshal'' (Marshal (obj_iface obj))))"

definition sanitizeWeightedSection :: "nameMappings \<Rightarrow> obj \<Rightarrow> obj" where
  "sanitizeWeightedSection mappings m =
     (case as_map (map_get m ''weighted'') of
        Some weighted \<Rightarrow>
          (let weighted =
             (case as_slice (map_get weighted ''services'') of
                Some services \<Rightarrow>
                  go_put weighted ''services''
                    (ISlice (sanitize_named_entries (nm_services mappings) services))
              | None \<Rightarrow> weighted)
           in go_put m ''weighted'' (IMap weighted))
      | None \<Rightarrow> m)"

definition sanitizeMirroringPrimaryService :: "nameMappings \<Rightarrow> obj \<Rightarrow> obj" where
  "sanitizeMirroringPrimaryService mappings mirroring =
     sanitize_member (nm_services mappings) ''service'' mirroring"

definition sanitizeMirroringMirrors :: "nameMappings \<Rightarrow> obj \<Rightarrow> obj" where
  "sanitizeMirroringMirrors mappings mirroring =
     (case as_slice (map_get mirroring ''mirrors'') of
        None \<Rightarrow> mirroring
      | Some mirrors \<Rightarrow>
          go_put mirroring ''mirrors'' (ISlice (sanitize_named_entries (nm_services mappings) mirrors)))"

definition sanitizeMirroringSection :: "nameMappings \<Rightarrow> obj \<Rightarrow> obj" where
  "sanitizeMirroringSection mappings m =
     (case as_map (map_get m ''mirroring'') of
        None \<Rightarrow> m
      | Some mirroring \<Rightarrow>
          go_put m ''mirroring''
            (IMap (sanitizeMirroringMirrors mappings (sanitizeMirroringPrimaryService mappings mirroring))))"

definition sanitizeFailoverSection :: "nameMappings \<Rightarrow> obj \<Rightarrow> obj" where
  "sanitizeFailoverSection mappings m =
     (case as_map (map_get m ''failover'') of
        Some failover \<Rightarrow>
          (let failover = sanitize_member (nm_services mappings) ''service'' failover;
               failover = sanitize_member (nm_services mappings) ''fallback'' failover
           in go_put m ''failover'' (IMap failover))
      | None \<Rightarrow> m)"

definition sanitizeServiceRaw :: "raw_message \<Rightarrow> nameMappings \<Rightarrow> raw_message result" where
  "sanitizeServiceRaw raw mappings =
     (if raw = RawText [] then Inr raw
      else
        bindE (wrapE ''unmarshal'' (unmarshal_map raw)) (\<lambda>obj.
          let obj = map_option (\<lambda>m.
                let m = sanitizeWeightedSection mappings m;
                    m = sanitizeMirroringSection mappings m;
                    m = sanitizeFailoverSection mappings m
                in case as_map (map_get m ''loadBalancer'') of
                     Some lb \<Rightarrow>
                       (case as_str (map_get lb ''serversTransport'') of
                          Some st \<Rightarrow>
                            go_put m ''loadBalancer''
                              (IMap (go_put lb ''serversTransport''
                                 (IStr (sanitizeReference st (nm_transports mappings)))))
                        | None \<Rightarrow> m)
                   | None \<Rightarrow> m) obj
          in wrapE ''marshal'' (Marshal (obj_iface obj))))"

section \<open>The whole configuration\<close>

definition name_mapping :: "string list \<Rightarrow> string gomap" where
  "name_mapping names = fold (\<lambda>name m. go_put m name (SanitizeResourceName name)) names []"

definition buildNameMappings :: "TraefikConfig \<Rightarrow> nameMappings" where
  "buildNameMappings cfg =
     \<lparr>nm_middlewares = name_mapping (sortKeys (Middlewares (HTTP cfg))),
      nm_services = name_mapping (sortKeys (Services (HTTP cfg))),
      nm_transports = name_mapping (sortKeys (ServersTransports (HTTP cfg)))\<rparr>"

text \<open>\<open>cfg.HTTP.Middlewares[name]\<close>: a missing key gives the nil message.\<close>

definition raw_get :: "raw_message gomap option \<Rightarrow> string \<Rightarrow> raw_message" where
  "raw_get m k = (case go_get (of_nil m) k of None \<Rightarrow> RawText [] | Some r \<Rightarrow> r)"

definition populateSanitizedMiddlewares ::
  "TraefikConfig \<Rightarrow> nameMappings \<Rightarrow> raw_message gomap \<Rightarrow> raw_message gomap result" where
  "populateSanitizedMiddlewares cfg mappings =
     foldE (\<lambda>name out.
         let sanitizedName = get_str (nm_middlewares mappings) name in
         bindE (wrapE (''middleware '' @ name @ '' sanitize'')
             (sanitizeMiddlewareRaw (raw_get (Middlewares (HTTP cfg)) name) mappings))
           (\<lambda>sanitizedRaw. Inr (go_put out sanitizedName sanitizedRaw)))
       (sortKeys (Middlewares (HTTP cfg)))"

definition populateSanitizedServices ::
  "TraefikConfig \<Rightarrow> nameMappings \<Rightarrow> raw_message gomap \<Rightarrow> raw_message gomap result" where
  "populateSanitizedServices cfg mappings =
     foldE (\<lambda>name out.
         let sanitizedName = get_str (nm_services mappings) name in
         bindE (wrapE (''service '' @ name @ '' sanitize'')
             (sanitizeServiceRaw (raw_get (Services (HTTP cfg)) name) mappings))
           (\<lambda>sanitizedRaw. Inr (go_put out sanitizedName sanitizedRaw)))
       (sortKeys (Services (HTTP cfg)))"

definition populateSanitizedTransports ::
  "TraefikConfig \<Rightarrow> nameMappings \<Rightarrow> raw_message gomap \<Rightarrow> raw_message gomap" where
  "populateSanitizedTransports cfg mappings =
     fold (\<lambda>name out.
         go_put out (get_str (nm_transports mappings) name) (raw_get (ServersTransports (HTTP cfg)) name))
       (sortKeys (ServersTransports (HTTP cfg)))"

definition populateSanitizedRouters ::
  "TraefikConfig \<Rightarrow> nameMappings \<Rightarrow> raw_message gomap \<Rightarrow> raw_message gomap result" where
  "populateSanitizedRouters cfg mappings =
     foldE (\<lambda>name out.
         let sanitizedName = SanitizeResourceName name in
         bindE (wrapE (''router '' @ name @ '' sanitize'')
             (sanitizeRouterRaw (raw_get (Routers (HTTP cfg)) name) mappings))
           (\<lambda>sanitizedRaw. Inr (go_put out sanitizedName sanitizedRaw)))
       (sortKeys (Routers (HTTP cfg)))"

definition SanitizeTraefikConfig :: "TraefikConfig option \<Rightarrow> TraefikConfig option result" where
  "SanitizeTraefikConfig cfg' =
     (case cfg' of
        None \<Rightarrow> Inr None
      | Some cfg \<Rightarrow>
          let mappings = buildNameMappings cfg in
          bindE (populateSanitizedMiddlewares cfg mappings []) (\<lambda>mws.
          bindE (populateSanitizedServices cfg mappings []) (\<lambda>svcs.
            let transports = populateSanitizedTransports cfg mappings [] in
          bindE (populateSanitizedRouters cfg mappings []) (\<lambda>routers.
            Inr (Some \<lparr>HTTP = \<lparr>Middlewares = Some mws, Routers = Some routers,
                               Services = Some svcs, ServersTransports = Some transports\<rparr>,
                       TCP = None, UDP = None\<rparr>)))))"

section \<open>What a sanitised name looks like\<close>

definition name_char :: "char \<Rightarrow> bool" where
  "name_char c \<longleftrightarrow> isAlphaNum c \<or> c = CHR ''-''"

text \<open>A DNS label as Kubernetes requires of resource names, up to the length limit.\<close>

definition valid_name :: "string \<Rightarrow> bool" where
  "valid_name s \<longleftrightarrow>
     s \<noteq> [] \<and> length s \<le> 253 \<and> (\<forall>c \<in> set s. name_char c) \<and> isAlphaNum (hd s) \<and> isAlphaNum (last s)"

definition single_dashes :: "string \<Rightarrow> bool" where
  "single_dashes s \<longleftrightarrow> successively (\<lambda>a b. \<not> (a = CHR ''-'' \<and> b = CHR ''-'')) s"

lemma isAlphaNum_not_dash [simp]: "isAlphaNum c \<Longrightarrow> c \<noteq> CHR ''-''" "\<not> isAlphaNum (CHR ''-'')"
  by (auto simp: isAlphaNum_def byte_of_def)

lemma isAlphaNum_hex: "is_hex c \<Longrightarrow> isAlphaNum c"
  by (auto simp: is_hex_def is_digit_def isAlphaNum_def byte_of_def)

lemma single_dashes_Cons:
  "single_dashes (c # s) \<longleftrightarrow> single_dashes s \<and> (s = [] \<or> \<not> (c = CHR ''-'' \<and> hd s = CHR ''-''))"
  by (auto simp: single_dashes_def successively_Cons)

lemma single_dashes_append:
  "single_dashes (s @ t) \<longleftrightarrow>
     single_dashes s \<and> single_dashes t
     \<and> (s = [] \<or> t = [] \<or> \<not> (last s = CHR ''-'' \<and> hd t = CHR ''-''))"
  by (auto simp: single_dashes_def successively_append_iff)

lemma single_dashes_prefix: "prefix s t \<Longrightarrow> single_dashes t \<Longrightarrow> single_dashes s"
  by (auto simp: prefix_def single_dashes_append)

lemma single_dashes_none: "CHR ''-'' \<notin> set s \<Longrightarrow> single_dashes s"
  by (induction s) (auto simp: single_dashes_Cons single_dashes_def [of "[]"])

lemma loop_chars: "c \<in> set (buildBaseName_loop ld s) \<Longrightarrow> name_char c"
  by (induction ld s rule: buildBaseName_loop.induct) (auto simp: name_char_def split: if_splits)

lemma loop_shape:
  "single_dashes (buildBaseName_loop ld s)
   \<and> (ld \<longrightarrow> buildBaseName_loop ld s = [] \<or> hd (buildBaseName_loop ld s) \<noteq> CHR ''-'')"
  by (induction ld s rule: buildBaseName_loop.induct)
    (auto simp: single_dashes_Cons single_dashes_def [of "[]"])

lemma loop_id:
  assumes "\<forall>c \<in> set s. name_char c" and "single_dashes s" and "ld \<longrightarrow> s = [] \<or> hd s \<noteq> CHR ''-''"
  shows "buildBaseName_loop ld s = s"
  using assms
proof (induction s arbitrary: ld)
  case (Cons c s)
  then show ?case by (cases "isAlphaNum c") (auto simp: single_dashes_Cons name_char_def)
qed simp

lemma prefix_TrimRightDash: "prefix (TrimRightDash s) s"
  by (simp add: TrimRightDash_def suffix_dropWhile flip: suffix_to_prefix [of "rev _" "rev s", simplified])

lemma TrimRightDash_Nil_iff: "TrimRightDash s = [] \<longleftrightarrow> (\<forall>c \<in> set s. c = CHR ''-'')"
  by (auto simp: TrimRightDash_def dropWhile_eq_Nil_conv)

lemma last_TrimRightDash: "TrimRightDash s \<noteq> [] \<Longrightarrow> last (TrimRightDash s) \<noteq> CHR ''-''"
  unfolding TrimRightDash_def by (metis (mono_tags, lifting) hd_dropWhile last_rev rev_is_Nil_conv)

lemma TrimRightDash_id: "s = [] \<or> last s \<noteq> CHR ''-'' \<Longrightarrow> TrimRightDash s = s"
  by (cases s rule: rev_cases) (auto simp: TrimRightDash_def)

lemma TrimDash_id: "s = [] \<or> hd s \<noteq> CHR ''-'' \<Longrightarrow> TrimDash s = TrimRightDash s"
  by (cases s) (auto simp: TrimDash_def)

text \<open>The base name after trimming: alphanumeric at both ends, no two dashes in a row.\<close>

definition base_ok :: "string \<Rightarrow> bool" where
  "base_ok s \<longleftrightarrow>
     (\<forall>c \<in> set s. name_char c) \<and> single_dashes s \<and> (s \<noteq> [] \<longrightarrow> isAlphaNum (hd s) \<and> isAlphaNum (last s))"

lemma base_ok_TrimRightDash:
  assumes "\<forall>c \<in> set s. name_char c" and "single_dashes s" and "s = [] \<or> hd s \<noteq> CHR ''-''"
  shows "base_ok (TrimRightDash s)"
proof -
  have pre: "prefix (TrimRightDash s) s" by (rule prefix_TrimRightDash)
  then have sub: "\<forall>c \<in> set (TrimRightDash s). name_char c"
    using assms(1) set_mono_prefix by blast
  show ?thesis
  proof (cases "TrimRightDash s = []")
    case True
    then show ?thesis by (simp add: base_ok_def single_dashes_def)
  next
    case False
    with pre have "hd (TrimRightDash s) = hd s" by (metis hd_append2 prefix_def)
    moreover from False pre have "s \<noteq> []" by auto
    ultimately have "hd (TrimRightDash s) \<noteq> CHR ''-''" using assms(3) by simp
    then show ?thesis
      using False sub single_dashes_prefix [OF pre assms(2)] last_TrimRightDash [OF False]
      by (auto simp: base_ok_def name_char_def)
  qed
qed

lemma base_ok_base: "base_ok (TrimDash (buildBaseName s))"
  using loop_shape [of True s] base_ok_TrimRightDash [of "buildBaseName s"]
  by (auto simp: buildBaseName_def TrimDash_id intro: loop_chars)

lemma shortHash_props:
  "length (shortHash s) = 10" "c \<in> set (shortHash s) \<Longrightarrow> isAlphaNum c" "shortHash s \<noteq> []"
proof -
  show "length (shortHash s) = 10" by (simp add: shortHash_def nameHashLength_def)
  then show "shortHash s \<noteq> []" by auto
  show "isAlphaNum c" if "c \<in> set (shortHash s)"
    using that EncodeToString_hex [of "Sum256 s"]
    by (auto simp: shortHash_def list_all_iff intro: isAlphaNum_hex dest: in_set_takeD)
qed

lemma valid_with_hash:
  assumes "base_ok b" and "b \<noteq> []" and "length b \<le> 242"
  shows "valid_name (b @ ''-'' @ shortHash n) \<and> single_dashes (b @ ''-'' @ shortHash n)"
proof -
  have hash: "isAlphaNum (hd (shortHash n))" "isAlphaNum (last (shortHash n))"
    "CHR ''-'' \<notin> set (shortHash n)"
    using shortHash_props(2) [where s = n] shortHash_props(2) [where c = "CHR ''-''" and s = n] shortHash_props(3) [of n]
    by auto
  have "valid_name (b @ ''-'' @ shortHash n)"
    using assms hash shortHash_props(1) [of n] shortHash_props(2) [where s = n] by (auto simp: valid_name_def base_ok_def name_char_def)
  moreover have "single_dashes (b @ ''-'' @ shortHash n)"
    using assms hash isAlphaNum_not_dash(1) shortHash_props(3) [of n]
    by (auto simp: single_dashes_append single_dashes_Cons base_ok_def single_dashes_none)
  ultimately show ?thesis ..
qed

lemma finalize_valid:
  assumes "base_ok s"
  shows "valid_name (finalizeSanitizedName s n) \<and> single_dashes (finalizeSanitizedName s n)"
proof (cases "s = [] \<or> length s \<le> 253")
  case True
  have "base_ok ''x''"
    by (auto simp: base_ok_def name_char_def isAlphaNum_def byte_of_def single_dashes_def)
  with True assms show ?thesis
    using valid_with_hash [of "''x''" n]
    by (auto simp: finalizeSanitizedName_def maxK8sNameLength_def valid_name_def base_ok_def)
next
  case False
  define t where "t = TrimRightDash (take 253 s)"
  define b where "b = (if length t > 242 then TrimRightDash (take 242 t) else t)"
  have trim: "base_ok (TrimRightDash (take k u)) \<and> TrimRightDash (take k u) \<noteq> []"
    if "base_ok u" "u \<noteq> []" "0 < k" for k u
  proof -
    from that have "take k u \<noteq> []" "hd (take k u) = hd u" by auto
    moreover from that have "isAlphaNum (hd u)" by (simp add: base_ok_def)
    ultimately have "TrimRightDash (take k u) \<noteq> []"
      by (metis TrimRightDash_Nil_iff isAlphaNum_not_dash(1) list.set_sel(1))
    moreover have "base_ok (TrimRightDash (take k u))"
      by (rule base_ok_TrimRightDash)
        (use that \<open>hd (take k u) = hd u\<close> \<open>isAlphaNum (hd u)\<close> single_dashes_prefix [OF take_is_prefix] in
          \<open>auto simp: base_ok_def dest: in_set_takeD\<close>)
    ultimately show ?thesis by blast
  qed
  have t: "base_ok t" "t \<noteq> []" using trim [of s 253] False assms by (auto simp: t_def)
  have len: "length (TrimRightDash (take k u)) \<le> k" for k u
    using prefix_length_le [OF prefix_TrimRightDash [of "take k u"]] by simp
  have "base_ok b \<and> b \<noteq> [] \<and> length b \<le> 242"
    using t trim [of t 242] len [of 242 t] by (auto simp: b_def)
  moreover have "finalizeSanitizedName s n = b @ ''-'' @ shortHash n"
    using False t(2) \<open>base_ok b \<and> b \<noteq> [] \<and> length b \<le> 242\<close>
    by (simp add: finalizeSanitizedName_def maxK8sNameLength_def shortHash_props(1) Let_def
        b_def t_def [symmetric] split: if_splits)
  ultimately show ?thesis using valid_with_hash by metis
qed

lemma ToLower_id: "\<forall>c \<in> set s. name_char c \<Longrightarrow> ToLower s = s"
proof (induction s)
  case (Cons c s)
  then have "name_char c" by simp
  then have "byte_of c < 128 \<and> ascii_lower c = c \<and> c \<noteq> CHR 0xE2 \<and> c \<noteq> CHR 0xC4"
    by (auto simp: name_char_def isAlphaNum_def ascii_lower_def byte_of_def)
  with Cons show ?case by simp
qed simp

text \<open>
  C7. For every name, whatever bytes it holds, \<open>SanitizeResourceName\<close> returns a name that
  Kubernetes accepts: not empty, at most 253 bytes, only lower-case letters, digits and dashes,
  alphanumeric at both ends; moreover no two dashes are adjacent.
\<close>

theorem SanitizeResourceName_valid:
  "valid_name (SanitizeResourceName name) \<and> single_dashes (SanitizeResourceName name)"
  unfolding SanitizeResourceName_def Let_def by (rule finalize_valid [OF base_ok_base])

text \<open>A name that is already clean is not changed, whatever its length up to the limit.\<close>

lemma SanitizeResourceName_id:
  assumes "valid_name n" and "single_dashes n"
  shows "SanitizeResourceName n = n"
proof -
  have n: "n \<noteq> []" "length n \<le> 253" "\<forall>c \<in> set n. name_char c" "hd n \<noteq> CHR ''-''" "last n \<noteq> CHR ''-''"
    using assms(1) isAlphaNum_not_dash(1) by (auto simp: valid_name_def)
  have "buildBaseName (ToLower n) = n"
    using n assms(2) by (simp add: ToLower_id buildBaseName_def loop_id)
  then have "TrimDash (buildBaseName (ToLower n)) = n"
    using n by (simp add: TrimDash_id TrimRightDash_id)
  then show ?thesis using n by (simp add: SanitizeResourceName_def finalizeSanitizedName_def maxK8sNameLength_def)
qed

lemma SanitizeResourceName_ok: "valid_name (SanitizeResourceName n)" "single_dashes (SanitizeResourceName n)"
  using finalize_valid [OF base_ok_base] by (simp_all add: SanitizeResourceName_def Let_def)

text \<open>
  Sanitising is idempotent: applying \<open>SanitizeResourceName\<close> to its own result changes nothing,
  so an object sanitised by one stage and again by a later one keeps its name.
\<close>

theorem SanitizeResourceName_idempotent:
  "SanitizeResourceName (SanitizeResourceName name) = SanitizeResourceName name"
  by (rule SanitizeResourceName_id) (rule SanitizeResourceName_ok)+

section \<open>The name mappings\<close>

lemma find_eq: "find (\<lambda>x. x = n) xs = (if n \<in> set xs then Some n else None)"
  by (induction xs) auto

lemma go_get_name_mapping: "go_get (name_mapping ns) n = (if n \<in> set ns then Some (SanitizeResourceName n) else None)"
  by (simp add: name_mapping_def gomap.get_fold_put [where key = "\<lambda>x. x"] find_eq)

lemma sanitizeReference_name_mapping [simp]: "sanitizeReference n (name_mapping ns) = SanitizeResourceName n"
  by (simp add: sanitizeReference_def go_get_name_mapping)

lemma mappings_sel [simp]:
  "nm_middlewares (buildNameMappings cfg) = name_mapping (sortKeys (Middlewares (HTTP cfg)))"
  "nm_services (buildNameMappings cfg) = name_mapping (sortKeys (Services (HTTP cfg)))"
  "nm_transports (buildNameMappings cfg) = name_mapping (sortKeys (ServersTransports (HTTP cfg)))"
  by (simp_all add: buildNameMappings_def)

lemma get_str_name_mapping [simp]: "n \<in> set ns \<Longrightarrow> get_str (name_mapping ns) n = SanitizeResourceName n"
  by (simp add: get_str_def go_get_name_mapping)

section \<open>The populate loops\<close>

text \<open>The three loops that can fail have one shape: rewrite each message, store it under its name.\<close>

definition populate :: "(string \<Rightarrow> raw_message result) \<Rightarrow> string list \<Rightarrow> raw_message gomap result" where
  "populate f names =
     foldE (\<lambda>name out. bindE (f name) (\<lambda>r. Inr (go_put out (SanitizeResourceName name) r))) names []"

lemma foldE_cong_set: "(\<And>x s. x \<in> set xs \<Longrightarrow> f x s = g x s) \<Longrightarrow> foldE f xs s = foldE g xs s"
  by (induction xs arbitrary: s) (auto split: sum.split)

lemma populate_eqs:
  "populateSanitizedMiddlewares cfg (buildNameMappings cfg) [] =
     populate (\<lambda>n. wrapE (''middleware '' @ n @ '' sanitize'')
       (sanitizeMiddlewareRaw (raw_get (Middlewares (HTTP cfg)) n) (buildNameMappings cfg)))
       (sortKeys (Middlewares (HTTP cfg)))"
  "populateSanitizedServices cfg (buildNameMappings cfg) [] =
     populate (\<lambda>n. wrapE (''service '' @ n @ '' sanitize'')
       (sanitizeServiceRaw (raw_get (Services (HTTP cfg)) n) (buildNameMappings cfg)))
       (sortKeys (Services (HTTP cfg)))"
  "populateSanitizedRouters cfg (buildNameMappings cfg) [] =
     populate (\<lambda>n. wrapE (''router '' @ n @ '' sanitize'')
       (sanitizeRouterRaw (raw_get (Routers (HTTP cfg)) n) (buildNameMappings cfg)))
       (sortKeys (Routers (HTTP cfg)))"
  unfolding populateSanitizedMiddlewares_def populateSanitizedServices_def populateSanitizedRouters_def
    populate_def Let_def by (rule foldE_cong_set; simp)+

lemma populate_Inr:
  assumes "populate f names = Inr out" and "sorted names"
  shows "go_get out k =
           (if \<exists>n \<in> set names. SanitizeResourceName n = k
            then Some (projr (f (Max {n \<in> set names. SanitizeResourceName n = k}))) else None)"
    and "\<And>n. n \<in> set names \<Longrightarrow> \<exists>r. f n = Inr r"
    and "set (go_keys out) = SanitizeResourceName ` set names"
    and "wf_map out"
proof -
  have g: "(\<forall>n \<in> set names. \<not> isl (f n))
      \<and> out = fold (\<lambda>n out. go_put out (SanitizeResourceName n) (projr (f n))) names []"
    by (rule foldE_guard [where g = "\<lambda>n r out. go_put out (SanitizeResourceName n) r"])
      (use assms(1) in \<open>auto simp: populate_def bindE_def\<close>)
  then show "\<And>n. n \<in> set names \<Longrightarrow> \<exists>r. f n = Inr r" by (metis isl_def old.sum.exhaust)
  show "go_get out k =
      (if \<exists>n \<in> set names. SanitizeResourceName n = k
       then Some (projr (f (Max {n \<in> set names. SanitizeResourceName n = k}))) else None)"
    using g by (simp add: gomap.get_fold_put find_rev_sorted [OF assms(2)])
  show "set (go_keys out) = SanitizeResourceName ` set names"
    using g gomap.keys_fold_put [of SanitizeResourceName "\<lambda>n. projr (f n)" names "[]"]
    by (simp add: go_keys_def)
  show "wf_map out" using g by (simp add: gomap.invar_fold_put)
qed

lemma populate_Inl: "n \<in> set names \<Longrightarrow> f n = Inl e \<Longrightarrow> \<exists>e'. populate f names = Inl e'"
proof -
  assume n: "n \<in> set names" "f n = Inl e"
  show ?thesis
  proof (cases "populate f names")
    case (Inr out)
    then have "\<forall>x \<in> set names. \<not> isl (f x)"
      using foldE_guard [where g = "\<lambda>n r out. go_put out (SanitizeResourceName n) r" and chk = f and xs = names and s = "[]"]
      by (auto simp: populate_def bindE_def)
    with n show ?thesis by auto
  qed blast
qed

lemma sortKeys_sorted: "sorted (sortKeys m)"
  by (simp add: sortKeys_def sorted_keys_sorted)

lemma set_sortKeys [simp]: "set (sortKeys m) = set (go_keys (of_nil m))"
  by (simp add: sortKeys_def set_go_keys)

section \<open>The sanitised configuration\<close>

lemma transports_eq:
  "populateSanitizedTransports cfg (buildNameMappings cfg) [] =
     fold (\<lambda>n out. go_put out (SanitizeResourceName n) (raw_get (ServersTransports (HTTP cfg)) n))
       (sortKeys (ServersTransports (HTTP cfg))) []"
  unfolding populateSanitizedTransports_def by (rule fold_cong) auto

lemma SanitizeTraefikConfig_Inr:
  assumes "SanitizeTraefikConfig (Some cfg) = Inr o'"
  obtains mws svcs rts where
    "o' = Some \<lparr>HTTP = \<lparr>Middlewares = Some mws, Routers = Some rts, Services = Some svcs,
        ServersTransports = Some (populateSanitizedTransports cfg (buildNameMappings cfg) [])\<rparr>,
        TCP = None, UDP = None\<rparr>"
    and "populateSanitizedMiddlewares cfg (buildNameMappings cfg) [] = Inr mws"
    and "populateSanitizedServices cfg (buildNameMappings cfg) [] = Inr svcs"
    and "populateSanitizedRouters cfg (buildNameMappings cfg) [] = Inr rts"
  using assms by (auto simp: SanitizeTraefikConfig_def Let_def bindE_Inr_conv)

lemma of_nil_Some [simp]: "of_nil (Some m) = m"
  by (simp add: of_nil_def)

text \<open>One section of the output holds the sanitised names of that section of the input, each once.\<close>

definition section_renamed ::
  "(HTTPConfig \<Rightarrow> raw_message gomap option) \<Rightarrow> TraefikConfig \<Rightarrow> TraefikConfig \<Rightarrow> bool" where
  "section_renamed sel cfg out \<longleftrightarrow>
     set (go_keys (of_nil (sel (HTTP out)))) = SanitizeResourceName ` set (go_keys (of_nil (sel (HTTP cfg))))
     \<and> wf_map (of_nil (sel (HTTP out)))"

text \<open>
  Whenever a configuration is sanitised, each section of the result holds exactly the
  sanitised names of that section of the input (middlewares, routers, services and transports),
  each once.
\<close>

theorem SanitizeTraefikConfig_keys:
  assumes "SanitizeTraefikConfig (Some cfg) = Inr (Some out)"
  shows "section_renamed Middlewares cfg out \<and> section_renamed Routers cfg out
       \<and> section_renamed Services cfg out \<and> section_renamed ServersTransports cfg out"
proof -
  obtain mws svcs rts where out: "out = \<lparr>HTTP = \<lparr>Middlewares = Some mws, Routers = Some rts, Services = Some svcs,
        ServersTransports = Some (populateSanitizedTransports cfg (buildNameMappings cfg) [])\<rparr>,
        TCP = None, UDP = None\<rparr>"
    and pop: "populateSanitizedMiddlewares cfg (buildNameMappings cfg) [] = Inr mws"
    "populateSanitizedServices cfg (buildNameMappings cfg) [] = Inr svcs"
    "populateSanitizedRouters cfg (buildNameMappings cfg) [] = Inr rts"
    using assms by (auto elim: SanitizeTraefikConfig_Inr)
  note mw = populate_Inr(3,4) [OF pop(1) [unfolded populate_eqs] sortKeys_sorted]
  note sv = populate_Inr(3,4) [OF pop(2) [unfolded populate_eqs] sortKeys_sorted]
  note rt = populate_Inr(3,4) [OF pop(3) [unfolded populate_eqs] sortKeys_sorted]
  show ?thesis
    by (simp add: section_renamed_def out mw sv rt transports_eq gomap.keys_fold_put gomap.invar_fold_put go_keys_def [of "[]"])
qed

text \<open>
  The sanitised configuration never has a TCP or a UDP section, whatever the input has: the
  result is built with the HTTP part only. The TCP and UDP handlers of \<open>applyConfig\<close> are
  therefore given nothing to do.
\<close>

theorem SanitizeTraefikConfig_drops_l4:
  assumes "SanitizeTraefikConfig (Some cfg) = Inr o'"
  shows "\<exists>out. o' = Some out \<and> TCP out = None \<and> UDP out = None"
  using assms by (auto elim: SanitizeTraefikConfig_Inr)

text \<open>
  When several service names collapse to one sanitised name, the service that is kept is the
  one whose original name is greatest in byte order, with its references rewritten: the result is
  determined, whatever order the map is visited in.
\<close>

theorem SanitizeTraefikConfig_service_value:
  assumes "SanitizeTraefikConfig (Some cfg) = Inr (Some out)"
    and "n \<in> set (go_keys (of_nil (Services (HTTP cfg))))"
    and "k = SanitizeResourceName n"
  shows "\<exists>r. go_get (of_nil (Services (HTTP out))) k = Some r
           \<and> sanitizeServiceRaw
               (raw_get (Services (HTTP cfg))
                  (Max {n' \<in> set (go_keys (of_nil (Services (HTTP cfg)))). SanitizeResourceName n' = k}))
               (buildNameMappings cfg) = Inr r"
proof -
  let ?S = "{n' \<in> set (sortKeys (Services (HTTP cfg))). SanitizeResourceName n' = k}"
  obtain svcs where out: "of_nil (Services (HTTP out)) = svcs"
    and pop: "populateSanitizedServices cfg (buildNameMappings cfg) [] = Inr svcs"
    using assms(1) by (auto elim: SanitizeTraefikConfig_Inr)
  note p = populate_Inr [OF pop [unfolded populate_eqs] sortKeys_sorted]
  have "Max ?S \<in> ?S" by (rule Max_in) (use assms in auto)
  then obtain r where "sanitizeServiceRaw (raw_get (Services (HTTP cfg)) (Max ?S)) (buildNameMappings cfg) = Inr r"
    using p(2) [of "Max ?S"] by auto
  moreover have "\<exists>n' \<in> set (sortKeys (Services (HTTP cfg))). SanitizeResourceName n' = k"
    using assms(2,3) by auto
  ultimately show ?thesis using p(1) [of k] out by simp
qed

section \<open>References in routers\<close>

text \<open>A reference as it appears in the output: a string is sanitised, anything else is kept.\<close>

definition ref_norm :: "iface \<Rightarrow> iface" where
  "ref_norm v = (case v of IStr s \<Rightarrow> IStr (SanitizeResourceName s) | _ \<Rightarrow> json_norm v)"

lemma ref_norm_IStr: "ref_norm v = IStr s' \<Longrightarrow> json_wf v \<Longrightarrow> \<exists>s. v = IStr s \<and> s' = SanitizeResourceName s"
  by (cases v) (auto simp: ref_norm_def)

lemma sanitize_name_list_norm:
  "map json_norm (sanitize_name_list (name_mapping ns) xs) = map ref_norm xs"
  by (auto simp: sanitize_name_list_def ref_norm_def split: option.split iface.split)

lemma sanitize_name_list_wf: "\<forall>x \<in> set xs. json_wf x \<Longrightarrow> \<forall>x \<in> set (sanitize_name_list mp xs). json_wf x"
  by (auto simp: sanitize_name_list_def split: option.split)

lemma sanitize_member_get:
  "map_get (sanitize_member (name_mapping ns) key m) k =
     (case as_str (map_get m key) of
        Some s \<Rightarrow> if k = key then IStr (SanitizeResourceName s) else map_get m k
      | None \<Rightarrow> map_get m k)"
  by (simp add: sanitize_member_def split: option.split)

lemma sanitize_member_wf: "json_wf (IMap m) \<Longrightarrow> json_wf (IMap (sanitize_member mp key m))"
  by (auto simp: sanitize_member_def simp del: json_wf_IMap split: option.split intro: json_wf_put)

lemma as_slice_wf: "json_wf v \<Longrightarrow> as_slice v = Some xs \<longleftrightarrow> v = ISlice xs"
  by (cases v) auto

lemma as_map_wf: "json_wf v \<Longrightarrow> as_map v = Some m \<longleftrightarrow> v = IMap m"
  by (cases v) auto

text \<open>What \<open>sanitizeRouterRaw\<close> does to a router object: the two references, and nothing else.\<close>

lemma sanitizeRouterRaw_obj:
  assumes wf: "json_wf (IMap m)"
  obtains m' where
    "sanitizeRouterRaw (RawJSON (IMap m)) (buildNameMappings cfg) = Inr (RawJSON (IMap m'))"
    and "map_get m' ''service'' = ref_norm (map_get m ''service'')"
    and "map_get m' ''middlewares'' =
          (case map_get m ''middlewares'' of ISlice xs \<Rightarrow> ISlice (map ref_norm xs) | v \<Rightarrow> json_norm v)"
    and "\<And>k. k \<noteq> ''service'' \<Longrightarrow> k \<noteq> ''middlewares'' \<Longrightarrow> map_get m' k = json_norm (map_get m k)"
    and "json_wf (IMap m')"
proof -
  let ?mp = "buildNameMappings cfg"
  define m1 where "m1 = sanitize_member (nm_services ?mp) ''service'' m"
  define m2 where "m2 = (case as_slice (map_get m1 ''middlewares'') of
      Some mws \<Rightarrow> go_put m1 ''middlewares'' (ISlice (sanitize_name_list (nm_middlewares ?mp) mws)) | None \<Rightarrow> m1)"
  have wf1: "json_wf (IMap m1)" using wf by (simp add: m1_def sanitize_member_wf del: json_wf_IMap)
  have mws: "map_get m1 ''middlewares'' = map_get m ''middlewares''"
    by (simp add: m1_def sanitize_member_get split: option.split)
  have wf2: "json_wf (IMap m2)"
  proof (cases "as_slice (map_get m1 ''middlewares'')")
    case (Some xs)
    then have "json_wf (ISlice xs)"
      using json_wf_map_get [OF wf1, of "''middlewares''"] as_slice_wf by metis
    then have "json_wf (ISlice (sanitize_name_list (nm_middlewares ?mp) xs))"
      using sanitize_name_list_wf [of xs "nm_middlewares ?mp"] by simp
    with wf1 Some show ?thesis by (simp add: m2_def json_wf_put del: json_wf_IMap)
  qed (use wf1 in \<open>simp add: m2_def del: json_wf_IMap\<close>)
  have eq: "sanitizeRouterRaw (RawJSON (IMap m)) ?mp = Inr (RawJSON (IMap (norm_map m2)))"
    using Marshal_wf [OF wf2] unfolding m2_def m1_def
    by (simp add: sanitizeRouterRaw_def Let_def obj_iface_def del: mappings_sel)
  have wfm: "wf_map m2" using wf2 by simp
  have svc: "map_get (norm_map m2) ''service'' = ref_norm (map_get m ''service'')"
    using wfm by (auto simp: m2_def m1_def sanitize_member_get ref_norm_def split: option.split iface.split)
  have mw: "map_get (norm_map m2) ''middlewares'' =
      (case map_get m ''middlewares'' of ISlice xs \<Rightarrow> ISlice (map ref_norm xs) | v \<Rightarrow> json_norm v)"
    using wfm json_wf_map_get [OF wf, of "''middlewares''"]
    by (auto simp: m2_def mws sanitize_name_list_norm split: option.split iface.split)
  have rest: "map_get (norm_map m2) k = json_norm (map_get m k)"
    if "k \<noteq> ''service''" "k \<noteq> ''middlewares''" for k
    using that wfm by (auto simp: m2_def m1_def sanitize_member_get split: option.split)
  have "json_wf (IMap (norm_map m2))" using json_wf_norm [OF wf2] by simp
  then show thesis using that [OF eq svc mw rest] by blast
qed

lemma raw_get_in_set: "n \<in> set (go_keys (of_nil m)) \<Longrightarrow> (n, raw_get m n) \<in> set (of_nil m)"
  by (auto simp: set_go_keys raw_get_def dest: go_get_in_set)

lemma raw_get_wf: "raws_wf m \<Longrightarrow> raw_wf (raw_get m n)"
  by (auto simp: raws_wf_def raw_get_def dest: go_get_in_set split: option.split)

lemma sanitizeRouterRaw_IMap:
  assumes "sanitizeRouterRaw raw mp = Inr (RawJSON (IMap m'))"
  shows "\<exists>m. raw = RawJSON (IMap m)"
proof (cases "unmarshal_map raw")
  case (Inl e)
  with assms show ?thesis by (auto simp: sanitizeRouterRaw_def split: if_splits)
next
  case (Inr o')
  with assms show ?thesis
    by (cases o') (auto simp: sanitizeRouterRaw_def Marshal_def obj_iface_def Let_def
        dest: unmarshal_map_Inr split: if_splits)
qed

text \<open>Where an entry of the sanitised routers comes from.\<close>

lemma sanitized_router_source:
  assumes "SanitizeTraefikConfig (Some cfg) = Inr (Some out)" and "http_wf (HTTP cfg)"
    and "(rn', RawJSON (IMap m')) \<in> set (of_nil (Routers (HTTP out)))"
  obtains rn m where "(rn, RawJSON (IMap m)) \<in> set (of_nil (Routers (HTTP cfg)))"
    and "rn' = SanitizeResourceName rn" and "json_wf (IMap m)"
    and "sanitizeRouterRaw (RawJSON (IMap m)) (buildNameMappings cfg) = Inr (RawJSON (IMap m'))"
proof -
  obtain rts where out: "of_nil (Routers (HTTP out)) = rts"
    and pop: "populateSanitizedRouters cfg (buildNameMappings cfg) [] = Inr rts"
    using assms(1) by (auto elim: SanitizeTraefikConfig_Inr)
  note p = populate_Inr [OF pop [unfolded populate_eqs] sortKeys_sorted]
  have get: "go_get rts rn' = Some (RawJSON (IMap m'))"
    using assms(3) p(4) out by (simp add: go_get_wf_iff)
  let ?S = "{n \<in> set (sortKeys (Routers (HTTP cfg))). SanitizeResourceName n = rn'}"
  define rn where "rn = Max ?S"
  from get p(1) [of rn'] have ne: "?S \<noteq> {}" by (auto split: if_splits)
  then have rn: "rn \<in> set (sortKeys (Routers (HTTP cfg)))" "SanitizeResourceName rn = rn'"
    using Max_in [of ?S] by (auto simp: rn_def)
  let ?raw = "raw_get (Routers (HTTP cfg)) rn"
  from get p(1) [of rn'] p(2) [OF rn(1)] ne
  have eq: "sanitizeRouterRaw ?raw (buildNameMappings cfg) = Inr (RawJSON (IMap m'))"
    by (auto simp: rn_def split: if_splits)
  have "raw_wf ?raw" using assms(2) by (auto simp: http_wf_def intro: raw_get_wf)
  then obtain m where m: "?raw = RawJSON (IMap m)" "json_wf (IMap m)"
    using sanitizeRouterRaw_IMap [OF eq] by (metis raw_wf.simps(2))
  show thesis
    using that [of rn m] raw_get_in_set [of rn "Routers (HTTP cfg)"] rn m eq by simp
qed

text \<open>
  C8. References stay consistent. In the sanitised configuration a router's \<open>service\<close> is the
  sanitised form of the service its source router named, each of its \<open>middlewares\<close> the sanitised
  form of the middleware at the same place; and a reference that pointed to a service or a
  middleware of the input points to one of the output.
\<close>

theorem SanitizeTraefikConfig_router_references:
  assumes "SanitizeTraefikConfig (Some cfg) = Inr (Some out)" and "http_wf (HTTP cfg)"
    and "(rn', RawJSON (IMap m')) \<in> set (of_nil (Routers (HTTP out)))"
  shows "\<exists>rn m. (rn, RawJSON (IMap m)) \<in> set (of_nil (Routers (HTTP cfg))) \<and> rn' = SanitizeResourceName rn
    \<and> map_get m' ''service'' = ref_norm (map_get m ''service'')
    \<and> (\<forall>s. map_get m ''service'' = IStr s \<and> s \<in> set (go_keys (of_nil (Services (HTTP cfg)))) \<longrightarrow>
          map_get m' ''service'' = IStr (SanitizeResourceName s)
          \<and> SanitizeResourceName s \<in> set (go_keys (of_nil (Services (HTTP out)))))
    \<and> (\<forall>xs. map_get m ''middlewares'' = ISlice xs \<longrightarrow>
          map_get m' ''middlewares'' = ISlice (map ref_norm xs)
          \<and> (\<forall>mw. IStr mw \<in> set xs \<and> mw \<in> set (go_keys (of_nil (Middlewares (HTTP cfg)))) \<longrightarrow>
               SanitizeResourceName mw \<in> set (go_keys (of_nil (Middlewares (HTTP out))))))"
proof -
  obtain mws svcs where out: "of_nil (Middlewares (HTTP out)) = mws" "of_nil (Services (HTTP out)) = svcs"
    and pop: "populateSanitizedMiddlewares cfg (buildNameMappings cfg) [] = Inr mws"
    "populateSanitizedServices cfg (buildNameMappings cfg) [] = Inr svcs"
    using assms(1) by (auto elim: SanitizeTraefikConfig_Inr)
  note keys = populate_Inr(3) [OF pop(1) [unfolded populate_eqs] sortKeys_sorted]
    populate_Inr(3) [OF pop(2) [unfolded populate_eqs] sortKeys_sorted]
  obtain rn m where src: "(rn, RawJSON (IMap m)) \<in> set (of_nil (Routers (HTTP cfg)))"
      "rn' = SanitizeResourceName rn" "json_wf (IMap m)"
    and eq: "sanitizeRouterRaw (RawJSON (IMap m)) (buildNameMappings cfg) = Inr (RawJSON (IMap m'))"
    using sanitized_router_source [OF assms] by blast
  obtain m'' where m'': "sanitizeRouterRaw (RawJSON (IMap m)) (buildNameMappings cfg) = Inr (RawJSON (IMap m''))"
    and svc: "map_get m'' ''service'' = ref_norm (map_get m ''service'')"
    and mw: "map_get m'' ''middlewares'' =
       (case map_get m ''middlewares'' of ISlice xs \<Rightarrow> ISlice (map ref_norm xs) | v \<Rightarrow> json_norm v)"
    using sanitizeRouterRaw_obj [OF src(3)] by metis
  from m'' eq have "m'' = m'" by simp
  with src svc mw keys out show ?thesis
    by (intro exI [of _ rn] exI [of _ m]) (auto simp: ref_norm_def)
qed

section \<open>Iteration order and failure\<close>

text \<open>Two configurations with the same maps, visited in any order.\<close>

definition same_map :: "'v gomap option \<Rightarrow> 'v gomap option \<Rightarrow> bool" where
  "same_map m m' \<longleftrightarrow> wf_map (of_nil m) \<and> wf_map (of_nil m') \<and> set (of_nil m) = set (of_nil m')"

definition same_http :: "HTTPConfig \<Rightarrow> HTTPConfig \<Rightarrow> bool" where
  "same_http h h' \<longleftrightarrow>
     same_map (Middlewares h) (Middlewares h') \<and> same_map (Routers h) (Routers h')
   \<and> same_map (Services h) (Services h') \<and> same_map (ServersTransports h) (ServersTransports h')"

lemma same_map_sortKeys: "same_map m m' \<Longrightarrow> sortKeys m = sortKeys m'"
  by (auto simp: same_map_def sortKeys_def intro: sorted_keys_perm)

lemma same_map_raw_get: "same_map m m' \<Longrightarrow> raw_get m = raw_get m'"
  by (auto simp: same_map_def raw_get_def fun_eq_iff go_get_perm [of "of_nil m" "of_nil m'"])

lemmas same_http_simps = same_map_sortKeys same_map_raw_get

text \<open>
  C31. The result of \<open>SanitizeTraefikConfig\<close>, error or configuration, does not depend on the order
  in which Go visits its maps.
\<close>

theorem SanitizeTraefikConfig_order_independent:
  assumes "same_http (HTTP cfg) (HTTP cfg')"
  shows "SanitizeTraefikConfig (Some cfg) = SanitizeTraefikConfig (Some cfg')"
proof -
  have keys: "sortKeys (Middlewares (HTTP cfg)) = sortKeys (Middlewares (HTTP cfg'))"
    "sortKeys (Routers (HTTP cfg)) = sortKeys (Routers (HTTP cfg'))"
    "sortKeys (Services (HTTP cfg)) = sortKeys (Services (HTTP cfg'))"
    "sortKeys (ServersTransports (HTTP cfg)) = sortKeys (ServersTransports (HTTP cfg'))"
    using assms by (auto simp: same_http_def same_http_simps)
  have raws: "raw_get (Middlewares (HTTP cfg)) = raw_get (Middlewares (HTTP cfg'))"
    "raw_get (Routers (HTTP cfg)) = raw_get (Routers (HTTP cfg'))"
    "raw_get (Services (HTTP cfg)) = raw_get (Services (HTTP cfg'))"
    "raw_get (ServersTransports (HTTP cfg)) = raw_get (ServersTransports (HTTP cfg'))"
    using assms by (auto simp: same_http_def same_http_simps)
  have "buildNameMappings cfg = buildNameMappings cfg'"
    by (simp only: buildNameMappings_def keys)
  then show ?thesis
    by (simp only: SanitizeTraefikConfig_def populateSanitizedMiddlewares_def populateSanitizedServices_def
        populateSanitizedTransports_def populateSanitizedRouters_def keys raws option.case)
qed

section \<open>A concrete configuration\<close>

definition example_cfg :: TraefikConfig where
  "example_cfg =
     \<lparr>HTTP = \<lparr>Middlewares = Some [(''auth.1'', RawJSON (IMap []))],
        Routers = Some [(''web.r'', RawJSON (IMap [(''service'', IStr ''my.svc''),
                                           (''middlewares'', ISlice [IStr ''auth.1''])]))],
        Services = Some [(''my.svc'', RawJSON (IMap [])), (''my-svc'', RawJSON INil)],
        ServersTransports = None\<rparr>,
      TCP = Some \<lparr>l4_Routers = None, l4_Services = None, l4_ServersTransports = None\<rparr>,
      UDP = None\<rparr>"

definition example_out :: TraefikConfig where
  "example_out =
     \<lparr>HTTP = \<lparr>Middlewares = Some [(''auth-1'', RawJSON (IMap []))],
        Routers = Some [(''web-r'', RawJSON (IMap [(''middlewares'', ISlice [IStr ''auth-1'']),
                                           (''service'', IStr ''my-svc'')]))],
        Services = Some [(''my-svc'', RawJSON (IMap []))],
        ServersTransports = Some []\<rparr>,
      TCP = None, UDP = None\<rparr>"

lemma example_sanitized: "SanitizeTraefikConfig (Some example_cfg) = Inr (Some example_out)"
  by code_simp

theorem SanitizeTraefikConfig_keys_witness:
  "SanitizeTraefikConfig (Some example_cfg) = Inr (Some example_out)
   \<and> section_renamed Services example_cfg example_out"
  using SanitizeTraefikConfig_keys [OF example_sanitized] example_sanitized by simp

theorem SanitizeTraefikConfig_drops_l4_witness:
  "TCP example_cfg \<noteq> None \<and> (\<exists>out. Some example_out = Some out \<and> TCP out = None \<and> UDP out = None)"
  using SanitizeTraefikConfig_drops_l4 [OF example_sanitized] by (simp add: example_cfg_def)

lemma example_keys:
  "set (go_keys (of_nil (Services (HTTP example_cfg)))) = {''my.svc'', ''my-svc''}"
  by (auto simp: example_cfg_def of_nil_def go_keys_def)

lemma example_names:
  "SanitizeResourceName ''my.svc'' = ''my-svc''" "SanitizeResourceName ''my-svc'' = ''my-svc''"
  "SanitizeResourceName ''web.r'' = ''web-r''" "SanitizeResourceName ''auth.1'' = ''auth-1''"
  by code_simp+

theorem SanitizeTraefikConfig_service_value_witness:
  "\<exists>r. go_get (of_nil (Services (HTTP example_out))) ''my-svc'' = Some r
     \<and> sanitizeServiceRaw
         (raw_get (Services (HTTP example_cfg))
            (Max {n' \<in> set (go_keys (of_nil (Services (HTTP example_cfg)))). SanitizeResourceName n' = ''my-svc''}))
         (buildNameMappings example_cfg) = Inr r"
  by (rule SanitizeTraefikConfig_service_value [OF example_sanitized, of "''my.svc''"])
    (simp_all add: example_keys example_names)

lemma example_cfg_wf: "http_wf (HTTP example_cfg)"
  by (simp add: example_cfg_def http_wf_def raws_wf_def of_nil_def wf_map_def)

theorem SanitizeTraefikConfig_router_references_witness:
  "\<exists>rn m. (rn, RawJSON (IMap m)) \<in> set (of_nil (Routers (HTTP example_cfg)))
     \<and> ''web-r'' = SanitizeResourceName rn \<and> IStr ''my-svc'' = ref_norm (map_get m ''service'')"
proof -
  have "(''web-r'', RawJSON (IMap [(''middlewares'', ISlice [IStr ''auth-1'']), (''service'', IStr ''my-svc'')]))
      \<in> set (of_nil (Routers (HTTP example_out)))"
    by (simp add: example_out_def)
  from SanitizeTraefikConfig_router_references [OF example_sanitized example_cfg_wf this]
  show ?thesis by (auto simp: map_get_def gomap_simps)
qed

theorem SanitizeTraefikConfig_order_independent_witness:
  "SanitizeTraefikConfig (Some example_cfg) =
   SanitizeTraefikConfig (Some (example_cfg\<lparr>HTTP := (HTTP example_cfg)
      \<lparr>Services := Some [(''my-svc'', RawJSON INil), (''my.svc'', RawJSON (IMap []))]\<rparr>\<rparr>))"
  by (rule SanitizeTraefikConfig_order_independent)
    (auto simp: example_cfg_def same_http_def same_map_def of_nil_def wf_map_def)

end
