(* ===== verification/Routing.thy ===== *)
theory Routing
  imports TraefikConfig
begin

text \<open>
  HTTP routers (\<^verbatim>\<open>internal/transform/routing/routing.go\<close>): a router of the configuration becomes
  an \<open>IngressRoute\<close> object. One definition per function of the file.

  Shown: which routers are rejected and with which error; the route an accepted router yields;
  that the entry-point annotation mirrors the entry points of the spec; and that the object
  carries the managed label and annotation whenever their keys are set.
\<close>

definition IngressClassAnnotation :: string where
  "IngressClassAnnotation = ''traefikconfig.ingress.kubernetes.io/router.ingressclass''"

definition RouterEntryPointsAnnotation :: string where
  "RouterEntryPointsAnnotation = ''traefikconfig.ingress.kubernetes.io/router.entrypoints''"

record RouterConfig =
  rc_Namespace :: string
  rc_ManagedLabelKey :: string
  rc_ManagedLabelValue :: string
  rc_ManagedAnnoKey :: string
  rc_ManagedAnnoValue :: string
  rc_IngressClass :: string

section \<open>Entry points and middlewares\<close>

definition parseEntryPointsFromStrings :: "string list \<Rightarrow> string list" where
  "parseEntryPointsFromStrings vals = filter (\<lambda>s. s \<noteq> []) (map TrimSpace vals)"

fun parseEntryPointsFromInterface :: "iface list \<Rightarrow> string list" where
  "parseEntryPointsFromInterface [] = []"
| "parseEntryPointsFromInterface (raw # vals) =
     (case as_str raw of
        Some s \<Rightarrow>
          (let s = TrimSpace s in
           if s \<noteq> [] then s # parseEntryPointsFromInterface vals else parseEntryPointsFromInterface vals)
      | None \<Rightarrow> parseEntryPointsFromInterface vals)"

text \<open>A nil result (\<open>None\<close>) differs from an empty slice: it encodes to \<open>null\<close>.\<close>

definition extractEntryPoints :: "obj option \<Rightarrow> string list option" where
  "extractEntryPoints spec =
     (case spec of
        None \<Rightarrow> None
      | Some m \<Rightarrow>
          (case as_slice (map_get m ''entryPoints'') of
             Some v \<Rightarrow> Some (parseEntryPointsFromInterface v)
           | None \<Rightarrow>
               (case as_strs (map_get m ''entryPoints'') of
                  Some v \<Rightarrow> Some (parseEntryPointsFromStrings v)
                | None \<Rightarrow> None)))"

definition strs_iface :: "string list option \<Rightarrow> iface" where
  "strs_iface eps = (case eps of None \<Rightarrow> INilStrSlice | Some xs \<Rightarrow> IStrSlice xs)"

definition parseMiddlewares :: "obj option \<Rightarrow> string list" where
  "parseMiddlewares r =
     (case r of
        None \<Rightarrow> []
      | Some m \<Rightarrow>
          (case as_slice (map_get m ''middlewares'') of
             None \<Rightarrow> []
           | Some xs \<Rightarrow> List.map_filter as_str xs))"

section \<open>The IngressRoute\<close>

text \<open>
  \<open>AnnotateRouterEntryPointsIfPresent(u, meta)\<close>: the new \<open>meta\<close>. \<open>u\<close> and \<open>meta\<close> are never nil at
  its calls.
\<close>

definition AnnotateRouterEntryPointsIfPresent :: "obj \<Rightarrow> obj \<Rightarrow> obj" where
  "AnnotateRouterEntryPointsIfPresent u meta =
     (case as_map (map_get u ''spec'') of
        None \<Rightarrow> meta
      | Some spec \<Rightarrow>
          (case extractEntryPoints (Some spec) of
             None \<Rightarrow> meta
           | Some [] \<Rightarrow> meta
           | Some eps \<Rightarrow>
               let anns = (case as_map (map_get meta ''annotations'') of None \<Rightarrow> [] | Some a \<Rightarrow> a);
                   anns = go_put anns RouterEntryPointsAnnotation (IStr (Join eps '',''))
               in go_put meta ''annotations'' (IMap anns)))"

text \<open>
  \<open>int(priorityVal)\<close>: truncation towards zero. Go leaves the conversion of a value that does not
  fit to the platform; on amd64 it is the least integer, which is what the model returns.
\<close>

definition float_to_int :: "float64 \<Rightarrow> 64 word" where
  "float_to_int x =
     (case x of
        Fin r \<Rightarrow>
          (let n = (if r < 0 then - floor (- r) else floor r) in
           if - (2 ^ 63) \<le> n \<and> n < 2 ^ 63 then word_of_int n else word_of_int (- (2 ^ 63)))
      | _ \<Rightarrow> word_of_int (- (2 ^ 63)))"

definition float_nonzero :: "float64 \<Rightarrow> bool" where
  "float_nonzero x \<longleftrightarrow> x \<noteq> Fin 0"

definition buildRoute :: "string \<Rightarrow> string \<Rightarrow> string list \<Rightarrow> float64 \<Rightarrow> obj" where
  "buildRoute rule serviceName mws priorityVal =
     (let route =
        [(''match'', IStr rule), (''kind'', IStr ''Rule''),
         (''services'', ISlice [IMap [(''name'', IStr serviceName), (''kind'', IStr ''TraefikService'')]])];
          route =
        (if mws \<noteq> [] then go_put route ''middlewares'' (ISlice (map (\<lambda>mw. IMap [(''name'', IStr mw)]) mws))
         else route)
      in if float_nonzero priorityVal then go_put route ''priority'' (IInt (float_to_int priorityVal))
         else route)"

definition router_meta :: "string \<Rightarrow> RouterConfig \<Rightarrow> obj" where
  "router_meta name cfg =
     (let meta = [(''name'', IStr name), (''namespace'', IStr (rc_Namespace cfg))];
          labelKey = TrimSpace (rc_ManagedLabelKey cfg);
          meta = (if labelKey \<noteq> []
                  then go_put meta ''labels'' (IMap [(labelKey, IStr (rc_ManagedLabelValue cfg))]) else meta);
          annoKey = TrimSpace (rc_ManagedAnnoKey cfg);
          ann = (if annoKey \<noteq> [] then [(annoKey, IStr (rc_ManagedAnnoValue cfg))] else []);
          ann = (if rc_IngressClass cfg \<noteq> []
                 then go_put ann IngressClassAnnotation (IStr (rc_IngressClass cfg)) else ann)
      in if ann \<noteq> [] then go_put meta ''annotations'' (IMap ann) else meta)"

definition TransformRouterToIngressRoute :: "string \<Rightarrow> raw_message \<Rightarrow> RouterConfig \<Rightarrow> obj result" where
  "TransformRouterToIngressRoute name raw cfg =
     (let meta = router_meta name cfg in
      bindE (wrapE (''router '' @ name @ '' unmarshal'') (unmarshal_map raw)) (\<lambda>r.
        let m = of_nil r;
            eps = extractEntryPoints r;
            rule = str_or_empty (map_get m ''rule'');
            serviceName = str_or_empty (map_get m ''service'');
            priorityVal = (case as_float (map_get m ''priority'') of None \<Rightarrow> Fin 0 | Some x \<Rightarrow> x);
            mws = parseMiddlewares r;
            tlsObj = (case as_map (map_get m ''tls'') of None \<Rightarrow> [] | Some t \<Rightarrow> t)
        in if rule = [] \<and> serviceName = []
           then Inl (ErrMsg (''router '' @ name @ '': missing rule and service''))
           else if rule = [] then Inl (ErrMsg (''router '' @ name @ '': missing rule''))
           else if serviceName = [] then Inl (ErrMsg (''router '' @ name @ '': missing service''))
           else
             let route = buildRoute rule serviceName mws priorityVal;
                 spec = [(''entryPoints'', strs_iface eps), (''routes'', ISlice [IMap route])];
                 spec = (if tlsObj \<noteq> [] then go_put spec ''tls'' (IMap tlsObj) else spec);
                 u = [(''apiVersion'', IStr GroupVersion), (''kind'', IStr ''IngressRoute''),
                      (''metadata'', IMap meta), (''spec'', IMap spec)]
             in Inr (go_put u ''metadata'' (IMap (AnnotateRouterEntryPointsIfPresent u meta)))))"

section \<open>Lemmas\<close>

lemma parseEntryPointsFromInterface_eq:
  "parseEntryPointsFromInterface xs = parseEntryPointsFromStrings (List.map_filter as_str xs)"
  by (induction xs) (auto simp: parseEntryPointsFromStrings_def List.map_filter_def Let_def split: option.split)

lemma parseEntryPointsFromStrings_idem [simp]:
  "parseEntryPointsFromStrings (parseEntryPointsFromStrings xs) = parseEntryPointsFromStrings xs"
  by (induction xs) (auto simp: parseEntryPointsFromStrings_def)

lemma extractEntryPoints_trimmed:
  "extractEntryPoints s = Some eps \<Longrightarrow> parseEntryPointsFromStrings eps = eps"
  by (auto simp: extractEntryPoints_def parseEntryPointsFromInterface_eq split: option.splits)

lemmas get_Cons = map_get_def gomap_simps

lemma str_or_empty_conv: "str_or_empty v \<noteq> [] \<longleftrightarrow> (\<exists>s. v = IStr s \<and> s \<noteq> [])"
  by (cases v) (auto simp: str_or_empty_def)

lemma str_or_empty_IStr [simp]: "str_or_empty (IStr s) = s"
  by (simp add: str_or_empty_def)

lemma map_get_Nil [simp]: "map_get [] k = INil"
  by (simp add: map_get_def)

lemma Transform_Inr:
  assumes "TransformRouterToIngressRoute name raw cfg = Inr u"
  obtains m where "raw = RawJSON (IMap m)"
proof (cases "unmarshal_map raw")
  case (Inr o')
  with assms that unmarshal_map_Inr [OF Inr] show thesis
    by (auto simp: TransformRouterToIngressRoute_def str_or_empty_def of_nil_def Let_def)
qed (use assms in \<open>simp add: TransformRouterToIngressRoute_def Let_def\<close>)

text \<open>
  A router is accepted exactly when it is a JSON object whose \<open>rule\<close> and \<open>service\<close> are strings
  that are not empty; nothing else about it can make the transformation fail.
\<close>

theorem TransformRouterToIngressRoute_accepts:
  "(\<exists>u. TransformRouterToIngressRoute name raw cfg = Inr u) \<longleftrightarrow>
   (\<exists>m rule svc. raw = RawJSON (IMap m)
      \<and> map_get m ''rule'' = IStr rule \<and> rule \<noteq> [] \<and> map_get m ''service'' = IStr svc \<and> svc \<noteq> [])"
  (is "?L \<longleftrightarrow> ?R")
proof
  assume ?L
  then obtain u where u: "TransformRouterToIngressRoute name raw cfg = Inr u" ..
  then obtain m where m: "raw = RawJSON (IMap m)" by (rule Transform_Inr)
  with u have "str_or_empty (map_get m ''rule'') \<noteq> []" "str_or_empty (map_get m ''service'') \<noteq> []"
    by (auto simp: TransformRouterToIngressRoute_def Let_def of_nil_def split: if_splits)
  with m show ?R by (auto simp: str_or_empty_conv)
next
  assume ?R
  then show ?L by (auto simp: TransformRouterToIngressRoute_def Let_def of_nil_def)
qed

text \<open>The object an accepted router yields, before the annotation is added.\<close>

definition router_spec :: "obj \<Rightarrow> obj" where
  "router_spec m =
     (let spec = [(''entryPoints'', strs_iface (extractEntryPoints (Some m))),
                  (''routes'', ISlice [IMap (buildRoute (str_or_empty (map_get m ''rule''))
                     (str_or_empty (map_get m ''service'')) (parseMiddlewares (Some m))
                     (case as_float (map_get m ''priority'') of None \<Rightarrow> Fin 0 | Some x \<Rightarrow> x))])];
          tlsObj = (case as_map (map_get m ''tls'') of None \<Rightarrow> [] | Some t \<Rightarrow> t)
      in if tlsObj \<noteq> [] then go_put spec ''tls'' (IMap tlsObj) else spec)"

lemma Transform_names:
  assumes "TransformRouterToIngressRoute name (RawJSON (IMap m)) cfg = Inr u"
  shows "str_or_empty (map_get m ''rule'') \<noteq> []" "str_or_empty (map_get m ''service'') \<noteq> []"
  using assms by (auto simp: TransformRouterToIngressRoute_def Let_def of_nil_def split: if_splits)

lemma Transform_eq:
  assumes "TransformRouterToIngressRoute name (RawJSON (IMap m)) cfg = Inr u"
  shows "u = (let u0 = [(''apiVersion'', IStr GroupVersion), (''kind'', IStr ''IngressRoute''),
                (''metadata'', IMap (router_meta name cfg)), (''spec'', IMap (router_spec m))]
              in go_put u0 ''metadata'' (IMap (AnnotateRouterEntryPointsIfPresent u0 (router_meta name cfg))))"
proof -
  note n = Transform_names [OF assms]
  show ?thesis using assms n
    unfolding TransformRouterToIngressRoute_def router_spec_def Let_def of_nil_def
    by (simp only: unmarshal_map_simps wrapE_simps bindE_simps option.case if_False sum.inject simp_thms)
qed

lemma Transform_Inr_eq:
  assumes "TransformRouterToIngressRoute name (RawJSON (IMap m)) cfg = Inr u"
  shows "map_get u ''spec'' = IMap (router_spec m)"
    and "map_get u ''metadata'' =
      IMap (AnnotateRouterEntryPointsIfPresent [(''spec'', IMap (router_spec m))] (router_meta name cfg))"
    and "map_get u ''kind'' = IStr ''IngressRoute''" and "map_get u ''apiVersion'' = IStr GroupVersion"
  by (simp_all add: Transform_eq [OF assms] Let_def AnnotateRouterEntryPointsIfPresent_def get_Cons)

lemma router_spec_get:
  "map_get (router_spec m) ''entryPoints'' = strs_iface (extractEntryPoints (Some m))"
  "map_get (router_spec m) ''routes'' = ISlice [IMap (buildRoute (str_or_empty (map_get m ''rule''))
      (str_or_empty (map_get m ''service'')) (parseMiddlewares (Some m))
      (case as_float (map_get m ''priority'') of None \<Rightarrow> Fin 0 | Some x \<Rightarrow> x))]"
  by (auto simp: router_spec_def get_Cons Let_def split: option.split list.split)

lemma buildRoute_get:
  "map_get (buildRoute rule svc mws p) ''match'' = IStr rule"
  "map_get (buildRoute rule svc mws p) ''kind'' = IStr ''Rule''"
  "map_get (buildRoute rule svc mws p) ''services'' =
     ISlice [IMap [(''name'', IStr svc), (''kind'', IStr ''TraefikService'')]]"
  "map_get (buildRoute rule svc mws p) ''middlewares'' =
     (if mws = [] then INil else ISlice (map (\<lambda>mw. IMap [(''name'', IStr mw)]) mws))"
  "map_get (buildRoute rule svc mws p) ''priority'' =
     (if float_nonzero p then IInt (float_to_int p) else INil)"
  by (auto simp: buildRoute_def Let_def get_Cons)

lemma parseMiddlewares_strings:
  "map (\<lambda>mw. IMap [(''name'', IStr mw)]) (parseMiddlewares (Some m)) =
     (case map_get m ''middlewares'' of ISlice xs \<Rightarrow> [IMap [(''name'', IStr s)]. IStr s \<leftarrow> xs] | _ \<Rightarrow> [])"
proof -
  have "map (\<lambda>mw. IMap [(''name'', IStr mw)]) (List.map_filter as_str xs) = [IMap [(''name'', IStr s)]. IStr s \<leftarrow> xs]" for xs
    by (induction xs) (auto simp: List.map_filter_def split: iface.split)
  then show ?thesis by (auto simp: parseMiddlewares_def List.map_filter_def split: iface.split)
qed

lemma float_to_int_truncates:
  assumes "\<bar>r\<bar> < 2 ^ 63"
  shows "sint (float_to_int (Fin r)) = (if r < 0 then \<lceil>r\<rceil> else \<lfloor>r\<rfloor>)"
proof -
  let ?n = "if r < 0 then \<lceil>r\<rceil> else \<lfloor>r\<rfloor>"
  from assms have "- (2 ^ 63) < r" "r < 2 ^ 63" by (simp_all add: abs_less_iff)
  then have n: "- (2 ^ 63) \<le> ?n" "?n < 2 ^ 63" by (auto simp: le_ceiling_iff floor_less_iff ceiling_less_iff le_floor_iff)
  then have "float_to_int (Fin r) = word_of_int ?n" by (auto simp: float_to_int_def ceiling_def Let_def)
  moreover have "signed_take_bit 63 ?n = ?n" using n by (intro signed_take_bit_int_eq_self) simp_all
  ultimately show ?thesis by (simp add: sint_sbintrunc')
qed

text \<open>
  C32. The IngressRoute of an accepted router has one route: it matches the router's rule, sends to
  the router's service as a TraefikService, and lists the router's middlewares that are strings, each
  as an object with its name, in their order; no \<open>middlewares\<close> member is written when there are none. A
  priority is written only when it is a number other than zero, truncated towards zero if the result fits
  into an \<open>int\<close>.
\<close>

theorem TransformRouterToIngressRoute_route:
  assumes "TransformRouterToIngressRoute name (RawJSON (IMap m)) cfg = Inr u"
  shows "\<exists>spec route rule svc.
    map_get u ''kind'' = IStr ''IngressRoute'' \<and> map_get u ''spec'' = IMap spec
    \<and> map_get spec ''routes'' = ISlice [IMap route]
    \<and> map_get m ''rule'' = IStr rule \<and> map_get route ''match'' = IStr rule
    \<and> map_get m ''service'' = IStr svc
    \<and> map_get route ''services'' = ISlice [IMap [(''name'', IStr svc), (''kind'', IStr ''TraefikService'')]]
    \<and> map_get route ''middlewares'' =
        (case map_get m ''middlewares'' of
           ISlice xs \<Rightarrow>
             let mws = [IMap [(''name'', IStr s)]. IStr s \<leftarrow> xs] in if mws = [] then INil else ISlice mws
         | _ \<Rightarrow> INil)
    \<and> (case map_get m ''priority'' of
         IFloat64 x \<Rightarrow>
           if x = Fin 0 then map_get route ''priority'' = INil
           else \<exists>p. map_get route ''priority'' = IInt p
             \<and> (\<forall>r. x = Fin r \<and> \<bar>r\<bar> < 2 ^ 63 \<longrightarrow> sint p = (if r < 0 then \<lceil>r\<rceil> else \<lfloor>r\<rfloor>))
       | _ \<Rightarrow> map_get route ''priority'' = INil)"
proof -
  from Transform_names [OF assms]
  obtain rule svc where rs: "map_get m ''rule'' = IStr rule" "map_get m ''service'' = IStr svc"
    by (auto simp: str_or_empty_conv)
  let ?p = "case as_float (map_get m ''priority'') of None \<Rightarrow> Fin 0 | Some x \<Rightarrow> x"
  let ?mws = "parseMiddlewares (Some m)"
  have mw: "(if ?mws = [] then INil else ISlice (map (\<lambda>mw. IMap [(''name'', IStr mw)]) ?mws)) =
      (case map_get m ''middlewares'' of
         ISlice xs \<Rightarrow>
           let mws = [IMap [(''name'', IStr s)]. IStr s \<leftarrow> xs] in if mws = [] then INil else ISlice mws
       | _ \<Rightarrow> INil)"
    unfolding parseMiddlewares_strings map_is_Nil_conv [of "\<lambda>mw. IMap [(''name'', IStr mw)]" ?mws, symmetric]
    by (simp add: Let_def split: iface.split)
  have pr: "case map_get m ''priority'' of
       IFloat64 x \<Rightarrow>
         if x = Fin 0 then map_get (buildRoute rule svc ?mws ?p) ''priority'' = INil
         else \<exists>p. map_get (buildRoute rule svc ?mws ?p) ''priority'' = IInt p
           \<and> (\<forall>r. x = Fin r \<and> \<bar>r\<bar> < 2 ^ 63 \<longrightarrow> sint p = (if r < 0 then \<lceil>r\<rceil> else \<lfloor>r\<rfloor>))
     | _ \<Rightarrow> map_get (buildRoute rule svc ?mws ?p) ''priority'' = INil"
    using float_to_int_truncates by (auto simp: buildRoute_get float_nonzero_def split: iface.split)
  show ?thesis
    by (rule exI [of _ "router_spec m"], rule exI [of _ "buildRoute rule svc ?mws ?p"], rule exI [of _ rule], rule exI [of _ svc])
      (intro conjI Transform_Inr_eq(1,3) [OF assms] pr, simp_all only: router_spec_get buildRoute_get rs str_or_empty_IStr mw)
qed

lemma router_meta_get:
  "map_get (router_meta name cfg) ''name'' = IStr name"
  "map_get (router_meta name cfg) ''namespace'' = IStr (rc_Namespace cfg)"
  "TrimSpace (rc_ManagedLabelKey cfg) \<noteq> [] \<Longrightarrow>
     map_get (router_meta name cfg) ''labels'' =
       IMap [(TrimSpace (rc_ManagedLabelKey cfg), IStr (rc_ManagedLabelValue cfg))]"
  by (auto simp: router_meta_def Let_def get_Cons)

text \<open>
  The annotation mirrors the spec: when the router has entry points, the annotation
  \<open>router.entrypoints\<close> of the object is their comma-separated list, with surrounding white space
  and empty names removed, and the spec has the same list. Read back by splitting at commas it is
  that list again, unless an entry point itself contains a comma.
\<close>

theorem TransformRouterToIngressRoute_entrypoints_annotation:
  assumes "TransformRouterToIngressRoute name (RawJSON (IMap m)) cfg = Inr u"
    and "extractEntryPoints (Some m) = Some eps" and "eps \<noteq> []"
  shows "\<exists>meta anns spec ann. map_get u ''metadata'' = IMap meta \<and> map_get meta ''annotations'' = IMap anns
    \<and> map_get anns RouterEntryPointsAnnotation = IStr ann
    \<and> map_get u ''spec'' = IMap spec \<and> map_get spec ''entryPoints'' = IStrSlice eps
    \<and> ((\<forall>e \<in> set eps. CHR '','' \<notin> set e) \<longrightarrow> Split ann (CHR '','') = eps)"
proof -
  have ep: "extractEntryPoints (Some (router_spec m)) = Some eps"
    using assms(2) extractEntryPoints_trimmed [OF assms(2)]
    by (simp add: extractEntryPoints_def [of "Some (router_spec m)"] router_spec_get strs_iface_def)
  obtain e es where eps: "eps = e # es" using assms(3) by (cases eps) auto
  define meta where
    "meta = AnnotateRouterEntryPointsIfPresent [(''spec'', IMap (router_spec m))] (router_meta name cfg)"
  obtain anns where anns: "map_get meta ''annotations'' = IMap anns"
      "map_get anns RouterEntryPointsAnnotation = IStr (Join eps '','')"
    using ep by (simp add: meta_def AnnotateRouterEntryPointsIfPresent_def get_Cons eps Let_def)
  moreover have "map_get (router_spec m) ''entryPoints'' = IStrSlice eps"
    by (simp add: router_spec_get assms(2) strs_iface_def)
  moreover note Transform_Inr_eq(1,2) [OF assms(1), folded meta_def] Split_Join [OF assms(3)]
  ultimately show ?thesis by blast
qed

section \<open>The shape of an IngressRoute\<close>

text \<open>
  What the resource type \<^verbatim>\<open>IngressRoute\<close> of the API asks of a document, member by member: the types of the members,
  which of them must be there, and which names they may have.
\<close>

fun string_map :: "iface \<Rightarrow> bool" where
  "string_map INil = True"
| "string_map (IMap m) = list_all (\<lambda>(k, v). as_str v \<noteq> None) m"
| "string_map _ = False"

definition meta_typed :: "obj \<Rightarrow> bool" where
  "meta_typed meta \<longleftrightarrow>
     set (go_keys meta) \<subseteq> {''name'', ''namespace'', ''labels'', ''annotations''}
   \<and> as_str (map_get meta ''name'') \<noteq> None \<and> as_str (map_get meta ''namespace'') \<noteq> None
   \<and> string_map (map_get meta ''labels'') \<and> string_map (map_get meta ''annotations'')"

fun reference_typed :: "string list \<Rightarrow> iface \<Rightarrow> bool" where
  "reference_typed members (IMap r) \<longleftrightarrow>
     set (go_keys r) = set members \<and> list_all (\<lambda>k. as_str (map_get r k) \<noteq> None) members"
| "reference_typed members _ \<longleftrightarrow> False"

fun references_typed :: "string list \<Rightarrow> iface \<Rightarrow> bool" where
  "references_typed members (ISlice xs) \<longleftrightarrow> xs \<noteq> [] \<and> list_all (reference_typed members) xs"
| "references_typed members _ \<longleftrightarrow> False"

definition route_typed :: "obj \<Rightarrow> bool" where
  "route_typed r \<longleftrightarrow>
     set (go_keys r) \<subseteq> {''match'', ''kind'', ''services'', ''middlewares'', ''priority''}
   \<and> str_or_empty (map_get r ''match'') \<noteq> [] \<and> map_get r ''kind'' = IStr ''Rule''
   \<and> references_typed [''name'', ''kind''] (map_get r ''services'')
   \<and> (''middlewares'' \<in> set (go_keys r) \<longrightarrow> references_typed [''name''] (map_get r ''middlewares''))
   \<and> (''priority'' \<in> set (go_keys r) \<longrightarrow> (case map_get r ''priority'' of IInt _ \<Rightarrow> True | _ \<Rightarrow> False))"

definition spec_typed :: "obj \<Rightarrow> bool" where
  "spec_typed spec \<longleftrightarrow>
     set (go_keys spec) \<subseteq> {''entryPoints'', ''routes'', ''tls''}
   \<and> (case map_get spec ''entryPoints'' of
        INilStrSlice \<Rightarrow> True
      | IStrSlice eps \<Rightarrow> list_all (\<lambda>e. e \<noteq> [] \<and> TrimSpace e = e) eps
      | _ \<Rightarrow> False)
   \<and> (case map_get spec ''routes'' of ISlice [IMap r] \<Rightarrow> route_typed r | _ \<Rightarrow> False)
   \<and> (''tls'' \<in> set (go_keys spec) \<longrightarrow> (case map_get spec ''tls'' of IMap t \<Rightarrow> t \<noteq> [] | _ \<Rightarrow> False))"

definition ingress_route_typed :: "obj \<Rightarrow> bool" where
  "ingress_route_typed u \<longleftrightarrow>
     set (go_keys u) = {''apiVersion'', ''kind'', ''metadata'', ''spec''}
   \<and> map_get u ''apiVersion'' = IStr ''traefik.io/v1alpha1'' \<and> map_get u ''kind'' = IStr ''IngressRoute''
   \<and> (case map_get u ''metadata'' of IMap meta \<Rightarrow> meta_typed meta | _ \<Rightarrow> False)
   \<and> (case map_get u ''spec'' of IMap spec \<Rightarrow> spec_typed spec | _ \<Rightarrow> False)"

lemma string_map_put:
  "string_map (IMap m) \<Longrightarrow> string_map (IMap (go_put m k (IStr v)))"
  using set_go_put_subset [of m k "IStr v"] by (fastforce simp: list_all_iff)

lemma router_meta_typed: "meta_typed (router_meta name cfg)"
  by (auto simp: meta_typed_def router_meta_def Let_def get_Cons go_keys_def go_put_def)

lemma Annotate_typed:
  assumes "meta_typed meta"
  shows "meta_typed (AnnotateRouterEntryPointsIfPresent u meta)"
proof -
  have "string_map (IMap (go_put (case as_map (map_get meta ''annotations'') of None \<Rightarrow> [] | Some a \<Rightarrow> a) k (IStr v)))" for k v
    using assms by (intro string_map_put) (cases "map_get meta ''annotations''"; simp add: meta_typed_def)
  with assms show ?thesis
    by (auto simp: AnnotateRouterEntryPointsIfPresent_def meta_typed_def set_go_keys_put Let_def
        simp del: string_map.simps split: option.split list.split)
qed

lemma buildRoute_typed:
  assumes "rule \<noteq> []"
  shows "route_typed (buildRoute rule svc mws p)"
proof -
  have k: "set (go_keys (buildRoute rule svc mws p)) = {''match'', ''kind'', ''services''}
      \<union> (if mws = [] then {} else {''middlewares''}) \<union> (if float_nonzero p then {''priority''} else {})"
    by (simp add: buildRoute_def Let_def set_go_keys_put) (auto simp: go_keys_def)
  show ?thesis
    unfolding route_typed_def k buildRoute_get
    using assms by (auto simp: list_all_iff map_get_Cons go_keys_def)
qed

lemma extractEntryPoints_typed:
  "case strs_iface (extractEntryPoints s) of
     INilStrSlice \<Rightarrow> True | IStrSlice eps \<Rightarrow> list_all (\<lambda>e. e \<noteq> [] \<and> TrimSpace e = e) eps | _ \<Rightarrow> False"
proof -
  have "list_all (\<lambda>e. e \<noteq> [] \<and> TrimSpace e = e) (parseEntryPointsFromStrings xs)" for xs
    by (auto simp: parseEntryPointsFromStrings_def list_all_iff)
  then show ?thesis
    by (auto simp: extractEntryPoints_def strs_iface_def parseEntryPointsFromInterface_eq split: option.split)
qed

lemma router_spec_typed:
  assumes "str_or_empty (map_get m ''rule'') \<noteq> []"
  shows "spec_typed (router_spec m)"
proof -
  have "set (go_keys (router_spec m)) \<subseteq> {''entryPoints'', ''routes'', ''tls''}"
    by (simp add: router_spec_def Let_def set_go_keys_put) (auto simp: go_keys_def)
  moreover have "''tls'' \<in> set (go_keys (router_spec m)) \<longrightarrow>
      (case map_get (router_spec m) ''tls'' of IMap t \<Rightarrow> t \<noteq> [] | _ \<Rightarrow> False)"
    by (auto simp: router_spec_def Let_def go_keys_def split: if_splits)
  ultimately show ?thesis
    using extractEntryPoints_typed [of "Some m"] buildRoute_typed [OF assms]
    unfolding spec_typed_def router_spec_get by simp
qed

text \<open>
  C33. Every IngressRoute the transformation builds, whatever the router holds besides a rule and a service, is
  well typed: it has the API version, the kind and metadata with a name, a namespace and string labels and
  annotations; its spec has entry points without blank or untrimmed names and exactly one route; the route has a
  rule that is not empty, at least one service reference with a name and a kind, and, where they are present, a list of
  middleware references with a name each and an integer priority; a \<open>tls\<close> member, where present, is an object that
  is not empty; and there are no other members.
\<close>

theorem TransformRouterToIngressRoute_typed:
  assumes "TransformRouterToIngressRoute name raw cfg = Inr u"
  shows "ingress_route_typed u"
proof -
  obtain m where raw: "raw = RawJSON (IMap m)" using assms by (rule Transform_Inr)
  note t = assms [unfolded raw]
  have "set (go_keys u) = {''apiVersion'', ''kind'', ''metadata'', ''spec''}"
    by (simp add: Transform_eq [OF t] Let_def set_go_keys_put) (auto simp: go_keys_def)
  moreover have "GroupVersion = ''traefik.io/v1alpha1''" by (simp add: GroupVersion_def Group_def Version_def)
  ultimately show ?thesis
    unfolding ingress_route_typed_def Transform_Inr_eq [OF t]
    using Annotate_typed [OF router_meta_typed] router_spec_typed [OF Transform_names(1) [OF t]] by simp
qed

section \<open>A concrete router\<close>

definition example_router :: obj where
  "example_router = [(''rule'', IStr ''Host(`a`)''), (''service'', IStr ''my-svc''),
     (''entryPoints'', ISlice [IStr '' web '', IStr ''websecure'']), (''middlewares'', ISlice [IStr ''auth-1''])]"

definition example_rc :: RouterConfig where
  "example_rc = \<lparr>rc_Namespace = ''pangolin'', rc_ManagedLabelKey = ''l'', rc_ManagedLabelValue = ''v'',
     rc_ManagedAnnoKey = ''a'', rc_ManagedAnnoValue = ''w'', rc_IngressClass = ''traefik''\<rparr>"

lemma example_router_accepted:
  "TransformRouterToIngressRoute ''r'' (RawJSON (IMap example_router)) example_rc
     = Inr (projr (TransformRouterToIngressRoute ''r'' (RawJSON (IMap example_router)) example_rc))"
  by (simp add: TransformRouterToIngressRoute_def Let_def of_nil_def example_router_def get_Cons)

theorem TransformRouterToIngressRoute_route_witness:
  "\<exists>spec route rule svc.
     map_get (projr (TransformRouterToIngressRoute ''r'' (RawJSON (IMap example_router)) example_rc)) ''spec'' = IMap spec
     \<and> map_get spec ''routes'' = ISlice [IMap route] \<and> map_get route ''match'' = IStr ''Host(`a`)''"
  using TransformRouterToIngressRoute_route [OF example_router_accepted]
  by (auto simp: example_router_def get_Cons)

theorem TransformRouterToIngressRoute_typed_witness:
  "ingress_route_typed (projr (TransformRouterToIngressRoute ''r'' (RawJSON (IMap example_router)) example_rc))"
  by (rule TransformRouterToIngressRoute_typed [OF example_router_accepted])

theorem TransformRouterToIngressRoute_entrypoints_annotation_witness:
  "\<exists>meta anns ann.
     map_get (projr (TransformRouterToIngressRoute ''r'' (RawJSON (IMap example_router)) example_rc)) ''metadata''
       = IMap meta
     \<and> map_get meta ''annotations'' = IMap anns \<and> map_get anns RouterEntryPointsAnnotation = IStr ann
     \<and> Split ann (CHR '','') = [''web'', ''websecure'']"
proof -
  have e: "extractEntryPoints (Some example_router) = Some [''web'', ''websecure'']"
    by code_simp
  show ?thesis
    using TransformRouterToIngressRoute_entrypoints_annotation [OF example_router_accepted e] by auto
qed

end
