(* ===== verification/AppConfig.thy ===== *)
theory AppConfig
  imports GoValue
begin

text \<open>
  The controller's own settings (\<^verbatim>\<open>internal/config\<close>: \<open>config.go\<close>, \<open>defaults.go\<close>, \<open>env.go\<close>,
  \<open>file.go\<close>, \<open>normalize.go\<close>, \<open>validate.go\<close>). Durations are nanoseconds.

  The operating system and the parsers outside the repository are the record \<open>host\<close>, an argument
  of every definition that reads them: the environment (\<open>os.LookupEnv\<close>), the file system, the YAML
  decoder, \<open>time.ParseDuration\<close> and \<open>strconv.ParseFloat\<close>.

  Shown: environment over file over default for each setting of the file, the instance label included, for
  which the environment counts only with both a key and a value; a value that does not parse falls back to the
  default; the log interval is clamped; what \<open>Validate\<close> accepts, and that it accepts the
  defaults; and that the list of secrets is parsed back from its printed form.
\<close>

record CertificateSecretRef =
  SecretName :: string
  SecretNamespace :: string

record Config =
  PollInterval :: int
  Endpoint :: string
  Namespace :: string
  MaxBackoff :: int
  LeaderEnabled :: bool
  LeaseLockName :: string
  LeaseLockNamespace :: string
  LeaseDuration :: int
  RenewDeadline :: int
  RetryPeriod :: int
  ReadOnly :: bool
  StandaloneHTTPOnly :: bool
  LogTraefikConfig :: bool
  LogConfigPreview :: bool
  OnLoseBehavior :: string
  MaxConfigLogBytes :: int
  IngressClass :: string
  IngressClassProvided :: bool
  ManagedAnnoKey :: string
  ManagedAnnoValue :: string
  ManagedLabelKey :: string
  ManagedLabelValue :: string
  SSAForce :: bool
  TraefikInstanceLabelKey :: string
  TraefikInstanceLabelValue :: string
  IngressClassLabelVerifyInterval :: int
  IngressClassLabelStrict :: bool
  ConfigFile :: string
  FetchTimeout :: int
  FetchLogInterval :: int
  AuthHeader :: string
  CAFile :: string
  ClientCertFile :: string
  ClientKeyFile :: string
  TLSSkipVerify :: bool
  MaxResponseBodyBytes :: int
  HTTPMaxIdleConns :: int
  HTTPMaxIdleConnsPerHost :: int
  HTTPIdleConnTimeout :: int
  ClientQPS :: float64
  ClientBurst :: int
  ReconcileParallel :: bool
  ReconcileMax :: int
  GCWorkers :: int
  GCGracePeriod :: int
  GCGraceQueueSize :: int
  TraefikLBURL :: string
  TraefikLBIP :: string
  TraefikLBScheme :: string
  TraefikLBPort :: string
  GatewayServiceName :: string
  GatewayServicePort :: int
  MetricsAddr :: string
  DisableLivez :: bool
  EnablePprof :: bool
  MetricsTLSCertFile :: string
  MetricsTLSKeyFile :: string
  MetricsPlaintextOK :: bool
  MetricsReadHeaderTimeout :: int
  AllowInsecureHTTP :: bool
  CertificateSecrets :: "CertificateSecretRef list"

record fileConfig =
  fc_TraefikInstanceLabel :: string
  fc_TraefikInstanceLabelKey :: string
  fc_TraefikInstanceLabelValue :: string
  fc_IngressClass :: string
  fc_IngressClassLabelVerifyInt :: string
  fc_IngressClassLabelStrict :: "bool option"
  fc_CertificateSecrets :: "CertificateSecretRef list"

record host =
  LookupEnv :: "string \<Rightarrow> string option"
  ParseDuration :: "string \<Rightarrow> int option"
  ParseFloat :: "string \<Rightarrow> float64 option"
  ReadFile :: "string \<Rightarrow> string option"
  UnmarshalYAML :: "string \<Rightarrow> fileConfig option"

definition Second :: int where
  "Second = 1000000000"

definition Minute :: int where
  "Minute = 60 * Second"

definition Hour :: int where
  "Hour = 60 * Minute"

definition Getenv :: "host \<Rightarrow> string \<Rightarrow> string" where
  "Getenv h k = (case LookupEnv h k of None \<Rightarrow> [] | Some v \<Rightarrow> v)"

section \<open>Reading the environment\<close>

definition envString :: "host \<Rightarrow> string \<Rightarrow> string \<Rightarrow> string" where
  "envString h k def' = (let v = Getenv h k in if v \<noteq> [] then v else def')"

definition envDuration :: "host \<Rightarrow> string \<Rightarrow> int \<Rightarrow> int" where
  "envDuration h k def' =
     (let v = Getenv h k in
      if v \<noteq> [] then (case ParseDuration h v of None \<Rightarrow> def' | Some d \<Rightarrow> d) else def')"

definition envBool :: "host \<Rightarrow> string \<Rightarrow> bool \<Rightarrow> bool" where
  "envBool h k def' =
     (let v = Getenv h k in
      if v \<noteq> [] then
        if EqualFold v ''true'' \<or> v = ''1'' \<or> EqualFold v ''yes'' then True
        else if EqualFold v ''false'' \<or> v = ''0'' \<or> EqualFold v ''no'' then False
        else def'
      else def')"

definition envInt :: "host \<Rightarrow> string \<Rightarrow> int \<Rightarrow> int" where
  "envInt h k def' =
     (let v = Getenv h k in
      if v \<noteq> [] then (case Atoi v of None \<Rightarrow> def' | Some iv \<Rightarrow> iv) else def')"

definition envInt64 :: "host \<Rightarrow> string \<Rightarrow> int \<Rightarrow> int" where
  "envInt64 h k def' =
     (let v = Getenv h k in
      if v \<noteq> [] then (case ParseInt 64 v of None \<Rightarrow> def' | Some iv \<Rightarrow> iv) else def')"

definition envFloat :: "host \<Rightarrow> string \<Rightarrow> float64 \<Rightarrow> float64" where
  "envFloat h k def' =
     (let v = Getenv h k in
      if v \<noteq> [] then (case ParseFloat h v of None \<Rightarrow> def' | Some fv \<Rightarrow> fv) else def')"

text \<open>One comma-separated token: \<open>name\<close> or \<open>namespace/name\<close>; \<open>None\<close> is a token that is skipped.\<close>

definition parseCertificateSecret :: "string \<Rightarrow> CertificateSecretRef option" where
  "parseCertificateSecret tok =
     (let p = TrimSpace tok;
          slashCount = count_list p (CHR ''/'')
      in if p = [] then None
         else if slashCount = 0 then Some \<lparr>SecretName = p, SecretNamespace = []\<rparr>
         else if slashCount \<noteq> 1 then None
         else (case Cut p (CHR ''/'') of (ns, name, found) \<Rightarrow>
           if \<not> found then None
           else let ns = TrimSpace ns; name = TrimSpace name
                in if ns = [] then None
                   else if name = [] then None
                   else Some \<lparr>SecretName = name, SecretNamespace = ns\<rparr>))"

definition parseCertificateSecretsEnv :: "string \<Rightarrow> CertificateSecretRef list" where
  "parseCertificateSecretsEnv raw =
     (let raw = TrimSpace raw in
      if raw = [] then [] else List.map_filter parseCertificateSecret (Split raw (CHR '','')))"

definition markIngressClassProvided :: "host \<Rightarrow> Config \<Rightarrow> Config" where
  "markIngressClassProvided h cfg =
     (case LookupEnv h ''INGRESS_CLASS'' of
        Some _ \<Rightarrow> cfg\<lparr>IngressClassProvided := True\<rparr>
      | None \<Rightarrow> cfg)"

definition applyKVPair :: "Config \<Rightarrow> string \<Rightarrow> Config" where
  "applyKVPair cfg kv =
     (case Cut kv (CHR ''='') of (k, v, found) \<Rightarrow>
        if found
        then cfg\<lparr>TraefikInstanceLabelKey := TrimSpace k, TraefikInstanceLabelValue := TrimSpace v\<rparr>
        else cfg)"

definition populateInstanceLabelFromEnv :: "host \<Rightarrow> Config \<Rightarrow> Config" where
  "populateInstanceLabelFromEnv h cfg =
     (case (LookupEnv h ''TRAEFIK_INSTANCE_LABEL_KEY'', LookupEnv h ''TRAEFIK_INSTANCE_LABEL_VALUE'') of
        (Some k, None) \<Rightarrow> cfg
      | (None, Some v) \<Rightarrow> cfg
      | (Some k, Some v) \<Rightarrow>
          cfg\<lparr>TraefikInstanceLabelKey := TrimSpace k, TraefikInstanceLabelValue := TrimSpace v\<rparr>
      | (None, None) \<Rightarrow>
          (case LookupEnv h ''TRAEFIK_INSTANCE_LABEL'' of
             Some kv \<Rightarrow> applyKVPair cfg kv
           | None \<Rightarrow> cfg))"

section \<open>Defaults\<close>

definition newDefaults :: "host \<Rightarrow> Config" where
  "newDefaults h =
    \<lparr>PollInterval = envDuration h ''POLL_INTERVAL'' (15 * Second),
     Endpoint = envString h ''CONFIG_ENDPOINT'' ''https://pangolin:3001/api/v1/traefik-config'',
     Namespace = envString h ''TARGET_NAMESPACE'' ''pangolin'',
     MaxBackoff = envDuration h ''MAX_BACKOFF'' (2 * Minute),
     LeaderEnabled = envBool h ''ENABLE_LEADER_ELECTION'' False,
     LeaseLockName = envString h ''LEASE_LOCK_NAME'' ''pangolin-kube-controller-leader'',
     LeaseLockNamespace = envString h ''LEASE_LOCK_NAMESPACE'' (envString h ''TARGET_NAMESPACE'' ''pangolin''),
     LeaseDuration = envDuration h ''LEASE_DURATION'' (30 * Second),
     RenewDeadline = envDuration h ''RENEW_DEADLINE'' (20 * Second),
     RetryPeriod = envDuration h ''RETRY_PERIOD'' (5 * Second),
     ReadOnly = envBool h ''READ_ONLY'' False,
     StandaloneHTTPOnly = envBool h ''STANDALONE_HTTP_ONLY'' False,
     LogTraefikConfig = envBool h ''LOG_TRAEFIK_CONFIG'' False,
     LogConfigPreview = envBool h ''CONFIG_LOG_PREVIEW'' False,
     OnLoseBehavior = envString h ''ON_LOSE'' ''exit'',
     MaxConfigLogBytes = envInt h ''MAX_CONFIG_LOG_BYTES'' 0,
     IngressClass = envString h ''INGRESS_CLASS'' ''traefik'',
     IngressClassProvided = False,
     ManagedAnnoKey = envString h ''MANAGED_ANNOTATION_KEY'' ''pangolin.io/managed-by'',
     ManagedAnnoValue = envString h ''MANAGED_ANNOTATION_VALUE'' ''pangolin-kube-controller'',
     ManagedLabelKey = envString h ''MANAGED_LABEL_KEY'' ''app.kubernetes.io/managed-by'',
     ManagedLabelValue = envString h ''MANAGED_LABEL_VALUE'' ''pangolin-kube-controller'',
     SSAForce = envBool h ''SSA_FORCE'' False,
     TraefikInstanceLabelKey = [],
     TraefikInstanceLabelValue = [],
     IngressClassLabelVerifyInterval = envDuration h ''INGRESS_CLASS_LABEL_VERIFY_INTERVAL'' (3 * Hour),
     IngressClassLabelStrict = envBool h ''INGRESS_CLASS_LABEL_STRICT'' False,
     ConfigFile = envString h ''CONFIG_FILE'' [],
     FetchTimeout = envDuration h ''FETCH_TIMEOUT'' (30 * Second),
     FetchLogInterval = envDuration h ''FETCH_LOG_INTERVAL'' (5 * Minute),
     AuthHeader = envString h ''CONFIG_AUTH_HEADER'' [],
     CAFile = envString h ''CONFIG_CA_FILE'' [],
     ClientCertFile = envString h ''CONFIG_CLIENT_CERT_FILE'' [],
     ClientKeyFile = envString h ''CONFIG_CLIENT_KEY_FILE'' [],
     TLSSkipVerify = envBool h ''CONFIG_TLS_SKIP_VERIFY'' False,
     MaxResponseBodyBytes = envInt64 h ''MAX_RESPONSE_BODY_BYTES'' (50 * 1024 * 1024),
     HTTPMaxIdleConns = envInt h ''HTTP_MAX_IDLE_CONNS'' 100,
     HTTPMaxIdleConnsPerHost = envInt h ''HTTP_MAX_IDLE_CONNS_PER_HOST'' 100,
     HTTPIdleConnTimeout = envDuration h ''HTTP_IDLE_CONN_TIMEOUT'' (90 * Second),
     ClientQPS = envFloat h ''CLIENT_QPS'' (Fin 0),
     ClientBurst = envInt h ''CLIENT_BURST'' 0,
     ReconcileParallel = envBool h ''RECONCILE_PARALLEL'' False,
     ReconcileMax = envInt h ''RECONCILE_MAX'' 3,
     GCWorkers = envInt h ''GC_WORKERS'' 2,
     GCGracePeriod = envDuration h ''GC_GRACE_PERIOD'' 0,
     GCGraceQueueSize = envInt h ''GC_GRACE_QUEUE_SIZE'' 256,
     TraefikLBURL = envString h ''TRAEFIK_LB_URL'' [],
     TraefikLBIP = envString h ''TRAEFIK_LB_IP'' [],
     TraefikLBScheme = envString h ''TRAEFIK_LB_SCHEME'' ''http'',
     TraefikLBPort = envString h ''TRAEFIK_LB_PORT'' [],
     GatewayServiceName = envString h ''GATEWAY_SERVICE_NAME'' [],
     GatewayServicePort = envInt h ''GATEWAY_SERVICE_PORT'' 3002,
     MetricsAddr = envString h ''METRICS_ADDR'' '':9090'',
     DisableLivez = envBool h ''DISABLE_LIVEZ'' False,
     EnablePprof = envBool h ''ENABLE_PPROF'' False,
     MetricsTLSCertFile = envString h ''METRICS_TLS_CERT_FILE'' [],
     MetricsTLSKeyFile = envString h ''METRICS_TLS_KEY_FILE'' [],
     MetricsPlaintextOK = envBool h ''METRICS_PLAINTEXT_OK'' False,
     MetricsReadHeaderTimeout = envDuration h ''METRICS_READ_HEADER_TIMEOUT'' (3 * Second),
     AllowInsecureHTTP = envBool h ''CONFIG_ALLOW_INSECURE_HTTP'' False,
     CertificateSecrets = parseCertificateSecretsEnv (envString h ''CERTIFICATE_SECRETS'' [])\<rparr>"

section \<open>The configuration file\<close>

definition mergeFileIngressClass :: "Config \<Rightarrow> fileConfig \<Rightarrow> Config" where
  "mergeFileIngressClass cfg fc =
     (if IngressClassProvided cfg then cfg
      else let v = TrimSpace (fc_IngressClass fc) in
           if v = [] then cfg else cfg\<lparr>IngressClass := v, IngressClassProvided := True\<rparr>)"

definition mergeFileVerifyInterval :: "host \<Rightarrow> Config \<Rightarrow> fileConfig \<Rightarrow> Config" where
  "mergeFileVerifyInterval h cfg fc =
     (if LookupEnv h ''INGRESS_CLASS_LABEL_VERIFY_INTERVAL'' \<noteq> None then cfg
      else let raw = TrimSpace (fc_IngressClassLabelVerifyInt fc) in
           if raw = [] then cfg
           else (case ParseDuration h raw of
                   None \<Rightarrow> cfg
                 | Some d \<Rightarrow> cfg\<lparr>IngressClassLabelVerifyInterval := d\<rparr>))"

definition mergeFileStrict :: "host \<Rightarrow> Config \<Rightarrow> fileConfig \<Rightarrow> Config" where
  "mergeFileStrict h cfg fc =
     (if LookupEnv h ''INGRESS_CLASS_LABEL_STRICT'' \<noteq> None then cfg
      else (case fc_IngressClassLabelStrict fc of
              None \<Rightarrow> cfg
            | Some b \<Rightarrow> cfg\<lparr>IngressClassLabelStrict := b\<rparr>))"

definition mergeFileInstanceLabel :: "Config \<Rightarrow> fileConfig \<Rightarrow> Config" where
  "mergeFileInstanceLabel cfg fc =
     (if TraefikInstanceLabelKey cfg \<noteq> [] \<and> TraefikInstanceLabelValue cfg \<noteq> [] then cfg
      else let key = TrimSpace (fc_TraefikInstanceLabelKey fc);
               val = TrimSpace (fc_TraefikInstanceLabelValue fc)
           in if key \<noteq> [] \<and> val \<noteq> []
              then cfg\<lparr>TraefikInstanceLabelKey := key, TraefikInstanceLabelValue := val\<rparr>
              else let single = TrimSpace (fc_TraefikInstanceLabel fc) in
                   if single \<noteq> [] then applyKVPair cfg single else cfg)"

definition mergeFileCertificateSecrets :: "host \<Rightarrow> Config \<Rightarrow> fileConfig \<Rightarrow> Config" where
  "mergeFileCertificateSecrets h cfg fc =
     (if LookupEnv h ''CERTIFICATE_SECRETS'' \<noteq> None then cfg
      else if fc_CertificateSecrets fc \<noteq> [] then cfg\<lparr>CertificateSecrets := fc_CertificateSecrets fc\<rparr>
      else cfg)"

definition mergeConfigFile :: "host \<Rightarrow> Config \<Rightarrow> Config" where
  "mergeConfigFile h cfg =
     (if ConfigFile cfg = [] then cfg
      else case ReadFile h (ConfigFile cfg) of
             None \<Rightarrow> cfg
           | Some b \<Rightarrow>
               (case UnmarshalYAML h b of
                  None \<Rightarrow> cfg
                | Some fc \<Rightarrow>
                    let cfg = mergeFileIngressClass cfg fc;
                        cfg = mergeFileVerifyInterval h cfg fc;
                        cfg = mergeFileStrict h cfg fc;
                        cfg = mergeFileInstanceLabel cfg fc
                    in mergeFileCertificateSecrets h cfg fc))"

section \<open>Normalisation and validation\<close>

definition ShouldLogConfigPreview :: "Config option \<Rightarrow> bool" where
  "ShouldLogConfigPreview c =
     (case c of None \<Rightarrow> False | Some c \<Rightarrow> LogConfigPreview c \<or> LogTraefikConfig c)"

definition normalize :: "Config \<Rightarrow> Config" where
  "normalize c =
     (let c = (if FetchLogInterval c < 0 then c\<lparr>FetchLogInterval := 0\<rparr> else c);
          maxFetchLogInterval = 24 * Hour
      in if FetchLogInterval c > maxFetchLogInterval
         then c\<lparr>FetchLogInterval := maxFetchLogInterval\<rparr> else c)"

definition LoadFromEnv :: "host \<Rightarrow> Config" where
  "LoadFromEnv h =
     (let cfg = newDefaults h;
          cfg = markIngressClassProvided h cfg;
          cfg = populateInstanceLabelFromEnv h cfg;
          cfg = mergeConfigFile h cfg
      in normalize cfg)"

definition validateBackoffSettings :: "Config \<Rightarrow> goerr option" where
  "validateBackoffSettings c =
     (if MaxBackoff c \<le> 0 then Some (ErrMsg ''MAX_BACKOFF must be positive'') else None)"

definition validateOnLoseBehavior :: "Config \<Rightarrow> goerr option" where
  "validateOnLoseBehavior c =
     (if ToLower (OnLoseBehavior c) \<in> {[], ''exit'', ''pause''} then None
      else Some (ErrMsg ''ON_LOSE is invalid: must be exit or pause''))"

definition validateLeaseTiming :: "Config \<Rightarrow> goerr option" where
  "validateLeaseTiming c =
     (if \<not> LeaderEnabled c then None
      else if LeaseDuration c \<le> 0 then Some (ErrMsg ''LEASE_DURATION must be positive'')
      else if RenewDeadline c \<le> 0 then Some (ErrMsg ''RENEW_DEADLINE must be positive'')
      else if RetryPeriod c \<le> 0 then Some (ErrMsg ''RETRY_PERIOD must be positive'')
      else if LeaseDuration c \<le> RenewDeadline c
      then Some (ErrMsg ''LEASE_DURATION must be greater than RENEW_DEADLINE'')
      else if RenewDeadline c \<le> RetryPeriod c
      then Some (ErrMsg ''RENEW_DEADLINE must be greater than RETRY_PERIOD'')
      else None)"

definition validateReconcileSettings :: "Config \<Rightarrow> goerr option" where
  "validateReconcileSettings c =
     (if ReconcileParallel c \<and> ReconcileMax c < 2
      then Some (ErrMsg ''RECONCILE_MAX must be at least 2 when RECONCILE_PARALLEL is enabled'') else None)"

definition validateGCSettings :: "Config \<Rightarrow> goerr option" where
  "validateGCSettings c =
     (if GCGraceQueueSize c \<le> 0 then Some (ErrMsg ''GC_GRACE_QUEUE_SIZE must be positive'') else None)"

text \<open>\<open>None\<close> is the nil error.\<close>

definition Validate :: "Config \<Rightarrow> goerr option" where
  "Validate c =
     (case validateOnLoseBehavior c of Some e \<Rightarrow> Some e | None \<Rightarrow>
      (case validateBackoffSettings c of Some e \<Rightarrow> Some e | None \<Rightarrow>
       (case validateLeaseTiming c of Some e \<Rightarrow> Some e | None \<Rightarrow>
        (case validateReconcileSettings c of Some e \<Rightarrow> Some e | None \<Rightarrow>
         validateGCSettings c))))"

section \<open>What Validate accepts\<close>

lemmas validate_defs = Validate_def validateOnLoseBehavior_def validateBackoffSettings_def
  validateLeaseTiming_def validateReconcileSettings_def validateGCSettings_def

text \<open>
  \<open>Validate\<close> accepts a configuration exactly when the behaviour on a lost lease is known, the
  backoff limit and the size of the deletion queue are positive, the three lease timings are
  positive and strictly ordered when leader election is on, and parallel reconciliation has at
  least two workers.
\<close>

theorem Validate_iff:
  "Validate c = None \<longleftrightarrow>
     ToLower (OnLoseBehavior c) \<in> {[], ''exit'', ''pause''} \<and> MaxBackoff c > 0 \<and> GCGraceQueueSize c > 0
   \<and> (LeaderEnabled c \<longrightarrow> 0 < RetryPeriod c \<and> RetryPeriod c < RenewDeadline c \<and> RenewDeadline c < LeaseDuration c)
   \<and> (ReconcileParallel c \<longrightarrow> ReconcileMax c \<ge> 2)"
  by (auto simp: validate_defs split: option.splits if_splits)

section \<open>Where a setting comes from\<close>

text \<open>The contents of the configuration file, when one is named, readable and decodable.\<close>

definition loaded_file :: "host \<Rightarrow> fileConfig option" where
  "loaded_file h =
     (let f = envString h ''CONFIG_FILE'' [] in
      if f = [] then None else Option.bind (ReadFile h f) (UnmarshalYAML h))"

lemma applyKVPair_other [simp]:
  "IngressClass (applyKVPair c kv) = IngressClass c"
  "IngressClassProvided (applyKVPair c kv) = IngressClassProvided c"
  "IngressClassLabelStrict (applyKVPair c kv) = IngressClassLabelStrict c"
  "IngressClassLabelVerifyInterval (applyKVPair c kv) = IngressClassLabelVerifyInterval c"
  "CertificateSecrets (applyKVPair c kv) = CertificateSecrets c"
  "ConfigFile (applyKVPair c kv) = ConfigFile c"
  "FetchLogInterval (applyKVPair c kv) = FetchLogInterval c"
  by (simp_all add: applyKVPair_def split: prod.split)

lemma env_pass_other:
  "IngressClass (populateInstanceLabelFromEnv h c) = IngressClass c"
  "IngressClassProvided (populateInstanceLabelFromEnv h c) = IngressClassProvided c"
  "IngressClassLabelStrict (populateInstanceLabelFromEnv h c) = IngressClassLabelStrict c"
  "IngressClassLabelVerifyInterval (populateInstanceLabelFromEnv h c) = IngressClassLabelVerifyInterval c"
  "CertificateSecrets (populateInstanceLabelFromEnv h c) = CertificateSecrets c"
  "ConfigFile (populateInstanceLabelFromEnv h c) = ConfigFile c"
  "IngressClass (markIngressClassProvided h c) = IngressClass c"
  "IngressClassProvided (markIngressClassProvided h c) = (LookupEnv h ''INGRESS_CLASS'' \<noteq> None \<or> IngressClassProvided c)"
  "IngressClassLabelStrict (markIngressClassProvided h c) = IngressClassLabelStrict c"
  "IngressClassLabelVerifyInterval (markIngressClassProvided h c) = IngressClassLabelVerifyInterval c"
  "TraefikInstanceLabelKey (markIngressClassProvided h c) = TraefikInstanceLabelKey c"
  "TraefikInstanceLabelValue (markIngressClassProvided h c) = TraefikInstanceLabelValue c"
  "CertificateSecrets (markIngressClassProvided h c) = CertificateSecrets c"
  "ConfigFile (markIngressClassProvided h c) = ConfigFile c"
  by (simp_all add: populateInstanceLabelFromEnv_def markIngressClassProvided_def split: option.split)

lemma newDefaults_fields:
  "IngressClass (newDefaults h) = envString h ''INGRESS_CLASS'' ''traefik''"
  "IngressClassProvided (newDefaults h) = False"
  "IngressClassLabelStrict (newDefaults h) = envBool h ''INGRESS_CLASS_LABEL_STRICT'' False"
  "IngressClassLabelVerifyInterval (newDefaults h) = envDuration h ''INGRESS_CLASS_LABEL_VERIFY_INTERVAL'' (3 * Hour)"
  "TraefikInstanceLabelKey (newDefaults h) = []"
  "TraefikInstanceLabelValue (newDefaults h) = []"
  "CertificateSecrets (newDefaults h) = parseCertificateSecretsEnv (envString h ''CERTIFICATE_SECRETS'' [])"
  "ConfigFile (newDefaults h) = envString h ''CONFIG_FILE'' []"
  unfolding newDefaults_def by (simp_all only: Config.select_convs)

lemmas env_stage_other = env_pass_other newDefaults_fields

lemma mergeFile_other [simp]:
  "IngressClass (mergeFileVerifyInterval h c fc) = IngressClass c"
  "IngressClass (mergeFileStrict h c fc) = IngressClass c"
  "IngressClass (mergeFileInstanceLabel c fc) = IngressClass c"
  "IngressClass (mergeFileCertificateSecrets h c fc) = IngressClass c"
  "IngressClassLabelStrict (mergeFileIngressClass c fc) = IngressClassLabelStrict c"
  "IngressClassLabelStrict (mergeFileVerifyInterval h c fc) = IngressClassLabelStrict c"
  "IngressClassLabelStrict (mergeFileInstanceLabel c fc) = IngressClassLabelStrict c"
  "IngressClassLabelStrict (mergeFileCertificateSecrets h c fc) = IngressClassLabelStrict c"
  "CertificateSecrets (mergeFileIngressClass c fc) = CertificateSecrets c"
  "CertificateSecrets (mergeFileVerifyInterval h c fc) = CertificateSecrets c"
  "CertificateSecrets (mergeFileStrict h c fc) = CertificateSecrets c"
  "CertificateSecrets (mergeFileInstanceLabel c fc) = CertificateSecrets c"
  "IngressClassLabelVerifyInterval (mergeFileIngressClass c fc) = IngressClassLabelVerifyInterval c"
  "IngressClassLabelVerifyInterval (mergeFileStrict h c fc) = IngressClassLabelVerifyInterval c"
  "IngressClassLabelVerifyInterval (mergeFileInstanceLabel c fc) = IngressClassLabelVerifyInterval c"
  "IngressClassLabelVerifyInterval (mergeFileCertificateSecrets h c fc) = IngressClassLabelVerifyInterval c"
  "TraefikInstanceLabelKey (mergeFileIngressClass c fc) = TraefikInstanceLabelKey c"
  "TraefikInstanceLabelKey (mergeFileVerifyInterval h c fc) = TraefikInstanceLabelKey c"
  "TraefikInstanceLabelKey (mergeFileStrict h c fc) = TraefikInstanceLabelKey c"
  "TraefikInstanceLabelKey (mergeFileCertificateSecrets h c fc) = TraefikInstanceLabelKey c"
  "TraefikInstanceLabelValue (mergeFileIngressClass c fc) = TraefikInstanceLabelValue c"
  "TraefikInstanceLabelValue (mergeFileVerifyInterval h c fc) = TraefikInstanceLabelValue c"
  "TraefikInstanceLabelValue (mergeFileStrict h c fc) = TraefikInstanceLabelValue c"
  "TraefikInstanceLabelValue (mergeFileCertificateSecrets h c fc) = TraefikInstanceLabelValue c"
  by (simp_all add: mergeFileVerifyInterval_def mergeFileStrict_def mergeFileInstanceLabel_def
      mergeFileCertificateSecrets_def mergeFileIngressClass_def Let_def split: option.split)

lemma normalize_other [simp]:
  "IngressClass (normalize c) = IngressClass c"
  "IngressClassLabelStrict (normalize c) = IngressClassLabelStrict c"
  "IngressClassLabelVerifyInterval (normalize c) = IngressClassLabelVerifyInterval c"
  "TraefikInstanceLabelKey (normalize c) = TraefikInstanceLabelKey c"
  "TraefikInstanceLabelValue (normalize c) = TraefikInstanceLabelValue c"
  "CertificateSecrets (normalize c) = CertificateSecrets c"
  by (simp_all add: normalize_def Let_def)

lemma mergeConfigFile_loaded:
  assumes "ConfigFile c = envString h ''CONFIG_FILE'' []"
  shows "mergeConfigFile h c =
    (case loaded_file h of
       None \<Rightarrow> c
     | Some fc \<Rightarrow>
         mergeFileCertificateSecrets h
           (mergeFileInstanceLabel (mergeFileStrict h (mergeFileVerifyInterval h (mergeFileIngressClass c fc) fc) fc) fc) fc)"
  using assms by (auto simp: mergeConfigFile_def loaded_file_def Let_def split: option.split)

text \<open>
  The instance label as the environment and the file give it: a label written \<open>key=value\<close> is split
  at its first equals sign; one of the pair of variables without the other is ignored; in the file
  a complete pair comes before the label written \<open>key=value\<close>.
\<close>

definition split_label :: "string \<Rightarrow> (string \<times> string) option" where
  "split_label kv =
     (if CHR ''='' \<in> set kv
      then Some (TrimSpace (takeWhile (\<lambda>c. c \<noteq> CHR ''='') kv), TrimSpace (tl (dropWhile (\<lambda>c. c \<noteq> CHR ''='') kv)))
      else None)"

definition env_label :: "host \<Rightarrow> (string \<times> string) option" where
  "env_label h =
     (case (LookupEnv h ''TRAEFIK_INSTANCE_LABEL_KEY'', LookupEnv h ''TRAEFIK_INSTANCE_LABEL_VALUE'') of
        (Some k, Some v) \<Rightarrow> Some (TrimSpace k, TrimSpace v)
      | (None, None) \<Rightarrow> Option.bind (LookupEnv h ''TRAEFIK_INSTANCE_LABEL'') split_label
      | _ \<Rightarrow> None)"

definition file_label :: "fileConfig \<Rightarrow> (string \<times> string) option" where
  "file_label fc =
     (let pair = (TrimSpace (fc_TraefikInstanceLabelKey fc), TrimSpace (fc_TraefikInstanceLabelValue fc)) in
      if fst pair \<noteq> [] \<and> snd pair \<noteq> [] then Some pair
      else split_label (TrimSpace (fc_TraefikInstanceLabel fc)))"

definition complete_label :: "string \<times> string \<Rightarrow> bool" where
  "complete_label kv \<longleftrightarrow> fst kv \<noteq> [] \<and> snd kv \<noteq> []"

definition instance_label :: "Config \<Rightarrow> string \<times> string" where
  "instance_label cfg = (TraefikInstanceLabelKey cfg, TraefikInstanceLabelValue cfg)"

lemma applyKVPair_label:
  "instance_label (applyKVPair cfg kv) = (case split_label kv of None \<Rightarrow> instance_label cfg | Some l \<Rightarrow> l)"
proof (cases "CHR ''='' \<in> set kv")
  case True
  then obtain l r where "kv = l @ CHR ''='' # r" "CHR ''='' \<notin> set l" using split_list_first by metis
  then show ?thesis by (simp add: applyKVPair_def split_label_def Cut_append while_sep instance_label_def)
next
  case False
  then show ?thesis by (simp add: applyKVPair_def split_label_def Cut_no_sep)
qed

lemma instance_label_update [simp]:
  "instance_label (cfg\<lparr>TraefikInstanceLabelKey := k, TraefikInstanceLabelValue := v\<rparr>) = (k, v)"
  by (simp add: instance_label_def)

lemma env_stage_label:
  "instance_label (populateInstanceLabelFromEnv h (markIngressClassProvided h (newDefaults h)))
   = (case env_label h of None \<Rightarrow> ([], []) | Some l \<Rightarrow> l)"
proof -
  have *: "instance_label (markIngressClassProvided h (newDefaults h)) = ([], [])"
    by (simp add: instance_label_def env_stage_other)
  show ?thesis
    by (simp add: populateInstanceLabelFromEnv_def env_label_def applyKVPair_label * split: option.split)
qed

lemma mergeFileInstanceLabel_label:
  "instance_label (mergeFileInstanceLabel cfg fc) =
     (if complete_label (instance_label cfg) then instance_label cfg
      else case file_label fc of None \<Rightarrow> instance_label cfg | Some l \<Rightarrow> l)"
proof (cases "complete_label (instance_label cfg)")
  case True
  then show ?thesis by (simp add: mergeFileInstanceLabel_def complete_label_def instance_label_def)
next
  case False
  then show ?thesis
    by (auto simp: mergeFileInstanceLabel_def file_label_def complete_label_def applyKVPair_label
        instance_label_def [of cfg] Let_def split_label_def)
qed

lemma LoadFromEnv_stages:
  "LoadFromEnv h =
    (let c = populateInstanceLabelFromEnv h (markIngressClassProvided h (newDefaults h)) in
     normalize (case loaded_file h of
       None \<Rightarrow> c
     | Some fc \<Rightarrow>
         mergeFileCertificateSecrets h
           (mergeFileInstanceLabel (mergeFileStrict h (mergeFileVerifyInterval h (mergeFileIngressClass c fc) fc) fc) fc) fc))"
  unfolding LoadFromEnv_def Let_def by (subst mergeConfigFile_loaded) (simp_all add: env_stage_other)

lemma label_other [simp]:
  "instance_label (normalize c) = instance_label c"
  "instance_label (mergeFileIngressClass c fc) = instance_label c"
  "instance_label (mergeFileVerifyInterval h c fc) = instance_label c"
  "instance_label (mergeFileStrict h c fc) = instance_label c"
  "instance_label (mergeFileCertificateSecrets h c fc) = instance_label c"
  by (simp_all add: instance_label_def)

lemma LoadFromEnv_class:
  "IngressClass (LoadFromEnv h) =
     (case (LookupEnv h ''INGRESS_CLASS'', loaded_file h) of
        (Some v, _) \<Rightarrow> if v = [] then ''traefik'' else v
      | (None, Some fc) \<Rightarrow> if TrimSpace (fc_IngressClass fc) = [] then ''traefik'' else TrimSpace (fc_IngressClass fc)
      | (None, None) \<Rightarrow> ''traefik'')"
  unfolding LoadFromEnv_stages Let_def
  by (auto simp: env_stage_other mergeFileIngressClass_def envString_def Getenv_def Let_def
      split: option.split list.split)

lemma LoadFromEnv_interval:
  "IngressClassLabelVerifyInterval (LoadFromEnv h) =
     (let text = (case (LookupEnv h ''INGRESS_CLASS_LABEL_VERIFY_INTERVAL'', loaded_file h) of
                    (Some v, _) \<Rightarrow> v
                  | (None, Some fc) \<Rightarrow> TrimSpace (fc_IngressClassLabelVerifyInt fc)
                  | (None, None) \<Rightarrow> [])
      in case (text, ParseDuration h text) of
           (_ # _, Some d) \<Rightarrow> d
         | _ \<Rightarrow> 3 * 60 * 60 * 1000000000)"
  unfolding LoadFromEnv_stages Let_def
  by (auto simp: env_stage_other mergeFileVerifyInterval_def envDuration_def Getenv_def Let_def Hour_def Minute_def Second_def
      split: option.split list.split)

lemma EqualFold_empty: "\<not> EqualFold [] (''true'')" "\<not> EqualFold [] (''yes'')"
  by code_simp+

lemma LoadFromEnv_strict:
  "IngressClassLabelStrict (LoadFromEnv h) =
     (case (LookupEnv h ''INGRESS_CLASS_LABEL_STRICT'', Option.bind (loaded_file h) fc_IngressClassLabelStrict) of
        (Some v, _) \<Rightarrow> EqualFold v ''true'' \<or> v = ''1'' \<or> EqualFold v ''yes''
      | (None, Some b) \<Rightarrow> b
      | (None, None) \<Rightarrow> False)"
  unfolding LoadFromEnv_stages Let_def
  by (auto simp: env_stage_other mergeFileStrict_def envBool_def Getenv_def Let_def EqualFold_empty
      split: option.split list.split)

lemma LoadFromEnv_secrets:
  "CertificateSecrets (LoadFromEnv h) =
     (case (LookupEnv h ''CERTIFICATE_SECRETS'', loaded_file h) of
        (Some v, _) \<Rightarrow> parseCertificateSecretsEnv v
      | (None, Some fc) \<Rightarrow> fc_CertificateSecrets fc
      | (None, None) \<Rightarrow> [])"
  unfolding LoadFromEnv_stages Let_def
  by (auto simp: env_stage_other mergeFileCertificateSecrets_def envString_def Getenv_def Let_def parseCertificateSecretsEnv_def TrimSpace_Nil
      split: option.split list.split)

lemma LoadFromEnv_label:
  "instance_label (LoadFromEnv h) =
     (case (env_label h, Option.bind (loaded_file h) file_label) of
        (Some l, Some f) \<Rightarrow> if complete_label l then l else f
      | (Some l, None) \<Rightarrow> l
      | (None, Some f) \<Rightarrow> f
      | (None, None) \<Rightarrow> ([], []))"
  unfolding LoadFromEnv_stages Let_def
  by (auto simp: mergeFileInstanceLabel_label env_stage_label complete_label_def split: option.split)

text \<open>
  C37. Precedence of the five settings that the configuration file may hold. For the ingress
  class, the interval and the strictness of its label check and the list of certificate secrets,
  a variable of the environment that is present, even one with an empty value, shuts out the
  file; without the variable a value of the file that is not empty (and, for the interval, that
  parses) counts; otherwise the built-in default. The instance label is the exception: its
  variables shut out the file only when they give both a key and a value. Otherwise (absent,
  empty, or one half of the pair missing) the label of the file counts, and what the
  environment gave stays only when the file has no label.
\<close>

theorem LoadFromEnv_precedence:
  "IngressClass (LoadFromEnv h) =
     (case (LookupEnv h ''INGRESS_CLASS'', loaded_file h) of
        (Some v, _) \<Rightarrow> if v = [] then ''traefik'' else v
      | (None, Some fc) \<Rightarrow> if TrimSpace (fc_IngressClass fc) = [] then ''traefik'' else TrimSpace (fc_IngressClass fc)
      | (None, None) \<Rightarrow> ''traefik'')
   \<and> IngressClassLabelVerifyInterval (LoadFromEnv h) =
     (let text = (case (LookupEnv h ''INGRESS_CLASS_LABEL_VERIFY_INTERVAL'', loaded_file h) of
                    (Some v, _) \<Rightarrow> v
                  | (None, Some fc) \<Rightarrow> TrimSpace (fc_IngressClassLabelVerifyInt fc)
                  | (None, None) \<Rightarrow> [])
      in case (text, ParseDuration h text) of
           (_ # _, Some d) \<Rightarrow> d
         | _ \<Rightarrow> 3 * 60 * 60 * 1000000000)
   \<and> IngressClassLabelStrict (LoadFromEnv h) =
     (case (LookupEnv h ''INGRESS_CLASS_LABEL_STRICT'', Option.bind (loaded_file h) fc_IngressClassLabelStrict) of
        (Some v, _) \<Rightarrow> EqualFold v ''true'' \<or> v = ''1'' \<or> EqualFold v ''yes''
      | (None, Some b) \<Rightarrow> b
      | (None, None) \<Rightarrow> False)
   \<and> CertificateSecrets (LoadFromEnv h) =
     (case (LookupEnv h ''CERTIFICATE_SECRETS'', loaded_file h) of
        (Some v, _) \<Rightarrow> parseCertificateSecretsEnv v
      | (None, Some fc) \<Rightarrow> fc_CertificateSecrets fc
      | (None, None) \<Rightarrow> [])
   \<and> instance_label (LoadFromEnv h) =
     (case (env_label h, Option.bind (loaded_file h) file_label) of
        (Some l, Some f) \<Rightarrow> if complete_label l then l else f
      | (Some l, None) \<Rightarrow> l
      | (None, Some f) \<Rightarrow> f
      | (None, None) \<Rightarrow> ([], []))"
  by (intro conjI LoadFromEnv_class LoadFromEnv_interval LoadFromEnv_strict LoadFromEnv_secrets LoadFromEnv_label)

text \<open>
  The interval of the fetch log is between zero and one day, whatever the environment and the
  file say.
\<close>

theorem LoadFromEnv_fetch_log_interval:
  "0 \<le> FetchLogInterval (LoadFromEnv h) \<and> FetchLogInterval (LoadFromEnv h) \<le> 24 * Hour"
  by (simp add: LoadFromEnv_def normalize_def Let_def Hour_def Minute_def Second_def)

text \<open>
  With no variable set, the loaded configuration is valid: the built-in defaults pass
  \<open>Validate\<close>, and leader election and every option that weakens security are off.
\<close>

theorem LoadFromEnv_defaults_valid:
  assumes "LookupEnv h = (\<lambda>k. None)"
  shows "Validate (LoadFromEnv h) = None \<and> Namespace (LoadFromEnv h) = ''pangolin''
    \<and> \<not> LeaderEnabled (LoadFromEnv h) \<and> \<not> TLSSkipVerify (LoadFromEnv h)
    \<and> \<not> AllowInsecureHTTP (LoadFromEnv h) \<and> \<not> EnablePprof (LoadFromEnv h)
    \<and> HasPrefix (Endpoint (LoadFromEnv h)) ''https://''"
proof -
  have "LoadFromEnv h = normalize (newDefaults h)"
    using assms by (simp add: LoadFromEnv_def markIngressClassProvided_def populateInstanceLabelFromEnv_def
        mergeConfigFile_def newDefaults_def envString_def Getenv_def)
  with assms show ?thesis
    by (simp add: validate_defs newDefaults_def normalize_def envString_def envDuration_def envBool_def envInt_def
        Getenv_def Hour_def Minute_def Second_def HasPrefix_def ascii_lower_def byte_of_def)
qed

section \<open>The list of certificate secrets\<close>

definition print_secret :: "CertificateSecretRef \<Rightarrow> string" where
  "print_secret r =
     (if SecretNamespace r = [] then SecretName r else SecretNamespace r @ ''/'' @ SecretName r)"

text \<open>A name without separators and without white space at its ends.\<close>

definition plain_name :: "string \<Rightarrow> bool" where
  "plain_name n \<longleftrightarrow> CHR '','' \<notin> set n \<and> CHR ''/'' \<notin> set n \<and> TrimSpace n = n"

definition printable_secret :: "CertificateSecretRef \<Rightarrow> bool" where
  "printable_secret r \<longleftrightarrow> SecretName r \<noteq> [] \<and> plain_name (SecretName r) \<and> plain_name (SecretNamespace r)"

lemma white_space_no_sep: "w \<in> set white_space \<Longrightarrow> CHR '','' \<notin> set w \<and> CHR ''/'' \<notin> set w"
  by (auto simp: white_space_def)

lemma prefix_sep: "c \<notin> set w \<Longrightarrow> prefix w (l @ c # r) \<longleftrightarrow> prefix w l"
  by (induction l arbitrary: w) (auto simp: prefix_Cons)

lemma suffix_sep: "c \<notin> set w \<Longrightarrow> suffix w (l @ c # r) \<longleftrightarrow> suffix w r"
  using prefix_sep [of c "rev w" "rev r" "rev l"] by (simp add: suffix_to_prefix)

lemma trimmed_iff: "TrimSpace s = s \<longleftrightarrow> (\<forall>w \<in> set white_space. \<not> prefix w s \<and> \<not> suffix w s)"
  using TrimSpace_id TrimSpace_no_space by metis

lemma trimmed_join:
  assumes "TrimSpace l = l" and "TrimSpace r = r" and "c \<in> {CHR '','', CHR ''/''}"
  shows "TrimSpace (l @ c # r) = l @ c # r"
  using assms white_space_no_sep by (auto simp: trimmed_iff prefix_sep suffix_sep)

lemma parse_print_secret:
  assumes "printable_secret r"
  shows "parseCertificateSecret (print_secret r) = Some r" and "TrimSpace (print_secret r) = print_secret r"
    and "CHR '','' \<notin> set (print_secret r)" and "print_secret r \<noteq> []"
proof -
  have n: "TrimSpace (SecretName r) = SecretName r" "TrimSpace (SecretNamespace r) = SecretNamespace r"
    "CHR ''/'' \<notin> set (SecretName r)" "CHR ''/'' \<notin> set (SecretNamespace r)" "SecretName r \<noteq> []"
    using assms by (auto simp: printable_secret_def plain_name_def)
  show t: "TrimSpace (print_secret r) = print_secret r"
    using n trimmed_join [OF n(2,1), of "CHR ''/''"] by (simp add: print_secret_def)
  have "count_list x (CHR ''/'') = 0" if "CHR ''/'' \<notin> set x" for x
    using that by (simp add: count_list_0_iff)
  then show "parseCertificateSecret (print_secret r) = Some r"
    using n t by (auto simp: parseCertificateSecret_def Let_def print_secret_def Cut_append split: if_splits)
  show "CHR '','' \<notin> set (print_secret r)" "print_secret r \<noteq> []"
    using assms by (auto simp: print_secret_def printable_secret_def plain_name_def)
qed

lemma trimmed_Join:
  "\<forall>x \<in> set xs. TrimSpace x = x \<Longrightarrow> TrimSpace (Join xs '','') = Join xs '',''"
  by (induction xs "'',''" rule: Join.induct) (auto intro: trimmed_join)

text \<open>
  Printing a list of secret references as \<open>name\<close> or \<open>namespace/name\<close>, separated by commas,
  and parsing it gives the list back, in its order.
\<close>

theorem parseCertificateSecretsEnv_print:
  assumes "\<forall>r \<in> set refs. printable_secret r"
  shows "parseCertificateSecretsEnv (Join (map print_secret refs) '','') = refs"
proof (cases refs)
  case Nil
  then show ?thesis by (simp add: parseCertificateSecretsEnv_def)
next
  case (Cons r rs)
  have *: "\<forall>x \<in> set (map print_secret refs). CHR '','' \<notin> set x \<and> TrimSpace x = x"
    using assms parse_print_secret by auto
  then have "Split (Join (map print_secret refs) '','') (CHR '','') = map print_secret refs"
    using Split_Join [of "map print_secret refs" "CHR '',''"] Cons by simp
  moreover have "Join (map print_secret refs) '','' \<noteq> []"
    using Cons parse_print_secret(4) [of r] assms by (cases rs) auto
  moreover have "List.map_filter parseCertificateSecret (map print_secret refs) = refs"
    using assms parse_print_secret(1) by (induction refs) (auto simp: List.map_filter_def)
  ultimately show ?thesis using * by (simp add: parseCertificateSecretsEnv_def Let_def trimmed_Join)
qed

definition example_refs :: "CertificateSecretRef list" where
  "example_refs = [\<lparr>SecretName = ''tls'', SecretNamespace = ''edge''\<rparr>, \<lparr>SecretName = ''wild'', SecretNamespace = []\<rparr>]"

theorem parseCertificateSecretsEnv_print_witness:
  "list_all printable_secret example_refs
   \<and> Join (map print_secret example_refs) '','' = ''edge/tls,wild''
   \<and> parseCertificateSecretsEnv (Join (map print_secret example_refs) '','') = example_refs"
proof -
  have "\<forall>r \<in> set example_refs. printable_secret r" by code_simp
  with parseCertificateSecretsEnv_print [OF this] show ?thesis
    by (simp add: example_refs_def print_secret_def list_all_iff)
qed

definition example_host :: host where
  "example_host = \<lparr>LookupEnv = (\<lambda>k. None), ParseDuration = (\<lambda>s. None), ParseFloat = (\<lambda>s. None),
     ReadFile = (\<lambda>f. None), UnmarshalYAML = (\<lambda>b. None)\<rparr>"

theorem LoadFromEnv_defaults_valid_witness:
  "Validate (LoadFromEnv example_host) = None \<and> Namespace (LoadFromEnv example_host) = ''pangolin''"
  using LoadFromEnv_defaults_valid [of example_host] by (simp add: example_host_def)

theorem Validate_iff_witness:
  "ReconcileParallel ((LoadFromEnv example_host)\<lparr>ReconcileParallel := True, ReconcileMax := 1\<rparr>)
   \<and> Validate ((LoadFromEnv example_host)\<lparr>ReconcileParallel := True, ReconcileMax := 1\<rparr>) \<noteq> None"
  using Validate_iff [of "(LoadFromEnv example_host)\<lparr>ReconcileParallel := True, ReconcileMax := 1\<rparr>"] by simp

end
