(* ===== verification/Diff.thy ===== *)
theory Diff
  imports Sha256 GoValue
begin

text \<open>
  Comparing an object of the cluster with the desired one (\<^verbatim>\<open>internal/apply/numeric.go\<close>,
  \<^verbatim>\<open>internal/apply/diff.go\<close>). A number decoded from JSON is a float, one that client-go decoded is
  an integer, so numbers are compared by value.

  \<open>equality.Semantic.DeepEqual\<close> of apimachinery is the parameter \<open>deepEqual\<close>; the lemmas say which of
  its properties they use.

  Shown: two numbers found equal are equal as numbers, and numbers up to 2^53, and 64-bit integers
  of any size, are found equal when they are; the changed keys of two objects are exactly the keys
  whose values differ, and there are none exactly when the objects are found equal.
\<close>

definition ComputeHash :: "string \<Rightarrow> string" where
  "ComputeHash b = EncodeToString (Sum256 b)"

section \<open>Numbers\<close>

definition maxExact :: int where
  "maxExact = 2 ^ 53"

fun reflectInt64 :: "iface \<Rightarrow> int" where
  "reflectInt64 (IInt8 n) = sint n"
| "reflectInt64 (IInt16 n) = sint n"
| "reflectInt64 (IInt32 n) = sint n"
| "reflectInt64 v = 0"

fun reflectUint64 :: "iface \<Rightarrow> int" where
  "reflectUint64 (IUint8 n) = uint n"
| "reflectUint64 (IUint16 n) = uint n"
| "reflectUint64 (IUint32 n) = uint n"
| "reflectUint64 v = 0"

text \<open>The conversion of an integer up to \<open>maxExact\<close> to a float is exact. \<open>None\<close> is the false flag.\<close>

definition signed_float :: "int \<Rightarrow> float64 option" where
  "signed_float n = (if n \<ge> - maxExact \<and> n \<le> maxExact then Some (Fin (of_int n)) else None)"

definition unsigned_float :: "int \<Rightarrow> float64 option" where
  "unsigned_float n = (if n \<le> maxExact then Some (Fin (of_int n)) else None)"

fun NumberToFloat :: "iface \<Rightarrow> float64 option" where
  "NumberToFloat (IFloat64 n) = Some n"
| "NumberToFloat (IFloat32 n) = Some n"
| "NumberToFloat (IInt n) = signed_float (sint n)"
| "NumberToFloat (IInt8 n) = Some (Fin (of_int (reflectInt64 (IInt8 n))))"
| "NumberToFloat (IInt16 n) = Some (Fin (of_int (reflectInt64 (IInt16 n))))"
| "NumberToFloat (IInt32 n) = Some (Fin (of_int (reflectInt64 (IInt32 n))))"
| "NumberToFloat (IInt64 n) = signed_float (sint n)"
| "NumberToFloat (IUint n) = unsigned_float (uint n)"
| "NumberToFloat (IUint8 n) = Some (Fin (of_int (reflectUint64 (IUint8 n))))"
| "NumberToFloat (IUint16 n) = Some (Fin (of_int (reflectUint64 (IUint16 n))))"
| "NumberToFloat (IUint32 n) = Some (Fin (of_int (reflectUint64 (IUint32 n))))"
| "NumberToFloat (IUint64 n) = unsigned_float (uint n)"
| "NumberToFloat v = None"

text \<open>A pair \<open>(equal, ok)\<close> of the source is an option: \<open>None\<close> when \<open>ok\<close> is false.\<close>

definition semanticallyEqualNumbers :: "iface \<Rightarrow> iface \<Rightarrow> bool option" where
  "semanticallyEqualNumbers a b =
     (case (NumberToFloat a, NumberToFloat b) of
        (Some av, Some bv) \<Rightarrow> if av = NaN \<and> bv = NaN then Some True else Some (av = bv \<and> av \<noteq> NaN)
      | (None, None) \<Rightarrow> None
      | _ \<Rightarrow> Some False)"

text \<open>\<open>uint64(ax)\<close> of an \<open>int64\<close> has the same 64 bits.\<close>

fun semanticallyEqualIntUint :: "iface \<Rightarrow> iface \<Rightarrow> bool option" where
  "semanticallyEqualIntUint (IInt64 ax) (IInt64 bx) = Some (ax = bx)"
| "semanticallyEqualIntUint (IInt64 ax) (IUint64 bx) = (if sint ax < 0 then Some False else Some (ax = bx))"
| "semanticallyEqualIntUint (IUint64 ax) (IUint64 bx) = Some (ax = bx)"
| "semanticallyEqualIntUint (IUint64 ax) (IInt64 bx) = (if sint bx < 0 then Some False else Some (ax = bx))"
| "semanticallyEqualIntUint a b = None"

section \<open>Values\<close>

lemma size_map_get: "as_map a = Some m \<Longrightarrow> size (map_get m k) \<le> size a"
  and size_map_get_key: "as_map a = Some m \<Longrightarrow> k \<in> set (go_keys m) \<Longrightarrow> size (map_get m k) < size a"
proof -
  have *: "size (map_get m k) \<le> size_list (size_prod (\<lambda>_. 0) size) m" for m
  proof (induction m)
    case (Cons p m)
    then show ?case by (cases p) (auto simp: map_get_def gomap_simps)
  qed (simp add: map_get_def)
  show "as_map a = Some m \<Longrightarrow> size (map_get m k) \<le> size a"
    using * [of m] by (cases a) (auto simp: map_get_def)
  show "as_map a = Some m \<Longrightarrow> k \<in> set (go_keys m) \<Longrightarrow> size (map_get m k) < size a"
    using * [of m] by (cases a) (auto simp: go_keys_def)
qed

lemma measure_step:
  assumes "as_map a = Some m" and "as_map b = Some m'" and "k \<in> set (go_keys m) \<or> k \<in> set (go_keys m')"
  shows "Suc (2 * size (map_get m k) + 2 * size (map_get m' k)) < 2 * size a + 2 * size b"
  using size_map_get [OF assms(1), of k] size_map_get [OF assms(2), of k]
    size_map_get_key [OF assms(1), of k] size_map_get_key [OF assms(2), of k] assms(3) by auto

function ValuesSemanticallyEqual :: "(iface \<Rightarrow> iface \<Rightarrow> bool) \<Rightarrow> iface \<Rightarrow> iface \<Rightarrow> bool"
  and semanticallyEqualMaps :: "(iface \<Rightarrow> iface \<Rightarrow> bool) \<Rightarrow> iface \<Rightarrow> iface \<Rightarrow> bool option" where
  "ValuesSemanticallyEqual deepEqual a b =
     (if deepEqual a b then True
      else case semanticallyEqualNumbers a b of
             Some equal \<Rightarrow> equal
           | None \<Rightarrow>
               (case semanticallyEqualMaps deepEqual a b of
                  Some equal \<Rightarrow> equal
                | None \<Rightarrow>
                    (case semanticallyEqualIntUint a b of
                       Some equal \<Rightarrow> equal
                     | None \<Rightarrow> False)))"
| "semanticallyEqualMaps deepEqual a b =
     (case as_map a of
        None \<Rightarrow> (case as_map b of None \<Rightarrow> None | Some _ \<Rightarrow> Some False)
      | Some oldMap \<Rightarrow>
          (case as_map b of
             None \<Rightarrow> Some False
           | Some newMap \<Rightarrow>
               Some (list_all (\<lambda>k. ValuesSemanticallyEqual deepEqual (map_get oldMap k) (map_get newMap k)) (go_keys oldMap)
                   \<and> list_all (\<lambda>k. ValuesSemanticallyEqual deepEqual (map_get oldMap k) (map_get newMap k)) (go_keys newMap))))"
  by pat_completeness auto
termination
  by (relation "measure (\<lambda>x. case x of Inl (_, a, b) \<Rightarrow> 2 * (size a + size b) + 1
                                    | Inr (_, a, b) \<Rightarrow> 2 * (size a + size b))")
    (auto simp: measure_step)

declare ValuesSemanticallyEqual.simps [simp del] semanticallyEqualMaps.simps [simp del]

text \<open>\<open>DiffKeys\<close>: the set \<open>keys\<close> is filled from both maps and then visited.\<close>

definition DiffKeys :: "(iface \<Rightarrow> iface \<Rightarrow> bool) \<Rightarrow> obj \<Rightarrow> obj \<Rightarrow> string list" where
  "DiffKeys deepEqual oldM newM =
     filter (\<lambda>k. \<not> ValuesSemanticallyEqual deepEqual (map_get oldM k) (map_get newM k))
       (remdups (go_keys oldM @ go_keys newM))"

section \<open>Numbers are compared by value\<close>

fun num_value :: "iface \<Rightarrow> rat option" where
  "num_value (IFloat64 (Fin r)) = Some r"
| "num_value (IFloat32 (Fin r)) = Some r"
| "num_value (IInt n) = Some (of_int (sint n))"
| "num_value (IInt8 n) = Some (of_int (sint n))"
| "num_value (IInt16 n) = Some (of_int (sint n))"
| "num_value (IInt32 n) = Some (of_int (sint n))"
| "num_value (IInt64 n) = Some (of_int (sint n))"
| "num_value (IUint n) = Some (of_int (uint n))"
| "num_value (IUint8 n) = Some (of_int (uint n))"
| "num_value (IUint16 n) = Some (of_int (uint n))"
| "num_value (IUint32 n) = Some (of_int (uint n))"
| "num_value (IUint64 n) = Some (of_int (uint n))"
| "num_value v = None"

fun is_int64 :: "iface \<Rightarrow> bool" where
  "is_int64 (IInt64 n) = True"
| "is_int64 (IUint64 n) = True"
| "is_int64 v = False"

lemma signed_float_cases:
  "signed_float n = Some (Fin (of_int n)) \<or> (signed_float n = None \<and> of_int maxExact < \<bar>of_int n :: rat\<bar>)"
proof (cases "n \<ge> - maxExact \<and> n \<le> maxExact")
  case False
  then have "maxExact < \<bar>n\<bar>" by auto
  then have "(of_int maxExact :: rat) < of_int \<bar>n\<bar>" by (simp only: of_int_less_iff)
  with False show ?thesis by (auto simp: signed_float_def)
qed (simp add: signed_float_def)

lemma unsigned_float_cases:
  "n \<ge> 0 \<Longrightarrow> unsigned_float n = Some (Fin (of_int n)) \<or> (unsigned_float n = None \<and> of_int maxExact < \<bar>of_int n :: rat\<bar>)"
  using signed_float_cases [of n] by (auto simp: signed_float_def unsigned_float_def maxExact_def)

lemma NumberToFloat_value:
  assumes "num_value a = Some x"
  shows "NumberToFloat a = Some (Fin x) \<or> (NumberToFloat a = None \<and> of_int maxExact < \<bar>x\<bar>)"
proof (cases a)
  case (IFloat64 f)
  with assms show ?thesis by (cases f) auto
next
  case (IFloat32 f)
  with assms show ?thesis by (cases f) auto
next
  case (IInt n)
  with assms show ?thesis using signed_float_cases [of "sint n"] by simp
next
  case (IInt64 n)
  with assms show ?thesis using signed_float_cases [of "sint n"] by simp
next
  case (IUint n)
  with assms show ?thesis using unsigned_float_cases [of "uint n"] by simp
next
  case (IUint64 n)
  with assms show ?thesis using unsigned_float_cases [of "uint n"] by simp
qed (use assms in simp_all)

lemma sint_nonneg_uint: "\<not> sint (w :: 64 word) < 0 \<Longrightarrow> uint w = sint w"
  using sint_lt [of w] by (simp add: uint_sint take_bit_int_eq_self)

lemma sint_uint_eq_iff:
  "sint a = uint b \<longleftrightarrow> \<not> sint a < 0 \<and> a = b" "uint b = sint a \<longleftrightarrow> \<not> sint a < 0 \<and> a = b"
  for a b :: "64 word"
  using sint_nonneg_uint [of a] uint_ge_0 [of b] unfolding word_uint_eq_iff [of a b] by linarith+

lemma sint_eq_iff: "sint a = sint b \<longleftrightarrow> a = b" for a b :: "64 word"
  by (auto intro: signed_word_eqI)

lemma semanticallyEqualIntUint_value:
  assumes "num_value a = Some x" and "num_value b = Some y" and "semanticallyEqualIntUint a b = Some r"
  shows "r \<longleftrightarrow> x = y"
  using assms
  by (induction a b rule: semanticallyEqualIntUint.induct)
    (auto simp: sint_uint_eq_iff sint_eq_iff simp flip: word_uint_eq_iff
      simp del: of_int_sint of_int_uint split: if_splits)

lemma semanticallyEqualIntUint_int64:
  "is_int64 a \<Longrightarrow> is_int64 b \<Longrightarrow> \<exists>r. semanticallyEqualIntUint a b = Some r"
  by (cases a; cases b) auto

lemma neg_uint_le: "- uint w \<le> maxExact"
  by (rule order_trans [of _ 0]) (simp_all add: maxExact_def)

lemma NumberToFloat_int64:
  assumes "is_int64 a" and "num_value a = Some x" and "NumberToFloat a = Some f"
  shows "\<bar>x\<bar> \<le> of_int maxExact"
proof -
  obtain n :: int where n: "x = of_int n" "\<bar>n\<bar> \<le> maxExact"
    using assms by (cases a) (auto simp: signed_float_def unsigned_float_def abs_le_iff neg_uint_le
        simp del: of_int_sint of_int_uint split: if_splits)
  then have "(of_int \<bar>n\<bar> :: rat) \<le> of_int maxExact" by (simp only: of_int_le_iff)
  with n show ?thesis by simp
qed

lemma num_value_no_map: "num_value a = Some x \<Longrightarrow> as_map a = None"
  by (cases a) auto

lemma ValuesSemanticallyEqual_numbers:
  assumes "num_value a = Some x" and "num_value b = Some y"
  shows "ValuesSemanticallyEqual deepEqual a b \<longleftrightarrow>
    deepEqual a b \<or> (case semanticallyEqualNumbers a b of
        Some r \<Rightarrow> r
      | None \<Rightarrow> semanticallyEqualIntUint a b = Some True)"
  using assms [THEN num_value_no_map]
  by (auto simp: ValuesSemanticallyEqual.simps [of deepEqual a b] semanticallyEqualMaps.simps [of deepEqual a b]
      split: option.split)

text \<open>
  C34. Numbers of the cluster and of the configuration are compared by value, whatever their Go
  types: what is found equal is equal; and numbers of magnitude up to 2^53, or 64-bit integers of
  any magnitude, signed or not, are found equal when they are.
\<close>

theorem ValuesSemanticallyEqual_by_value:
  assumes "num_value a = Some x" and "num_value b = Some y" and "deepEqual a b \<longrightarrow> x = y"
  shows "(ValuesSemanticallyEqual deepEqual a b \<longrightarrow> x = y)
    \<and> (\<bar>x\<bar> \<le> of_int maxExact \<and> \<bar>y\<bar> \<le> of_int maxExact \<or> is_int64 a \<and> is_int64 b \<longrightarrow>
         (x = y \<longrightarrow> ValuesSemanticallyEqual deepEqual a b))"
  using NumberToFloat_value [OF assms(1)] NumberToFloat_value [OF assms(2)] assms(3)
    semanticallyEqualIntUint_value [OF assms(1,2)] semanticallyEqualIntUint_int64 [of a b]
    NumberToFloat_int64 [OF _ assms(1)] NumberToFloat_int64 [OF _ assms(2)]
  unfolding ValuesSemanticallyEqual_numbers [OF assms(1,2)] semanticallyEqualNumbers_def
  by (auto split: option.splits)

theorem ValuesSemanticallyEqual_by_value_witness:
  "num_value (IFloat64 (Fin 8080)) = Some 8080 \<and> num_value (IInt64 8080) = Some 8080
   \<and> ValuesSemanticallyEqual (=) (IFloat64 (Fin 8080)) (IInt64 8080)"
  using ValuesSemanticallyEqual_by_value [of "IFloat64 (Fin 8080)" 8080 "IInt64 8080" 8080 "(=)"]
  by (simp add: maxExact_def)

text \<open>
  The keys reported as changed are exactly the keys of either object whose values differ,
  each once; none is reported exactly when the two objects, compared as values, are found equal.
\<close>

theorem DiffKeys_exact:
  "set (DiffKeys deepEqual oldM newM) =
     {k. k \<in> set (go_keys oldM) \<union> set (go_keys newM)
         \<and> \<not> ValuesSemanticallyEqual deepEqual (map_get oldM k) (map_get newM k)}
   \<and> distinct (DiffKeys deepEqual oldM newM)
   \<and> (DiffKeys deepEqual oldM newM = [] \<longleftrightarrow>
        semanticallyEqualMaps deepEqual (IMap oldM) (IMap newM) = Some True)"
  by (auto simp: DiffKeys_def semanticallyEqualMaps.simps filter_empty_conv list_all_iff)

end
