(* ===== verification/Kube.thy ===== *)
theory Kube
  imports GoValue
begin

text \<open>
  The Kubernetes API as the controller sees it (\<^verbatim>\<open>internal/kube/resources/resource_adapter.go\<close> and
  the client-go interfaces it calls).

  The API server is not part of the repository: it is a parameter. A client is a record of
  operations over a state \<open>'w\<close> of the outside world, an argument of every definition that calls
  it; an operation returns an error or a value and the new world. An object the server returns is
  known by its accessors: name, labels, annotations (nil is \<open>None\<close>) and content.

  What the code relies on is stated once, as predicates on a client:
  \<open>reads_pure\<close> (reading changes nothing), \<open>client_laws\<close> (what an operation does to the objects of one
  resource type, seen through a view of the world) and \<open>decode_law\<close> (the name of a decoded object).
  \<open>mem_client\<close> is a store in memory for which they hold.
\<close>

named_theorems keeps_intros \<open>rules for predicates on the world that an operation keeps\<close>

section \<open>Effects\<close>

type_synonym ('w, 'a) io = "'w \<Rightarrow> 'a result \<times> 'w"

definition retIO :: "'a \<Rightarrow> ('w, 'a) io" where
  "retIO x w = (Inr x, w)"

definition failIO :: "goerr \<Rightarrow> ('w, 'a) io" where
  "failIO e w = (Inl e, w)"

text \<open>\<open>x, err := m(); if err != nil { h(err) } else { f(x) }\<close>.\<close>

definition caseIO :: "('w, 'a) io \<Rightarrow> (goerr \<Rightarrow> ('w, 'b) io) \<Rightarrow> ('a \<Rightarrow> ('w, 'b) io) \<Rightarrow> ('w, 'b) io" where
  "caseIO m h f w = (case m w of (Inl e, w') \<Rightarrow> h e w' | (Inr x, w') \<Rightarrow> f x w')"

definition bindIO :: "('w, 'a) io \<Rightarrow> ('a \<Rightarrow> ('w, 'b) io) \<Rightarrow> ('w, 'b) io" where
  "bindIO m f = caseIO m failIO f"

definition thenIO :: "('w, 'a) io \<Rightarrow> ('w, 'b) io \<Rightarrow> ('w, 'b) io" where
  "thenIO m n = bindIO m (\<lambda>_. n)"

definition liftIO :: "'a result \<Rightarrow> ('w, 'a) io" where
  "liftIO r w = (r, w)"

definition wrapIO :: "string \<Rightarrow> ('w, 'a) io \<Rightarrow> ('w, 'a) io" where
  "wrapIO ctx m = caseIO m (\<lambda>e. failIO (Wrap ctx e)) retIO"

text \<open>\<open>for _, x := range xs { if err := f(x); err != nil { return err } }\<close>.\<close>

fun loopIO :: "('a \<Rightarrow> ('w, unit) io) \<Rightarrow> 'a list \<Rightarrow> ('w, unit) io" where
  "loopIO f [] = retIO ()"
| "loopIO f (x # xs) = thenIO (f x) (loopIO f xs)"

lemmas io_defs = retIO_def failIO_def caseIO_def bindIO_def thenIO_def liftIO_def wrapIO_def

lemma io_simps [simp]:
  "retIO x w = (Inr x, w)" "failIO e w = (Inl e, w)" "liftIO r w = (r, w)"
  by (simp_all add: io_defs)

lemma thenIO_Inr: "thenIO m n w = (Inr y, w'') \<longleftrightarrow> (\<exists>x w'. m w = (Inr x, w') \<and> n w' = (Inr y, w''))"
  by (auto simp: io_defs split: prod.splits sum.splits)

lemma bindIO_Inr: "bindIO m f w = (Inr y, w'') \<longleftrightarrow> (\<exists>x w'. m w = (Inr x, w') \<and> f x w' = (Inr y, w''))"
  by (auto simp: io_defs split: prod.splits sum.splits)

lemma wrapIO_Inr: "wrapIO c m w = (Inr y, w') \<longleftrightarrow> m w = (Inr y, w')"
  by (auto simp: io_defs split: prod.splits sum.splits)

section \<open>Predicates an operation keeps\<close>

definition keeps :: "('w \<Rightarrow> bool) \<Rightarrow> ('w, 'a) io \<Rightarrow> bool" where
  "keeps P m \<longleftrightarrow> (\<forall>w. P w \<longrightarrow> P (snd (m w)))"

lemma keepsD: "keeps P m \<Longrightarrow> P w \<Longrightarrow> P (snd (m w))"
  by (simp add: keeps_def)

lemma keeps_ret [keeps_intros]: "keeps P (retIO x)"
  by (simp add: keeps_def)

lemma keeps_fail [keeps_intros]: "keeps P (failIO e)"
  by (simp add: keeps_def)

lemma keeps_lift [keeps_intros]: "keeps P (liftIO r)"
  by (simp add: keeps_def)

lemma keeps_case [keeps_intros]:
  "keeps P m \<Longrightarrow> (\<And>e. keeps P (h e)) \<Longrightarrow> (\<And>x. keeps P (f x)) \<Longrightarrow> keeps P (caseIO m h f)"
  unfolding keeps_def caseIO_def by (auto split: prod.split sum.split)

lemma keeps_bind [keeps_intros]: "keeps P m \<Longrightarrow> (\<And>x. keeps P (f x)) \<Longrightarrow> keeps P (bindIO m f)"
  unfolding bindIO_def by (intro keeps_intros) auto

lemma keeps_then [keeps_intros]: "keeps P m \<Longrightarrow> keeps P n \<Longrightarrow> keeps P (thenIO m n)"
  unfolding thenIO_def by (intro keeps_intros) auto

lemma keeps_wrap [keeps_intros]: "keeps P m \<Longrightarrow> keeps P (wrapIO c m)"
  unfolding wrapIO_def by (intro keeps_intros) auto

lemma keeps_loop [keeps_intros]: "(\<And>x. x \<in> set xs \<Longrightarrow> keeps P (f x)) \<Longrightarrow> keeps P (loopIO f xs)"
  by (induction xs) (auto intro: keeps_intros)

lemma keeps_if [keeps_intros]: "(b \<Longrightarrow> keeps P m) \<Longrightarrow> (\<not> b \<Longrightarrow> keeps P n) \<Longrightarrow> keeps P (if b then m else n)"
  by simp

text \<open>A loop that succeeds has succeeded in every round, with a relation between worlds it keeps.\<close>

lemma loopIO_Inr_induct:
  assumes "loopIO f xs w = (Inr u, w')"
    and "R w w"
    and "\<And>x v v' s. x \<in> set xs \<Longrightarrow> R w v \<Longrightarrow> f x v = (Inr s, v') \<Longrightarrow> R w v'"
  shows "R w w'"
proof -
  have "R w w'" if "loopIO f ys v = (Inr u, w')" "R w v" "set ys \<subseteq> set xs" for ys v
    using that
  proof (induction ys arbitrary: v)
    case (Cons y ys)
    then obtain s v' where s: "f y v = (Inr s, v')" and r: "loopIO f ys v' = (Inr u, w')"
      by (auto simp: thenIO_Inr)
    have "R w v'" by (rule assms(3) [OF _ Cons.prems(2) s]) (use Cons.prems(3) in auto)
    with Cons.IH [OF r] Cons.prems(3) show ?case by auto
  qed simp
  from this [OF assms(1,2)] show ?thesis by simp
qed

section \<open>Clients\<close>

record Unstructured =
  GetName :: string
  GetLabels :: "string gomap option"
  GetAnnotations :: "string gomap option"
  UnstructuredContent :: obj

record PatchOptions =
  po_FieldManager :: string
  po_Force :: "bool option"
  po_FieldValidation :: string

record CreateOptions =
  co_FieldValidation :: string

text \<open>\<open>resources.ResourceClient\<close>; the controller never calls \<open>Watch\<close>.\<close>

record 'w ResourceClient =
  api_Get :: "string \<Rightarrow> ('w, Unstructured) io"
  api_Create :: "Unstructured \<Rightarrow> CreateOptions \<Rightarrow> ('w, Unstructured) io"
  api_Patch :: "string \<Rightarrow> raw_message \<Rightarrow> PatchOptions \<Rightarrow> ('w, Unstructured) io"
  api_Delete :: "string \<Rightarrow> ('w, unit) io"
  api_List :: "string \<Rightarrow> ('w, Unstructured list) io"

text \<open>
  \<open>AdaptResource\<close> hands every call on to the dynamic client it wraps.
\<close>

definition AdaptResource :: "'w ResourceClient \<Rightarrow> 'w ResourceClient" where
  "AdaptResource ri =
     \<lparr>api_Get = api_Get ri, api_Create = api_Create ri, api_Patch = api_Patch ri,
      api_Delete = api_Delete ri, api_List = api_List ri\<rparr>"

lemma AdaptResource_id [simp]: "AdaptResource ri = ri"
  by (simp add: AdaptResource_def)

text \<open>A typed client of client-go, for \<open>corev1.Service\<close> and \<open>discoveryv1.EndpointSlice\<close>.\<close>

record ('w, 'o) TypedClient =
  typed_Get :: "string \<Rightarrow> ('w, 'o) io"
  typed_Create :: "'o \<Rightarrow> ('w, 'o) io"
  typed_Update :: "'o \<Rightarrow> ('w, 'o) io"
  typed_Delete :: "string \<Rightarrow> ('w, unit) io"
  typed_List :: "string \<Rightarrow> ('w, 'o list) io"

text \<open>The fields of the typed objects that the controller sets.\<close>

datatype Protocol = ProtocolTCP | ProtocolUDP

datatype AddressType = AddressTypeIPv4 | AddressTypeIPv6 | AddressTypeFQDN

record Service =
  svc_Name :: string
  svc_Namespace :: string
  svc_Labels :: "string gomap option"
  svc_Annotations :: "string gomap option"
  svc_ClusterIP :: string
  svc_Ports :: "(int \<times> Protocol) list"

record EndpointSlice =
  es_Name :: string
  es_Namespace :: string
  es_Labels :: "string gomap option"
  es_Annotations :: "string gomap option"
  es_AddressType :: AddressType
  es_Endpoints :: "string list list"
  es_Ports :: "(int \<times> Protocol) list"

text \<open>
  What else lies outside: decoding JSON to an unstructured object, and waiting for a timer, which
  returns whether it fired before the context was cancelled.
\<close>

record 'w outside =
  UnmarshalJSON :: "raw_message \<Rightarrow> Unstructured result"
  wait :: "int \<Rightarrow> 'w \<Rightarrow> bool \<times> 'w"

section \<open>What the code relies on\<close>

definition has_label :: "string \<Rightarrow> string \<Rightarrow> Unstructured \<Rightarrow> bool" where
  "has_label k v u \<longleftrightarrow> go_get (of_nil (GetLabels u)) k = Some v"

definition reads_pure :: "'w ResourceClient \<Rightarrow> bool" where
  "reads_pure cl \<longleftrightarrow> (\<forall>n w. snd (api_Get cl n w) = w) \<and> (\<forall>s w. snd (api_List cl s w) = w)"

text \<open>
  \<open>view w n\<close> is the object named \<open>n\<close> of the client's resource type and namespace. A call that
  fails changes nothing; \<open>Delete\<close> of an object that is not there fails with \<open>NotFound\<close>; \<open>Get\<close>
  fails with \<open>NotFound\<close> only when there is none; a selector \<open>k=v\<close> lists exactly the objects with
  that label. Nothing is assumed about which calls succeed.
\<close>

definition client_laws :: "'w ResourceClient \<Rightarrow> ('w \<Rightarrow> string \<Rightarrow> Unstructured option) \<Rightarrow> bool" where
  "client_laws cl view \<longleftrightarrow>
     (\<forall>w n u. view w n = Some u \<longrightarrow> GetName u = n)
   \<and> (\<forall>w n. view (snd (api_Get cl n w)) = view w
        \<and> (case fst (api_Get cl n w) of
             Inr u \<Rightarrow> view w n = Some u
           | Inl e \<Rightarrow> IsNotFound e \<longrightarrow> view w n = None))
   \<and> (\<forall>w s. view (snd (api_List cl s w)) = view w)
   \<and> (\<forall>w k v us. fst (api_List cl (k @ ''='' @ v) w) = Inr us \<and> CHR ''='' \<notin> set k \<longrightarrow>
        set us = {u. \<exists>n. view w n = Some u \<and> has_label k v u})
   \<and> (\<forall>w u opts.
        (case fst (api_Create cl u opts w) of
           Inr _ \<Rightarrow> (\<exists>u'. view (snd (api_Create cl u opts w)) = (view w)(GetName u \<mapsto> u'))
         | Inl _ \<Rightarrow> view (snd (api_Create cl u opts w)) = view w))
   \<and> (\<forall>w n d opts.
        (case fst (api_Patch cl n d opts w) of
           Inr _ \<Rightarrow> (\<exists>u'. view (snd (api_Patch cl n d opts w)) = (view w)(n \<mapsto> u'))
         | Inl _ \<Rightarrow> view (snd (api_Patch cl n d opts w)) = view w))
   \<and> (\<forall>w n.
        (case fst (api_Delete cl n w) of
           Inr _ \<Rightarrow> view (snd (api_Delete cl n w)) = (view w)(n := None)
         | Inl e \<Rightarrow> view (snd (api_Delete cl n w)) = view w \<and> (IsNotFound e \<longrightarrow> view w n = None)))"

text \<open>No other client writes to the resource type while the controller waits for a timer.\<close>

definition wait_law :: "'w outside \<Rightarrow> ('w \<Rightarrow> string \<Rightarrow> Unstructured option) \<Rightarrow> bool" where
  "wait_law env view \<longleftrightarrow> (\<forall>d w. view (snd (wait env d w)) = view w)"

text \<open>
  A decoded object has the content of its JSON form, and the name that form has in \<open>metadata.name\<close>.
\<close>

definition decode_law :: "'w outside \<Rightarrow> bool" where
  "decode_law env \<longleftrightarrow>
     (\<forall>m u. UnmarshalJSON env (RawJSON (IMap m)) = Inr u \<longrightarrow> UnstructuredContent u = m)
   \<and> (\<forall>m meta n u. UnmarshalJSON env (RawJSON (IMap m)) = Inr u \<and> map_get m ''metadata'' = IMap meta
        \<and> map_get meta ''name'' = IStr n \<longrightarrow> GetName u = n)"

text \<open>
  What the server makes of the document it is given depends on the schema of the resource type
  (defaults, pruned fields): \<open>reflects d u\<close> says that the stored object \<open>u\<close> carries the document \<open>d\<close>. The
  server promises this of every object it has created or patched.
\<close>

type_synonym reflection = "obj \<Rightarrow> Unstructured \<Rightarrow> bool"

definition content_law :: "'w ResourceClient \<Rightarrow> ('w \<Rightarrow> string \<Rightarrow> Unstructured option) \<Rightarrow> reflection \<Rightarrow> bool" where
  "content_law cl view reflects \<longleftrightarrow>
     (\<forall>w u opts x w'. api_Create cl u opts w = (Inr x, w') \<longrightarrow>
        (\<exists>u'. view w' (GetName u) = Some u' \<and> reflects (UnstructuredContent u) u'))
   \<and> (\<forall>w n d opts x w'. api_Patch cl n (RawJSON (IMap d)) opts w = (Inr x, w') \<longrightarrow>
        (\<exists>u'. view w' n = Some u' \<and> reflects d u'))"

lemma client_laws_Get:
  assumes "client_laws cl view" and "api_Get cl n w = (r, w')"
  shows "view w' = view w" and "r = Inr u \<Longrightarrow> view w n = Some u"
    and "r = Inl e \<Longrightarrow> IsNotFound e \<Longrightarrow> view w n = None"
proof -
  from assms(1) have "view (snd (api_Get cl n w)) = view w
      \<and> (case fst (api_Get cl n w) of Inr u \<Rightarrow> view w n = Some u | Inl e \<Rightarrow> IsNotFound e \<longrightarrow> view w n = None)"
    unfolding client_laws_def by blast
  with assms(2) show "view w' = view w" "r = Inr u \<Longrightarrow> view w n = Some u"
      "r = Inl e \<Longrightarrow> IsNotFound e \<Longrightarrow> view w n = None"
    by simp_all
qed

lemma client_laws_name: "client_laws cl view \<Longrightarrow> view w n = Some u \<Longrightarrow> GetName u = n"
  by (auto simp: client_laws_def)

lemma client_laws_List:
  assumes "client_laws cl view" and "api_List cl (k @ ''='' @ v) w = (Inr us, w')" and "CHR ''='' \<notin> set k"
  shows "view w' = view w" and "set us = {u. \<exists>n. view w n = Some u \<and> has_label k v u}"
proof -
  from assms(1) have "view (snd (api_List cl (k @ ''='' @ v) w)) = view w"
    by (simp add: client_laws_def)
  with assms(2) show "view w' = view w" by simp
  from assms(1) have "fst (api_List cl (k @ ''='' @ v) w) = Inr us \<and> CHR ''='' \<notin> set k \<longrightarrow>
      set us = {u. \<exists>n. view w n = Some u \<and> has_label k v u}"
    unfolding client_laws_def by blast
  with assms(2,3) show "set us = {u. \<exists>n. view w n = Some u \<and> has_label k v u}" by simp
qed

lemma client_laws_Create:
  assumes "client_laws cl view" and "content_law cl view rf" and "api_Create cl u opts w = (Inr x, w')"
  shows "\<exists>u'. view w' = (view w)(GetName u \<mapsto> u') \<and> rf (UnstructuredContent u) u'"
proof -
  from assms(2,3) obtain o' where "view w' (GetName u) = Some o'" "rf (UnstructuredContent u) o'"
    unfolding content_law_def by blast
  moreover
  from assms(1) have "case fst (api_Create cl u opts w) of
      Inr _ \<Rightarrow> (\<exists>u'. view (snd (api_Create cl u opts w)) = (view w)(GetName u \<mapsto> u'))
    | Inl _ \<Rightarrow> view (snd (api_Create cl u opts w)) = view w"
    unfolding client_laws_def by blast
  ultimately show ?thesis using assms(3) by auto
qed

lemma client_laws_Patch:
  assumes "client_laws cl view" and "api_Patch cl n d opts w = (r, w')"
  shows "r = Inr x \<Longrightarrow> \<exists>u'. view w' = (view w)(n \<mapsto> u')" and "r = Inl e \<Longrightarrow> view w' = view w"
proof -
  from assms(1) have "case fst (api_Patch cl n d opts w) of
      Inr _ \<Rightarrow> (\<exists>u'. view (snd (api_Patch cl n d opts w)) = (view w)(n \<mapsto> u'))
    | Inl _ \<Rightarrow> view (snd (api_Patch cl n d opts w)) = view w"
    unfolding client_laws_def by blast
  with assms(2) show "r = Inr x \<Longrightarrow> \<exists>u'. view w' = (view w)(n \<mapsto> u')" "r = Inl e \<Longrightarrow> view w' = view w"
    by simp_all
qed

lemma client_laws_Delete:
  assumes "client_laws cl view" and "api_Delete cl n w = (r, w')"
  shows "r = Inr x \<Longrightarrow> view w' = (view w)(n := None)"
    and "r = Inl e \<Longrightarrow> IsNotFound e \<Longrightarrow> view w' = (view w)(n := None)"
proof -
  from assms(1) have "case fst (api_Delete cl n w) of
      Inr _ \<Rightarrow> view (snd (api_Delete cl n w)) = (view w)(n := None)
    | Inl e \<Rightarrow> view (snd (api_Delete cl n w)) = view w \<and> (IsNotFound e \<longrightarrow> view w n = None)"
    unfolding client_laws_def by blast
  with assms(2) show "r = Inr x \<Longrightarrow> view w' = (view w)(n := None)"
      "r = Inl e \<Longrightarrow> IsNotFound e \<Longrightarrow> view w' = (view w)(n := None)"
    by (auto simp: fun_eq_iff)
qed

lemma content_law_Patch:
  assumes "client_laws cl view" and "content_law cl view rf" and "api_Patch cl n (RawJSON (IMap d)) opts w = (Inr x, w')"
  shows "\<exists>u'. view w' = (view w)(n \<mapsto> u') \<and> rf d u'"
proof -
  obtain u' where "view w' = (view w)(n \<mapsto> u')" using client_laws_Patch(1) [OF assms(1,3) refl] by blast
  moreover from assms(2,3) have "\<exists>u'. view w' n = Some u' \<and> rf d u'" unfolding content_law_def by blast
  ultimately show ?thesis by auto
qed

section \<open>A store in memory\<close>

type_synonym mem = "Unstructured list"

definition mem_view :: "mem \<Rightarrow> string \<Rightarrow> Unstructured option" where
  "mem_view w n = find (\<lambda>u. GetName u = n) w"

definition mem_strings :: "iface \<Rightarrow> string gomap option" where
  "mem_strings v = map_option (\<lambda>m. map (\<lambda>(k, x). (k, str_or_empty x)) m) (as_map v)"

definition mem_decode :: "raw_message \<Rightarrow> Unstructured result" where
  "mem_decode raw =
     bindE (unmarshal_map raw) (\<lambda>o'.
       let m = of_nil o'; meta = of_nil (as_map (map_get m ''metadata''))
       in Inr \<lparr>GetName = str_or_empty (map_get meta ''name''),
               GetLabels = mem_strings (map_get meta ''labels''),
               GetAnnotations = mem_strings (map_get meta ''annotations''),
               UnstructuredContent = m\<rparr>)"

definition mem_put :: "mem \<Rightarrow> Unstructured \<Rightarrow> mem" where
  "mem_put w u = u # filter (\<lambda>x. GetName x \<noteq> GetName u) w"

definition mem_merge :: "string gomap option \<Rightarrow> string gomap option \<Rightarrow> string gomap option" where
  "mem_merge old new = Some (fold (\<lambda>(k, v) m. go_put m k v) (of_nil new) (of_nil old))"

definition mem_client :: "mem ResourceClient" where
  "mem_client =
     \<lparr>api_Get = (\<lambda>n w. case mem_view w n of
          None \<Rightarrow> (Inl (KubeErr NotFound n), w) | Some u \<Rightarrow> (Inr u, w)),
      api_Create = (\<lambda>u opts w. case mem_view w (GetName u) of
          None \<Rightarrow> (Inr u, mem_put w u) | Some _ \<Rightarrow> (Inl (KubeErr AlreadyExists (GetName u)), w)),
      api_Patch = (\<lambda>n d opts w. case mem_decode d of
          Inl e \<Rightarrow> (Inl e, w)
        | Inr p \<Rightarrow>
            (let old = (case mem_view w n of None \<Rightarrow> p | Some u \<Rightarrow> u);
                 u = p\<lparr>GetName := n, GetLabels := mem_merge (GetLabels old) (GetLabels p),
                       GetAnnotations := mem_merge (GetAnnotations old) (GetAnnotations p)\<rparr>
             in (Inr u, mem_put w u))),
      api_Delete = (\<lambda>n w. case mem_view w n of
          None \<Rightarrow> (Inl (KubeErr NotFound n), w) | Some _ \<Rightarrow> (Inr (), filter (\<lambda>x. GetName x \<noteq> n) w)),
      api_List = (\<lambda>s w. case Cut s (CHR ''='') of (k, v, _) \<Rightarrow>
          (Inr (filter (\<lambda>u. mem_view w (GetName u) = Some u \<and> has_label k v u) w), w))\<rparr>"

definition mem_outside :: "mem outside" where
  "mem_outside = \<lparr>UnmarshalJSON = mem_decode, wait = (\<lambda>d w. (True, w))\<rparr>"

lemma mem_view_Some: "mem_view w n = Some u \<Longrightarrow> GetName u = n \<and> u \<in> set w"
  by (auto simp: mem_view_def find_Some_iff)

lemma mem_view_filter: "mem_view (filter (\<lambda>x. GetName x \<noteq> k) w) n = (if n = k then None else mem_view w n)"
  by (induction w) (auto simp: mem_view_def find_None_iff)

lemma mem_view_put: "mem_view (mem_put w u) = (mem_view w)(GetName u \<mapsto> u)"
proof
  fix n
  show "mem_view (mem_put w u) n = ((mem_view w)(GetName u \<mapsto> u)) n"
    using mem_view_filter [of "GetName u" w n] by (auto simp: mem_put_def mem_view_def)
qed

lemma mem_client_laws: "client_laws mem_client mem_view"
proof -
  have "set (filter (\<lambda>u. mem_view w (GetName u) = Some u \<and> has_label k v u) w) =
      {u. \<exists>n. mem_view w n = Some u \<and> has_label k v u}" for w k v
    using mem_view_Some by fastforce
  then show ?thesis
    unfolding client_laws_def mem_client_def
    by (auto simp: mem_view_filter mem_view_put Let_def Cut_append IsNotFound_def fun_eq_iff
        dest: mem_view_Some split: option.split sum.split prod.split)
qed

lemma mem_reads_pure: "reads_pure mem_client"
  by (auto simp: reads_pure_def mem_client_def split: option.split prod.split)

lemma mem_decode_law: "decode_law mem_outside"
  by (auto simp: decode_law_def mem_outside_def mem_decode_def Let_def of_nil_def str_or_empty_def)

text \<open>The store keeps the \<open>spec\<close> of a document as it is.\<close>

definition mem_reflects :: reflection where
  "mem_reflects d u \<longleftrightarrow> map_get (UnstructuredContent u) ''spec'' = map_get d ''spec''"

lemma mem_content_law: "content_law mem_client mem_view mem_reflects"
  by (auto simp: content_law_def mem_client_def mem_view_put mem_reflects_def mem_decode_def Let_def of_nil_def
      split: option.splits sum.splits)

lemma mem_wait_law: "wait_law mem_outside mem_view"
  by (simp add: wait_law_def mem_outside_def)

end
