(* ===== verification/Apply.thy ===== *)
theory Apply
  imports Kube Diff Routing
begin

text \<open>
  Writing one object to the cluster (\<^verbatim>\<open>internal/apply\<close>: \<open>metadata.go\<close>, \<open>unstructured.go\<close>,
  \<open>ingressroute.go\<close>, \<open>service.go\<close>): read the object, create it when it is missing, otherwise patch it
  by server-side apply with retries. Logging is left out (\<open>PatchUnstructured\<close> uses \<open>DiffKeys\<close> for a
  log line only; the warning about an object without a name is in \<open>Redact\<close>).

  Shown: which metadata a patch carries and when it is forced; the retry loop makes at most five
  calls and stops at an error that a retry cannot help; every operation that succeeds has written
  the object it was given and no other, whichever branch it took (the locale \<open>applier\<close>, interpreted
  on the three operations).
\<close>

section \<open>Metadata\<close>

definition GetMetadataMap ::
  "Unstructured option \<Rightarrow> (Unstructured \<Rightarrow> string gomap option) \<Rightarrow> string gomap option" where
  "GetMetadataMap existing getter = (case existing of Some u \<Rightarrow> getter u | None \<Rightarrow> None)"

text \<open>The flag and the new \<open>target\<close>.\<close>

definition UpdateMetadataField :: "string gomap option \<Rightarrow> string \<Rightarrow> string \<Rightarrow> obj \<Rightarrow> bool \<times> obj" where
  "UpdateMetadataField existing key desiredValue target =
     (case existing of
        None \<Rightarrow> (True, go_put target key (IStr desiredValue))
      | Some m \<Rightarrow>
          (case go_get m key of
             None \<Rightarrow> (True, go_put target key (IStr desiredValue))
           | Some val \<Rightarrow>
               if val \<noteq> desiredValue then (True, go_put target key (IStr desiredValue)) else (False, target)))"

record MetadataConfig =
  mc_ManagedLabelKey :: string
  mc_ManagedLabelValue :: string
  mc_TraefikInstanceLabelKey :: string
  mc_TraefikInstanceLabelValue :: string
  mc_ManagedAnnoKey :: string
  mc_ManagedAnnoValue :: string
  mc_IngressClass :: string

definition BuildMetadataForApply ::
  "Unstructured option \<Rightarrow> string \<Rightarrow> string \<Rightarrow> string \<Rightarrow> MetadataConfig \<Rightarrow> obj \<times> bool" where
  "BuildMetadataForApply existing name ns kind cfg =
     (let meta = [(''name'', IStr name), (''namespace'', IStr ns)];
          isUpdate = (existing \<noteq> None);
          existingLabels = GetMetadataMap existing GetLabels;
          existingAnnotations = GetMetadataMap existing GetAnnotations;
          (c1, labels) = UpdateMetadataField existingLabels (mc_ManagedLabelKey cfg) (mc_ManagedLabelValue cfg) [];
          (c2, labels) =
            (if mc_TraefikInstanceLabelKey cfg \<noteq> [] \<and> mc_TraefikInstanceLabelValue cfg \<noteq> []
             then UpdateMetadataField existingLabels (mc_TraefikInstanceLabelKey cfg)
                    (mc_TraefikInstanceLabelValue cfg) labels
             else (False, labels));
          (c3, annotations) =
            UpdateMetadataField existingAnnotations (mc_ManagedAnnoKey cfg) (mc_ManagedAnnoValue cfg) [];
          (c4, annotations) =
            (if kind = ''IngressRoute''
             then UpdateMetadataField existingAnnotations IngressClassAnnotation (mc_IngressClass cfg) annotations
             else (False, annotations));
          needForce = (c1 \<and> isUpdate \<or> c2 \<and> isUpdate \<or> c3 \<and> isUpdate \<or> c4 \<and> isUpdate);
          meta = (if labels \<noteq> [] then go_put meta ''labels'' (IMap labels) else meta);
          meta = (if annotations \<noteq> [] then go_put meta ''annotations'' (IMap annotations) else meta)
      in (meta, needForce))"

definition NeedsForceOnMapChange :: "string gomap option \<Rightarrow> obj \<Rightarrow> bool" where
  "NeedsForceOnMapChange existing desired =
     (case existing of
        None \<Rightarrow> False
      | Some m \<Rightarrow>
          list_ex (\<lambda>(k, v). case go_get m k of Some cur \<Rightarrow> cur \<noteq> str_or_empty v | None \<Rightarrow> True) desired)"

definition ForceNeededForMetadata :: "Unstructured option \<Rightarrow> obj \<Rightarrow> bool" where
  "ForceNeededForMetadata existing desired =
     (case existing of
        None \<Rightarrow> False
      | Some u \<Rightarrow>
          (case map_get desired ''metadata'' of
             IMap meta \<Rightarrow>
               (case as_map (map_get meta ''labels'') of
                  Some lbls \<Rightarrow> NeedsForceOnMapChange (GetLabels u) lbls | None \<Rightarrow> False)
             \<or> (case as_map (map_get meta ''annotations'') of
                  Some ann \<Rightarrow> NeedsForceOnMapChange (GetAnnotations u) ann | None \<Rightarrow> False)
           | _ \<Rightarrow> False))"

section \<open>Server-side apply\<close>

definition FieldManager :: string where
  "FieldManager = ''pangolin-kube-controller''"

definition FieldValidationIgnore :: string where
  "FieldValidationIgnore = ''Ignore''"

definition KindFor :: "string \<Rightarrow> string" where
  "KindFor resource =
     (if resource = ''ingressroutes'' then ''IngressRoute''
      else if resource = ''middlewares'' then ''Middleware''
      else if resource = ''traefikservices'' then ''TraefikService''
      else if resource = ''serverstransports'' then ''ServersTransport''
      else if resource = ''ingressroutetcps'' then ''IngressRouteTCP''
      else if resource = ''ingressrouteudps'' then ''IngressRouteUDP''
      else if resource = ''serverstransporttcps'' then ''ServersTransportTCP''
      else resource)"

definition IgnoreFieldValidation :: "string \<Rightarrow> bool" where
  "IgnoreFieldValidation kind \<longleftrightarrow> kind = ''TraefikService''"

record GVR =
  gvr_Group :: string
  gvr_Version :: string
  gvr_Resource :: string

text \<open>\<open>dynamic.Interface\<close>: \<open>dyn gvr ns\<close> is \<open>Dyn.Resource(gvr).Namespace(ns)\<close>.\<close>

type_synonym 'w dynamic = "GVR \<Rightarrow> string \<Rightarrow> 'w ResourceClient"

record 'w UnstructuredOps =
  uo_Dyn :: "'w dynamic"
  uo_GVR :: GVR
  uo_Namespace :: string
  uo_SSAForce :: bool

record PatchConfig =
  pc_Force :: bool
  pc_SSAForce :: bool

record SSAOptions =
  ssa_Force :: bool
  ssa_ForceOverride :: bool
  ssa_SSAForce :: bool

definition isTransientError :: "goerr \<Rightarrow> bool" where
  "isTransientError err \<longleftrightarrow>
     reason_of err \<in> {Some TimeoutReason, Some ServerTimeout, Some TooManyRequests, Some ServiceUnavailable}"

definition Millisecond :: int where
  "Millisecond = 1000000"

text \<open>
  The loop of \<open>ApplySSAWithRetry\<close>: \<open>n\<close> rounds are left; \<open>lastErr\<close> is returned when none is. The
  \<open>select\<close> is \<open>wait\<close>: a context that is done ends the loop with the last error.
\<close>

fun ssa_loop ::
  "'w outside \<Rightarrow> ('w, Unstructured) io \<Rightarrow> bool \<Rightarrow> nat \<Rightarrow> int \<Rightarrow> goerr option \<Rightarrow> ('w, unit) io" where
  "ssa_loop env patch useForce 0 backoff lastErr w =
     (case lastErr of None \<Rightarrow> (Inr (), w) | Some e \<Rightarrow> (Inl e, w))"
| "ssa_loop env patch useForce (Suc n) backoff lastErr w =
     (case patch w of
        (Inr _, w') \<Rightarrow> (Inr (), w')
      | (Inl e, w') \<Rightarrow>
          if (IsConflict e \<and> useForce) \<or> isTransientError e
          then (case wait env backoff w' of
                  (False, w'') \<Rightarrow> (Inl e, w'')
                | (True, w'') \<Rightarrow> ssa_loop env patch useForce n (backoff * 2) (Some e) w'')
          else (Inl e, w'))"

definition useForce :: "SSAOptions \<Rightarrow> bool" where
  "useForce opts \<longleftrightarrow> ssa_SSAForce opts \<or> ssa_Force opts \<or> ssa_ForceOverride opts"

definition patchOpts :: "string \<Rightarrow> SSAOptions \<Rightarrow> PatchOptions" where
  "patchOpts kind opts =
     \<lparr>po_FieldManager = FieldManager,
      po_Force = (if useForce opts then Some True else None),
      po_FieldValidation = (if IgnoreFieldValidation kind then FieldValidationIgnore else [])\<rparr>"

definition ApplySSAWithRetry ::
  "'w outside \<Rightarrow> 'w ResourceClient \<Rightarrow> string \<Rightarrow> raw_message \<Rightarrow> string \<Rightarrow> SSAOptions \<Rightarrow> ('w, unit) io" where
  "ApplySSAWithRetry env resIfc name patchBytes kind opts =
     ssa_loop env (api_Patch resIfc name patchBytes (patchOpts kind opts)) (useForce opts) 5 (50 * Millisecond) None"

definition CreateUnstructured :: "'w outside \<Rightarrow> 'w ResourceClient \<Rightarrow> obj \<Rightarrow> string \<Rightarrow> ('w, unit) io" where
  "CreateUnstructured env resIfc u kind =
     bindIO (liftIO (Marshal (IMap u))) (\<lambda>bytes.
     bindIO (liftIO (UnmarshalJSON env bytes)) (\<lambda>obj.
       let createOpts =
         \<lparr>co_FieldValidation = (if IgnoreFieldValidation kind then FieldValidationIgnore else [])\<rparr>
       in thenIO (api_Create resIfc obj createOpts) (retIO ())))"

definition PatchUnstructured ::
  "'w outside \<Rightarrow> 'w ResourceClient \<Rightarrow> string \<Rightarrow> obj \<Rightarrow> Unstructured option \<Rightarrow> string \<Rightarrow> PatchConfig \<Rightarrow> ('w, unit) io" where
  "PatchUnstructured env resIfc name u existing kind cfg =
     (let forceOverride = ForceNeededForMetadata existing u in
      bindIO (liftIO (Marshal (IMap u))) (\<lambda>patchBytes.
        ApplySSAWithRetry env resIfc name patchBytes kind
          \<lparr>ssa_Force = pc_Force cfg, ssa_ForceOverride = forceOverride, ssa_SSAForce = pc_SSAForce cfg\<rparr>))"

definition DiffSpecKeys :: "(iface \<Rightarrow> iface \<Rightarrow> bool) \<Rightarrow> Unstructured \<Rightarrow> obj \<Rightarrow> string list" where
  "DiffSpecKeys deepEqual existing desired =
     (let oldSpec = of_nil (as_map (map_get (UnstructuredContent existing) ''spec''));
          newSpec = of_nil (as_map (map_get desired ''spec''))
      in DiffKeys deepEqual oldSpec newSpec)"

text \<open>\<open>errors.IsNotFound\<close> on the result of \<open>Get\<close>: the branches the three operations share.\<close>

definition get_or_missing ::
  "('w, 'o) io \<Rightarrow> ('w, unit) io \<Rightarrow> ('o \<Rightarrow> ('w, unit) io) \<Rightarrow> ('w, unit) io" where
  "get_or_missing get missing found =
     caseIO get (\<lambda>err. if IsNotFound err then missing else failIO err) found"

definition UnstructuredOps_Apply ::
  "'w outside \<Rightarrow> 'w UnstructuredOps \<Rightarrow> string \<Rightarrow> raw_message \<Rightarrow> MetadataConfig \<Rightarrow> ('w, unit) io" where
  "UnstructuredOps_Apply env ops name raw metaCfg =
     bindIO (liftIO (unmarshal_map raw)) (\<lambda>obj.
       let kind = KindFor (gvr_Resource (uo_GVR ops));
           resIfc = AdaptResource (uo_Dyn ops (uo_GVR ops) (uo_Namespace ops));
           meta = fst (BuildMetadataForApply None name (uo_Namespace ops) kind metaCfg);
           u = [(''apiVersion'', IStr GroupVersion), (''kind'', IStr kind),
                (''metadata'', IMap meta), (''spec'', obj_iface obj)]
       in get_or_missing (api_Get resIfc name)
            (CreateUnstructured env resIfc u kind)
            (\<lambda>existing.
               case BuildMetadataForApply (Some existing) name (uo_Namespace ops) kind metaCfg of
                 (meta, force) \<Rightarrow>
                   PatchUnstructured env resIfc name (go_put u ''metadata'' (IMap meta)) (Some existing) kind
                     \<lparr>pc_Force = force, pc_SSAForce = uo_SSAForce ops\<rparr>))"

section \<open>IngressRoutes\<close>

record 'w IngressRouteOps =
  iro_ResIfc :: "'w ResourceClient"
  iro_Namespace :: string
  iro_ManagedLabelKey :: string
  iro_ManagedLabelValue :: string
  iro_ManagedAnnoKey :: string
  iro_ManagedAnnoValue :: string
  iro_IngressClass :: string
  iro_ReadOnly :: bool

definition iro_meta :: "'w IngressRouteOps \<Rightarrow> MetadataConfig" where
  "iro_meta ops =
     \<lparr>mc_ManagedLabelKey = iro_ManagedLabelKey ops, mc_ManagedLabelValue = iro_ManagedLabelValue ops,
      mc_TraefikInstanceLabelKey = [], mc_TraefikInstanceLabelValue = [],
      mc_ManagedAnnoKey = iro_ManagedAnnoKey ops, mc_ManagedAnnoValue = iro_ManagedAnnoValue ops,
      mc_IngressClass = iro_IngressClass ops\<rparr>"

definition IngressRouteOps_Apply :: "'w outside \<Rightarrow> 'w IngressRouteOps \<Rightarrow> string \<Rightarrow> obj \<Rightarrow> ('w, unit) io" where
  "IngressRouteOps_Apply env ops name u =
     (if iro_ReadOnly ops then retIO ()
      else
        get_or_missing (api_Get (iro_ResIfc ops) name)
          (let meta = fst (BuildMetadataForApply None name (iro_Namespace ops) ''IngressRoute'' (iro_meta ops));
               meta = AnnotateRouterEntryPointsIfPresent u meta
           in CreateUnstructured env (iro_ResIfc ops) (go_put u ''metadata'' (IMap meta)) ''IngressRoute'')
          (\<lambda>existing.
             case BuildMetadataForApply (Some existing) name (iro_Namespace ops) ''IngressRoute'' (iro_meta ops) of
               (meta, force) \<Rightarrow>
                 let meta = AnnotateRouterEntryPointsIfPresent u meta
                 in PatchUnstructured env (iro_ResIfc ops) name (go_put u ''metadata'' (IMap meta)) (Some existing)
                      ''IngressRoute'' \<lparr>pc_Force = force, pc_SSAForce = False\<rparr>))"

definition single_name :: "obj \<Rightarrow> string" where
  "single_name m = str_or_empty (map_get (of_nil (as_map (map_get m ''metadata''))) ''name'')"

definition IngressRouteOps_ApplySingle ::
  "'w outside \<Rightarrow> 'w IngressRouteOps \<Rightarrow> obj \<Rightarrow> string \<Rightarrow> ('w, unit) io" where
  "IngressRouteOps_ApplySingle env ops m kind =
     (let name = single_name m in
      if name = [] then retIO ()
      else if iro_ReadOnly ops then retIO ()
      else
        get_or_missing (api_Get (iro_ResIfc ops) name)
          (let meta = fst (BuildMetadataForApply None name (iro_Namespace ops) kind (iro_meta ops))
           in CreateUnstructured env (iro_ResIfc ops) (go_put m ''metadata'' (IMap meta)) kind)
          (\<lambda>existing.
             case BuildMetadataForApply (Some existing) name (iro_Namespace ops) kind (iro_meta ops) of
               (meta, force) \<Rightarrow>
                 PatchUnstructured env (iro_ResIfc ops) name (go_put m ''metadata'' (IMap meta)) (Some existing)
                   kind \<lparr>pc_Force = force, pc_SSAForce = False\<rparr>))"

section \<open>Core Services\<close>

record 'w ServiceOps =
  so_Services :: "string \<Rightarrow> ('w, Service) TypedClient"
  so_Namespace :: string
  so_ManagedLabelKey :: string
  so_ManagedLabelValue :: string
  so_TraefikInstanceLabelKey :: string
  so_TraefikInstanceLabelValue :: string
  so_ManagedAnnoKey :: string
  so_ManagedAnnoValue :: string
  so_ReadOnly :: bool

definition ensureManagedMeta :: "'w ServiceOps \<Rightarrow> Service \<Rightarrow> Service" where
  "ensureManagedMeta ops svc =
     (let labels = of_nil (svc_Labels svc);
          labels = (if so_ManagedLabelKey ops \<noteq> []
                    then go_put labels (so_ManagedLabelKey ops) (so_ManagedLabelValue ops) else labels);
          labels = (if so_TraefikInstanceLabelKey ops \<noteq> [] \<and> so_TraefikInstanceLabelValue ops \<noteq> []
                    then go_put labels (so_TraefikInstanceLabelKey ops) (so_TraefikInstanceLabelValue ops)
                    else labels);
          annotations = of_nil (svc_Annotations svc);
          annotations = (if so_ManagedAnnoKey ops \<noteq> []
                         then go_put annotations (so_ManagedAnnoKey ops) (so_ManagedAnnoValue ops)
                         else annotations)
      in svc\<lparr>svc_Labels := Some labels, svc_Annotations := Some annotations\<rparr>)"

definition ServiceOps_Apply :: "'w ServiceOps \<Rightarrow> Service \<Rightarrow> ('w, unit) io" where
  "ServiceOps_Apply ops svc =
     (let svc = ensureManagedMeta ops svc in
      if so_ReadOnly ops then retIO ()
      else
        let cli = so_Services ops (so_Namespace ops) in
        get_or_missing (typed_Get cli (svc_Name svc))
          (thenIO (typed_Create cli svc) (retIO ()))
          (\<lambda>existing.
             thenIO (typed_Update cli (existing
               \<lparr>svc_ClusterIP := svc_ClusterIP svc, svc_Ports := svc_Ports svc,
                svc_Labels := svc_Labels svc, svc_Annotations := svc_Annotations svc\<rparr>)) (retIO ())))"

section \<open>The metadata of a patch\<close>

lemma UpdateMetadataField_eq:
  "UpdateMetadataField ex k v t =
     (go_get (of_nil ex) k \<noteq> Some v, if go_get (of_nil ex) k \<noteq> Some v then go_put t k (IStr v) else t)"
  by (auto simp: UpdateMetadataField_def of_nil_def split: option.split)

definition meta_map :: "obj \<Rightarrow> string \<Rightarrow> obj" where
  "meta_map meta section = of_nil (as_map (map_get meta section))"

text \<open>The labels and annotations the controller wants on an object of a kind.\<close>

definition wanted_labels :: "MetadataConfig \<Rightarrow> string gomap" where
  "wanted_labels cfg =
     (mc_ManagedLabelKey cfg, mc_ManagedLabelValue cfg) #
     (if mc_TraefikInstanceLabelKey cfg \<noteq> [] \<and> mc_TraefikInstanceLabelValue cfg \<noteq> []
      then [(mc_TraefikInstanceLabelKey cfg, mc_TraefikInstanceLabelValue cfg)] else [])"

definition wanted_annotations :: "string \<Rightarrow> MetadataConfig \<Rightarrow> string gomap" where
  "wanted_annotations kind cfg =
     (mc_ManagedAnnoKey cfg, mc_ManagedAnnoValue cfg) #
     (if kind = ''IngressRoute'' then [(IngressClassAnnotation, mc_IngressClass cfg)] else [])"

text \<open>What of \<open>wanted\<close> is missing or different in \<open>ex\<close>.\<close>

definition missing_entries :: "string gomap \<Rightarrow> string gomap \<Rightarrow> obj" where
  "missing_entries wanted ex = map (map_prod id IStr) (filter (\<lambda>(k, v). go_get ex k \<noteq> Some v) wanted)"

lemma BuildMetadata_labels:
  assumes "wf_map (wanted_labels cfg)"
  shows "meta_map (fst (BuildMetadataForApply ex name ns kind cfg)) ''labels'' =
    missing_entries (wanted_labels cfg) (of_nil (GetMetadataMap ex GetLabels))"
  using assms
  by (auto simp: BuildMetadataForApply_def Let_def UpdateMetadataField_eq meta_map_def missing_entries_def
      wanted_labels_def wf_map_def of_nil_def go_put_def map_get_def gomap_simps
      split: option.splits if_splits)

lemma BuildMetadata_annotations:
  assumes "wf_map (wanted_annotations kind cfg)"
  shows "meta_map (fst (BuildMetadataForApply ex name ns kind cfg)) ''annotations'' =
    missing_entries (wanted_annotations kind cfg) (of_nil (GetMetadataMap ex GetAnnotations))"
  using assms
  by (auto simp: BuildMetadataForApply_def Let_def UpdateMetadataField_eq meta_map_def missing_entries_def
      wanted_annotations_def wf_map_def of_nil_def go_put_def map_get_def gomap_simps
      split: option.splits if_splits)

lemma BuildMetadata_force:
  "snd (BuildMetadataForApply ex name ns kind cfg) \<longleftrightarrow>
     ex \<noteq> None \<and> (missing_entries (wanted_labels cfg) (of_nil (GetMetadataMap ex GetLabels)) \<noteq> []
             \<or> missing_entries (wanted_annotations kind cfg) (of_nil (GetMetadataMap ex GetAnnotations)) \<noteq> [])"
  by (auto simp: BuildMetadataForApply_def Let_def UpdateMetadataField_eq missing_entries_def
      wanted_labels_def wanted_annotations_def)

lemma BuildMetadata_name [simp]:
  "map_get (fst (BuildMetadataForApply ex name ns kind cfg)) ''name'' = IStr name"
  "map_get (fst (BuildMetadataForApply ex name ns kind cfg)) ''namespace'' = IStr ns"
  by (simp_all add: BuildMetadataForApply_def Let_def UpdateMetadataField_eq map_get_def gomap_simps)

text \<open>
  The metadata of a patch names the object and carries exactly those managed labels and
  annotations that the object of the cluster lacks or has with another value; on creation these
  are all of them. The patch is forced exactly when it updates an object and carries at least one.
\<close>

theorem BuildMetadataForApply_exact:
  assumes "wf_map (wanted_labels cfg)" and "wf_map (wanted_annotations kind cfg)"
    and "BuildMetadataForApply ex name ns kind cfg = (meta, force)"
  shows "map_get meta ''name'' = IStr name \<and> map_get meta ''namespace'' = IStr ns
    \<and> meta_map meta ''labels'' = missing_entries (wanted_labels cfg) (of_nil (GetMetadataMap ex GetLabels))
    \<and> meta_map meta ''annotations'' =
        missing_entries (wanted_annotations kind cfg) (of_nil (GetMetadataMap ex GetAnnotations))
    \<and> (force \<longleftrightarrow> ex \<noteq> None \<and> (meta_map meta ''labels'' \<noteq> [] \<or> meta_map meta ''annotations'' \<noteq> []))"
  using BuildMetadata_labels [OF assms(1)] BuildMetadata_annotations [OF assms(2)]
    BuildMetadata_force [of ex name ns kind cfg] BuildMetadata_name [of ex name ns kind cfg]
  by (metis assms(3) fst_conv snd_conv)

definition example_meta_cfg :: MetadataConfig where
  "example_meta_cfg = \<lparr>mc_ManagedLabelKey = ''app/managed'', mc_ManagedLabelValue = ''pangolin'',
     mc_TraefikInstanceLabelKey = ''instance'', mc_TraefikInstanceLabelValue = ''edge'',
     mc_ManagedAnnoKey = ''anno/managed'', mc_ManagedAnnoValue = ''pangolin'', mc_IngressClass = ''traefik''\<rparr>"

definition example_existing :: Unstructured where
  "example_existing = \<lparr>GetName = ''web'', GetLabels = Some [(''app/managed'', ''pangolin'')],
     GetAnnotations = None, UnstructuredContent = []\<rparr>"

theorem BuildMetadataForApply_exact_witness:
  "\<exists>meta. BuildMetadataForApply (Some example_existing) ''web'' ''ns'' ''IngressRoute'' example_meta_cfg = (meta, True)
    \<and> meta_map meta ''labels'' = [(''instance'', IStr ''edge'')]"
proof -
  obtain meta force where
    b: "BuildMetadataForApply (Some example_existing) ''web'' ''ns'' ''IngressRoute'' example_meta_cfg = (meta, force)"
    by fastforce
  have "wf_map (wanted_labels example_meta_cfg)" "wf_map (wanted_annotations ''IngressRoute'' example_meta_cfg)"
    by (simp_all add: wf_map_def wanted_labels_def wanted_annotations_def example_meta_cfg_def IngressClassAnnotation_def)
  from BuildMetadataForApply_exact [OF this b] b show ?thesis
    by (simp add: missing_entries_def wanted_labels_def example_meta_cfg_def example_existing_def
        GetMetadataMap_def of_nil_def gomap_simps)
qed

lemma missing_entries_get:
  assumes "wf_map wanted" and "(k, v) \<in> set wanted" and "go_get ex k \<noteq> Some v"
  shows "go_get (missing_entries wanted ex) k = Some (IStr v)"
proof -
  have "wf_map (filter (\<lambda>(k, v). go_get ex k \<noteq> Some v) wanted)"
    using assms(1) by (simp add: wf_map_def distinct_map_filter)
  with assms(2,3) have "go_get (filter (\<lambda>(k, v). go_get ex k \<noteq> Some v) wanted) k = Some v"
    by (simp add: go_get_wf_iff)
  then show ?thesis by (simp add: missing_entries_def go_get_map_prod)
qed

text \<open>An entry is in the metadata of a document, or the object that was there has it already.\<close>

definition has_entry :: "obj \<Rightarrow> string \<Rightarrow> string gomap option \<Rightarrow> string \<times> string \<Rightarrow> bool" where
  "has_entry meta section old e \<longleftrightarrow>
     go_get (meta_map meta section) (fst e) = Some (IStr (snd e)) \<or> go_get (of_nil old) (fst e) = Some (snd e)"

text \<open>
  All labels and annotations the controller wants are there, unless two of their keys, or one of them and
  the annotation of the entry points, coincide.
\<close>

definition managed_meta :: "string \<Rightarrow> MetadataConfig \<Rightarrow> Unstructured option \<Rightarrow> obj \<Rightarrow> bool" where
  "managed_meta kind cfg old meta \<longleftrightarrow>
     (wf_map (wanted_labels cfg) \<longrightarrow>
        list_all (has_entry meta ''labels'' (GetMetadataMap old GetLabels)) (wanted_labels cfg))
   \<and> (wf_map ((RouterEntryPointsAnnotation, []) # wanted_annotations kind cfg) \<longrightarrow>
        list_all (has_entry meta ''annotations'' (GetMetadataMap old GetAnnotations)) (wanted_annotations kind cfg))"

lemma BuildMetadata_managed: "managed_meta kind cfg ex (fst (BuildMetadataForApply ex name ns kind cfg))"
  unfolding managed_meta_def list_all_iff
  by (auto simp: has_entry_def BuildMetadata_labels BuildMetadata_annotations wf_map_def [of "_ # _"]
      missing_entries_get simp flip: wf_map_def)

lemma Annotate_sections:
  "meta_map (AnnotateRouterEntryPointsIfPresent u meta) ''labels'' = meta_map meta ''labels''"
  "k \<noteq> RouterEntryPointsAnnotation \<Longrightarrow>
     go_get (meta_map (AnnotateRouterEntryPointsIfPresent u meta) ''annotations'') k = go_get (meta_map meta ''annotations'') k"
  by (auto simp: AnnotateRouterEntryPointsIfPresent_def meta_map_def of_nil_def Let_def split: option.split list.split)

lemma Annotate_managed:
  "managed_meta kind cfg ex meta \<Longrightarrow> managed_meta kind cfg ex (AnnotateRouterEntryPointsIfPresent u meta)"
  unfolding managed_meta_def list_all_iff
  by (auto simp: has_entry_def Annotate_sections wf_map_def image_iff) (metis Annotate_sections(2) fst_conv snd_conv)+

section \<open>The retry loop\<close>

text \<open>
  A client and an environment that count: the calls of \<open>Patch\<close> and the time spent waiting.
\<close>

type_synonym 'w counted = "'w \<times> nat \<times> int"

definition lift_io :: "('w, 'a) io \<Rightarrow> ('w counted, 'a) io" where
  "lift_io m = (\<lambda>(w, n, t). case m w of (r, w') \<Rightarrow> (r, (w', n, t)))"

definition count_io :: "('w, 'a) io \<Rightarrow> ('w counted, 'a) io" where
  "count_io m = (\<lambda>(w, n, t). case m w of (r, w') \<Rightarrow> (r, (w', n + 1, t)))"

definition count_client :: "'w ResourceClient \<Rightarrow> 'w counted ResourceClient" where
  "count_client cl =
     \<lparr>api_Get = (\<lambda>n. lift_io (api_Get cl n)), api_Create = (\<lambda>u opts. lift_io (api_Create cl u opts)),
      api_Patch = (\<lambda>n d opts. count_io (api_Patch cl n d opts)),
      api_Delete = (\<lambda>n. lift_io (api_Delete cl n)), api_List = (\<lambda>s. lift_io (api_List cl s))\<rparr>"

definition count_outside :: "'w outside \<Rightarrow> 'w counted outside" where
  "count_outside env =
     \<lparr>UnmarshalJSON = UnmarshalJSON env,
      wait = (\<lambda>d (w, n, t). case wait env d w of (b, w') \<Rightarrow> (b, (w', n, t + d)))\<rparr>"

lemma ssa_loop_counted:
  assumes "ssa_loop (count_outside env) (count_io patch) uf k b le (w, n, t) = (r, (w', n', t'))" and "b \<ge> 0"
  shows "n' \<le> n + k \<and> n \<le> n' \<and> (k > 0 \<longrightarrow> n' > n) \<and> t \<le> t' \<and> t' \<le> t + b * (2 ^ k - 1)
    \<and> ssa_loop env patch uf k b le w = (r, w')"
  using assms
proof (induction k arbitrary: b le w n t)
  case 0
  then show ?case by (auto split: option.splits)
next
  case (Suc k)
  obtain x v where p: "patch w = (x, v)" by fastforce
  have "(1::int) \<le> 2 ^ k" by simp
  then have "(1::int) \<le> 2 ^ Suc k - 1" unfolding power_Suc by linarith
  from mult_left_mono [OF this Suc.prems(2)]
  have pos: "b * (2 ^ k - 1) \<ge> 0" "b \<le> b * (2 ^ Suc k - 1)" using Suc.prems(2) by simp_all
  show ?case
  proof (cases x)
    case (Inr y)
    with Suc.prems p pos show ?thesis by (auto simp: count_io_def)
  next
    case (Inl e)
    obtain c v' where wt: "wait env b v = (c, v')" by fastforce
    show ?thesis
    proof (cases "((IsConflict e \<and> uf) \<or> isTransientError e) \<and> c")
      case True
      with Suc.prems(1) p Inl wt have
        l: "ssa_loop (count_outside env) (count_io patch) uf k (b * 2) (Some e) (v', n + 1, t + b) = (r, (w', n', t'))"
        by (auto simp: count_io_def count_outside_def)
      from Suc.IH [OF l] Suc.prems(2) True p Inl wt show ?thesis
        by (auto simp: algebra_simps)
    next
      case False
      with Suc.prems p Inl wt pos show ?thesis
        by (auto simp: count_io_def count_outside_def split: if_splits)
    qed
  qed
qed

text \<open>
  C18. The retry loop of server-side apply, against any API server: at least one and at most five
  calls of \<open>Patch\<close>, at most 1.55 seconds of waiting, and an error that is neither transient nor a
  conflict under force is returned after the first call.
\<close>

theorem ApplySSAWithRetry_bounded:
  assumes "ApplySSAWithRetry (count_outside env) (count_client cl) name bytes kind opts (w, 0, 0) = (r, (w', n, t))"
  shows "1 \<le> n \<and> n \<le> 5 \<and> 0 \<le> t \<and> t \<le> 1550 * Millisecond
    \<and> ApplySSAWithRetry env cl name bytes kind opts w = (r, w')
    \<and> (\<forall>e w1. api_Patch cl name bytes (patchOpts kind opts) w = (Inl e, w1)
          \<and> \<not> (IsConflict e \<and> useForce opts) \<and> \<not> isTransientError e \<longrightarrow> r = Inl e \<and> n = 1 \<and> t = 0)"
proof -
  have l: "ssa_loop (count_outside env) (count_io (api_Patch cl name bytes (patchOpts kind opts)))
      (useForce opts) 5 (50 * Millisecond) None (w, 0, 0) = (r, (w', n, t))"
    using assms by (simp add: ApplySSAWithRetry_def count_client_def)
  have "r = Inl e \<and> n = 1 \<and> t = 0"
    if "api_Patch cl name bytes (patchOpts kind opts) w = (Inl e, w1)"
      "\<not> (IsConflict e \<and> useForce opts)" "\<not> isTransientError e" for e w1
    using l that by (auto simp: numeral_eq_Suc count_io_def)
  with ssa_loop_counted [OF l] show ?thesis
    by (auto simp: ApplySSAWithRetry_def Millisecond_def)
qed

definition busy_patch :: "mem ResourceClient" where
  "busy_patch = mem_client\<lparr>api_Patch := (\<lambda>n d opts w. (Inl (KubeErr TooManyRequests n), w))\<rparr>"

theorem ApplySSAWithRetry_bounded_witness:
  "\<exists>r w' n t. ApplySSAWithRetry (count_outside mem_outside) (count_client busy_patch) ''web'' (RawJSON (IMap []))
      ''IngressRoute'' \<lparr>ssa_Force = False, ssa_ForceOverride = False, ssa_SSAForce = False\<rparr> ([], 0, 0)
      = (r, (w', n, t)) \<and> n \<le> 5 \<and> t \<le> 1550 * Millisecond"
proof -
  obtain r w' n t where a: "ApplySSAWithRetry (count_outside mem_outside) (count_client busy_patch) ''web''
      (RawJSON (IMap [])) ''IngressRoute'' \<lparr>ssa_Force = False, ssa_ForceOverride = False, ssa_SSAForce = False\<rparr>
      ([], 0, 0) = (r, (w', n, t))"
    by (metis prod_cases4)
  from ApplySSAWithRetry_bounded [OF a] a show ?thesis by blast
qed

section \<open>What an operation writes\<close>

text \<open>
  The contract the three operations share: a run that succeeds has put an object that is \<open>good\<close> for
  the request, and for the object that was there, under its own name and left every other name alone. \<open>sys\<close> is the outside world an
  operation is run in, with the laws assumed of it. A loop over such operations of different names has
  then written all its names, each with a good object, and no other.
\<close>

locale applier =
  fixes laws :: "'s \<Rightarrow> bool"
    and view :: "'s \<Rightarrow> 'w \<Rightarrow> string \<Rightarrow> Unstructured option"
    and op :: "'s \<Rightarrow> 'k \<Rightarrow> ('w, unit) io"
    and key :: "'k \<Rightarrow> string"
    and active :: "'s \<Rightarrow> 'k \<Rightarrow> bool"
    and good :: "'s \<Rightarrow> 'k \<Rightarrow> Unstructured option \<Rightarrow> Unstructured \<Rightarrow> bool"
  assumes op_writes: "\<lbrakk>laws s; active s k; op s k w = (Inr (), w')\<rbrakk> \<Longrightarrow>
      \<exists>u. view s w' = (view s w)(key k \<mapsto> u) \<and> good s k (view s w (key k)) u"
    and op_idle: "\<lbrakk>laws s; \<not> active s k; op s k w = (Inr (), w')\<rbrakk> \<Longrightarrow> view s w' = view s w"
begin

lemma loop_frame:
  assumes "laws s" and "loopIO (op s) ks w = (Inr (), w')" and "n \<notin> key ` {k \<in> set ks. active s k}"
  shows "view s w' n = view s w n"
  using assms(2,3)
proof (induction ks arbitrary: w)
  case (Cons k ks)
  then obtain v where v: "op s k w = (Inr (), v)" "loopIO (op s) ks v = (Inr (), w')"
    by (auto simp: thenIO_Inr)
  have "view s v n = view s w n"
    using op_writes [OF assms(1) _ v(1)] op_idle [OF assms(1) _ v(1)] Cons.prems(2)
    by (cases "active s k") auto
  with Cons.IH [OF v(2)] Cons.prems(2) show ?case by auto
qed simp

lemma loop_writes:
  assumes "laws s" and "loopIO (op s) ks w = (Inr (), w')" and "distinct (map key ks)"
    and "n \<in> key ` {k \<in> set ks. active s k}"
  shows "\<exists>k \<in> set ks. \<exists>u. key k = n \<and> view s w' n = Some u \<and> good s k (view s w n) u"
  using assms(2-4)
proof (induction ks arbitrary: w)
  case (Cons k ks)
  then obtain v where v: "op s k w = (Inr (), v)" "loopIO (op s) ks v = (Inr (), w')"
    by (auto simp: thenIO_Inr)
  show ?case
  proof (cases "n = key k")
    case True
    with Cons.prems(2,3) have k: "active s k" "n \<notin> key ` {k \<in> set ks. active s k}" by auto
    with op_writes [OF assms(1) k(1) v(1)] loop_frame [OF assms(1) v(2) k(2)] True show ?thesis by auto
  next
    case False
    then have "view s v n = view s w n"
      using op_writes [OF assms(1) _ v(1)] op_idle [OF assms(1) _ v(1)] by (cases "active s k") auto
    with Cons.IH [OF v(2)] Cons.prems(2,3) False show ?thesis by auto
  qed
qed simp

end

text \<open>A successful \<open>CreateUnstructured\<close> or \<open>PatchUnstructured\<close>.\<close>

lemma Marshal_Inr: "Marshal v = Inr r \<longleftrightarrow> marshalable v \<and> r = RawJSON (json_norm v)"
  by (auto simp: Marshal_def)

lemma CreateUnstructured_view:
  assumes "client_laws cl view" and "content_law cl view rf" and "decode_law env"
    and "CreateUnstructured env cl u kind w = (Inr x, w')"
    and "map_get u ''metadata'' = IMap meta" and "map_get meta ''name'' = IStr name"
  shows "\<exists>o'. view w' = (view w)(name \<mapsto> o') \<and> rf (norm_map u) o'"
proof -
  obtain ob opts y where o: "UnmarshalJSON env (RawJSON (IMap (norm_map u))) = Inr ob"
      "api_Create cl ob opts w = (Inr y, w')"
    using assms(4) by (auto simp: CreateUnstructured_def bindIO_Inr thenIO_Inr Marshal_Inr Let_def)
  have "map_get (norm_map u) ''metadata'' = IMap (norm_map meta)" "map_get (norm_map meta) ''name'' = IStr name"
    using assms(5,6) by simp_all
  with o(1) assms(3) have "GetName ob = name" "UnstructuredContent ob = norm_map u" unfolding decode_law_def by blast+
  with client_laws_Create [OF assms(1,2) o(2)] show ?thesis by simp
qed

lemma ssa_loop_view:
  assumes "client_laws cl view" and "content_law cl view rf" and "wait_law env view"
    and "ssa_loop env (api_Patch cl name (RawJSON (IMap d)) opts) uf k b le w = (Inr x, w')" and "k > 0 \<or> le \<noteq> None"
  shows "\<exists>u. view w' = (view w)(name \<mapsto> u) \<and> rf d u"
  using assms(4,5)
proof (induction k arbitrary: b le w)
  case (Suc k)
  obtain r v where p: "api_Patch cl name (RawJSON (IMap d)) opts w = (r, v)" by fastforce
  show ?case
  proof (cases r)
    case (Inl e)
    obtain c v' where wt: "wait env b v = (c, v')" by fastforce
    then have v': "view v' = view w" using client_laws_Patch(2) [OF assms(1) p Inl] assms(3) by (metis wait_law_def snd_conv)
    from Suc.prems(1) p Inl wt
    have "ssa_loop env (api_Patch cl name (RawJSON (IMap d)) opts) uf k (b * 2) (Some e) v' = (Inr x, w')"
      by (auto split: if_splits bool.splits)
    from Suc.IH [OF this] v' show ?thesis by simp
  next
    case (Inr y)
    with Suc.prems p have "w' = v" by simp
    with content_law_Patch [OF assms(1,2)] p Inr show ?thesis by blast
  qed
qed auto

lemma PatchUnstructured_view:
  assumes "client_laws cl view" and "content_law cl view rf" and "wait_law env view"
    and "PatchUnstructured env cl name u ex kind cfg w = (Inr x, w')"
  shows "\<exists>o'. view w' = (view w)(name \<mapsto> o') \<and> rf (norm_map u) o'"
  using assms(4) ssa_loop_view [OF assms(1-3)]
  by (fastforce simp: PatchUnstructured_def ApplySSAWithRetry_def bindIO_Inr Let_def Marshal_Inr)

lemma Annotate_name [simp]:
  "map_get (AnnotateRouterEntryPointsIfPresent u meta) ''name'' = map_get meta ''name''"
  by (auto simp: AnnotateRouterEntryPointsIfPresent_def Let_def split: option.split list.split)

lemma get_or_missing_Inr:
  assumes "client_laws cl view" and "get_or_missing (api_Get cl n) missing found w = (Inr x, w')"
  obtains v where "view v = view w" and "view w n = None" and "missing v = (Inr x, w')"
    | v u where "view v = view w" and "view w n = Some u" and "found u v = (Inr x, w')"
proof -
  obtain r v where g: "api_Get cl n w = (r, v)" by fastforce
  note gv = client_laws_Get [OF assms(1) g]
  from assms(2) g that(1) [OF gv(1)] that(2) [OF gv(1)] gv(2,3) show thesis
    by (auto simp: get_or_missing_def caseIO_def split: sum.splits if_splits)
qed

text \<open>The outside world of an operation: its client, the rest of the environment, the view and what an object reflects.\<close>

type_synonym 'w sys =
  "'w ResourceClient \<times> 'w outside \<times> ('w \<Rightarrow> string \<Rightarrow> Unstructured option) \<times> reflection"

definition sys_laws :: "'w sys \<Rightarrow> bool" where
  "sys_laws s = (case s of (cl, env, view, rf) \<Rightarrow>
     client_laws cl view \<and> content_law cl view rf \<and> decode_law env \<and> wait_law env view)"

definition sys_view :: "'w sys \<Rightarrow> 'w \<Rightarrow> string \<Rightarrow> Unstructured option" where
  "sys_view s = fst (snd (snd s))"

text \<open>
  The object reflects the document \<open>u\<close> with metadata that names it and has the labels and annotations of
  the controller that \<open>old\<close>, the object there before, did not have.
\<close>

definition carries ::
  "reflection \<Rightarrow> string \<Rightarrow> MetadataConfig \<Rightarrow> string \<Rightarrow> obj \<Rightarrow> Unstructured option \<Rightarrow> Unstructured \<Rightarrow> bool" where
  "carries rf kind mc name u old x \<longleftrightarrow>
     (\<exists>meta. map_get meta ''name'' = IStr name \<and> managed_meta kind mc old meta
        \<and> rf (norm_map (go_put u ''metadata'' (IMap meta))) x)"

definition sys_carries ::
  "'w sys \<Rightarrow> string \<Rightarrow> MetadataConfig \<Rightarrow> string \<Rightarrow> obj \<Rightarrow> Unstructured option \<Rightarrow> Unstructured \<Rightarrow> bool" where
  "sys_carries s = carries (snd (snd (snd s)))"

lemma sys_simps:
  "sys_laws (cl, env, view, rf) \<longleftrightarrow>
     client_laws cl view \<and> content_law cl view rf \<and> decode_law env \<and> wait_law env view"
  "sys_view (cl, env, view, rf) = view"
  "sys_carries (cl, env, view, rf) = carries rf"
  by (simp_all add: sys_laws_def sys_view_def sys_carries_def)

text \<open>The shape all three have in common: create the object, or patch it.\<close>

lemma create_or_patch_view:
  assumes "get_or_missing (api_Get cl name) (CreateUnstructured env cl (go_put u ''metadata'' (IMap m)) kind)
      (\<lambda>ex. PatchUnstructured env cl name (go_put u ''metadata'' (IMap (p ex))) (Some ex) kind (c ex)) w = (Inr x, w')"
    and "sys_laws (cl, env, view, rf)"
    and "map_get m ''name'' = IStr name" and "managed_meta kind mc None m"
    and "\<And>ex. map_get (p ex) ''name'' = IStr name" and "\<And>ex. managed_meta kind mc (Some ex) (p ex)"
  shows "\<exists>o'. view w' = (view w)(name \<mapsto> o') \<and> carries rf kind mc name u (view w name) o'"
proof -
  have l: "client_laws cl view" "content_law cl view rf" "decode_law env" "wait_law env view"
    using assms(2) by (simp_all add: sys_simps)
  from l(1) assms(1) show ?thesis
  proof (cases rule: get_or_missing_Inr)
    case (1 v)
    with CreateUnstructured_view [OF l(1-3) 1(3)] assms(3,4) show ?thesis unfolding carries_def by fastforce
  next
    case (2 v ex)
    with PatchUnstructured_view [OF l(1,2,4) 2(3)] assms(5,6) show ?thesis unfolding carries_def by fastforce
  qed
qed

text \<open>The document of \<open>UnstructuredOps.Apply\<close>, up to its metadata.\<close>

definition apply_doc :: "GVR \<Rightarrow> obj option \<Rightarrow> obj" where
  "apply_doc gvr spec =
     [(''apiVersion'', IStr GroupVersion), (''kind'', IStr (KindFor (gvr_Resource gvr))),
      (''metadata'', IMap []), (''spec'', obj_iface spec)]"

lemma UnstructuredOps_Apply_view:
  assumes "UnstructuredOps_Apply env ops name raw mc w = (Inr x, w')"
    and "sys_laws (uo_Dyn ops (uo_GVR ops) (uo_Namespace ops), env, view, rf)"
  shows "\<exists>u. view w' = (view w)(name \<mapsto> u)
    \<and> (\<exists>spec. unmarshal_map raw = Inr spec
          \<and> carries rf (KindFor (gvr_Resource (uo_GVR ops))) mc name (apply_doc (uo_GVR ops) spec) (view w name) u)"
proof -
  from assms(1) obtain spec where "unmarshal_map raw = Inr spec"
    by (auto simp: UnstructuredOps_Apply_def bindIO_Inr)
  moreover have put: "[(''apiVersion'', IStr GroupVersion), (''kind'', IStr (KindFor (gvr_Resource (uo_GVR ops)))),
      (''metadata'', m), (''spec'', obj_iface spec)] = go_put (apply_doc (uo_GVR ops) spec) ''metadata'' m" for m
    by (simp add: apply_doc_def go_put_def gomap_simps)
  have put2: "go_put (go_put (apply_doc (uo_GVR ops) spec) ''metadata'' a) ''metadata'' b =
      go_put (apply_doc (uo_GVR ops) spec) ''metadata'' b" for a b
    by (simp add: apply_doc_def go_put_def gomap_simps)
  ultimately show ?thesis
    using assms(1)
    unfolding UnstructuredOps_Apply_def Let_def AdaptResource_id case_prod_beta bindIO_Inr
    by (clarsimp simp: put put2) (erule create_or_patch_view [OF _ assms(2)], simp_all add: BuildMetadata_managed)
qed

lemma IngressRouteOps_Apply_view:
  assumes "IngressRouteOps_Apply env ops name u w = (Inr x, w')"
    and "sys_laws (iro_ResIfc ops, env, view, rf)" and "\<not> iro_ReadOnly ops"
  shows "\<exists>o'. view w' = (view w)(name \<mapsto> o') \<and> carries rf ''IngressRoute'' (iro_meta ops) name u (view w name) o'"
  using assms(1,3) unfolding IngressRouteOps_Apply_def Let_def case_prod_beta
  by (auto elim!: create_or_patch_view [OF _ assms(2)] intro: Annotate_managed BuildMetadata_managed)

lemma IngressRouteOps_ApplySingle_view:
  assumes "IngressRouteOps_ApplySingle env ops m kind w = (Inr x, w')"
    and "sys_laws (iro_ResIfc ops, env, view, rf)" and "\<not> iro_ReadOnly ops" and "single_name m \<noteq> []"
  shows "\<exists>o'. view w' = (view w)(single_name m \<mapsto> o')
    \<and> carries rf kind (iro_meta ops) (single_name m) m (view w (single_name m)) o'"
  using assms(1,3,4) unfolding IngressRouteOps_ApplySingle_def Let_def case_prod_beta
  by (auto elim!: create_or_patch_view [OF _ assms(2)] intro: BuildMetadata_managed)

lemma ApplySingle_idle:
  "\<not> (\<not> iro_ReadOnly ops \<and> single_name m \<noteq> []) \<Longrightarrow> IngressRouteOps_ApplySingle env ops m kind w = (Inr (), w)"
  by (auto simp: IngressRouteOps_ApplySingle_def Let_def)

text \<open>The three operations, with the fields a loop of the controller keeps fixed as parameters.\<close>

interpretation unstructured: applier sys_laws sys_view
    "\<lambda>s k. UnstructuredOps_Apply (fst (snd s))
       \<lparr>uo_Dyn = (\<lambda>_ _. fst s), uo_GVR = gvr, uo_Namespace = ns, uo_SSAForce = force\<rparr> (fst k) (snd k) mc"
    fst "\<lambda>_ _. True"
    "\<lambda>s k old u. \<exists>spec. unmarshal_map (snd k) = Inr spec
       \<and> sys_carries s (KindFor (gvr_Resource gvr)) mc (fst k) (apply_doc gvr spec) old u"
  for gvr ns force mc
proof
  fix s :: "'w sys" and k w w'
  assume "sys_laws s" and "UnstructuredOps_Apply (fst (snd s))
       \<lparr>uo_Dyn = (\<lambda>_ _. fst s), uo_GVR = gvr, uo_Namespace = ns, uo_SSAForce = force\<rparr> (fst k) (snd k) mc w = (Inr (), w')"
  then show "\<exists>u. sys_view s w' = (sys_view s w)(fst k \<mapsto> u)
      \<and> (\<exists>spec. unmarshal_map (snd k) = Inr spec
           \<and> sys_carries s (KindFor (gvr_Resource gvr)) mc (fst k) (apply_doc gvr spec) (sys_view s w (fst k)) u)"
    by (cases s) (auto simp: sys_view_def sys_carries_def dest!: UnstructuredOps_Apply_view)
qed simp

lemma iro_meta_client [simp]: "iro_meta (ops\<lparr>iro_ResIfc := cl\<rparr>) = iro_meta ops"
  by (simp add: iro_meta_def)

interpretation ingress_route: applier sys_laws sys_view
    "\<lambda>s k. IngressRouteOps_Apply (fst (snd s)) (ops\<lparr>iro_ResIfc := fst s\<rparr>) (fst k) (snd k)"
    fst "\<lambda>_ _. \<not> iro_ReadOnly ops" "\<lambda>s k. sys_carries s ''IngressRoute'' (iro_meta ops) (fst k) (snd k)"
  for ops :: "'w IngressRouteOps"
proof
  fix s :: "'w sys" and k w w'
  assume "sys_laws s" and "\<not> iro_ReadOnly ops"
    and "IngressRouteOps_Apply (fst (snd s)) (ops\<lparr>iro_ResIfc := fst s\<rparr>) (fst k) (snd k) w = (Inr (), w')"
  then show "\<exists>u. sys_view s w' = (sys_view s w)(fst k \<mapsto> u)
      \<and> sys_carries s ''IngressRoute'' (iro_meta ops) (fst k) (snd k) (sys_view s w (fst k)) u"
    by (cases s) (auto simp: sys_view_def sys_carries_def dest!: IngressRouteOps_Apply_view [where ops = "ops\<lparr>iro_ResIfc := cl\<rparr>" for cl, simplified])
qed (simp add: IngressRouteOps_Apply_def)

interpretation single_route: applier sys_laws sys_view
    "\<lambda>s m. IngressRouteOps_ApplySingle (fst (snd s)) (ops\<lparr>iro_ResIfc := fst s\<rparr>) m kind"
    single_name "\<lambda>_ m. \<not> iro_ReadOnly ops \<and> single_name m \<noteq> []"
    "\<lambda>s m. sys_carries s kind (iro_meta ops) (single_name m) m"
  for ops :: "'w IngressRouteOps" and kind
proof
  fix s :: "'w sys" and m w w'
  assume "sys_laws s" and "\<not> iro_ReadOnly ops \<and> single_name m \<noteq> []"
    and "IngressRouteOps_ApplySingle (fst (snd s)) (ops\<lparr>iro_ResIfc := fst s\<rparr>) m kind w = (Inr (), w')"
  then show "\<exists>u. sys_view s w' = (sys_view s w)(single_name m \<mapsto> u)
      \<and> sys_carries s kind (iro_meta ops) (single_name m) m (sys_view s w (single_name m)) u"
    by (cases s) (auto simp: sys_view_def sys_carries_def dest!: IngressRouteOps_ApplySingle_view [where ops = "ops\<lparr>iro_ResIfc := cl\<rparr>" for cl, simplified])
qed (simp add: ApplySingle_idle)

end
