(* ===== verification/NetAddr.thy ===== *)
theory NetAddr
  imports Prelude
begin

text \<open>
  Addresses: the fragments of \<^verbatim>\<open>net\<close> and \<^verbatim>\<open>net/url\<close> that the protocol transformations use. The URL
  parsers (\<open>url.Parse\<close>, \<open>url.ParseRequestURI\<close>) and \<open>net.ParseIP\<close> are parameters of the definitions
  that call them, the record \<open>netlib\<close>; a parsed URL is known by its fields. The methods
  \<open>Hostname\<close> and \<open>Port\<close> of a URL and \<open>net.SplitHostPort\<close> are defined here.
\<close>

record URL =
  Scheme :: string
  Host :: string
  Path :: string
  RawQuery :: string

text \<open>\<open>ParseIP\<close> returns whether the address has a four-byte form (\<open>To4\<close>).\<close>

record netlib =
  url_Parse :: "string \<Rightarrow> URL result"
  url_ParseRequestURI :: "string \<Rightarrow> URL result"
  ParseIP :: "string \<Rightarrow> bool option"

section \<open>Host and port of a URL\<close>

text \<open>The host is everything up to the last colon, when only digits follow it; brackets are removed.\<close>

definition url_splitHostPort :: "string \<Rightarrow> string \<times> string" where
  "url_splitHostPort hostPort =
     (let (host, port) =
        (case CutLast hostPort (CHR '':'') of
           None \<Rightarrow> (hostPort, [])
         | Some (l, r) \<Rightarrow> if list_all is_digit r then (l, r) else (hostPort, []));
          host = (if HasPrefix host ''['' \<and> HasSuffix host '']'' then butlast (tl host) else host)
      in (host, port))"

definition Hostname :: "URL \<Rightarrow> string" where
  "Hostname u = fst (url_splitHostPort (Host u))"

definition Port :: "URL \<Rightarrow> string" where
  "Port u = snd (url_splitHostPort (Host u))"

section \<open>SplitHostPort\<close>

definition missingPort :: goerr where
  "missingPort = ErrMsg ''missing port in address''"

definition tooManyColons :: goerr where
  "tooManyColons = ErrMsg ''too many colons in address''"

definition SplitHostPort :: "string \<Rightarrow> (string \<times> string) result" where
  "SplitHostPort hostport =
     (case CutLast hostport (CHR '':'') of
        None \<Rightarrow> Inl missingPort
      | Some (front, port) \<Rightarrow>
          if HasPrefix hostport ''['' then
            (case Cut hostport (CHR '']'') of (inner, rest, found) \<Rightarrow>
               if \<not> found then Inl (ErrMsg ''missing ] in address'')
               else if rest = [] then Inl missingPort
               else if rest \<noteq> CHR '':'' # port
               then Inl (if hd rest = CHR '':'' then tooManyColons else missingPort)
               else if CHR ''['' \<in> set (tl hostport) then Inl (ErrMsg ''unexpected [ in address'')
               else if CHR '']'' \<in> set rest then Inl (ErrMsg ''unexpected ] in address'')
               else Inr (tl inner, port))
          else if CHR '':'' \<in> set front then Inl tooManyColons
          else if CHR ''['' \<in> set hostport then Inl (ErrMsg ''unexpected [ in address'')
          else if CHR '']'' \<in> set hostport then Inl (ErrMsg ''unexpected ] in address'')
          else Inr (front, port))"

text \<open>\<open>net.JoinHostPort\<close>, for stating what \<open>SplitHostPort\<close> undoes.\<close>

definition JoinHostPort :: "string \<Rightarrow> string \<Rightarrow> string" where
  "JoinHostPort host port =
     (if CHR '':'' \<in> set host then ''['' @ host @ '']:'' @ port else host @ '':'' @ port)"

definition plain_host :: "string \<Rightarrow> bool" where
  "plain_host h \<longleftrightarrow> CHR ''['' \<notin> set h \<and> CHR '']'' \<notin> set h"

lemma SplitHostPort_Join:
  assumes "plain_host host" and "plain_host port" and "CHR '':'' \<notin> set port"
  shows "SplitHostPort (JoinHostPort host port) = Inr (host, port)"
proof (cases "CHR '':'' \<in> set host")
  case True
  let ?a = "''['' @ host @ '']:'' @ port"
  have 1: "CutLast ?a (CHR '':'') = Some (''['' @ host @ '']'', port)"
    using CutLast_append [OF assms(3), of "''['' @ host @ '']''"] by simp
  have 2: "Cut ?a (CHR '']'') = (''['' @ host, CHR '':'' # port, True)"
    using Cut_append [of "CHR '']''" "''['' @ host" "CHR '':'' # port"] assms(1) by (simp add: plain_host_def)
  have 3: "HasPrefix ?a ''[''" by (simp add: HasPrefix_def)
  have 4: "CHR '']'' \<notin> set (CHR '':'' # port)" "CHR ''['' \<notin> set (tl ?a)"
    using assms(1,2) by (auto simp: plain_host_def)
  show ?thesis
    using True 4 by (simp only: SplitHostPort_def JoinHostPort_def if_True 1 2 3 option.case prod.case) simp
next
  case False
  have "\<not> HasPrefix (host @ '':'' @ port) ''[''"
    using assms(1) by (cases host) (auto simp: HasPrefix_def plain_host_def)
  with False show ?thesis using assms CutLast_append [OF assms(3), of host]
    by (simp add: SplitHostPort_def JoinHostPort_def plain_host_def)
qed

end
