(* ===== verification/TcpUdp.thy ===== *)
theory TcpUdp
  imports Sanitize NetAddr Kube
begin

text \<open>
  TCP and UDP services (\<^verbatim>\<open>internal/transform/protocol/tcp_udp.go\<close>): a load balancer becomes a
  headless Service and an EndpointSlice, a router an \<open>IngressRouteTCP\<close> or \<open>IngressRouteUDP\<close> that refers
  to the Service by a name ending in its port. One definition per function of the file. A port is
  an \<open>int32\<close>, kept as an integer: \<open>parsePort32\<close> only yields values between 1 and 65535.

  Shown: what an accepted load balancer consists of; the port survives the round trip through the
  resource name; every route of a transformed configuration refers to a Service and to the port of
  that Service; the address type of a slice.
\<close>

section \<open>Addresses and ports\<close>

definition parsePort32 :: "string \<Rightarrow> int result" where
  "parsePort32 s =
     (case ParseInt 32 s of
        None \<Rightarrow> Inl (ErrMsg ''strconv.ParseInt'')
      | Some v \<Rightarrow> if v \<le> 0 \<or> v > 65535 then Inl (ErrMsg (''invalid port '' @ s)) else Inr v)"

definition splitHostPortFlexible :: "netlib \<Rightarrow> string \<Rightarrow> (string \<times> int) result" where
  "splitHostPortFlexible net s =
     (let s = TrimSpace s in
      if HasPrefix s ''http://'' \<or> HasPrefix s ''https://'' then
        bindE (url_Parse net s) (\<lambda>u.
          let rawPort = Port u in
          if rawPort = [] then Inl (ErrMsg (''missing port in address: '' @ s))
          else bindE (parsePort32 rawPort) (\<lambda>p. Inr (Hostname u, p)))
      else
        bindE (SplitHostPort s) (\<lambda>(h, pStr).
          if pStr = [] then Inl (ErrMsg (''missing port in address: '' @ s))
          else bindE (parsePort32 pStr) (\<lambda>p. Inr (h, p))))"

text \<open>The new value of \<open>*existing\<close>.\<close>

definition setOrValidatePort :: "int \<Rightarrow> int \<Rightarrow> int result" where
  "setOrValidatePort existing candidate =
     (if existing = 0 then Inr candidate
      else if candidate \<noteq> existing then Inl (ErrMsg ''inconsistent ports in loadBalancer servers'')
      else Inr existing)"

definition pickServerAddress :: "obj \<Rightarrow> string" where
  "pickServerAddress server =
     (let addr = str_or_empty (map_get server ''address'') in
      if addr \<noteq> [] then addr else str_or_empty (map_get server ''url''))"

definition loadBalancerServers :: "obj \<Rightarrow> iface list result" where
  "loadBalancerServers m =
     (case as_map (map_get m ''loadBalancer'') of
        None \<Rightarrow> Inl (ErrMsg ''missing loadBalancer'')
      | Some lb \<Rightarrow>
          (case as_slice (map_get lb ''servers'') of
             None \<Rightarrow> Inl (ErrMsg ''no servers'')
           | Some srvs \<Rightarrow> if srvs = [] then Inl (ErrMsg ''no servers'') else Inr srvs))"

definition server_host_port :: "netlib \<Rightarrow> iface \<Rightarrow> (string \<times> int) result" where
  "server_host_port net s =
     (case as_map s of
        None \<Rightarrow> Inl (ErrMsg ''invalid loadBalancer server'')
      | Some m \<Rightarrow>
          let addr = pickServerAddress m in
          if addr = [] then Inl (ErrMsg ''missing server address'') else splitHostPortFlexible net addr)"

text \<open>One round of the loop over the servers.\<close>

definition lb_step :: "netlib \<Rightarrow> iface \<Rightarrow> string list \<times> int \<Rightarrow> (string list \<times> int) result" where
  "lb_step net s st =
     (case st of (hosts, port) \<Rightarrow>
        bindE (server_host_port net s) (\<lambda>(h, p).
        bindE (setOrValidatePort port p) (\<lambda>port'. Inr (hosts @ [h], port'))))"

definition extractLBAddressesPort :: "netlib \<Rightarrow> raw_message \<Rightarrow> (string list \<times> int) result" where
  "extractLBAddressesPort net raw =
     bindE (unmarshal_map raw) (\<lambda>obj.
     bindE (loadBalancerServers (of_nil obj)) (\<lambda>srvs.
       foldE (lb_step net) srvs ([], 0)))"

definition extractServersTransportName :: "raw_message \<Rightarrow> string" where
  "extractServersTransportName raw =
     (case unmarshal_map raw of
        Inl _ \<Rightarrow> []
      | Inr obj \<Rightarrow> str_or_empty (map_get (of_nil obj) ''serversTransport''))"

definition derivePortFromName :: "string \<Rightarrow> int result" where
  "derivePortFromName kubeName =
     (case CutLast kubeName (CHR ''-'') of
        None \<Rightarrow> Inl (ErrMsg (''no port suffix in name: '' @ kubeName))
      | Some (base, portStr) \<Rightarrow>
          if base = [] \<or> portStr = [] then Inl (ErrMsg (''no port suffix in name: '' @ kubeName))
          else parsePort32 portStr)"

section \<open>Services and EndpointSlices\<close>

fun chooseAddressType_loop :: "netlib \<Rightarrow> string list \<Rightarrow> bool \<Rightarrow> bool \<Rightarrow> AddressType result" where
  "chooseAddressType_loop net [] seenIPv4 seenIPv6 =
     Inr (if seenIPv4 then AddressTypeIPv4 else AddressTypeIPv6)"
| "chooseAddressType_loop net (h # hs) seenIPv4 seenIPv6 =
     (case ParseIP net h of
        None \<Rightarrow> Inr AddressTypeFQDN
      | Some is4 \<Rightarrow>
          let seenIPv4 = (seenIPv4 \<or> is4); seenIPv6 = (seenIPv6 \<or> \<not> is4) in
          if seenIPv4 \<and> seenIPv6 then Inl (ErrMsg ''mixed IP address families in hosts'')
          else chooseAddressType_loop net hs seenIPv4 seenIPv6)"

definition chooseAddressType :: "netlib \<Rightarrow> string list \<Rightarrow> AddressType result" where
  "chooseAddressType net hosts =
     (if hosts = [] then Inr AddressTypeFQDN else chooseAddressType_loop net hosts False False)"

definition buildHeadlessService :: "string \<Rightarrow> string \<Rightarrow> int \<Rightarrow> Protocol \<Rightarrow> Service" where
  "buildHeadlessService ns name port proto =
     \<lparr>svc_Name = name, svc_Namespace = ns, svc_Labels = None, svc_Annotations = None,
      svc_ClusterIP = ''None'', svc_Ports = [(port, proto)]\<rparr>"

definition buildEndpointSlice ::
  "netlib \<Rightarrow> string \<Rightarrow> string \<Rightarrow> int \<Rightarrow> string list \<Rightarrow> Protocol \<Rightarrow> EndpointSlice result" where
  "buildEndpointSlice net ns base port hosts proto =
     bindE (chooseAddressType net hosts) (\<lambda>aty.
       Inr \<lparr>es_Name = base @ ''-eps'', es_Namespace = ns, es_Labels = None, es_Annotations = None,
            es_AddressType = aty, es_Endpoints = map (\<lambda>host. [host]) hosts, es_Ports = [(port, proto)]\<rparr>)"

record tcpSvcInfo =
  tcp_port :: int
  tcp_hosts :: "string list"
  tcp_transport :: string

record udpSvcInfo =
  udp_port :: int
  udp_hosts :: "string list"

definition kube_service_name :: "string \<Rightarrow> int \<Rightarrow> string" where
  "kube_service_name dyn port = SanitizeResourceName (dyn @ ''-'' @ itoa port)"

text \<open>The body that \<open>buildTCPKubeArtifacts\<close> and \<open>buildUDPKubeArtifacts\<close> share.\<close>

definition kube_artifacts_step ::
  "netlib \<Rightarrow> Protocol \<Rightarrow> string \<Rightarrow> (string \<Rightarrow> int) \<Rightarrow> (string \<Rightarrow> string list) \<Rightarrow> string \<Rightarrow>
   string gomap \<times> Service list \<times> EndpointSlice list \<Rightarrow>
   (string gomap \<times> Service list \<times> EndpointSlice list) result" where
  "kube_artifacts_step net proto namespace port hosts dyn st =
     (case st of (nameMap, svcs, slices) \<Rightarrow>
        let kubeName = kube_service_name dyn (port dyn) in
        bindE (buildEndpointSlice net namespace kubeName (port dyn) (hosts dyn) proto) (\<lambda>eps.
          Inr (go_put nameMap dyn kubeName,
               svcs @ [buildHeadlessService namespace kubeName (port dyn) proto],
               slices @ [eps])))"

section \<open>TCP\<close>

definition buildTCPServiceIndex :: "netlib \<Rightarrow> raw_message gomap \<Rightarrow> tcpSvcInfo gomap result" where
  "buildTCPServiceIndex net services =
     foldE (\<lambda>(name, raw) out.
         bindE (extractLBAddressesPort net raw) (\<lambda>(hosts, port).
           Inr (go_put out name
             \<lparr>tcp_port = port, tcp_hosts = hosts, tcp_transport = extractServersTransportName raw\<rparr>)))
       services []"

text \<open>\<open>info[dyn]\<close>: the zero value when the key is missing.\<close>

definition tcp_info :: "tcpSvcInfo gomap \<Rightarrow> string \<Rightarrow> tcpSvcInfo" where
  "tcp_info info dyn =
     (case go_get info dyn of Some m \<Rightarrow> m | None \<Rightarrow> \<lparr>tcp_port = 0, tcp_hosts = [], tcp_transport = []\<rparr>)"

definition buildTCPKubeArtifacts ::
  "netlib \<Rightarrow> string \<Rightarrow> string list \<Rightarrow> tcpSvcInfo gomap \<Rightarrow>
   (string gomap \<times> Service list \<times> EndpointSlice list) result" where
  "buildTCPKubeArtifacts net namespace keys info =
     foldE (kube_artifacts_step net ProtocolTCP namespace
         (\<lambda>dyn. tcp_port (tcp_info info dyn)) (\<lambda>dyn. tcp_hosts (tcp_info info dyn)))
       keys ([], [], [])"

definition string_entries :: "iface \<Rightarrow> iface" where
  "string_entries v =
     (case List.map_filter as_str (of_nil (as_slice v)) of
        [] \<Rightarrow> INilSlice
      | eps \<Rightarrow> ISlice (map IStr eps))"

definition transformRouterTCPToIngressRouteTCP ::
  "string \<Rightarrow> string \<Rightarrow> raw_message \<Rightarrow> string gomap \<Rightarrow> (obj \<times> string) result" where
  "transformRouterTCPToIngressRouteTCP namespace name raw dynToKube =
     bindE (unmarshal_map raw) (\<lambda>obj.
       let r = of_nil obj;
           epsIfc = string_entries (map_get r ''entryPoints'');
           rule = str_or_empty (map_get r ''rule'');
           svcName = str_or_empty (map_get r ''service'')
       in if rule = [] \<or> svcName = [] then Inl (ErrMsg ''missing rule/service'')
          else
            let kubeName = get_str dynToKube svcName;
                kubeName = (if kubeName = [] then SanitizeResourceName svcName else kubeName)
            in bindE (wrapE (''derive port for '' @ kubeName) (derivePortFromName kubeName)) (\<lambda>svcPort.
                 let svcEntry = [(''name'', IStr kubeName), (''port'', IFloat64 (Fin (of_int svcPort)))];
                     route = [(''match'', IStr rule), (''services'', ISlice [IMap svcEntry])];
                     spec = [(''entryPoints'', epsIfc), (''routes'', ISlice [IMap route])]
                 in Inr ([(''apiVersion'', IStr GroupVersion), (''kind'', IStr ''IngressRouteTCP''),
                          (''metadata'', IMap [(''name'', IStr (SanitizeResourceName name)), (''namespace'', IStr namespace)]),
                          (''spec'', IMap spec)], svcName)))"

definition injectServersTransport :: "obj \<Rightarrow> string \<Rightarrow> obj" where
  "injectServersTransport u transport =
     (case as_map (map_get u ''spec'') of
        None \<Rightarrow> u
      | Some spec \<Rightarrow>
          (case as_slice (map_get spec ''routes'') of
             Some (r # rts) \<Rightarrow>
               (case as_map r of
                  None \<Rightarrow> u
                | Some r0 \<Rightarrow>
                    (case as_slice (map_get r0 ''services'') of
                       Some (e # ss) \<Rightarrow>
                         (case as_map e of
                            None \<Rightarrow> u
                          | Some entry \<Rightarrow>
                              let entry = go_put entry ''serversTransport'' (IStr (SanitizeResourceName transport));
                                  r0 = go_put r0 ''services'' (ISlice (IMap entry # ss))
                              in go_put u ''spec'' (IMap (go_put spec ''routes'' (ISlice (IMap r0 # rts)))))
                     | _ \<Rightarrow> u))
           | _ \<Rightarrow> u))"

text \<open>One round of the loop of \<open>buildTCPRoutes\<close>.\<close>

definition tcp_route ::
  "string \<Rightarrow> string gomap \<Rightarrow> tcpSvcInfo gomap \<Rightarrow> string \<Rightarrow> raw_message \<Rightarrow> obj result" where
  "tcp_route namespace nameMap svcInfo name raw =
     bindE (wrapE (''transform TCP router '' @ name)
         (transformRouterTCPToIngressRouteTCP namespace name raw nameMap)) (\<lambda>(u, svcName).
       case go_get svcInfo svcName of
         None \<Rightarrow> Inr u
       | Some meta \<Rightarrow>
           if tcp_transport meta = [] then Inr u else Inr (injectServersTransport u (tcp_transport meta)))"

definition buildTCPRoutes ::
  "string \<Rightarrow> raw_message gomap \<Rightarrow> string gomap \<Rightarrow> tcpSvcInfo gomap \<Rightarrow> obj list result" where
  "buildTCPRoutes namespace routers nameMap svcInfo =
     foldE (\<lambda>(name, raw) routes.
         bindE (tcp_route namespace nameMap svcInfo name raw) (\<lambda>u. Inr (routes @ [u])))
       routers []"

definition TransformTCP ::
  "netlib \<Rightarrow> TraefikConfig option \<Rightarrow> string \<Rightarrow> (obj list \<times> Service list \<times> EndpointSlice list) result" where
  "TransformTCP net cfg namespace =
     (case Option.bind cfg TCP of
        None \<Rightarrow> Inr ([], [], [])
      | Some tcp \<Rightarrow>
          bindE (buildTCPServiceIndex net (of_nil (l4_Services tcp))) (\<lambda>tcpInfo.
          bindE (buildTCPKubeArtifacts net namespace (sorted_keys tcpInfo) tcpInfo) (\<lambda>(nameMap, svcs, slices).
          bindE (buildTCPRoutes namespace (of_nil (l4_Routers tcp)) nameMap tcpInfo) (\<lambda>routes.
            Inr (routes, svcs, slices)))))"

section \<open>UDP\<close>

definition buildUDPServiceIndex :: "netlib \<Rightarrow> raw_message gomap \<Rightarrow> udpSvcInfo gomap result" where
  "buildUDPServiceIndex net services =
     foldE (\<lambda>(name, raw) out.
         bindE (extractLBAddressesPort net raw) (\<lambda>(hosts, port).
           Inr (go_put out name \<lparr>udp_port = port, udp_hosts = hosts\<rparr>)))
       services []"

definition udp_info :: "udpSvcInfo gomap \<Rightarrow> string \<Rightarrow> udpSvcInfo" where
  "udp_info info dyn = (case go_get info dyn of Some m \<Rightarrow> m | None \<Rightarrow> \<lparr>udp_port = 0, udp_hosts = []\<rparr>)"

definition buildUDPKubeArtifacts ::
  "netlib \<Rightarrow> string \<Rightarrow> string list \<Rightarrow> udpSvcInfo gomap \<Rightarrow>
   (string gomap \<times> Service list \<times> EndpointSlice list) result" where
  "buildUDPKubeArtifacts net namespace keys info =
     foldE (kube_artifacts_step net ProtocolUDP namespace
         (\<lambda>dyn. udp_port (udp_info info dyn)) (\<lambda>dyn. udp_hosts (udp_info info dyn)))
       keys ([], [], [])"

definition transformRouterUDP :: "string \<Rightarrow> string gomap \<Rightarrow> string \<Rightarrow> raw_message \<Rightarrow> obj result" where
  "transformRouterUDP namespace nameMap name raw =
     bindE (unmarshal_map raw) (\<lambda>obj.
       let r = of_nil obj;
           epsIfc = string_entries (map_get r ''entryPoints'');
           svcName = str_or_empty (map_get r ''service'')
       in if svcName = [] then Inl (ErrMsg (''router '' @ name @ '': missing service in config''))
          else
            let kubeName = get_str nameMap svcName in
            if kubeName = [] then Inl (ErrMsg (''router '' @ name @ '': unknown service '' @ svcName))
            else
              bindE (wrapE (''derive port for '' @ kubeName) (derivePortFromName kubeName)) (\<lambda>svcPort.
                let route = [(''services'', ISlice [IMap [(''name'', IStr kubeName),
                               (''port'', IFloat64 (Fin (of_int svcPort)))]])];
                    spec = [(''entryPoints'', epsIfc), (''routes'', ISlice [IMap route])]
                in Inr [(''apiVersion'', IStr GroupVersion), (''kind'', IStr ''IngressRouteUDP''),
                     (''metadata'', IMap [(''name'', IStr (SanitizeResourceName name)), (''namespace'', IStr namespace)]),
                     (''spec'', IMap spec)]))"

definition buildUDPRoutes :: "raw_message gomap \<Rightarrow> string gomap \<Rightarrow> string \<Rightarrow> obj list result" where
  "buildUDPRoutes routers nameMap namespace =
     foldE (\<lambda>(name, raw) out.
         bindE (transformRouterUDP namespace nameMap name raw) (\<lambda>u. Inr (out @ [u])))
       routers []"

definition TransformUDP ::
  "netlib \<Rightarrow> TraefikConfig option \<Rightarrow> string \<Rightarrow> (obj list \<times> Service list \<times> EndpointSlice list) result" where
  "TransformUDP net cfg namespace =
     (case Option.bind cfg UDP of
        None \<Rightarrow> Inr ([], [], [])
      | Some udp \<Rightarrow>
          bindE (buildUDPServiceIndex net (of_nil (l4_Services udp))) (\<lambda>udpInfo.
          bindE (buildUDPKubeArtifacts net namespace (sorted_keys udpInfo) udpInfo) (\<lambda>(nameMap, svcs, slices).
          bindE (buildUDPRoutes (of_nil (l4_Routers udp)) nameMap namespace) (\<lambda>routes.
            Inr (routes, svcs, slices)))))"

section \<open>Load balancers\<close>

lemma parsePort32_range: "parsePort32 s = Inr p \<Longrightarrow> 1 \<le> p \<and> p \<le> 65535"
  by (auto simp: parsePort32_def split: option.splits if_splits)

lemma parsePort32_itoa: "1 \<le> p \<Longrightarrow> p \<le> 65535 \<Longrightarrow> parsePort32 (itoa p) = Inr p"
  by (simp add: parsePort32_def ParseInt_itoa)

lemma splitHostPortFlexible_range: "splitHostPortFlexible net s = Inr (h, p) \<Longrightarrow> 1 \<le> p \<and> p \<le> 65535"
  by (auto simp: splitHostPortFlexible_def Let_def bindE_Inr_conv parsePort32_range split: if_splits)

lemma server_host_port_range: "server_host_port net s = Inr (h, p) \<Longrightarrow> 1 \<le> p \<and> p \<le> 65535"
  by (auto simp: server_host_port_def Let_def dest: splitHostPortFlexible_range split: option.splits if_splits)

lemma lb_step_Inr:
  "lb_step net s (hs, p0) = Inr (hs', p') \<longleftrightarrow>
     (\<exists>h p. server_host_port net s = Inr (h, p) \<and> hs' = hs @ [h] \<and> p' = p \<and> (p0 = 0 \<or> p0 = p))"
  by (auto simp: lb_step_def bindE_Inr_conv setOrValidatePort_def split: if_splits)

lemma lb_fold:
  assumes "p0 \<noteq> 0"
  shows "foldE (lb_step net) srvs (hs, p0) = Inr (hosts, port) \<longleftrightarrow>
    port = p0 \<and> (\<exists>hs'. hosts = hs @ hs' \<and> list_all2 (\<lambda>s h. server_host_port net s = Inr (h, p0)) srvs hs')"
proof (induction srvs arbitrary: hs)
  case (Cons s srvs)
  show ?case
  proof (cases "\<exists>h. server_host_port net s = Inr (h, p0)")
    case True
    then obtain h where h: "server_host_port net s = Inr (h, p0)" ..
    then have "lb_step net s (hs, p0) = Inr (hs @ [h], p0)" using assms by (simp add: lb_step_Inr)
    with Cons [of "hs @ [h]"] h show ?thesis by (auto simp: list_all2_Cons1)
  next
    case False
    then have "\<nexists>st. lb_step net s (hs, p0) = Inr st"
      using assms by (auto simp: lb_step_Inr)
    with False show ?thesis by (auto simp: list_all2_Cons1 split: sum.splits)
  qed
qed auto

lemma lb_fold_zero:
  "srvs \<noteq> [] \<Longrightarrow> foldE (lb_step net) srvs ([], 0) = Inr (hosts, port) \<longleftrightarrow>
     list_all2 (\<lambda>s h. server_host_port net s = Inr (h, port)) srvs hosts"
proof (cases srvs)
  case (Cons s rest)
  show ?thesis
  proof (cases "server_host_port net s")
    case (Inr hp)
    obtain h p where hp: "server_host_port net s = Inr (h, p)" using Inr by (cases hp) auto
    then have "p \<noteq> 0" using server_host_port_range by fastforce
    moreover have "lb_step net s ([], 0) = Inr ([h], p)" using hp by (simp add: lb_step_Inr)
    ultimately show ?thesis using Cons hp by (auto simp: lb_fold list_all2_Cons1)
  qed (auto simp: Cons lb_step_def list_all2_Cons1)
qed simp

lemma loadBalancerServers_Inr:
  "loadBalancerServers m = Inr srvs \<longleftrightarrow>
     srvs \<noteq> [] \<and> (\<exists>lb. map_get m ''loadBalancer'' = IMap lb \<and> map_get lb ''servers'' = ISlice srvs)"
proof -
  have "as_map v = Some lb \<longleftrightarrow> v = IMap lb \<or> v = INilMap \<and> lb = []"
    and "as_slice v = Some xs \<longleftrightarrow> v = ISlice xs \<or> v = INilSlice \<and> xs = []" for v lb xs
    by (cases v; auto)+
  then show ?thesis
    by (auto simp: loadBalancerServers_def map_get_def [of "[]"] split: option.splits if_splits)
qed

lemma extractLB_Inr:
  "extractLBAddressesPort net raw = Inr (hosts, port) \<longleftrightarrow>
     (\<exists>m lb srvs. raw = RawJSON (IMap m) \<and> map_get m ''loadBalancer'' = IMap lb
        \<and> map_get lb ''servers'' = ISlice srvs \<and> srvs \<noteq> []
        \<and> list_all2 (\<lambda>s h. server_host_port net s = Inr (h, port)) srvs hosts)"
  unfolding extractLBAddressesPort_def bindE_Inr_conv loadBalancerServers_Inr
  using unmarshal_map_Inr [of raw] lb_fold_zero
  by (auto simp: of_nil_def map_get_def [of "[]"])

text \<open>
  A load balancer is accepted exactly when it has at least one server, every server has an
  address with a port between 1 and 65535, and all ports agree; the result lists the hosts in the
  order of the servers, with that port.
\<close>

theorem extractLBAddressesPort_accepts:
  "extractLBAddressesPort net raw = Inr (hosts, port) \<longleftrightarrow>
     1 \<le> port \<and> port \<le> 65535
     \<and> (\<exists>m lb srvs. raw = RawJSON (IMap m) \<and> map_get m ''loadBalancer'' = IMap lb
        \<and> map_get lb ''servers'' = ISlice srvs \<and> srvs \<noteq> []
        \<and> list_all2 (\<lambda>s h. \<exists>server. as_map s = Some server \<and> pickServerAddress server \<noteq> []
             \<and> splitHostPortFlexible net (pickServerAddress server) = Inr (h, port)) srvs hosts)"
proof -
  have s: "server_host_port net s = Inr (h, port) \<longleftrightarrow>
      (\<exists>server. as_map s = Some server \<and> pickServerAddress server \<noteq> []
             \<and> splitHostPortFlexible net (pickServerAddress server) = Inr (h, port))" for s h
    by (auto simp: server_host_port_def Let_def split: option.splits if_splits)
  have "1 \<le> port \<and> port \<le> 65535" if "srvs \<noteq> []" "list_all2 (\<lambda>s h. server_host_port net s = Inr (h, port)) srvs hosts" for srvs
    using that by (cases srvs) (auto simp: list_all2_Cons1 dest: server_host_port_range)
  then show ?thesis unfolding extractLB_Inr s [symmetric] by blast
qed

section \<open>The port in the name\<close>

lemma ToLower_dash: "ToLower (s @ CHR ''-'' # t) = ToLower s @ CHR ''-'' # ToLower t"
proof (induction s rule: ToLower.induct)
  case (2 c s)
  have 3: "take 3 (c # s @ CHR ''-'' # t) = [CHR 0xE2, CHR 0x84, CHR 0xAA] \<longleftrightarrow>
      take 3 (c # s) = [CHR 0xE2, CHR 0x84, CHR 0xAA]"
    by (cases s; cases "tl s") auto
  have 2: "take 2 (c # s @ CHR ''-'' # t) = [CHR 0xC4, CHR 0xB0] \<longleftrightarrow> take 2 (c # s) = [CHR 0xC4, CHR 0xB0]"
    by (cases s) auto
  show ?case
  proof (cases "take 3 (c # s) = [CHR 0xE2, CHR 0x84, CHR 0xAA]")
    case True
    then have "drop 2 (s @ CHR ''-'' # t) = drop 2 s @ CHR ''-'' # t" by (cases s; cases "tl s") auto
    with True 3 "2.IH"(1) show ?thesis by simp
  next
    case False
    note f3 = this
    show ?thesis
    proof (cases "take 2 (c # s) = [CHR 0xC4, CHR 0xB0]")
      case True
      then have "drop 1 (s @ CHR ''-'' # t) = drop 1 s @ CHR ''-'' # t" by (cases s) auto
      with True f3 2 3 "2.IH"(2) show ?thesis by simp
    next
      case False
      with f3 2 3 "2.IH"(3) [OF f3 False] show ?thesis by auto
    qed
  qed
qed (simp add: ascii_lower_def byte_of_def)

lemma length_ToLower: "length (ToLower s) \<le> length s"
proof (induction s rule: ToLower.induct)
  case (2 c s)
  have "length (ToLower (drop k s)) \<le> length s" if "length (ToLower (drop k s)) \<le> length (drop k s)" for k
    using that by simp
  with 2 show ?case by auto
qed simp

lemma loop_append:
  "buildBaseName_loop ld (a @ b) = buildBaseName_loop ld a @
     buildBaseName_loop (if buildBaseName_loop ld a = [] then ld else last (buildBaseName_loop ld a) = CHR ''-'') b"
  by (induction ld a rule: buildBaseName_loop.induct) auto

lemma length_loop: "length (buildBaseName_loop ld s) \<le> length s"
  by (induction ld s rule: buildBaseName_loop.induct) auto

lemma isAlphaNum_digit: "is_digit c \<Longrightarrow> isAlphaNum c"
  by (auto simp: is_digit_def isAlphaNum_def byte_of_def)

text \<open>The sanitised form of \<open>name-digits\<close>, when the name has a letter or a digit and is short enough.\<close>

lemma sanitize_name_port:
  assumes d: "list_all is_digit ds" "ds \<noteq> []" and len: "length dyn + 1 + length ds \<le> 253"
  shows "\<exists>x. SanitizeResourceName (dyn @ ''-'' @ ds) = (if x = [] then ds else x @ ''-'' @ ds)
    \<and> (x = [] \<longleftrightarrow> buildBaseName (ToLower dyn) = [])"
proof -
  define l where "l = buildBaseName_loop True (ToLower dyn)"
  have dig: "\<forall>c \<in> set ds. isAlphaNum c" "CHR ''-'' \<notin> set ds"
    using d(1) isAlphaNum_digit isAlphaNum_not_dash(2) unfolding list_all_iff by blast+
  then have ld: "buildBaseName_loop b ds = ds" for b
    by (intro loop_id) (use d(2) isAlphaNum_not_dash(1) in \<open>auto simp: name_char_def single_dashes_none\<close>)
  have low: "ToLower (dyn @ ''-'' @ ds) = ToLower dyn @ CHR ''-'' # ds"
    using ToLower_dash [of dyn ds] dig(1) by (simp add: ToLower_id name_char_def)
  have base: "buildBaseName (ToLower (dyn @ ''-'' @ ds)) =
      l @ (if l = [] \<or> last l = CHR ''-'' then ds else CHR ''-'' # ds)"
    unfolding buildBaseName_def low loop_append l_def [symmetric] by (simp add: ld)
  have l: "single_dashes l" "l = [] \<or> hd l \<noteq> CHR ''-''" using loop_shape [of True "ToLower dyn"] by (auto simp: l_def)
  define x where "x = (if l \<noteq> [] \<and> last l = CHR ''-'' then butlast l else l)"
  have x: "x = [] \<longleftrightarrow> l = []" "x = [] \<or> hd x \<noteq> CHR ''-''"
    using l(2) by (cases l rule: rev_cases; auto simp: x_def hd_append split: if_splits)+
  have eq: "buildBaseName (ToLower (dyn @ ''-'' @ ds)) = (if x = [] then ds else x @ ''-'' @ ds)"
    using x(1) unfolding base x_def by (cases l rule: rev_cases) auto
  have "hd ds \<noteq> CHR ''-''" "last ds \<noteq> CHR ''-''" using dig(2) d(2) by (auto dest: hd_in_set last_in_set)
  then have trim: "TrimDash (if x = [] then ds else x @ ''-'' @ ds) = (if x = [] then ds else x @ ''-'' @ ds)"
    using x(2) d(2) by (cases "x = []") (simp_all add: TrimDash_id TrimRightDash_id)
  have "length x \<le> length dyn"
    using length_loop [of True "ToLower dyn"] length_ToLower [of dyn] by (auto simp: x_def l_def)
  then have "SanitizeResourceName (dyn @ ''-'' @ ds) = (if x = [] then ds else x @ ''-'' @ ds)"
    using len d(2) unfolding SanitizeResourceName_def Let_def eq trim
    by (simp add: finalizeSanitizedName_def maxK8sNameLength_def)
  then show ?thesis using x(1) by (auto simp: l_def buildBaseName_def)
qed

lemma length_dec_digits: "n < 10 ^ k \<Longrightarrow> 0 < k \<Longrightarrow> length (dec_digits n) \<le> k"
proof (induction n arbitrary: k rule: dec_digits.induct)
  case (1 n)
  show ?case
  proof (cases "n < 10")
    case False
    with "1.prems" obtain j where k: "k = Suc j" "0 < j" by (cases k; cases "k - 1") auto
    with "1.prems" have "n div 10 < 10 ^ j" by (simp add: less_mult_imp_div_less)
    with "1.IH" [OF False this k(2)] k False show ?thesis by (simp add: dec_digits.simps [of n])
  qed (use "1.prems" in \<open>simp add: dec_digits.simps [of n]\<close>)
qed

lemma itoa_port: "1 \<le> p \<Longrightarrow> p \<le> 65535 \<Longrightarrow> itoa p = dec_digits (nat p) \<and> length (itoa p) \<le> 5"
  using length_dec_digits [of "nat p" 5] by (simp add: itoa_def)

lemma derivePortFromName_kube:
  assumes "1 \<le> p" and "p \<le> 65535" and "length dyn \<le> 247"
  shows "derivePortFromName (kube_service_name dyn p) =
    (if buildBaseName (ToLower dyn) = [] then Inl (ErrMsg (''no port suffix in name: '' @ itoa p)) else Inr p)"
proof -
  have i: "itoa p = dec_digits (nat p)" "length (itoa p) \<le> 5" using itoa_port [OF assms(1,2)] by blast+
  have ds: "list_all is_digit (itoa p)" "itoa p \<noteq> []" "CHR ''-'' \<notin> set (itoa p)"
    using dec_digits_all [of "nat p"] dec_digits_no_dash [of "nat p"] by (simp_all add: i(1))
  obtain x where x: "SanitizeResourceName (dyn @ ''-'' @ itoa p) = (if x = [] then itoa p else x @ ''-'' @ itoa p)"
      "x = [] \<longleftrightarrow> buildBaseName (ToLower dyn) = []"
    using sanitize_name_port [OF ds(1,2), of dyn] i(2) assms(3) by auto
  have "CutLast (itoa p) (CHR ''-'') = None" using ds(3) by (simp add: CutLast_def)
  with x ds assms(1,2) show ?thesis
    by (simp add: derivePortFromName_def kube_service_name_def CutLast_append parsePort32_itoa)
qed

text \<open>
  The port of a Service is recovered from its resource name: for a name of up to 247 bytes with
  at least one letter or digit, sanitising \<open>name-port\<close> and reading the suffix gives the port back.
\<close>

theorem derivePortFromName_roundtrip:
  assumes "1 \<le> port" and "port \<le> 65535" and "length dyn \<le> 247" and "buildBaseName (ToLower dyn) \<noteq> []"
  shows "derivePortFromName (SanitizeResourceName (dyn @ ''-'' @ itoa port)) = Inr port"
  using derivePortFromName_kube [OF assms(1-3)] assms(4) by (simp add: kube_service_name_def)

theorem derivePortFromName_roundtrip_witness:
  "SanitizeResourceName (''My_DB.tcp'' @ ''-'' @ itoa 5432) = ''my-db-tcp-5432''
   \<and> derivePortFromName (SanitizeResourceName (''My_DB.tcp'' @ ''-'' @ itoa 5432)) = Inr 5432"
proof -
  have "buildBaseName (ToLower ''My_DB.tcp'') \<noteq> []" by code_simp
  with derivePortFromName_roundtrip [of 5432 "''My_DB.tcp''"]
  have "derivePortFromName (SanitizeResourceName (''My_DB.tcp'' @ ''-'' @ itoa 5432)) = Inr 5432" by simp
  moreover have "digit_char 5 = CHR ''5''" "digit_char 4 = CHR ''4''" "digit_char 3 = CHR ''3''"
      "digit_char 2 = CHR ''2''"
    by code_simp+
  then have "itoa 5432 = ''5432''" by (simp add: itoa_def dec_digits.simps)
  moreover have "SanitizeResourceName (''My_DB.tcp'' @ ''-'' @ ''5432'') = ''my-db-tcp-5432''" by code_simp
  ultimately show ?thesis by simp
qed

section \<open>Services, slices and routes\<close>

lemma artifacts_Inr:
  assumes "foldE (kube_artifacts_step net proto ns port hosts) keys ([], [], []) = Inr (nm, svcs, slices)"
  shows "svcs = map (\<lambda>d. buildHeadlessService ns (kube_service_name d (port d)) (port d) proto) keys
    \<and> list_all2 (\<lambda>d es. buildEndpointSlice net ns (kube_service_name d (port d)) (port d) (hosts d) proto = Inr es) keys slices
    \<and> (\<forall>d. go_get nm d = (if d \<in> set keys then Some (kube_service_name d (port d)) else None))"
  using assms
proof (induction keys arbitrary: nm svcs slices rule: rev_induct)
  case (snoc k keys)
  obtain nm' svcs' slices' where
    f: "foldE (kube_artifacts_step net proto ns port hosts) keys ([], [], []) = Inr (nm', svcs', slices')"
    and g: "kube_artifacts_step net proto ns port hosts k (nm', svcs', slices') = Inr (nm, svcs, slices)"
    using snoc.prems by (auto simp: foldE_append split: sum.splits)
  from g snoc.IH [OF f] show ?case
    by (auto simp: kube_artifacts_step_def Let_def bindE_Inr_conv list_all2_appendI)
qed simp

definition ports_ok :: "(string \<Rightarrow> int) \<Rightarrow> string list \<Rightarrow> bool" where
  "ports_ok port keys \<longleftrightarrow> (\<forall>d \<in> set keys. 1 \<le> port d \<and> port d \<le> 65535)"

lemma extractLB_port_range: "extractLBAddressesPort net raw = Inr (hosts, port) \<Longrightarrow> 1 \<le> port \<and> port \<le> 65535"
  unfolding extractLB_Inr by (auto simp: list_all2_Cons1 neq_Nil_conv dest: server_host_port_range)

text \<open>The two service indexes: every entry comes from a service of the configuration.\<close>

lemma index_fold:
  assumes "foldE (\<lambda>(name, raw) out. bindE (extract raw) (\<lambda>x. Inr (go_put out name (mk raw x)))) svcs [] = Inr info"
  shows "set (go_keys info) = set (go_keys svcs)
    \<and> (\<forall>d v. go_get info d = Some v \<longrightarrow> (\<exists>raw x. extract raw = Inr x \<and> v = mk raw x))"
  using assms
proof (induction svcs arbitrary: info rule: rev_induct)
  case (snoc p svcs)
  obtain info' where
    f: "foldE (\<lambda>(name, raw) out. bindE (extract raw) (\<lambda>x. Inr (go_put out name (mk raw x)))) svcs [] = Inr info'"
    using snoc.prems by (auto simp: foldE_append split: sum.splits)
  then obtain a b x where p: "p = (a, b)" "extract b = Inr x" "info = go_put info' a (mk b x)"
    using snoc.prems by (cases p) (auto simp: foldE_append bindE_Inr_conv split: sum.splits)
  have "set (go_keys (svcs @ [p])) = insert a (set (go_keys svcs))" by (simp add: go_keys_def p(1))
  with snoc.IH [OF f] p show ?case by (auto simp: set_go_keys_put split: if_splits)
qed (simp add: go_keys_def)

lemma udp_index:
  assumes "buildUDPServiceIndex net svcs = Inr info"
  shows "ports_ok (\<lambda>d. udp_port (udp_info info d)) (sorted_keys info)"
    and "set (sorted_keys info) = set (go_keys svcs)"
proof -
  note i = index_fold [where mk = "\<lambda>raw (hosts, port). \<lparr>udp_port = port, udp_hosts = hosts\<rparr>", of "extractLBAddressesPort net" svcs info]
  have "foldE (\<lambda>(name, raw) out. bindE (extractLBAddressesPort net raw)
      (\<lambda>x. Inr (go_put out name (case x of (hosts, port) \<Rightarrow> \<lparr>udp_port = port, udp_hosts = hosts\<rparr>)))) svcs [] = Inr info"
    using assms unfolding buildUDPServiceIndex_def case_prod_beta .
  note i = i [OF this]
  have "1 \<le> udp_port v \<and> udp_port v \<le> 65535" if "go_get info d = Some v" for d v
    using i that by (fastforce dest: extractLB_port_range)
  then show "ports_ok (\<lambda>d. udp_port (udp_info info d)) (sorted_keys info)"
    by (auto simp: ports_ok_def udp_info_def)
  show "set (sorted_keys info) = set (go_keys svcs)"
    using i by (simp add: set_go_keys)
qed

lemma tcp_index:
  assumes "buildTCPServiceIndex net svcs = Inr info"
  shows "ports_ok (\<lambda>d. tcp_port (tcp_info info d)) (sorted_keys info)"
    and "set (sorted_keys info) = set (go_keys svcs)"
proof -
  note i = index_fold [where mk = "\<lambda>raw (hosts, port). \<lparr>tcp_port = port, tcp_hosts = hosts,
      tcp_transport = extractServersTransportName raw\<rparr>", of "extractLBAddressesPort net" svcs info]
  have "foldE (\<lambda>(name, raw) out. bindE (extractLBAddressesPort net raw)
      (\<lambda>x. Inr (go_put out name (case x of (hosts, port) \<Rightarrow> \<lparr>tcp_port = port, tcp_hosts = hosts,
        tcp_transport = extractServersTransportName raw\<rparr>)))) svcs [] = Inr info"
    using assms unfolding buildTCPServiceIndex_def case_prod_beta .
  note i = i [OF this]
  have "1 \<le> tcp_port v \<and> tcp_port v \<le> 65535" if "go_get info d = Some v" for d v
    using i that by (fastforce dest: extractLB_port_range)
  then show "ports_ok (\<lambda>d. tcp_port (tcp_info info d)) (sorted_keys info)"
    by (auto simp: ports_ok_def tcp_info_def)
  show "set (sorted_keys info) = set (go_keys svcs)"
    using i by (simp add: set_go_keys)
qed

text \<open>What a route refers to: the first service of its first route.\<close>

definition first_service :: "obj \<Rightarrow> obj" where
  "first_service u =
     (let spec = of_nil (as_map (map_get u ''spec''));
          route = (case as_slice (map_get spec ''routes'') of Some (r # _) \<Rightarrow> of_nil (as_map r) | _ \<Rightarrow> [])
      in case as_slice (map_get route ''services'') of Some (e # _) \<Rightarrow> of_nil (as_map e) | _ \<Rightarrow> [])"

text \<open>The route refers to one of the Services, by name and with its port.\<close>

definition refers_to :: "obj \<Rightarrow> Service list \<Rightarrow> bool" where
  "refers_to u svcs \<longleftrightarrow>
     (\<exists>svc \<in> set svcs. \<exists>port proto. svc_Ports svc = [(port, proto)]
        \<and> map_get (first_service u) ''name'' = IStr (svc_Name svc)
        \<and> map_get (first_service u) ''port'' = IFloat64 (Fin (of_int port)))"

lemma refers_to_artifact:
  assumes "svcs = map (\<lambda>d. buildHeadlessService ns (kube_service_name d (port d)) (port d) proto) keys"
    and "ports_ok port keys" and "d \<in> set keys" and "length d \<le> 247"
    and "derivePortFromName (kube_service_name d (port d)) = Inr p"
    and "map_get (first_service u) ''name'' = IStr (kube_service_name d (port d))"
    and "map_get (first_service u) ''port'' = IFloat64 (Fin (of_int p))"
  shows "refers_to u svcs"
proof -
  have "1 \<le> port d" "port d \<le> 65535" using assms(2,3) by (auto simp: ports_ok_def)
  from derivePortFromName_kube [OF this assms(4)] assms(5) have "p = port d" by (simp split: if_splits)
  with assms show ?thesis by (auto simp: refers_to_def buildHeadlessService_def)
qed

lemma transformRouterUDP_first:
  assumes "transformRouterUDP ns nm name raw = Inr u"
  shows "\<exists>d p. get_str nm d \<noteq> [] \<and> derivePortFromName (get_str nm d) = Inr p
    \<and> first_service u = [(''name'', IStr (get_str nm d)), (''port'', IFloat64 (Fin (of_int p)))]"
  using assms
  by (auto simp: transformRouterUDP_def bindE_Inr_conv Let_def first_service_def map_get_Cons of_nil_def [of "Some _"]
      split: if_splits)

text \<open>
  Every \<open>IngressRouteUDP\<close> of a transformed configuration refers to one of the generated Services
  by its name and with the port that Service has, when the service names have at most 247 bytes.
\<close>

theorem TransformUDP_routes_resolve:
  assumes "TransformUDP net (Some cfg) ns = Inr (routes, svcs, slices)" and "UDP cfg = Some udp"
    and "\<forall>k \<in> set (go_keys (of_nil (l4_Services udp))). length k \<le> 247"
  shows "\<forall>u \<in> set routes. refers_to u svcs"
proof -
  obtain info nm where
    i: "buildUDPServiceIndex net (of_nil (l4_Services udp)) = Inr info" and
    k: "buildUDPKubeArtifacts net ns (sorted_keys info) info = Inr (nm, svcs, slices)" and
    r: "buildUDPRoutes (of_nil (l4_Routers udp)) nm ns = Inr routes"
    using assms(1,2) by (auto simp: TransformUDP_def bindE_Inr_conv)
  note a = artifacts_Inr [OF k [unfolded buildUDPKubeArtifacts_def]]
  have res: "refers_to u svcs"
    if "first_service u = [(''name'', IStr (get_str nm d)), (''port'', IFloat64 (Fin (of_int p)))]"
      "get_str nm d \<noteq> []" "derivePortFromName (get_str nm d) = Inr p" for u d p
  proof -
    have d: "d \<in> set (sorted_keys info)" "get_str nm d = kube_service_name d (udp_port (udp_info info d))"
      using that(2) a by (auto simp: get_str_def split: option.splits if_splits)
    moreover have "length d \<le> 247" using d(1) assms(3) unfolding udp_index(2) [OF i] by blast
    ultimately show ?thesis
      using refers_to_artifact [OF conjunct1 [OF a] udp_index(1) [OF i] d(1)] that(1,3) by (simp add: map_get_Cons)
  qed
  show ?thesis
    using foldE_collect_in [OF r [unfolded buildUDPRoutes_def]] by (auto dest!: transformRouterUDP_first intro: res)
qed

lemma transformRouterTCP_first:
  assumes "transformRouterTCPToIngressRouteTCP ns name raw nm = Inr (u, d)"
  shows "\<exists>m p n. raw = RawJSON (IMap m) \<and> d = str_or_empty (map_get m ''service'')
    \<and> n = (if get_str nm d = [] then SanitizeResourceName d else get_str nm d)
    \<and> derivePortFromName n = Inr p
    \<and> first_service u = [(''name'', IStr n), (''port'', IFloat64 (Fin (of_int p)))]
    \<and> (\<forall>t. map_get (first_service (injectServersTransport u t)) ''name'' = IStr n
         \<and> map_get (first_service (injectServersTransport u t)) ''port'' = IFloat64 (Fin (of_int p)))"
proof -
  obtain m where m: "raw = RawJSON (IMap m)"
    using assms unmarshal_map_Inr [of raw]
    by (cases "unmarshal_map raw")
      (auto simp: transformRouterTCPToIngressRouteTCP_def Let_def of_nil_def map_get_def [of "[]"] str_or_empty_def)
  with assms show ?thesis
    by (auto simp: transformRouterTCPToIngressRouteTCP_def bindE_Inr_conv Let_def first_service_def map_get_Cons
        of_nil_def injectServersTransport_def split: if_splits)
qed

text \<open>
  C35. Every \<open>IngressRouteTCP\<close> of a transformed configuration refers to one of the generated Services
  by its name and with the port that Service has, whether or not a transport is injected, when its
  router names a service of the configuration and service names have at most 247 bytes.
\<close>

theorem TransformTCP_routes_resolve:
  assumes "TransformTCP net (Some cfg) ns = Inr (routes, svcs, slices)" and "TCP cfg = Some tcp"
    and "\<forall>k \<in> set (go_keys (of_nil (l4_Services tcp))). length k \<le> 247"
    and "\<forall>(n, raw) \<in> set (of_nil (l4_Routers tcp)). \<forall>m. raw = RawJSON (IMap m) \<longrightarrow>
           str_or_empty (map_get m ''service'') \<in> set (go_keys (of_nil (l4_Services tcp)))"
  shows "\<forall>u \<in> set routes. refers_to u svcs"
proof -
  obtain info nm where
    i: "buildTCPServiceIndex net (of_nil (l4_Services tcp)) = Inr info" and
    k: "buildTCPKubeArtifacts net ns (sorted_keys info) info = Inr (nm, svcs, slices)" and
    r: "buildTCPRoutes ns (of_nil (l4_Routers tcp)) nm info = Inr routes"
    using assms(1,2) by (auto simp: TransformTCP_def bindE_Inr_conv)
  note a = artifacts_Inr [OF k [unfolded buildTCPKubeArtifacts_def]]
  have res: "refers_to v svcs"
    if "d \<in> set (sorted_keys info)" "n = (if get_str nm d = [] then SanitizeResourceName d else get_str nm d)"
      "map_get (first_service v) ''name'' = IStr n" "map_get (first_service v) ''port'' = IFloat64 (Fin (of_int p))"
      "derivePortFromName n = Inr p" for v d p n
  proof -
    have "kube_service_name d (tcp_port (tcp_info info d)) \<noteq> []"
      using SanitizeResourceName_ok by (auto simp: kube_service_name_def valid_name_def)
    with that(1,2) a have n: "n = kube_service_name d (tcp_port (tcp_info info d))"
      by (simp add: get_str_def)
    have "length d \<le> 247" using that(1) assms(3) unfolding tcp_index(2) [OF i] by blast
    with refers_to_artifact [OF conjunct1 [OF a] tcp_index(1) [OF i] that(1)] that(3-5) n show ?thesis by simp
  qed
  show ?thesis
  proof
    fix v
    assume "v \<in> set routes"
    then obtain name raw u d where t: "(name, raw) \<in> set (of_nil (l4_Routers tcp))"
        "transformRouterTCPToIngressRouteTCP ns name raw nm = Inr (u, d)"
        "v = u \<or> (\<exists>t. v = injectServersTransport u t)"
      using foldE_collect_in [OF r [unfolded buildTCPRoutes_def]]
      by (fastforce simp: tcp_route_def bindE_Inr_conv split: option.splits if_splits)
    from transformRouterTCP_first [OF t(2)] obtain m q n where
      f: "raw = RawJSON (IMap m)" "d = str_or_empty (map_get m ''service'')"
        "n = (if get_str nm d = [] then SanitizeResourceName d else get_str nm d)" "derivePortFromName n = Inr q"
        "first_service u = [(''name'', IStr n), (''port'', IFloat64 (Fin (of_int q)))]"
        "\<forall>t. map_get (first_service (injectServersTransport u t)) ''name'' = IStr n
         \<and> map_get (first_service (injectServersTransport u t)) ''port'' = IFloat64 (Fin (of_int q))"
      by blast
    have "d \<in> set (sorted_keys info)" using assms(4) t(1) f(1,2) unfolding tcp_index(2) [OF i] by auto
    moreover have "map_get (first_service v) ''name'' = IStr n"
        "map_get (first_service v) ''port'' = IFloat64 (Fin (of_int q))"
      using t(3) f(5,6) by (auto simp: map_get_Cons)
    ultimately show "refers_to v svcs" using res f(3,4) by blast
  qed
qed

section \<open>Address types\<close>

lemma addressType_loop_4:
  "\<not> (a \<and> b) \<Longrightarrow> chooseAddressType_loop net hs a b = Inr AddressTypeIPv4 \<longleftrightarrow>
     \<not> b \<and> (a \<or> hs \<noteq> []) \<and> (\<forall>h \<in> set hs. ParseIP net h = Some True)"
  by (induction hs arbitrary: a b) (auto simp: Let_def split: option.split)

lemma addressType_loop_6:
  "\<not> (a \<and> b) \<Longrightarrow> chooseAddressType_loop net hs a b = Inr AddressTypeIPv6 \<longleftrightarrow>
     \<not> a \<and> (\<forall>h \<in> set hs. ParseIP net h = Some False)"
  by (induction hs arbitrary: a b) (auto simp: Let_def split: option.split)

lemma addressType_loop_mixed:
  "\<not> (a \<and> b) \<Longrightarrow> chooseAddressType_loop net hs a b = Inl e \<Longrightarrow>
     (a \<or> (\<exists>h \<in> set hs. ParseIP net h = Some True)) \<and> (b \<or> (\<exists>h \<in> set hs. ParseIP net h = Some False))"
proof (induction hs arbitrary: a b)
  case (Cons h hs)
  then obtain is4 where h: "ParseIP net h = Some is4" by (auto split: option.splits)
  show ?case
  proof (cases "(a \<or> is4) \<and> (b \<or> \<not> is4)")
    case True
    with h show ?thesis by (cases is4) auto
  next
    case False
    with Cons.prems h have "chooseAddressType_loop net hs (a \<or> is4) (b \<or> \<not> is4) = Inl e"
      by (simp add: Let_def split: if_splits)
    from Cons.IH [OF False this] h show ?thesis by (cases is4) auto
  qed
qed simp

lemma chooseAddressType_cases:
  "chooseAddressType net hosts = Inr AddressTypeIPv4 \<longleftrightarrow> hosts \<noteq> [] \<and> (\<forall>h \<in> set hosts. ParseIP net h = Some True)"
  "chooseAddressType net hosts = Inr AddressTypeIPv6 \<longleftrightarrow> hosts \<noteq> [] \<and> (\<forall>h \<in> set hosts. ParseIP net h = Some False)"
  "chooseAddressType net hosts = Inl e \<Longrightarrow>
     (\<exists>h \<in> set hosts. ParseIP net h = Some True) \<and> (\<exists>h \<in> set hosts. ParseIP net h = Some False)"
  using addressType_loop_4 [of False False net hosts] addressType_loop_6 [of False False net hosts]
    addressType_loop_mixed [of False False net hosts]
  by (auto simp: chooseAddressType_def split: if_splits)

text \<open>
  An EndpointSlice lists every host once, in order, under the Service's name with the suffix
  \<open>-eps\<close>; it is declared IPv4 (IPv6) exactly when all hosts are IPv4 (IPv6) addresses, and building
  it fails only when the hosts contain addresses of both families.
\<close>

theorem buildEndpointSlice_spec:
  "(case buildEndpointSlice net ns base port hosts proto of
      Inr es \<Rightarrow>
        es_Name es = base @ ''-eps'' \<and> es_Namespace es = ns \<and> es_Ports es = [(port, proto)]
        \<and> concat (es_Endpoints es) = hosts \<and> (\<forall>e \<in> set (es_Endpoints es). length e = 1)
        \<and> (es_AddressType es = AddressTypeIPv4 \<longleftrightarrow> hosts \<noteq> [] \<and> (\<forall>h \<in> set hosts. ParseIP net h = Some True))
        \<and> (es_AddressType es = AddressTypeIPv6 \<longleftrightarrow> hosts \<noteq> [] \<and> (\<forall>h \<in> set hosts. ParseIP net h = Some False))
    | Inl e \<Rightarrow>
        (\<exists>h \<in> set hosts. ParseIP net h = Some True) \<and> (\<exists>h \<in> set hosts. ParseIP net h = Some False))"
  using chooseAddressType_cases [of net hosts]
  by (cases "chooseAddressType net hosts") (auto simp: buildEndpointSlice_def)

section \<open>Examples\<close>

definition example_net :: netlib where
  "example_net = \<lparr>url_Parse = (\<lambda>s. Inl (ErrMsg s)), url_ParseRequestURI = (\<lambda>s. Inl (ErrMsg s)),
     ParseIP = (\<lambda>s. if s = ''10.0.0.1'' then Some True else None)\<rparr>"

definition example_l4 :: TCPUDPConfig where
  "example_l4 =
     \<lparr>l4_Routers = Some [(''r.1'', RawJSON (IMap [(''rule'', IStr ''HostSNI(`*`)''), (''service'', IStr ''db'')]))],
      l4_Services = Some [(''db'', RawJSON (IMap [(''serversTransport'', IStr ''st''), (''loadBalancer'',
        IMap [(''servers'', ISlice [IMap [(''address'', IStr ''10.0.0.1:53'')]])])]))],
      l4_ServersTransports = None\<rparr>"

definition example_l4_cfg :: TraefikConfig where
  "example_l4_cfg = \<lparr>HTTP = empty_http, TCP = Some example_l4, UDP = Some example_l4\<rparr>"

lemma example_l4_side:
  "\<forall>k \<in> set (go_keys (of_nil (l4_Services example_l4))). length k \<le> 247"
  "\<forall>(n, raw) \<in> set (of_nil (l4_Routers example_l4)). \<forall>m. raw = RawJSON (IMap m) \<longrightarrow>
     str_or_empty (map_get m ''service'') \<in> set (go_keys (of_nil (l4_Services example_l4)))"
  by (auto simp: example_l4_def of_nil_def go_keys_def map_get_Cons str_or_empty_def)

theorem TransformUDP_routes_resolve_witness:
  "\<exists>routes svcs slices. TransformUDP example_net (Some example_l4_cfg) ''ns'' = Inr (routes, svcs, slices)
     \<and> length routes = 1 \<and> (\<forall>u \<in> set routes. refers_to u svcs)"
proof -
  have "case TransformUDP example_net (Some example_l4_cfg) ''ns'' of Inl _ \<Rightarrow> False | Inr (r, _, _) \<Rightarrow> length r = 1"
    by code_simp
  then obtain routes svcs slices where
    t: "TransformUDP example_net (Some example_l4_cfg) ''ns'' = Inr (routes, svcs, slices)" "length routes = 1"
    by (auto split: sum.splits)
  with TransformUDP_routes_resolve [OF t(1) _ example_l4_side(1)] show ?thesis by (simp add: example_l4_cfg_def)
qed

theorem TransformTCP_routes_resolve_witness:
  "\<exists>routes svcs slices. TransformTCP example_net (Some example_l4_cfg) ''ns'' = Inr (routes, svcs, slices)
     \<and> length routes = 1 \<and> (\<forall>u \<in> set routes. refers_to u svcs)"
proof -
  have "case TransformTCP example_net (Some example_l4_cfg) ''ns'' of Inl _ \<Rightarrow> False | Inr (r, _, _) \<Rightarrow> length r = 1"
    by code_simp
  then obtain routes svcs slices where
    t: "TransformTCP example_net (Some example_l4_cfg) ''ns'' = Inr (routes, svcs, slices)" "length routes = 1"
    by (auto split: sum.splits)
  with TransformTCP_routes_resolve [OF t(1) _ example_l4_side] show ?thesis by (simp add: example_l4_cfg_def)
qed

theorem buildEndpointSlice_spec_witness:
  "(case buildEndpointSlice example_net ''ns'' ''db-53'' 53 [''10.0.0.1''] ProtocolUDP of
      Inr es \<Rightarrow> concat (es_Endpoints es) = [''10.0.0.1''] \<and> es_AddressType es = AddressTypeIPv4
    | Inl e \<Rightarrow> False)"
  using buildEndpointSlice_spec [where net = example_net and ns = "''ns''" and base = "''db-53''" and port = 53
      and hosts = "[''10.0.0.1'']" and proto = ProtocolUDP]
  by (auto simp: example_net_def split: sum.splits)

end
