(* ===== verification/HttpConversion.thy ===== *)
theory HttpConversion
  imports AppConfig NetAddr TraefikConfig
begin

text \<open>
  HTTP services (\<^verbatim>\<open>internal/transform/protocol/http_conversion.go\<close>): a load balancer whose servers all
  address one Kubernetes Service becomes a weighted TraefikService that refers to it, an empty load
  balancer the configured gateway Service, an empty specification a server at the configured
  address. One definition per function of the file; logging is left out.

  The maps a specification consists of are shared in the source: \<open>rewriteShortNameHosts\<close> changes the
  servers in place. The change is observable only when the conversion succeeds, and then the
  servers are dropped, so the model returns new values.

  Shown: exactly when the servers are uniform and which Service they address; what a service is
  rewritten to in each case, and that every other service is passed on unchanged; that a path in
  the address of a bare Service name is lost; that the names of the services are kept.
\<close>

record kubeServiceTarget =
  t_name :: string
  t_namespace :: string
  t_port :: int
  t_scheme :: string

section \<open>Service addresses\<close>

definition derivePort :: "URL \<Rightarrow> int" where
  "derivePort parsed =
     (let fallback = (if Scheme parsed = ''https'' then 443 else 80); p = Port parsed in
      if p \<noteq> [] then (case Atoi p of Some val \<Rightarrow> if val > 0 then val else fallback | None \<Rightarrow> fallback)
      else fallback)"

definition validateParsedServiceURL :: "URL \<Rightarrow> string \<Rightarrow> goerr option" where
  "validateParsedServiceURL parsed raw =
     (if Scheme parsed \<noteq> ''http'' \<and> Scheme parsed \<noteq> ''https''
      then Some (ErrMsg (''unsupported scheme '' @ Scheme parsed))
      else if (Path parsed \<noteq> [] \<and> Path parsed \<noteq> ''/'') \<or> RawQuery parsed \<noteq> []
      then Some (ErrMsg (''unsupported path or query components in '' @ raw))
      else
        let host = Hostname parsed in
        if host = [] then Some (ErrMsg ''missing host'')
        else if \<not> Contains host ''.svc.'' \<and> \<not> HasSuffix host ''.svc''
        then Some (ErrMsg (''host '' @ host @ '' is not a Kubernetes service FQDN''))
        else None)"

definition parseKubeServiceURL :: "netlib \<Rightarrow> string \<Rightarrow> kubeServiceTarget result" where
  "parseKubeServiceURL net rawURL =
     bindE (url_ParseRequestURI net rawURL) (\<lambda>parsed.
       case validateParsedServiceURL parsed rawURL of
         Some e \<Rightarrow> Inl e
       | None \<Rightarrow>
           (case Split (Hostname parsed) (CHR ''.'') of
              name # namespace # third # _ \<Rightarrow>
                if name = [] \<or> namespace = []
                then Inl (ErrMsg ''invalid service reference: missing name or namespace'')
                else if third \<noteq> ''svc'' then Inl (ErrMsg ''invalid service reference: expected .svc segment'')
                else Inr \<lparr>t_name = name, t_namespace = namespace, t_port = derivePort parsed,
                          t_scheme = Scheme parsed\<rparr>
            | _ \<Rightarrow> Inl (ErrMsg ''invalid service reference: expected <name>.<namespace>.svc'')))"

definition target_equals :: "kubeServiceTarget \<Rightarrow> kubeServiceTarget \<Rightarrow> bool" where
  "target_equals t other \<longleftrightarrow>
     t_name t = t_name other \<and> t_namespace t = t_namespace other \<and> t_port t = t_port other
     \<and> t_scheme t = t_scheme other"

text \<open>The target of one server; \<open>None\<close> makes the caller give up.\<close>

definition server_target :: "netlib \<Rightarrow> iface \<Rightarrow> kubeServiceTarget option" where
  "server_target net srv =
     (case as_map srv of
        None \<Rightarrow> None
      | Some srvMap \<Rightarrow>
          if length srvMap \<noteq> 1 then None
          else (case as_str (map_get srvMap ''url'') of
                  None \<Rightarrow> None
                | Some rawURL \<Rightarrow>
                    if rawURL = [] then None
                    else (case parseKubeServiceURL net rawURL of Inl _ \<Rightarrow> None | Inr parsed \<Rightarrow> Some parsed)))"

fun uniform_loop :: "netlib \<Rightarrow> kubeServiceTarget option \<Rightarrow> iface list \<Rightarrow> kubeServiceTarget option" where
  "uniform_loop net target [] = target"
| "uniform_loop net target (srv # rest) =
     (case server_target net srv of
        None \<Rightarrow> None
      | Some parsed \<Rightarrow>
          (case target of
             None \<Rightarrow> uniform_loop net (Some parsed) rest
           | Some t \<Rightarrow> if \<not> target_equals t parsed then None else uniform_loop net (Some t) rest))"

definition parseUniformServiceTargets :: "netlib \<Rightarrow> iface list \<Rightarrow> kubeServiceTarget option" where
  "parseUniformServiceTargets net servers = uniform_loop net None servers"

section \<open>Load balancers\<close>

definition extractLBServers :: "obj \<Rightarrow> iface list option" where
  "extractLBServers spec =
     (if length spec \<noteq> 1 then None
      else case as_map (map_get spec ''loadBalancer'') of
             None \<Rightarrow> None
           | Some lb \<Rightarrow>
               (case as_slice (map_get lb ''servers'') of
                  None \<Rightarrow> None
                | Some servers \<Rightarrow>
                    if servers = [] then None
                    else if list_ex (\<lambda>k. k \<noteq> ''servers'') (go_keys lb) then None
                    else Some servers))"

definition isEmptyLoadBalancer :: "obj \<Rightarrow> bool" where
  "isEmptyLoadBalancer spec \<longleftrightarrow>
     length spec = 1
     \<and> (case as_map (map_get spec ''loadBalancer'') of
          None \<Rightarrow> False
        | Some lb \<Rightarrow> length lb = 1 \<and> as_slice (map_get lb ''servers'') = Some [])"

text \<open>The rewritten servers and whether any was changed; a server it cannot read ends the loop with false.\<close>

fun rewrite_loop :: "netlib \<Rightarrow> string \<Rightarrow> iface list \<Rightarrow> bool \<Rightarrow> iface list \<times> bool" where
  "rewrite_loop net namespace [] changed = ([], changed)"
| "rewrite_loop net namespace (srv # rest) changed =
     (case as_map srv of
        None \<Rightarrow> (srv # rest, False)
      | Some srvMap \<Rightarrow>
          (case as_str (map_get srvMap ''url'') of
             None \<Rightarrow> (srv # rest, False)
           | Some rawURL \<Rightarrow>
               if rawURL = [] then (srv # rest, False)
               else
                 (case url_ParseRequestURI net rawURL of
                    Inl _ \<Rightarrow> (srv # rest, False)
                  | Inr parsed \<Rightarrow>
                      let host = Hostname parsed in
                      if host = [] \<or> Contains host ''.'' then
                        (case rewrite_loop net namespace rest changed of (r, c) \<Rightarrow> (srv # r, c))
                      else
                        let fqdn = host @ ''.'' @ namespace @ ''.svc'';
                            p = Port parsed;
                            fqdn = (if p \<noteq> [] then fqdn @ '':'' @ p else fqdn);
                            srv' = IMap (go_put srvMap ''url'' (IStr (Scheme parsed @ ''://'' @ fqdn)))
                        in case rewrite_loop net namespace rest True of (r, c) \<Rightarrow> (srv' # r, c))))"

definition rewriteShortNameHosts :: "netlib \<Rightarrow> iface list \<Rightarrow> string \<Rightarrow> iface list \<times> bool" where
  "rewriteShortNameHosts net servers namespace =
     (if namespace = [] then (servers, False) else rewrite_loop net namespace servers False)"

definition int_iface :: "int \<Rightarrow> iface" where
  "int_iface n = IInt (word_of_int n)"

definition target_entry :: "kubeServiceTarget \<Rightarrow> obj" where
  "target_entry target =
     (let serviceEntry =
        [(''name'', IStr (t_name target)), (''namespace'', IStr (t_namespace target)),
         (''kind'', IStr ''Service''), (''port'', int_iface (t_port target))]
      in if t_scheme target = ''https'' then go_put serviceEntry ''scheme'' (IStr ''https'') else serviceEntry)"

definition convertLoadBalancerToK8sService ::
  "netlib \<Rightarrow> Config option \<Rightarrow> obj \<Rightarrow> (kubeServiceTarget \<times> obj) option" where
  "convertLoadBalancerToK8sService net cfg spec =
     (case extractLBServers spec of
        None \<Rightarrow> None
      | Some lbServers \<Rightarrow>
          let target = parseUniformServiceTargets net lbServers;
              target =
                (case (target, cfg) of
                   (None, Some c) \<Rightarrow>
                     if Namespace c \<noteq> [] then
                       (case rewriteShortNameHosts net lbServers (Namespace c) of
                          (servers', changed) \<Rightarrow>
                            if changed then parseUniformServiceTargets net servers' else None)
                     else None
                 | _ \<Rightarrow> target)
          in case target of
               None \<Rightarrow> None
             | Some t \<Rightarrow>
                 Some (t, go_del (go_put spec ''weighted''
                            (IMap [(''services'', ISlice [IMap (target_entry t)])])) ''loadBalancer''))"

definition rewriteAsGatewayService :: "obj \<Rightarrow> Config option \<Rightarrow> obj option" where
  "rewriteAsGatewayService spec cfg =
     (case cfg of
        None \<Rightarrow> None
      | Some c \<Rightarrow>
          if GatewayServiceName c = [] \<or> Namespace c = [] then None
          else
            let serviceEntry =
              [(''name'', IStr (GatewayServiceName c)), (''namespace'', IStr (Namespace c)),
               (''kind'', IStr ''Service''), (''port'', int_iface (GatewayServicePort c))]
            in Some (go_del (go_put spec ''weighted''
                       (IMap [(''services'', ISlice [IMap serviceEntry])])) ''loadBalancer''))"

definition extractServiceURLs :: "obj \<Rightarrow> string list" where
  "extractServiceURLs spec =
     (case as_map (map_get spec ''loadBalancer'') of
        None \<Rightarrow> []
      | Some lb \<Rightarrow>
          (case as_slice (map_get lb ''servers'') of
             None \<Rightarrow> []
           | Some servers \<Rightarrow>
               List.map_filter (\<lambda>s. Option.bind (as_map s) (\<lambda>m. as_str (map_get m ''url''))) servers))"

section \<open>Services\<close>

definition getTraefikEnvURL :: "Config option \<Rightarrow> string" where
  "getTraefikEnvURL cfg =
     (case cfg of
        None \<Rightarrow> []
      | Some c \<Rightarrow>
          if TraefikLBURL c \<noteq> [] then TraefikLBURL c
          else if TraefikLBIP c = [] then []
          else
            let url = TraefikLBScheme c @ ''://'' @ TraefikLBIP c in
            if TraefikLBPort c \<noteq> [] then url @ '':'' @ TraefikLBPort c else url)"

definition buildTraefikServiceSpec :: "string \<Rightarrow> raw_message" where
  "buildTraefikServiceSpec url =
     (case Marshal (IMap [(''loadBalancer'', IMap [(''servers'', ISlice [IMap [(''url'', IStr url)]])])]) of
        Inl _ \<Rightarrow> RawJSON (IMap [])
      | Inr b \<Rightarrow> b)"

definition processEmptyService :: "netlib \<Rightarrow> Config option \<Rightarrow> string \<Rightarrow> raw_message \<Rightarrow> raw_message" where
  "processEmptyService net cfg name raw =
     (let urlStr = getTraefikEnvURL cfg in
      if urlStr = [] then raw
      else case url_ParseRequestURI net urlStr of
             Inl _ \<Rightarrow> raw
           | Inr parsed \<Rightarrow>
               if Host parsed = [] \<or> (Scheme parsed \<noteq> ''http'' \<and> Scheme parsed \<noteq> ''https'') then raw
               else buildTraefikServiceSpec urlStr)"

text \<open>\<open>if b, err := json.Marshal(spec); err == nil { raw = b }\<close>.\<close>

definition marshal_or :: "raw_message \<Rightarrow> obj \<Rightarrow> raw_message" where
  "marshal_or raw spec = (case Marshal (IMap spec) of Inr b \<Rightarrow> b | Inl _ \<Rightarrow> raw)"

definition processNonEmptyService :: "netlib \<Rightarrow> Config option \<Rightarrow> string \<Rightarrow> raw_message \<Rightarrow> raw_message" where
  "processNonEmptyService net cfg name raw =
     (case unmarshal_map raw of
        Inl _ \<Rightarrow> raw
      | Inr obj \<Rightarrow>
          let spec = of_nil obj in
          (case convertLoadBalancerToK8sService net cfg spec of
             Some (target, spec') \<Rightarrow> marshal_or raw spec'
           | None \<Rightarrow>
               if isEmptyLoadBalancer spec \<and> (case cfg of None \<Rightarrow> False | Some c \<Rightarrow> GatewayServiceName c \<noteq> [])
               then (case rewriteAsGatewayService spec cfg of
                       None \<Rightarrow> raw
                     | Some spec' \<Rightarrow> marshal_or raw spec')
               else raw))"

text \<open>
  The source compares the trimmed text with the empty string and \<open>{}\<close>. The messages it gets were
  written by \<open>json.Marshal\<close>, which spells the empty object in that way only.
\<close>

definition is_empty_spec :: "raw_message \<Rightarrow> bool" where
  "is_empty_spec raw = (case raw of RawText s \<Rightarrow> TrimSpace s = [] | RawJSON v \<Rightarrow> v = IMap [])"

definition processSingleService :: "netlib \<Rightarrow> Config option \<Rightarrow> string \<Rightarrow> raw_message \<Rightarrow> raw_message" where
  "processSingleService net cfg name raw =
     (if \<not> is_empty_spec raw then processNonEmptyService net cfg name raw
      else processEmptyService net cfg name raw)"

definition ProcessServices ::
  "netlib \<Rightarrow> Config option \<Rightarrow> raw_message gomap option \<Rightarrow> raw_message gomap option" where
  "ProcessServices net cfg services =
     map_option (map (\<lambda>(name, raw). (name, processSingleService net cfg name raw))) services"

section \<open>Uniform servers\<close>

lemma target_equals_iff [simp]: "target_equals t u \<longleftrightarrow> t = u"
  by (auto simp: target_equals_def)

lemma single_entry: "length m = 1 \<Longrightarrow> map_get m k = v \<Longrightarrow> v \<noteq> INil \<Longrightarrow> m = [(k, v)]"
  by (cases m) (auto simp: map_get_def gomap_simps split: if_splits)

lemma server_target_Some:
  "server_target net srv = Some t \<longleftrightarrow>
     (\<exists>rawURL. srv = IMap [(''url'', IStr rawURL)] \<and> rawURL \<noteq> [] \<and> parseKubeServiceURL net rawURL = Inr t)"
proof
  assume "server_target net srv = Some t"
  then obtain m r where m: "as_map srv = Some m" "length m = 1" "as_str (map_get m ''url'') = Some r" "r \<noteq> []"
      "parseKubeServiceURL net r = Inr t"
    by (auto simp: server_target_def split: option.splits if_splits sum.splits)
  then have "map_get m ''url'' = IStr r" by (cases "map_get m ''url''") auto
  with m(2) have "m = [(''url'', IStr r)]" by (simp add: single_entry)
  with m show "\<exists>r. srv = IMap [(''url'', IStr r)] \<and> r \<noteq> [] \<and> parseKubeServiceURL net r = Inr t"
    by (cases srv) auto
qed (auto simp: server_target_def map_get_Cons)

lemma uniform_loop_Some:
  "uniform_loop net (Some t) servers = Some t' \<longleftrightarrow> t' = t \<and> (\<forall>srv \<in> set servers. server_target net srv = Some t)"
  by (induction servers) (auto split: option.splits)

lemma parseUniform_Some:
  "parseUniformServiceTargets net servers = Some t \<longleftrightarrow>
     servers \<noteq> [] \<and> (\<forall>srv \<in> set servers. server_target net srv = Some t)"
  by (cases servers) (auto simp: parseUniformServiceTargets_def uniform_loop_Some split: option.splits)

text \<open>
  The servers of a load balancer address one Kubernetes Service exactly when there is at least
  one, each consists of a URL only, and every URL is accepted and names the same Service, port and
  scheme.
\<close>

theorem parseUniformServiceTargets_iff:
  "parseUniformServiceTargets net servers = Some t \<longleftrightarrow>
     servers \<noteq> [] \<and> (\<forall>srv \<in> set servers. \<exists>rawURL.
        srv = IMap [(''url'', IStr rawURL)] \<and> rawURL \<noteq> [] \<and> parseKubeServiceURL net rawURL = Inr t)"
  unfolding parseUniform_Some server_target_Some ..

lemma Split_three:
  "Split h c = a # b # d # r \<Longrightarrow> h = a @ [c] @ b @ [c] @ Join (d # r) [c]"
  using Join_Split [of h c] by simp

lemma derivePort_pos: "derivePort u \<ge> 1"
  by (auto simp: derivePort_def Let_def split: option.split)

text \<open>
  An accepted URL has the scheme http or https, no path but \<open>/\<close> and no query, and a host of the
  form \<open>name.namespace.svc\<close>, possibly continued, from which the target takes its name and namespace,
  both non-empty and free of dots; its port is positive.
\<close>

theorem parseKubeServiceURL_target:
  assumes "parseKubeServiceURL net rawURL = Inr t"
  shows "\<exists>u rest. url_ParseRequestURI net rawURL = Inr u
    \<and> Hostname u = t_name t @ ''.'' @ t_namespace t @ ''.'' @ Join (''svc'' # rest) ''.''
    \<and> t_name t \<noteq> [] \<and> t_namespace t \<noteq> [] \<and> CHR ''.'' \<notin> set (t_name t) \<and> CHR ''.'' \<notin> set (t_namespace t)
    \<and> t_scheme t = Scheme u \<and> Scheme u \<in> {''http'', ''https''}
    \<and> Path u \<in> {[], ''/''} \<and> RawQuery u = [] \<and> t_port t = derivePort u \<and> 1 \<le> t_port t"
proof -
  obtain u where u: "url_ParseRequestURI net rawURL = Inr u" "validateParsedServiceURL u rawURL = None"
    using assms by (auto simp: parseKubeServiceURL_def bindE_Inr_conv split: option.splits)
  then obtain a b r where s: "Split (Hostname u) (CHR ''.'') = a # b # ''svc'' # r" "a \<noteq> []" "b \<noteq> []"
      "t = \<lparr>t_name = a, t_namespace = b, t_port = derivePort u, t_scheme = Scheme u\<rparr>"
    using assms by (auto simp: parseKubeServiceURL_def split: list.splits if_splits)
  have "CHR ''.'' \<notin> set a" "CHR ''.'' \<notin> set b"
    using Split_parts_no_sep [of _ "Hostname u" "CHR ''.''"] s(1) by auto
  moreover have "Scheme u \<in> {''http'', ''https''}" "Path u \<in> {[], ''/''}" "RawQuery u = []"
    using u(2) by (auto simp: validateParsedServiceURL_def split: if_splits)
  ultimately show ?thesis using u(1) s Split_three [OF s(1)] derivePort_pos [of u] by auto
qed

section \<open>What a service is rewritten to\<close>

definition lb_spec :: "iface list \<Rightarrow> obj" where
  "lb_spec servers = [(''loadBalancer'', IMap [(''servers'', ISlice servers)])]"

definition weighted_spec :: "obj \<Rightarrow> obj" where
  "weighted_spec entry = [(''weighted'', IMap [(''services'', ISlice [IMap entry])])]"

definition gateway_entry :: "Config \<Rightarrow> obj" where
  "gateway_entry c =
     [(''name'', IStr (GatewayServiceName c)), (''namespace'', IStr (Namespace c)),
      (''kind'', IStr ''Service''), (''port'', int_iface (GatewayServicePort c))]"

text \<open>The Service the servers address, after bare names have been qualified when need be.\<close>

definition resolves :: "netlib \<Rightarrow> Config option \<Rightarrow> iface list \<Rightarrow> kubeServiceTarget \<Rightarrow> bool" where
  "resolves net cfg servers t \<longleftrightarrow>
     parseUniformServiceTargets net servers = Some t
   \<or> (parseUniformServiceTargets net servers = None
      \<and> (\<exists>c. cfg = Some c \<and> snd (rewriteShortNameHosts net servers (Namespace c))
           \<and> parseUniformServiceTargets net (fst (rewriteShortNameHosts net servers (Namespace c))) = Some t))"

lemma extractLBServers_Some:
  assumes "json_wf (IMap spec)"
  shows "extractLBServers spec = Some servers \<longleftrightarrow> servers \<noteq> [] \<and> spec = lb_spec servers"
proof
  assume e: "extractLBServers spec = Some servers"
  then obtain lb where lb: "length spec = 1" "as_map (map_get spec ''loadBalancer'') = Some lb"
      "as_slice (map_get lb ''servers'') = Some servers" "servers \<noteq> []" "\<forall>k \<in> set (go_keys lb). k = ''servers''"
    by (auto simp: extractLBServers_def list_ex_iff split: option.splits if_splits)
  have v: "json_wf (map_get spec ''loadBalancer'')" using assms by (rule json_wf_map_get)
  with lb(2) have l: "map_get spec ''loadBalancer'' = IMap lb" by (cases "map_get spec ''loadBalancer''") auto
  with v have "wf_map lb" "json_wf (map_get lb ''servers'')" by (auto simp del: json_wf_IMap intro: json_wf_map_get) simp
  with lb(3) have s: "map_get lb ''servers'' = ISlice servers" by (cases "map_get lb ''servers''") auto
  have "length lb = 1"
    using \<open>wf_map lb\<close> lb(5) s by (cases lb; cases "tl lb") (auto simp: wf_map_def go_keys_def map_get_def)
  with s l lb(1,4) show "servers \<noteq> [] \<and> spec = lb_spec servers"
    by (metis iface.distinct lb_spec_def single_entry)
qed (auto simp: extractLBServers_def lb_spec_def map_get_Cons go_keys_def)

lemma lb_spec_weighted:
  "go_del (go_put (lb_spec servers) ''weighted'' (IMap [(''services'', ISlice [IMap e])])) ''loadBalancer'' = weighted_spec e"
  by (simp add: lb_spec_def weighted_spec_def go_put_def go_del_def)

lemma extractLBServers_lb: "servers \<noteq> [] \<Longrightarrow> extractLBServers (lb_spec servers) = Some servers"
  by (simp add: extractLBServers_def lb_spec_def map_get_Cons go_keys_def)

lemma convert_lb:
  assumes "servers \<noteq> []"
  shows "convertLoadBalancerToK8sService net cfg (lb_spec servers) = Some (t, spec') \<longleftrightarrow>
     resolves net cfg servers t \<and> spec' = weighted_spec (target_entry t)"
proof (cases "parseUniformServiceTargets net servers")
  case (Some t')
  then show ?thesis
    unfolding convertLoadBalancerToK8sService_def extractLBServers_lb [OF assms] resolves_def lb_spec_weighted
    by (cases cfg) auto
next
  case None
  show ?thesis
  proof (cases cfg)
    case (Some c)
    obtain s' ch where r: "rewriteShortNameHosts net servers (Namespace c) = (s', ch)" by fastforce
    have "ch \<Longrightarrow> Namespace c \<noteq> []" using r by (auto simp: rewriteShortNameHosts_def)
    with None Some r show ?thesis
      unfolding convertLoadBalancerToK8sService_def extractLBServers_lb [OF assms] resolves_def lb_spec_weighted
      by (cases "parseUniformServiceTargets net s'") auto
  qed (simp add: None convertLoadBalancerToK8sService_def extractLBServers_lb [OF assms] resolves_def)
qed

lemma convert_Some:
  assumes "json_wf (IMap spec)" and "convertLoadBalancerToK8sService net cfg spec = Some (t, spec')"
  shows "\<exists>servers. spec = lb_spec servers \<and> servers \<noteq> [] \<and> resolves net cfg servers t
    \<and> spec' = weighted_spec (target_entry t)"
proof -
  obtain servers where "extractLBServers spec = Some servers"
    using assms(2) by (auto simp: convertLoadBalancerToK8sService_def split: option.splits)
  with assms convert_lb show ?thesis by (auto simp: extractLBServers_Some [OF assms(1)])
qed

lemma isEmptyLoadBalancer_iff:
  "json_wf (IMap spec) \<Longrightarrow> isEmptyLoadBalancer spec \<longleftrightarrow> spec = lb_spec []"
proof
  assume wf: "json_wf (IMap spec)" and "isEmptyLoadBalancer spec"
  then obtain lb where lb: "length spec = 1" "as_map (map_get spec ''loadBalancer'') = Some lb" "length lb = 1"
      "as_slice (map_get lb ''servers'') = Some []"
    by (auto simp: isEmptyLoadBalancer_def split: option.splits)
  have v: "json_wf (map_get spec ''loadBalancer'')" using wf by (rule json_wf_map_get)
  with lb(2) have l: "map_get spec ''loadBalancer'' = IMap lb" by (cases "map_get spec ''loadBalancer''") auto
  with v have "json_wf (map_get lb ''servers'')" by (auto simp del: json_wf_IMap intro: json_wf_map_get)
  with lb(4) have "map_get lb ''servers'' = ISlice []" by (cases "map_get lb ''servers''") auto
  with l lb(1,3) show "spec = lb_spec []" by (metis iface.distinct lb_spec_def single_entry)
qed (simp add: isEmptyLoadBalancer_def lb_spec_def map_get_Cons)

lemma weighted_marshalable [simp]:
  "marshalable (IMap (weighted_spec (target_entry t)))" "marshalable (IMap (weighted_spec (gateway_entry c)))"
  by (auto simp: weighted_spec_def target_entry_def gateway_entry_def int_iface_def go_put_def Let_def)

lemma marshal_or_weighted [simp]:
  "marshal_or raw (weighted_spec (target_entry t)) = RawJSON (json_norm (IMap (weighted_spec (target_entry t))))"
  "marshal_or raw (weighted_spec (gateway_entry c)) = RawJSON (json_norm (IMap (weighted_spec (gateway_entry c))))"
  unfolding marshal_or_def Marshal_def by (simp_all only: weighted_marshalable if_True sum.case)

text \<open>
  A service that \<open>processSingleService\<close> changes is one of three: a load balancer whose servers
  address one Kubernetes Service, which becomes a weighted service with that Service; an empty load
  balancer, which becomes the gateway Service of the settings; an empty specification, which gets the
  address of the settings as its server. Every other service is passed on as it is.
\<close>

theorem processSingleService_changes:
  assumes "raw_wf raw" and "processSingleService net cfg name raw = out" and "out \<noteq> raw"
  shows "(\<exists>servers t. raw = RawJSON (IMap (lb_spec servers)) \<and> servers \<noteq> [] \<and> resolves net cfg servers t
           \<and> out = RawJSON (json_norm (IMap (weighted_spec (target_entry t)))))
       \<or> (\<exists>c. cfg = Some c \<and> GatewayServiceName c \<noteq> [] \<and> Namespace c \<noteq> [] \<and> raw = RawJSON (IMap (lb_spec []))
           \<and> out = RawJSON (json_norm (IMap (weighted_spec (gateway_entry c)))))
       \<or> (is_empty_spec raw \<and> getTraefikEnvURL cfg \<noteq> []
           \<and> out = RawJSON (IMap (lb_spec [IMap [(''url'', IStr (getTraefikEnvURL cfg))]])))"
proof (cases "is_empty_spec raw")
  case True
  with assms(2,3) show ?thesis
    by (auto simp: processSingleService_def processEmptyService_def buildTraefikServiceSpec_def Marshal_def
        lb_spec_def norm_map_def Let_def split: sum.splits if_splits)
next
  case False
  with assms(2,3) obtain o' where o: "unmarshal_map raw = Inr o'"
    by (auto simp: processSingleService_def processNonEmptyService_def split: sum.splits)
  define spec where "spec = of_nil o'"
  have n: "processNonEmptyService net cfg name raw = out" using assms(2) False by (simp add: processSingleService_def)
  from unmarshal_map_Inr [OF o] show ?thesis
  proof
    assume "raw = RawJSON INil \<and> o' = None"
    with n assms(3) show ?thesis
      by (simp add: processNonEmptyService_def of_nil_def convertLoadBalancerToK8sService_def extractLBServers_def
          isEmptyLoadBalancer_def)
  next
    assume "\<exists>m. raw = RawJSON (IMap m) \<and> o' = Some m"
    then have r: "raw = RawJSON (IMap spec)" "of_nil o' = spec" by (auto simp: spec_def of_nil_def)
    then have wf: "json_wf (IMap spec)" using assms(1) by simp
    show ?thesis
    proof (cases "convertLoadBalancerToK8sService net cfg spec")
      case (Some p)
      then obtain t spec' where p: "convertLoadBalancerToK8sService net cfg spec = Some (t, spec')" by (cases p) auto
      then obtain servers where "spec = lb_spec servers" "servers \<noteq> []" "resolves net cfg servers t"
          "spec' = weighted_spec (target_entry t)"
        using convert_Some [OF wf p] by blast
      moreover have "out = marshal_or raw spec'" using n o r p by (simp add: processNonEmptyService_def)
      ultimately show ?thesis using r(1) by (intro disjI1 exI conjI) simp_all
    next
      case None
      with n o r assms(3) have e: "isEmptyLoadBalancer spec" and g: "rewriteAsGatewayService spec cfg \<noteq> None"
        and m: "out = marshal_or raw (the (rewriteAsGatewayService spec cfg))"
        by (auto simp: processNonEmptyService_def split: if_splits option.splits)
      then obtain c where c: "cfg = Some c" "GatewayServiceName c \<noteq> []" "Namespace c \<noteq> []"
          "rewriteAsGatewayService spec cfg = Some (weighted_spec (gateway_entry c))" "spec = lb_spec []"
        using isEmptyLoadBalancer_iff [OF wf]
        by (auto simp: rewriteAsGatewayService_def weighted_spec_def gateway_entry_def lb_spec_def go_put_def go_del_def Let_def
            split: option.splits if_splits)
      with m r(1) show ?thesis by (intro disjI2 disjI1 exI conjI) simp_all
    qed
  qed
qed

lemma process_lb_spec:
  assumes "servers \<noteq> []" and "resolves net cfg servers t"
  shows "processSingleService net cfg name (RawJSON (IMap (lb_spec servers))) =
    RawJSON (json_norm (IMap (weighted_spec (target_entry t))))"
proof -
  have "convertLoadBalancerToK8sService net cfg (lb_spec servers) = Some (t, weighted_spec (target_entry t))"
    using convert_lb [OF assms(1)] assms(2) by blast
  moreover have "\<not> is_empty_spec (RawJSON (IMap (lb_spec servers)))" by (simp add: is_empty_spec_def lb_spec_def)
  ultimately show ?thesis
    by (simp add: processSingleService_def processNonEmptyService_def of_nil_def del: json_norm_IMap)
qed

section \<open>Addresses of a Service\<close>

text \<open>
  What the addresses of a Service look like, told from the fields of the parsed URL alone. The port is written in
  the address, or is the one of the scheme.
\<close>

definition port_of :: "URL \<Rightarrow> int \<Rightarrow> bool" where
  "port_of u port \<longleftrightarrow>
     Port u = [] \<and> port = (if Scheme u = ''https'' then 443 else 80) \<or> Port u = itoa port \<and> 0 < port \<and> port < 2 ^ 63"

text \<open>\<open>scheme://name.namespace.svc\<close>, possibly with the domain of the cluster, and no path or query.\<close>

definition qualified_url :: "URL \<Rightarrow> string \<Rightarrow> string \<Rightarrow> string \<Rightarrow> int \<Rightarrow> bool" where
  "qualified_url u scheme name ns port \<longleftrightarrow>
     Scheme u = scheme \<and> port_of u port \<and> Path u \<in> {[], ''/''} \<and> RawQuery u = []
   \<and> (\<exists>domain. Hostname u = name @ ''.'' @ ns @ ''.svc'' @ domain \<and> (domain = [] \<or> hd domain = CHR ''.''))"

text \<open>
  \<open>scheme://name\<close>, for a Service in the namespace of the controller. The path is not looked at. The address that
  is put in its place, \<open>scheme://name.namespace.svc\<close> and the same port, is expected to be parsed into these parts.
\<close>

definition bare_url :: "netlib \<Rightarrow> Config option \<Rightarrow> URL \<Rightarrow> string \<Rightarrow> string \<Rightarrow> string \<Rightarrow> int \<Rightarrow> bool" where
  "bare_url net cfg u scheme name ns port \<longleftrightarrow>
     Scheme u = scheme \<and> port_of u port \<and> Hostname u = name \<and> (\<exists>c. cfg = Some c \<and> Namespace c = ns)
   \<and> (\<exists>v. url_ParseRequestURI net (scheme @ ''://'' @ name @ ''.'' @ ns @ ''.svc'' @ (if Port u = [] then [] else '':'' @ Port u)) = Inr v
        \<and> Scheme v = scheme \<and> Hostname v = name @ ''.'' @ ns @ ''.svc'' \<and> Port v = Port u \<and> Path v = [] \<and> RawQuery v = [])"

definition service_url :: "netlib \<Rightarrow> Config option \<Rightarrow> string \<Rightarrow> string \<Rightarrow> string \<Rightarrow> int \<Rightarrow> string \<Rightarrow> bool" where
  "service_url net cfg scheme name ns port r \<longleftrightarrow>
     r \<noteq> [] \<and> (\<exists>u. url_ParseRequestURI net r = Inr u
       \<and> (qualified_url u scheme name ns port \<or> bare_url net cfg u scheme name ns port))"

lemma derivePort_eq: "port_of u port \<Longrightarrow> derivePort u = port"
  using dec_digits_all [of "nat port"] ParseInt_itoa [of 64 port]
  by (auto simp: port_of_def derivePort_def Atoi_def itoa_def Let_def split: option.split)

lemma Split_domain:
  assumes "domain = [] \<or> hd domain = CHR ''.''"
  shows "\<exists>rest. Split (''svc'' @ domain) (CHR ''.'') = ''svc'' # rest"
proof (cases domain)
  case (Cons x t)
  with assms Split_append_sep [of "CHR ''.''" "''svc''" t] show ?thesis by simp
qed simp

lemma qualified_parse:
  assumes "url_ParseRequestURI net r = Inr u" and "qualified_url u scheme name ns port"
    and "name \<noteq> []" "CHR ''.'' \<notin> set name" "ns \<noteq> []" "CHR ''.'' \<notin> set ns" "scheme \<in> {''http'', ''https''}"
  shows "parseKubeServiceURL net r = Inr \<lparr>t_name = name, t_namespace = ns, t_port = port, t_scheme = scheme\<rparr>"
proof -
  from assms(2) obtain domain where u: "Scheme u = scheme" "port_of u port" "Path u \<in> {[], ''/''}" "RawQuery u = []"
      "Hostname u = name @ ''.'' @ ns @ ''.svc'' @ domain" "domain = [] \<or> hd domain = CHR ''.''"
    by (auto simp: qualified_url_def)
  obtain rest where "Split (''svc'' @ domain) (CHR ''.'') = ''svc'' # rest" using Split_domain [OF u(6)] by blast
  then have sp: "Split (Hostname u) (CHR ''.'') = name # ns # ''svc'' # rest"
    using Split_append_sep [OF assms(4), of "ns @ ''.svc'' @ domain"] Split_append_sep [OF assms(6), of "''svc'' @ domain"]
    by (simp add: u(5))
  have "Contains (Hostname u) ''.svc.'' \<or> HasSuffix (Hostname u) ''.svc''"
  proof (cases domain)
    case Nil
    then have "Hostname u = (name @ ''.'' @ ns) @ ''.svc''" by (simp add: u(5))
    then show ?thesis unfolding HasSuffix_def by (metis suffixI)
  next
    case (Cons x t)
    with u(5,6) have "Hostname u = (name @ ''.'' @ ns) @ ''.svc.'' @ t" by simp
    then show ?thesis unfolding Contains_def by (metis sublist_appendI)
  qed
  then have "validateParsedServiceURL u r = None"
    using u assms(3,7) by (auto simp: validateParsedServiceURL_def Let_def)
  with assms(1,3,5,7) sp u(1) derivePort_eq [OF u(2)] show ?thesis
    by (simp add: parseKubeServiceURL_def)
qed

lemma bare_not_parsed:
  assumes "url_ParseRequestURI net r = Inr u" and "CHR ''.'' \<notin> set (Hostname u)"
  shows "\<exists>e. parseKubeServiceURL net r = Inl e"
proof -
  have "\<not> Contains (Hostname u) ''.svc.''" "\<not> HasSuffix (Hostname u) ''.svc''"
    using assms(2) set_mono_sublist [of "''.svc.''" "Hostname u"] set_mono_suffix [of "''.svc''" "Hostname u"]
    by (auto simp: Contains_def HasSuffix_def)
  then obtain e where "validateParsedServiceURL u r = Some e"
    by (fastforce simp: validateParsedServiceURL_def Let_def)
  with assms(1) show ?thesis by (simp add: parseKubeServiceURL_def)
qed

text \<open>Qualifying the bare names among the addresses of one Service gives addresses of that Service.\<close>

abbreviation url_servers :: "string list \<Rightarrow> iface list" where
  "url_servers urls \<equiv> map (\<lambda>r. IMap [(''url'', IStr r)]) urls"

lemma rewrite_service_urls:
  assumes "\<forall>r \<in> set urls. service_url net cfg scheme name ns port r"
    and "name \<noteq> []" "CHR ''.'' \<notin> set name" "ns \<noteq> []" "CHR ''.'' \<notin> set ns" "scheme \<in> {''http'', ''https''}"
  defines "t \<equiv> \<lparr>t_name = name, t_namespace = ns, t_port = port, t_scheme = scheme\<rparr>"
  shows "\<exists>urls'. rewrite_loop net ns (url_servers urls) changed =
      (url_servers urls', changed \<or> (\<exists>r \<in> set urls. parseKubeServiceURL net r \<noteq> Inr t))
    \<and> length urls' = length urls \<and> (\<forall>r \<in> set urls'. server_target net (IMap [(''url'', IStr r)]) = Some t)"
  using assms(1)
proof (induction urls arbitrary: changed)
  case (Cons r urls)
  note q = qualified_parse [OF _ _ assms(2-6), where port = port, folded t_def]
  from Cons.prems obtain u where u: "r \<noteq> []" "url_ParseRequestURI net r = Inr u"
      "qualified_url u scheme name ns port \<or> bare_url net cfg u scheme name ns port"
    by (auto simp: service_url_def)
  from u(3) show ?case
  proof
    assume b: "qualified_url u scheme name ns port"
    then have "Contains (Hostname u) ''.''" unfolding qualified_url_def Contains_def
      by (metis append_assoc sublist_appendI)
    moreover have "server_target net (IMap [(''url'', IStr r)]) = Some t"
      using q [OF u(2) b] u(1) by (simp add: server_target_Some)
    moreover obtain urls' where "rewrite_loop net ns (url_servers urls) changed =
          (url_servers urls', changed \<or> (\<exists>r \<in> set urls. parseKubeServiceURL net r \<noteq> Inr t))" "length urls' = length urls"
        "\<forall>r \<in> set urls'. server_target net (IMap [(''url'', IStr r)]) = Some t"
      using Cons.IH [of changed] Cons.prems by auto
    ultimately show ?thesis using u(1,2) q [OF u(2) b]
      by (intro exI [of _ "r # urls'"]) (simp add: map_get_Cons)
  next
    assume b: "bare_url net cfg u scheme name ns port"
    define r' where "r' = scheme @ ''://'' @ name @ ''.'' @ ns @ ''.svc'' @ (if Port u = [] then [] else '':'' @ Port u)"
    from b obtain v where v: "url_ParseRequestURI net r' = Inr v" "Scheme v = scheme" "Hostname v = name @ ''.'' @ ns @ ''.svc''"
        "Port v = Port u" "Path v = []" "RawQuery v = []" "Scheme u = scheme" "port_of u port" "Hostname u = name"
      unfolding bare_url_def r'_def by blast
    have "qualified_url v scheme name ns port" using v by (simp add: qualified_url_def port_of_def)
    then have t: "server_target net (IMap [(''url'', IStr r')]) = Some t"
      using q [OF v(1)] by (simp add: server_target_Some r'_def)
    have "\<not> Contains (Hostname u) ''.''" using assms(3) v(9) set_mono_sublist [of "''.''" name] by (auto simp: Contains_def)
    then have "rewrite_loop net ns (url_servers (r # urls)) changed =
        (case rewrite_loop net ns (url_servers urls) True of (l, c) \<Rightarrow> (IMap [(''url'', IStr r')] # l, c))"
      using u(1,2) assms(2) v(7,9) by (simp add: map_get_Cons go_put_def Let_def r'_def)
    moreover have "parseKubeServiceURL net r \<noteq> Inr t" using bare_not_parsed [OF u(2)] assms(3) v(9) by auto
    moreover obtain urls' where "rewrite_loop net ns (url_servers urls) True = (url_servers urls', True)"
        "length urls' = length urls" "\<forall>r \<in> set urls'. server_target net (IMap [(''url'', IStr r)]) = Some t"
      using Cons.IH [of True] Cons.prems by auto
    ultimately show ?thesis using t by (intro exI [of _ "r' # urls'"]) simp
  qed
qed simp

lemma service_urls_resolve:
  assumes "\<forall>r \<in> set urls. service_url net cfg scheme name ns port r" and "urls \<noteq> []"
    and "name \<noteq> []" "CHR ''.'' \<notin> set name" "ns \<noteq> []" "CHR ''.'' \<notin> set ns" "scheme \<in> {''http'', ''https''}"
  shows "resolves net cfg (url_servers urls) \<lparr>t_name = name, t_namespace = ns, t_port = port, t_scheme = scheme\<rparr>"
    (is "resolves _ _ _ ?t")
proof (cases "\<forall>r \<in> set urls. parseKubeServiceURL net r = Inr ?t")
  case True
  with assms(1,2) show ?thesis by (auto simp: resolves_def parseUniform_Some server_target_Some service_url_def)
next
  case False
  then obtain r where r: "r \<in> set urls" "parseKubeServiceURL net r \<noteq> Inr ?t" by blast
  with assms(1) obtain u where u: "url_ParseRequestURI net r = Inr u" "bare_url net cfg u scheme name ns port"
    using qualified_parse [OF _ _ assms(3-7)] by (auto simp: service_url_def)
  then have b: "\<exists>e. parseKubeServiceURL net r = Inl e" "\<exists>c. cfg = Some c \<and> Namespace c = ns"
    using bare_not_parsed [OF u(1)] assms(4) by (auto simp: bare_url_def)
  have "parseUniformServiceTargets net (url_servers urls) \<noteq> Some x" for x
    using r(1) b(1) by (fastforce simp: parseUniform_Some server_target_Some)
  moreover obtain urls' where "rewriteShortNameHosts net (url_servers urls) ns = (url_servers urls', True)"
      "length urls' = length urls" "\<forall>r \<in> set urls'. server_target net (IMap [(''url'', IStr r)]) = Some ?t"
    using rewrite_service_urls [OF assms(1,3-7), of False] False assms(5) by (auto simp: rewriteShortNameHosts_def)
  ultimately show ?thesis using b(2) assms(2)
    by (auto simp: resolves_def parseUniform_Some not_Some_eq [symmetric])
qed

text \<open>
  C36. A load balancer whose servers all address one Kubernetes Service is replaced by a weighted service with
  that Service: its name, its namespace, its port and, when it is used with https, its scheme. An address is
  \<open>http\<close> or \<open>https\<close> with a host \<open>name.namespace.svc\<close>, with or without the domain of the cluster, and no path
  or query, or the bare name of a Service in the namespace of the controller; both forms may be mixed. The port is
  the one in the address or that of the scheme.
\<close>

theorem processSingleService_converts:
  assumes "urls \<noteq> []" and "\<forall>r \<in> set urls. service_url net cfg scheme name ns port r"
    and "name \<noteq> []" and "CHR ''.'' \<notin> set name" and "ns \<noteq> []" and "CHR ''.'' \<notin> set ns"
    and "scheme \<in> {''http'', ''https''}"
  shows "processSingleService net cfg svc
      (RawJSON (IMap [(''loadBalancer'', IMap [(''servers'', ISlice [IMap [(''url'', IStr r)]. r \<leftarrow> urls])])])) =
    RawJSON (json_norm (IMap [(''weighted'', IMap [(''services'', ISlice [IMap
      ([(''name'', IStr name), (''namespace'', IStr ns), (''kind'', IStr ''Service''), (''port'', IInt (word_of_int port))]
       @ (if scheme = ''https'' then [(''scheme'', IStr ''https'')] else []))])])]))"
proof -
  let ?t = "\<lparr>t_name = name, t_namespace = ns, t_port = port, t_scheme = scheme\<rparr>"
  have "target_entry ?t = [(''name'', IStr name), (''namespace'', IStr ns), (''kind'', IStr ''Service''), (''port'', IInt (word_of_int port))]
      @ (if scheme = ''https'' then [(''scheme'', IStr ''https'')] else [])"
    by (simp add: target_entry_def int_iface_def go_put_def)
  with process_lb_spec [OF _ service_urls_resolve [OF assms(2,1,3-7)], of svc] assms(1) show ?thesis
    by (simp add: lb_spec_def weighted_spec_def del: json_norm_IMap)
qed

text \<open>
  The path of a server with a bare Service name is lost: two addresses that differ only in
  path and query, of a host without a dot, are converted alike, although a qualified host with a
  path is not converted at all.
\<close>

theorem convert_short_name_ignores_path:
  assumes "url_ParseRequestURI net r = Inr u" and "url_ParseRequestURI net r' = Inr (u\<lparr>Path := p, RawQuery := q\<rparr>)"
    and "r \<noteq> []" and "r' \<noteq> []" and "Hostname u \<noteq> []" and "\<not> Contains (Hostname u) ''.''"
  shows "convertLoadBalancerToK8sService net cfg (lb_spec [IMap [(''url'', IStr r)]]) =
    convertLoadBalancerToK8sService net cfg (lb_spec [IMap [(''url'', IStr r')]])"
proof -
  have dots: "\<not> Contains (Hostname u) ''.svc.''" "\<not> HasSuffix (Hostname u) ''.svc''"
  proof -
    have "sublist ''.'' (''.svc.'')" "sublist ''.'' (''.svc'')" by (auto simp: sublist_Cons_right)
    with assms(6) show "\<not> Contains (Hostname u) ''.svc.''" "\<not> HasSuffix (Hostname u) ''.svc''"
      unfolding Contains_def HasSuffix_def
      by (meson sublist_order.order_trans suffix_imp_sublist)+
  qed
  have h: "Hostname (u\<lparr>Path := p, RawQuery := q\<rparr>) = Hostname u" "Port (u\<lparr>Path := p, RawQuery := q\<rparr>) = Port u"
    by (simp_all add: Hostname_def Port_def)
  have "\<exists>e. parseKubeServiceURL net x = Inl e"
    if p: "url_ParseRequestURI net x = Inr v" and host: "Hostname v = Hostname u" for v x
  proof -
    obtain e where "validateParsedServiceURL v x = Some e"
      using dots host by (fastforce simp: validateParsedServiceURL_def Let_def)
    with p show ?thesis by (simp add: parseKubeServiceURL_def)
  qed
  from this [OF assms(1) refl] this [OF assms(2) h(1)]
  have none: "parseUniformServiceTargets net [IMap [(''url'', IStr x)]] = None" if "x = r \<or> x = r'" for x
    using that by (auto simp: parseUniformServiceTargets_def server_target_def map_get_Cons)
  have "rewriteShortNameHosts net [IMap [(''url'', IStr r)]] ns = rewriteShortNameHosts net [IMap [(''url'', IStr r')]] ns"
    if "ns \<noteq> []" for ns
    using that assms h by (simp add: rewriteShortNameHosts_def map_get_Cons Let_def go_put_def)
  with none [of r] none [of r'] show ?thesis
    unfolding convertLoadBalancerToK8sService_def extractLBServers_lb [OF list.distinct(2)] lb_spec_weighted
    by (cases cfg) (auto simp: Let_def)
qed

text \<open>
  Processing keeps the names of the services, so nothing is lost between the configuration and
  the garbage collection that compares names.
\<close>

theorem ProcessServices_keys:
  "map_option go_keys (ProcessServices net cfg services) = map_option go_keys services
   \<and> (\<forall>name. go_get (of_nil (ProcessServices net cfg services)) name =
        map_option (processSingleService net cfg name) (go_get (of_nil services) name))"
  by (cases services) (auto simp: ProcessServices_def go_keys_def of_nil_def go_get_map_values)

section \<open>Examples\<close>

definition example_urls :: netlib where
  "example_urls =
     \<lparr>url_Parse = (\<lambda>s. Inl (ErrMsg s)),
      url_ParseRequestURI = (\<lambda>s.
        if s = ''http://web.prod.svc:8080''
        then Inr \<lparr>Scheme = ''http'', Host = ''web.prod.svc:8080'', Path = [], RawQuery = []\<rparr>
        else if s = ''http://app:80/x'' then Inr \<lparr>Scheme = ''http'', Host = ''app:80'', Path = ''/x'', RawQuery = []\<rparr>
        else if s = ''http://app:80'' then Inr \<lparr>Scheme = ''http'', Host = ''app:80'', Path = [], RawQuery = []\<rparr>
        else Inl (ErrMsg s)),
      ParseIP = (\<lambda>s. None)\<rparr>"

definition example_target :: kubeServiceTarget where
  "example_target = \<lparr>t_name = ''web'', t_namespace = ''prod'', t_port = 8080, t_scheme = ''http''\<rparr>"

lemma example_parse: "parseKubeServiceURL example_urls ''http://web.prod.svc:8080'' = Inr example_target"
  by code_simp

lemma example_resolves: "resolves example_urls None [IMap [(''url'', IStr ''http://web.prod.svc:8080'')]] example_target"
  by (simp add: resolves_def parseUniform_Some server_target_Some example_parse)

theorem parseUniformServiceTargets_iff_witness:
  "parseUniformServiceTargets example_urls [IMap [(''url'', IStr ''http://web.prod.svc:8080'')]] = Some example_target"
  using parseUniformServiceTargets_iff [of example_urls "[IMap [(''url'', IStr ''http://web.prod.svc:8080'')]]" example_target]
    example_parse by simp

theorem parseKubeServiceURL_target_witness:
  "t_port example_target = 8080
   \<and> (\<exists>u. url_ParseRequestURI example_urls ''http://web.prod.svc:8080'' = Inr u \<and> t_port example_target = derivePort u)"
  using parseKubeServiceURL_target [OF example_parse] by (auto simp: example_target_def)

text \<open>A bare name and a qualified one for the same Service.\<close>

definition mixed_urls :: netlib where
  "mixed_urls = example_urls\<lparr>url_ParseRequestURI := \<lambda>s.
     if s = ''http://web:8080'' then Inr \<lparr>Scheme = ''http'', Host = ''web:8080'', Path = [], RawQuery = []\<rparr>
     else url_ParseRequestURI example_urls s\<rparr>"

definition prod_cfg :: Config where
  "prod_cfg = (newDefaults example_host)\<lparr>Namespace := ''prod''\<rparr>"

lemma mixed_service_urls:
  "service_url mixed_urls (Some prod_cfg) ''http'' ''web'' ''prod'' 8080 ''http://web:8080''"
  "service_url mixed_urls (Some prod_cfg) ''http'' ''web'' ''prod'' 8080 ''http://web.prod.svc:8080''"
proof -
  let ?u = "\<lparr>Scheme = ''http'', Host = ''web:8080'', Path = [], RawQuery = []\<rparr>"
    and ?v = "\<lparr>Scheme = ''http'', Host = ''web.prod.svc:8080'', Path = [], RawQuery = []\<rparr>"
  have p: "url_ParseRequestURI mixed_urls ''http://web:8080'' = Inr ?u" "url_ParseRequestURI mixed_urls ''http://web.prod.svc:8080'' = Inr ?v"
    by (simp_all add: mixed_urls_def example_urls_def)
  have "digit_char 8 = CHR ''8''" "digit_char 0 = CHR ''0''" by code_simp+
  then have i: "itoa 8080 = ''8080''" by (simp add: itoa_def dec_digits.simps)
  have h: "Hostname ?u = ''web''" "Port ?u = ''8080''" "Hostname ?v = ''web.prod.svc''" "Port ?v = ''8080''"
    by code_simp+
  have "port_of ?u 8080" "port_of ?v 8080" by (simp_all add: port_of_def h i)
  moreover have "''http'' @ ''://'' @ ''web'' @ ''.'' @ ''prod'' @ ''.svc'' @ '':8080'' = ''http://web.prod.svc:8080''" by simp
  ultimately have "bare_url mixed_urls (Some prod_cfg) ?u ''http'' ''web'' ''prod'' 8080"
      "qualified_url ?v ''http'' ''web'' ''prod'' 8080"
    unfolding bare_url_def qualified_url_def using h p(2) by (auto simp: prod_cfg_def)
  with p show "service_url mixed_urls (Some prod_cfg) ''http'' ''web'' ''prod'' 8080 ''http://web:8080''"
      "service_url mixed_urls (Some prod_cfg) ''http'' ''web'' ''prod'' 8080 ''http://web.prod.svc:8080''"
    unfolding service_url_def by blast+
qed

theorem processSingleService_converts_witness:
  "processSingleService mixed_urls (Some prod_cfg) ''s'' (RawJSON (IMap [(''loadBalancer'', IMap [(''servers'',
     ISlice [IMap [(''url'', IStr ''http://web:8080'')], IMap [(''url'', IStr ''http://web.prod.svc:8080'')]])])])) =
   RawJSON (json_norm (IMap [(''weighted'', IMap [(''services'', ISlice [IMap
     [(''name'', IStr ''web''), (''namespace'', IStr ''prod''), (''kind'', IStr ''Service''), (''port'', IInt 8080)]])])]))"
  using processSingleService_converts [of "[''http://web:8080'', ''http://web.prod.svc:8080'']" mixed_urls "Some prod_cfg"
      "''http''" "''web''" "''prod''" 8080 "''s''"] mixed_service_urls
  by (simp del: json_norm_IMap)

theorem processSingleService_changes_witness:
  "\<exists>servers t. RawJSON (IMap (lb_spec [IMap [(''url'', IStr ''http://web.prod.svc:8080'')]])) = RawJSON (IMap (lb_spec servers))
     \<and> resolves example_urls None servers t"
proof -
  let ?raw = "RawJSON (IMap (lb_spec [IMap [(''url'', IStr ''http://web.prod.svc:8080'')]]))"
  have out: "processSingleService example_urls None ''s'' ?raw =
      RawJSON (json_norm (IMap (weighted_spec (target_entry example_target))))"
    by (rule process_lb_spec [OF _ example_resolves]) simp
  have "raw_wf ?raw" "RawJSON (json_norm (IMap (weighted_spec (target_entry example_target)))) \<noteq> ?raw"
    "\<not> is_empty_spec ?raw"
    by (simp_all add: lb_spec_def wf_map_def weighted_spec_def norm_map_def is_empty_spec_def)
  with processSingleService_changes [OF _ out] show ?thesis by blast
qed

theorem convert_short_name_ignores_path_witness:
  "\<forall>cfg. convertLoadBalancerToK8sService example_urls cfg (lb_spec [IMap [(''url'', IStr ''http://app:80'')]]) =
   convertLoadBalancerToK8sService example_urls cfg (lb_spec [IMap [(''url'', IStr ''http://app:80/x'')]])"
proof (rule allI, rule convert_short_name_ignores_path)
  let ?u = "\<lparr>Scheme = ''http'', Host = ''app:80'', Path = [], RawQuery = []\<rparr>"
  show "url_ParseRequestURI example_urls ''http://app:80'' = Inr ?u" by (simp add: example_urls_def)
  show "url_ParseRequestURI example_urls ''http://app:80/x'' = Inr (?u\<lparr>Path := ''/x'', RawQuery := []\<rparr>)"
    by (simp add: example_urls_def)
  show "Hostname ?u \<noteq> []" by code_simp
  have "Hostname ?u = ''app''" by code_simp
  then show "\<not> Contains (Hostname ?u) ''.''" by (simp add: Contains_def sublist_Cons_right)
qed simp_all

end
