(* ===== verification/Reconcile.thy ===== *)
theory Reconcile
  imports Apply HttpConversion TcpUdp
begin

text \<open>
  Reconciliation (\<^verbatim>\<open>internal/controller/apply.go\<close>): bring the objects of the cluster to what a
  sanitised configuration asks for, section by section: apply every desired object, then delete the
  managed objects that are no longer desired, at once or after a grace period through a queue.

  The state is the outside world, the queue of delayed deletions (nil before it is made) and the
  requests a worker has taken from it. A Go map is visited in the order of its list.
  \<open>applyConfigParallel\<close>, which runs the same six phases as goroutines, may end in many ways; what it did
  is an argument of \<open>applyConfig\<close>, and \<open>Parallel\<close> says which ends are possible.

  Shown: garbage collection deletes exactly the objects that carry the managed label and annotation
  and are not desired; after a section is reconciled its managed objects are the desired ones, but
  for those that wait for the end of a grace period; routers are applied only when all of them are
  valid; a sequential run in read-only mode changes nothing.
\<close>

section \<open>State\<close>

record graceDeleteReq =
  gd_kind :: string
  gd_name :: string
  gd_delay :: int

record 'w kst =
  kube :: 'w
  graceDelQueue :: "graceDeleteReq list option"
  inflight :: "graceDeleteReq list"

definition k_io :: "('w, 'a) io \<Rightarrow> ('w kst, 'a) io" where
  "k_io m s = (case m (kube s) of (r, w') \<Rightarrow> (r, s\<lparr>kube := w'\<rparr>))"

definition k_client :: "'w ResourceClient \<Rightarrow> 'w kst ResourceClient" where
  "k_client cl =
     \<lparr>api_Get = (\<lambda>n. k_io (api_Get cl n)), api_Create = (\<lambda>u opts. k_io (api_Create cl u opts)),
      api_Patch = (\<lambda>n d opts. k_io (api_Patch cl n d opts)),
      api_Delete = (\<lambda>n. k_io (api_Delete cl n)), api_List = (\<lambda>s. k_io (api_List cl s))\<rparr>"

definition k_typed :: "('w, 'o) TypedClient \<Rightarrow> ('w kst, 'o) TypedClient" where
  "k_typed cl =
     \<lparr>typed_Get = (\<lambda>n. k_io (typed_Get cl n)), typed_Create = (\<lambda>u. k_io (typed_Create cl u)),
      typed_Update = (\<lambda>u. k_io (typed_Update cl u)),
      typed_Delete = (\<lambda>n. k_io (typed_Delete cl n)), typed_List = (\<lambda>s. k_io (typed_List cl s))\<rparr>"

definition k_outside :: "'w outside \<Rightarrow> 'w kst outside" where
  "k_outside env =
     \<lparr>UnmarshalJSON = UnmarshalJSON env,
      wait = (\<lambda>d s. case wait env d (kube s) of (b, w') \<Rightarrow> (b, s\<lparr>kube := w'\<rparr>))\<rparr>"

text \<open>
  The fields of \<open>Controller\<close> that reconciliation uses. \<open>c_slot\<close> and \<open>c_done\<close> stand for the scheduler and
  the context: whether a worker takes a request from a full queue within the 250 milliseconds an
  enqueue waits, and whether the \<open>select\<close> of an enqueue finds its context cancelled. \<open>gcSem\<close> is the
  capacity of the semaphore of the workers. The HTTP client is a parameter of the polling loop;
  logger and metrics are left out.
\<close>

record 'w Controller =
  c_cfg :: Config
  c_dyn :: "'w dynamic"
  c_services :: "string \<Rightarrow> ('w, Service) TypedClient"
  c_slices :: "string \<Rightarrow> ('w, EndpointSlice) TypedClient"
  c_env :: "'w outside"
  c_net :: netlib
  c_slot :: "'w \<Rightarrow> bool"
  c_done :: "'w \<Rightarrow> bool"
  gvrMiddleware :: GVR
  gvrIngressRoute :: GVR
  gvrTraefikService :: GVR
  gvrServersTransport :: GVR
  gvrIngressRouteTCP :: GVR
  gvrIngressRouteUDP :: GVR
  gvrServersTransportTCP :: GVR
  gcSem :: int

definition traefik_gvr :: "string \<Rightarrow> GVR" where
  "traefik_gvr res = \<lparr>gvr_Group = Group, gvr_Version = Version, gvr_Resource = res\<rparr>"

definition NewController ::
  "Config \<Rightarrow> 'w dynamic \<Rightarrow> (string \<Rightarrow> ('w, Service) TypedClient) \<Rightarrow> (string \<Rightarrow> ('w, EndpointSlice) TypedClient) \<Rightarrow>
   'w outside \<Rightarrow> netlib \<Rightarrow> ('w \<Rightarrow> bool) \<Rightarrow> ('w \<Rightarrow> bool) \<Rightarrow> 'w Controller" where
  "NewController cfg dyn svcs slices env net slot cancelled =
     \<lparr>c_cfg = cfg, c_dyn = dyn, c_services = svcs, c_slices = slices, c_env = env, c_net = net, c_slot = slot,
      c_done = cancelled,
      gvrMiddleware = traefik_gvr ''middlewares'', gvrIngressRoute = traefik_gvr ''ingressroutes'',
      gvrTraefikService = traefik_gvr ''traefikservices'', gvrServersTransport = traefik_gvr ''serverstransports'',
      gvrIngressRouteTCP = traefik_gvr ''ingressroutetcps'', gvrIngressRouteUDP = traefik_gvr ''ingressrouteudps'',
      gvrServersTransportTCP = traefik_gvr ''serverstransporttcps'',
      gcSem = (if GCWorkers cfg \<le> 0 then 1 else GCWorkers cfg)\<rparr>"

text \<open>\<open>resources.AdaptResource(dyn.Resource(gvr).Namespace(c.cfg.Namespace))\<close>.\<close>

definition res_ifc :: "'w Controller \<Rightarrow> GVR \<Rightarrow> 'w kst ResourceClient" where
  "res_ifc c gvr = AdaptResource (k_client (c_dyn c gvr (Namespace (c_cfg c))))"

section \<open>Delayed deletion\<close>

definition gvrForKind :: "'w Controller \<Rightarrow> string \<Rightarrow> GVR" where
  "gvrForKind c kind =
     (if kind = ''Middleware'' then gvrMiddleware c
      else if kind = ''IngressRoute'' then gvrIngressRoute c
      else if kind = ''TraefikService'' then gvrTraefikService c
      else if kind = ''ServersTransport'' then gvrServersTransport c
      else if kind = ''IngressRouteTCP'' then gvrIngressRouteTCP c
      else if kind = ''IngressRouteUDP'' then gvrIngressRouteUDP c
      else if kind = ''ServersTransportTCP'' then gvrServersTransportTCP c
      else \<lparr>gvr_Group = [], gvr_Version = [], gvr_Resource = []\<rparr>)"

definition queue_size :: "Config \<Rightarrow> int" where
  "queue_size cfg = (if GCGraceQueueSize cfg \<le> 0 then 256 else GCGraceQueueSize cfg)"

text \<open>The queue is made once; the workers it starts are the steps of \<open>graceDeletionWorker\<close>.\<close>

definition startGraceDeletionPool :: "'w kst \<Rightarrow> 'w kst" where
  "startGraceDeletionPool s = (case graceDelQueue s of None \<Rightarrow> s\<lparr>graceDelQueue := Some []\<rparr> | Some _ \<Rightarrow> s)"

text \<open>
  A full queue: the request waits up to 250 milliseconds for a slot and is dropped when there is none.
\<close>

definition enqueueGraceDeletion :: "'w Controller \<Rightarrow> graceDeleteReq \<Rightarrow> ('w kst, unit) io" where
  "enqueueGraceDeletion c req s =
     (let s = startGraceDeletionPool s; q = of_nil (graceDelQueue s) in
      if c_done c (kube s) then (Inr (), s)
      else if int (length q) < queue_size (c_cfg c) then (Inr (), s\<lparr>graceDelQueue := Some (q @ [req])\<rparr>)
      else if c_slot c (kube s) \<and> q \<noteq> []
      then (Inr (), s\<lparr>graceDelQueue := Some (tl q @ [req]), inflight := inflight s @ [hd q]\<rparr>)
      else (Inr (), s))"

definition scheduleGraceDeletion :: "'w Controller \<Rightarrow> string \<Rightarrow> string \<Rightarrow> ('w kst, unit) io" where
  "scheduleGraceDeletion c kind name =
     enqueueGraceDeletion c \<lparr>gd_kind = kind, gd_name = name, gd_delay = GCGracePeriod (c_cfg c)\<rparr>"

text \<open>After its delay, unless the context ends before, the object is deleted; errors are logged only.\<close>

definition handleGraceDelete :: "'w Controller \<Rightarrow> graceDeleteReq \<Rightarrow> 'w kst \<Rightarrow> 'w kst" where
  "handleGraceDelete c req s =
     (let (fired, s') = (if gd_delay req > 0 then wait (k_outside (c_env c)) (gd_delay req) s else (True, s)) in
      if \<not> fired then s'
      else
        let gvr = gvrForKind c (gd_kind req) in
        if gvr_Resource gvr = [] then s' else snd (api_Delete (res_ifc c gvr) (gd_name req) s'))"

text \<open>
  One round of a worker: it takes the oldest request, which is then in flight until its delay is
  over, and handles it. Rounds of several workers interleave, so the two halves are separate.
\<close>

definition grace_take :: "'w kst \<Rightarrow> (graceDeleteReq \<times> 'w kst) option" where
  "grace_take s =
     (case graceDelQueue s of
        Some (req # q) \<Rightarrow> Some (req, s\<lparr>graceDelQueue := Some q, inflight := inflight s @ [req]\<rparr>)
      | _ \<Rightarrow> None)"

definition grace_finish :: "'w Controller \<Rightarrow> graceDeleteReq \<Rightarrow> 'w kst \<Rightarrow> 'w kst" where
  "grace_finish c req s = handleGraceDelete c req (s\<lparr>inflight := remove1 req (inflight s)\<rparr>)"

definition graceDeletionWorker :: "'w Controller \<Rightarrow> 'w kst \<Rightarrow> 'w kst" where
  "graceDeletionWorker c s = (case grace_take s of None \<Rightarrow> s | Some (req, s') \<Rightarrow> grace_finish c req s')"

section \<open>Garbage collection\<close>

definition buildDesiredSet :: "raw_message gomap \<Rightarrow> string set" where
  "buildDesiredSet objects = set (go_keys objects)"

definition staleManagedName :: "'w Controller \<Rightarrow> Unstructured \<Rightarrow> string set \<Rightarrow> string \<times> bool" where
  "staleManagedName c u desired =
     (let name = GetName u in
      if name \<in> desired then (name, False)
      else if get_str (of_nil (GetAnnotations u)) (ManagedAnnoKey (c_cfg c)) \<noteq> ManagedAnnoValue (c_cfg c)
      then (name, False)
      else (name, True))"

definition deleteImmediate :: "'w ResourceClient \<Rightarrow> string \<Rightarrow> ('w, unit) io" where
  "deleteImmediate resIfc name =
     caseIO (api_Delete resIfc name) (\<lambda>err. if IsNotFound err then retIO () else failIO err) (\<lambda>_. retIO ())"

definition managed_selector :: "Config \<Rightarrow> string" where
  "managed_selector cfg = ManagedLabelKey cfg @ ''='' @ ManagedLabelValue cfg"

text \<open>One round of the loop over the listed objects.\<close>

definition gc_item :: "'w Controller \<Rightarrow> GVR \<Rightarrow> string set \<Rightarrow> string \<Rightarrow> Unstructured \<Rightarrow> ('w kst, unit) io" where
  "gc_item c gvr desired kind item =
     (case staleManagedName c item desired of (name, stale) \<Rightarrow>
        if \<not> stale then retIO ()
        else if ReadOnly (c_cfg c) then retIO ()
        else if GCGracePeriod (c_cfg c) > 0 then scheduleGraceDeletion c kind name
        else deleteImmediate (res_ifc c gvr) name)"

definition gcStaleObjects :: "'w Controller \<Rightarrow> GVR \<Rightarrow> raw_message gomap \<Rightarrow> string \<Rightarrow> ('w kst, unit) io" where
  "gcStaleObjects c gvr desiredObjs kind =
     bindIO (api_List (res_ifc c gvr) (managed_selector (c_cfg c))) (\<lambda>existing.
       loopIO (gc_item c gvr (buildDesiredSet desiredObjs) kind) existing)"

section \<open>Sections of the configuration\<close>

definition meta_config :: "Config \<Rightarrow> MetadataConfig" where
  "meta_config cfg =
     \<lparr>mc_ManagedLabelKey = ManagedLabelKey cfg, mc_ManagedLabelValue = ManagedLabelValue cfg,
      mc_TraefikInstanceLabelKey = [], mc_TraefikInstanceLabelValue = [],
      mc_ManagedAnnoKey = ManagedAnnoKey cfg, mc_ManagedAnnoValue = ManagedAnnoValue cfg,
      mc_IngressClass = IngressClass cfg\<rparr>"

definition applyDesiredObjects :: "'w Controller \<Rightarrow> GVR \<Rightarrow> raw_message gomap \<Rightarrow> ('w kst, unit) io" where
  "applyDesiredObjects c gvr objects =
     (if ReadOnly (c_cfg c) then retIO ()
      else
        let ops = \<lparr>uo_Dyn = (\<lambda>g ns. k_client (c_dyn c g ns)), uo_GVR = gvr,
                   uo_Namespace = Namespace (c_cfg c), uo_SSAForce = SSAForce (c_cfg c)\<rparr>
        in loopIO (\<lambda>(name, raw). UnstructuredOps_Apply (k_outside (c_env c)) ops name raw (meta_config (c_cfg c)))
             objects)"

definition reconcileMiddlewares :: "'w Controller \<Rightarrow> raw_message gomap \<Rightarrow> ('w kst, unit) io" where
  "reconcileMiddlewares c middlewares =
     thenIO (applyDesiredObjects c (gvrMiddleware c) middlewares)
       (gcStaleObjects c (gvrMiddleware c) middlewares ''Middleware'')"

definition reconcileServersTransports :: "'w Controller \<Rightarrow> raw_message gomap option \<Rightarrow> ('w kst, unit) io" where
  "reconcileServersTransports c transports =
     (case transports of
        None \<Rightarrow> retIO ()
      | Some ts \<Rightarrow>
          thenIO (applyDesiredObjects c (gvrServersTransport c) ts)
            (gcStaleObjects c (gvrServersTransport c) ts ''ServersTransport''))"

definition reconcileServices :: "'w Controller \<Rightarrow> raw_message gomap option \<Rightarrow> ('w kst, unit) io" where
  "reconcileServices c services =
     (let processed = of_nil (ProcessServices (c_net c) (Some (c_cfg c)) services) in
      thenIO (applyDesiredObjects c (gvrTraefikService c) processed)
        (gcStaleObjects c (gvrTraefikService c) processed ''TraefikService''))"

definition route_ops :: "'w Controller \<Rightarrow> GVR \<Rightarrow> 'w kst IngressRouteOps" where
  "route_ops c gvr =
     \<lparr>iro_ResIfc = res_ifc c gvr, iro_Namespace = Namespace (c_cfg c),
      iro_ManagedLabelKey = ManagedLabelKey (c_cfg c), iro_ManagedLabelValue = ManagedLabelValue (c_cfg c),
      iro_ManagedAnnoKey = ManagedAnnoKey (c_cfg c), iro_ManagedAnnoValue = ManagedAnnoValue (c_cfg c),
      iro_IngressClass = IngressClass (c_cfg c), iro_ReadOnly = ReadOnly (c_cfg c)\<rparr>"

definition applyIngressRoute :: "'w Controller \<Rightarrow> GVR \<Rightarrow> string \<Rightarrow> obj \<Rightarrow> ('w kst, unit) io" where
  "applyIngressRoute c gvr name u =
     (if ReadOnly (c_cfg c) then retIO ()
      else IngressRouteOps_Apply (k_outside (c_env c)) (route_ops c gvr) name u)"

definition router_config :: "Config \<Rightarrow> RouterConfig" where
  "router_config cfg =
     \<lparr>rc_Namespace = Namespace cfg, rc_ManagedLabelKey = ManagedLabelKey cfg,
      rc_ManagedLabelValue = ManagedLabelValue cfg, rc_ManagedAnnoKey = ManagedAnnoKey cfg,
      rc_ManagedAnnoValue = ManagedAnnoValue cfg, rc_IngressClass = IngressClass cfg\<rparr>"

text \<open>The first loop: \<open>transformErrors\<close> and \<open>transformed\<close>.\<close>

definition transform_routers :: "Config \<Rightarrow> raw_message gomap \<Rightarrow> goerr list \<times> obj gomap" where
  "transform_routers cfg routers =
     fold (\<lambda>(name, raw) (errs, out).
         case TransformRouterToIngressRoute name raw (router_config cfg) of
           Inl e \<Rightarrow> (errs @ [Wrap (''router '' @ name) e], out)
         | Inr u \<Rightarrow> (errs, go_put out name u))
       routers ([], [])"

definition reconcileRouters :: "'w Controller \<Rightarrow> raw_message gomap \<Rightarrow> ('w kst, unit) io" where
  "reconcileRouters c routers =
     (case transform_routers (c_cfg c) routers of (transformErrors, transformed) \<Rightarrow>
        if transformErrors \<noteq> [] then failIO (Joined transformErrors)
        else
          thenIO (loopIO (\<lambda>(name, u). applyIngressRoute c (gvrIngressRoute c) name u) transformed)
            (gcStaleObjects c (gvrIngressRoute c) routers ''IngressRoute''))"

section \<open>TCP and UDP\<close>

definition ensureManagedServiceMeta :: "Config \<Rightarrow> Service \<Rightarrow> Service" where
  "ensureManagedServiceMeta cfg svc =
     (let labels = go_put (of_nil (svc_Labels svc)) (ManagedLabelKey cfg) (ManagedLabelValue cfg);
          labels = (if TraefikInstanceLabelKey cfg \<noteq> [] \<and> TraefikInstanceLabelValue cfg \<noteq> []
                    then go_put labels (TraefikInstanceLabelKey cfg) (TraefikInstanceLabelValue cfg) else labels)
      in svc\<lparr>svc_Labels := Some labels,
             svc_Annotations := Some (go_put (of_nil (svc_Annotations svc)) (ManagedAnnoKey cfg) (ManagedAnnoValue cfg))\<rparr>)"

definition applyCoreService :: "'w Controller \<Rightarrow> Service \<Rightarrow> ('w kst, unit) io" where
  "applyCoreService c svc =
     (let svc = ensureManagedServiceMeta (c_cfg c) svc in
      if ReadOnly (c_cfg c) then retIO ()
      else
        let cli = k_typed (c_services c (Namespace (c_cfg c))) in
        get_or_missing (typed_Get cli (svc_Name svc))
          (thenIO (typed_Create cli svc) (retIO ()))
          (\<lambda>existing.
             thenIO (typed_Update cli (existing
               \<lparr>svc_ClusterIP := svc_ClusterIP svc, svc_Ports := svc_Ports svc,
                svc_Labels := svc_Labels svc, svc_Annotations := svc_Annotations svc\<rparr>)) (retIO ())))"

definition ensureManagedEndpointSliceMeta :: "Config \<Rightarrow> EndpointSlice \<Rightarrow> EndpointSlice" where
  "ensureManagedEndpointSliceMeta cfg es =
     (let labels = go_put (of_nil (es_Labels es)) (ManagedLabelKey cfg) (ManagedLabelValue cfg);
          labels = (if TraefikInstanceLabelKey cfg \<noteq> [] \<and> TraefikInstanceLabelValue cfg \<noteq> []
                    then go_put labels (TraefikInstanceLabelKey cfg) (TraefikInstanceLabelValue cfg) else labels)
      in es\<lparr>es_Labels := Some labels,
            es_Annotations := Some (go_put (of_nil (es_Annotations es)) (ManagedAnnoKey cfg) (ManagedAnnoValue cfg))\<rparr>)"

definition applyEndpointSlice :: "'w Controller \<Rightarrow> EndpointSlice \<Rightarrow> ('w kst, unit) io" where
  "applyEndpointSlice c es =
     (let es = ensureManagedEndpointSliceMeta (c_cfg c) es in
      if ReadOnly (c_cfg c) then retIO ()
      else
        let cli = k_typed (c_slices c (Namespace (c_cfg c))) in
        get_or_missing (typed_Get cli (es_Name es))
          (thenIO (typed_Create cli es) (retIO ()))
          (\<lambda>existing.
             thenIO (typed_Update cli (existing
               \<lparr>es_Endpoints := es_Endpoints es, es_Ports := es_Ports es,
                es_Labels := es_Labels es, es_Annotations := es_Annotations es\<rparr>)) (retIO ())))"

definition applyProtocolServices :: "'w Controller \<Rightarrow> Service list \<Rightarrow> ('w kst, unit) io" where
  "applyProtocolServices c svcs = loopIO (applyCoreService c) svcs"

definition applyProtocolSlices :: "'w Controller \<Rightarrow> EndpointSlice list \<Rightarrow> ('w kst, unit) io" where
  "applyProtocolSlices c slices = loopIO (applyEndpointSlice c) slices"

definition applyProtocolIngressRoutes :: "'w Controller \<Rightarrow> obj list \<Rightarrow> GVR \<Rightarrow> string \<Rightarrow> ('w kst, unit) io" where
  "applyProtocolIngressRoutes c routes gvr kind =
     loopIO (\<lambda>m. IngressRouteOps_ApplySingle (k_outside (c_env c)) (route_ops c gvr) m kind) routes"

definition applyProtocolArtifacts ::
  "'w Controller \<Rightarrow> obj list \<Rightarrow> Service list \<Rightarrow> EndpointSlice list \<Rightarrow> GVR \<Rightarrow> string \<Rightarrow> ('w kst, unit) io" where
  "applyProtocolArtifacts c routes svcs slices gvr kind =
     thenIO (applyProtocolServices c svcs)
       (thenIO (applyProtocolSlices c slices) (applyProtocolIngressRoutes c routes gvr kind))"

text \<open>The loop that \<open>gcStaleCoreServices\<close> and \<open>gcStaleEndpointSlices\<close> share.\<close>

definition gc_typed ::
  "'w Controller \<Rightarrow> ('w kst, 'o) TypedClient \<Rightarrow> ('o \<Rightarrow> string) \<Rightarrow> ('o \<Rightarrow> string gomap option) \<Rightarrow>
   raw_message gomap \<Rightarrow> ('w kst, unit) io" where
  "gc_typed c cli name annotations desired =
     bindIO (typed_List cli (managed_selector (c_cfg c))) (\<lambda>items.
       loopIO (\<lambda>x.
           if name x \<in> set (go_keys desired)
              \<or> get_str (of_nil (annotations x)) (ManagedAnnoKey (c_cfg c)) \<noteq> ManagedAnnoValue (c_cfg c)
              \<or> ReadOnly (c_cfg c)
           then retIO ()
           else caseIO (typed_Delete cli (name x))
                  (\<lambda>err. if \<not> IsNotFound err then failIO err else retIO ()) (\<lambda>_. retIO ()))
         items)"

definition gcStaleCoreServices :: "'w Controller \<Rightarrow> raw_message gomap \<Rightarrow> ('w kst, unit) io" where
  "gcStaleCoreServices c desired =
     gc_typed c (k_typed (c_services c (Namespace (c_cfg c)))) svc_Name svc_Annotations desired"

definition gcStaleEndpointSlices :: "'w Controller \<Rightarrow> raw_message gomap \<Rightarrow> ('w kst, unit) io" where
  "gcStaleEndpointSlices c desired =
     gc_typed c (k_typed (c_slices c (Namespace (c_cfg c)))) es_Name es_Annotations desired"

text \<open>A map from names to \<open>{}\<close>, filled by a loop.\<close>

definition name_set :: "string list \<Rightarrow> raw_message gomap" where
  "name_set names = fold (\<lambda>n m. go_put m n (RawJSON (IMap []))) names []"

text \<open>Applying and collecting the objects of one protocol, as \<open>reconcileTCP\<close> and \<open>reconcileUDP\<close> both do.\<close>

definition reconcile_artifacts ::
  "'w Controller \<Rightarrow> GVR \<Rightarrow> string \<Rightarrow> obj list \<times> Service list \<times> EndpointSlice list \<Rightarrow> ('w kst, unit) io" where
  "reconcile_artifacts c gvr kind arts =
     (case arts of (routes, svcs, slices) \<Rightarrow>
        thenIO (applyProtocolArtifacts c routes svcs slices gvr kind)
          (let desiredSvc = name_set (map svc_Name svcs);
               desiredSlices = name_set (map es_Name slices);
               desiredRoutes = name_set (filter (\<lambda>n. n \<noteq> []) (map single_name routes))
           in thenIO (gcStaleObjects c gvr desiredRoutes kind)
                (thenIO (gcStaleCoreServices c desiredSvc) (gcStaleEndpointSlices c desiredSlices))))"

definition reconcileServersTransportTCP :: "'w Controller \<Rightarrow> raw_message gomap option \<Rightarrow> ('w kst, unit) io" where
  "reconcileServersTransportTCP c transports =
     (case transports of
        None \<Rightarrow> retIO ()
      | Some ts \<Rightarrow>
          let st = fold (\<lambda>(name, raw) m. go_put m (SanitizeResourceName name) raw) ts [] in
          thenIO (applyDesiredObjects c (gvrServersTransportTCP c) st)
            (gcStaleObjects c (gvrServersTransportTCP c) st ''ServersTransportTCP''))"

definition reconcileTCP :: "'w Controller \<Rightarrow> TraefikConfig option \<Rightarrow> ('w kst, unit) io" where
  "reconcileTCP c cfg =
     (case Option.bind cfg TCP of
        None \<Rightarrow> retIO ()
      | Some tcp \<Rightarrow>
          thenIO (reconcileServersTransportTCP c (l4_ServersTransports tcp))
            (bindIO (liftIO (TransformTCP (c_net c) cfg (Namespace (c_cfg c))))
               (reconcile_artifacts c (gvrIngressRouteTCP c) ''IngressRouteTCP'')))"

definition reconcileUDP :: "'w Controller \<Rightarrow> TraefikConfig option \<Rightarrow> ('w kst, unit) io" where
  "reconcileUDP c cfg =
     (case Option.bind cfg UDP of
        None \<Rightarrow> retIO ()
      | Some udp \<Rightarrow>
          bindIO (liftIO (TransformUDP (c_net c) cfg (Namespace (c_cfg c))))
            (reconcile_artifacts c (gvrIngressRouteUDP c) ''IngressRouteUDP''))"

section \<open>The whole configuration\<close>

definition applyConfigSequential :: "'w Controller \<Rightarrow> TraefikConfig \<Rightarrow> ('w kst, unit) io" where
  "applyConfigSequential c cfg =
     thenIO (wrapIO ''middleware reconcile failed'' (reconcileMiddlewares c (of_nil (Middlewares (HTTP cfg)))))
    (thenIO (wrapIO ''routers reconcile failed'' (reconcileRouters c (of_nil (Routers (HTTP cfg)))))
    (thenIO (wrapIO ''serversTransports reconcile failed'' (reconcileServersTransports c (ServersTransports (HTTP cfg))))
    (thenIO (wrapIO ''services reconcile failed'' (reconcileServices c (Services (HTTP cfg))))
    (thenIO (wrapIO ''tcp reconcile failed'' (reconcileTCP c (Some cfg)))
            (wrapIO ''udp reconcile failed'' (reconcileUDP c (Some cfg)))))))"

definition applyConfig ::
  "(TraefikConfig \<Rightarrow> ('w kst, unit) io) \<Rightarrow> 'w Controller \<Rightarrow> TraefikConfig option \<Rightarrow> ('w kst, unit) io" where
  "applyConfig applyConfigParallel c cfg =
     bindIO (wrapIO ''sanitize config'' (liftIO (SanitizeTraefikConfig cfg))) (\<lambda>sanitizedCfg.
       case sanitizedCfg of
         None \<Rightarrow> retIO ()
       | Some s \<Rightarrow>
           if \<not> ReconcileParallel (c_cfg c) then applyConfigSequential c s else applyConfigParallel s)"

section \<open>Lifted clients\<close>

lemma k_io_eq: "k_io m s = (fst (m (kube s)), s\<lparr>kube := snd (m (kube s))\<rparr>)"
  by (simp add: k_io_def split: prod.split)

lemma k_io_parts: "fst (k_io m s) = fst (m (kube s))" "kube (snd (k_io m s)) = snd (m (kube s))"
  by (simp_all add: k_io_eq)

lemma k_client_laws:
  assumes "client_laws cl view"
  shows "client_laws (k_client cl) (\<lambda>s. view (kube s))"
  using assms unfolding client_laws_def k_client_def ResourceClient.select_convs k_io_parts
  by (elim conjE, intro conjI allI) simp_all

lemma k_content_law:
  assumes "content_law cl view rf"
  shows "content_law (k_client cl) (\<lambda>s. view (kube s)) rf"
proof -
  have *: "k_io m s = (r, s') \<longleftrightarrow> (\<exists>w'. m (kube s) = (r, w') \<and> s' = s\<lparr>kube := w'\<rparr>)" for m s r s'
    by (auto simp: k_io_eq prod_eq_iff)
  show ?thesis using assms unfolding content_law_def k_client_def ResourceClient.select_convs *
    by (elim conjE, intro conjI allI impI; elim exE conjE) auto
qed

lemma k_decode_law: "decode_law env \<Longrightarrow> decode_law (k_outside env)"
  by (simp add: decode_law_def k_outside_def)

lemma k_wait_law: "wait_law env view \<Longrightarrow> wait_law (k_outside env) (\<lambda>s. view (kube s))"
  by (simp add: wait_law_def k_outside_def split: prod.split) (metis snd_conv)

section \<open>Garbage collection deletes the stale managed objects\<close>

text \<open>An object that carries the label and the annotation of the controller.\<close>

definition managed :: "Config \<Rightarrow> Unstructured \<Rightarrow> bool" where
  "managed cfg u \<longleftrightarrow>
     has_label (ManagedLabelKey cfg) (ManagedLabelValue cfg) u
     \<and> get_str (of_nil (GetAnnotations u)) (ManagedAnnoKey cfg) = ManagedAnnoValue cfg"

definition stale :: "'w Controller \<Rightarrow> string set \<Rightarrow> Unstructured \<Rightarrow> bool" where
  "stale c desired u \<longleftrightarrow> snd (staleManagedName c u desired)"

lemma staleManagedName_eq: "staleManagedName c u desired = (GetName u, stale c desired u)"
  by (simp add: stale_def staleManagedName_def Let_def)

lemma stale_iff:
  "stale c desired u \<longleftrightarrow> GetName u \<notin> desired
     \<and> get_str (of_nil (GetAnnotations u)) (ManagedAnnoKey (c_cfg c)) = ManagedAnnoValue (c_cfg c)"
  by (simp add: stale_def staleManagedName_def Let_def)

lemma deleteImmediate_view:
  assumes "client_laws cl view" and "deleteImmediate cl n w = (Inr x, w')"
  shows "view w' = (view w)(n := None)"
proof -
  obtain r v where d: "api_Delete cl n w = (r, v)" by fastforce
  with assms(2) have "w' = v" "\<forall>e. r = Inl e \<longrightarrow> IsNotFound e"
    by (auto simp: deleteImmediate_def caseIO_def split: sum.splits if_splits)
  with client_laws_Delete [OF assms(1) d] show ?thesis by (cases r) auto
qed

lemma k_queue: "graceDelQueue (snd (k_io m s)) = graceDelQueue s" "inflight (snd (k_io m s)) = inflight s"
  by (simp_all add: k_io_eq)

lemma k_client_Delete: "api_Delete (res_ifc c gvr) n = k_io (api_Delete (c_dyn c gvr (Namespace (c_cfg c))) n)"
  and k_client_List: "api_List (res_ifc c gvr) sel = k_io (api_List (c_dyn c gvr (Namespace (c_cfg c))) sel)"
  by (simp_all add: res_ifc_def k_client_def)

lemma deleteImmediate_queue: "graceDelQueue (snd (deleteImmediate (res_ifc c gvr) n s)) = graceDelQueue s"
  using k_queue(1) [of "api_Delete (c_dyn c gvr (Namespace (c_cfg c))) n" s]
  by (auto simp: deleteImmediate_def caseIO_def k_client_Delete split: prod.split sum.split)

lemma gc_loop_immediate:
  assumes "client_laws (res_ifc c gvr) kview" and "\<not> ReadOnly (c_cfg c)" and "GCGracePeriod (c_cfg c) \<le> 0"
    and "loopIO (gc_item c gvr desired kind) items s = (Inr u, s')"
  shows "kview s' = (\<lambda>n. if \<exists>x \<in> set items. stale c desired x \<and> GetName x = n then None else kview s n)
    \<and> graceDelQueue s' = graceDelQueue s"
  using assms(4)
proof (induction items arbitrary: s)
  case (Cons x items)
  then obtain y v where x: "gc_item c gvr desired kind x s = (Inr y, v)" "loopIO (gc_item c gvr desired kind) items v = (Inr u, s')"
    by (auto simp: thenIO_Inr)
  have "kview v = (if stale c desired x then (kview s)(GetName x := None) else kview s)
      \<and> graceDelQueue v = graceDelQueue s"
  proof (cases "stale c desired x")
    case True
    with x(1) assms(2,3) have d: "deleteImmediate (res_ifc c gvr) (GetName x) s = (Inr y, v)"
      by (simp add: gc_item_def staleManagedName_eq)
    from deleteImmediate_view [OF assms(1) d] deleteImmediate_queue [of c gvr "GetName x" s] d True
    show ?thesis by simp
  qed (use x(1) in \<open>simp add: gc_item_def staleManagedName_eq\<close>)
  with Cons.IH [OF x(2)] show ?case by (auto simp: fun_eq_iff)
qed simp

text \<open>With a grace period a stale object is only requested to be deleted later.\<close>

lemma schedule_kube: "keeps (\<lambda>s. P (kube s)) (scheduleGraceDeletion c kind n)"
  by (simp add: keeps_def scheduleGraceDeletion_def enqueueGraceDeletion_def startGraceDeletionPool_def Let_def
      split: option.split)

lemma gc_loop_scheduled:
  assumes "GCGracePeriod (c_cfg c) > 0" and "loopIO (gc_item c gvr desired kind) items s = (Inr u, s')"
  shows "kube s' = kube s"
proof -
  have "keeps (\<lambda>x. kube x = kube s) (loopIO (gc_item c gvr desired kind) items)"
    unfolding gc_item_def case_prod_beta using assms(1)
    by (intro keeps_intros) (auto intro: keeps_intros schedule_kube)
  from keepsD [OF this refl] assms(2) show ?thesis by simp
qed

lemma gcStaleObjects_view:
  assumes laws: "client_laws (res_ifc c gvr) (\<lambda>s. view (kube s))" and sel: "CHR ''='' \<notin> set (ManagedLabelKey (c_cfg c))"
    and mode: "\<not> ReadOnly (c_cfg c)"
    and run: "gcStaleObjects c gvr desired kind s = (Inr u, s')"
  shows "view (kube s') n = (case view (kube s) n of
      None \<Rightarrow> None
    | Some x \<Rightarrow> if managed (c_cfg c) x \<and> n \<notin> set (go_keys desired) \<and> GCGracePeriod (c_cfg c) \<le> 0 then None else Some x)"
proof -
  obtain items v where l: "api_List (res_ifc c gvr) (managed_selector (c_cfg c)) s = (Inr items, v)"
      and loop: "loopIO (gc_item c gvr (buildDesiredSet desired) kind) items v = (Inr u, s')"
    using run by (auto simp: gcStaleObjects_def bindIO_Inr)
  note li = client_laws_List [OF laws l [unfolded managed_selector_def] sel]
  show ?thesis
  proof (cases "GCGracePeriod (c_cfg c) \<le> 0")
    case True
    have "(\<exists>x \<in> set items. stale c (buildDesiredSet desired) x \<and> GetName x = n) \<longleftrightarrow>
        (\<exists>x. view (kube s) n = Some x \<and> managed (c_cfg c) x \<and> n \<notin> set (go_keys desired))"
      using client_laws_name [OF laws] by (auto simp: li(2) stale_iff managed_def buildDesiredSet_def)
    with gc_loop_immediate [OF laws mode True loop] li(1) True show ?thesis
      by (auto split: option.split)
  next
    case False
    with gc_loop_scheduled [OF _ loop] li(1) show ?thesis by (simp split: option.split)
  qed
qed

text \<open>
  C5. Garbage collection without a grace period and not in read-only mode, when it succeeds: of the
  objects of the resource type, exactly those are gone that carry the managed label and the managed
  annotation and whose name is not desired; every other object is untouched.
\<close>

theorem gcStaleObjects_exact:
  assumes "client_laws (c_dyn c gvr (Namespace (c_cfg c))) view" and "CHR ''='' \<notin> set (ManagedLabelKey (c_cfg c))"
    and "\<not> ReadOnly (c_cfg c)" and "GCGracePeriod (c_cfg c) \<le> 0"
    and "gcStaleObjects c gvr desired kind s = (Inr (), s')"
  shows "view (kube s') n = (case view (kube s) n of
      None \<Rightarrow> None
    | Some x \<Rightarrow> if managed (c_cfg c) x \<and> n \<notin> set (go_keys desired) then None else Some x)"
proof -
  have "client_laws (res_ifc c gvr) (\<lambda>s. view (kube s))"
    using k_client_laws [OF assms(1)] by (simp add: res_ifc_def)
  from gcStaleObjects_view [OF this assms(2,3,5)] assms(4) show ?thesis by (simp split: option.split)
qed

section \<open>Sections converge\<close>

text \<open>
  What reconciling a section to the names \<open>desired\<close> achieves: under every desired name is an object
  that is \<open>good\<close> for it and for the object that was there, and an object that is neither desired nor
  managed is as before. Without a grace period every managed object is desired; with one, the
  managed objects that are not desired stay for the workers to delete.
\<close>

definition converged ::
  "Config \<Rightarrow> string set \<Rightarrow> (string \<Rightarrow> Unstructured option \<Rightarrow> Unstructured \<Rightarrow> bool) \<Rightarrow>
   (string \<Rightarrow> Unstructured option) \<Rightarrow> (string \<Rightarrow> Unstructured option) \<Rightarrow> bool" where
  "converged cfg desired good old new \<longleftrightarrow>
     (\<forall>n \<in> desired. \<exists>u. new n = Some u \<and> good n (old n) u)
   \<and> (GCGracePeriod cfg \<le> 0 \<longrightarrow> (\<forall>n x. new n = Some x \<and> managed cfg x \<longrightarrow> n \<in> desired))
   \<and> (\<forall>n. n \<notin> desired \<longrightarrow> new n = (case old n of
        None \<Rightarrow> None | Some x \<Rightarrow> if managed cfg x \<and> GCGracePeriod cfg \<le> 0 then None else Some x))"

text \<open>
  The setting of the theorems below: laws of the API, a label key that can be used in a selector, and a
  controller that is not read-only.
\<close>

definition setting :: "'w Controller \<Rightarrow> GVR \<Rightarrow> ('w \<Rightarrow> string \<Rightarrow> Unstructured option) \<Rightarrow> reflection \<Rightarrow> bool" where
  "setting c gvr view rf \<longleftrightarrow>
     client_laws (c_dyn c gvr (Namespace (c_cfg c))) view \<and> content_law (c_dyn c gvr (Namespace (c_cfg c))) view rf
     \<and> decode_law (c_env c) \<and> wait_law (c_env c) view
     \<and> CHR ''='' \<notin> set (ManagedLabelKey (c_cfg c)) \<and> \<not> ReadOnly (c_cfg c)"

abbreviation k_sys ::
  "'w Controller \<Rightarrow> GVR \<Rightarrow> ('w \<Rightarrow> string \<Rightarrow> Unstructured option) \<Rightarrow> reflection \<Rightarrow> 'w kst sys" where
  "k_sys c gvr view rf \<equiv> (res_ifc c gvr, k_outside (c_env c), (\<lambda>s. view (kube s)), rf)"

lemma setting_k:
  assumes "setting c gvr view rf"
  shows "sys_laws (k_sys c gvr view rf)"
    and "client_laws (res_ifc c gvr) (\<lambda>s. view (kube s))"
    and "CHR ''='' \<notin> set (ManagedLabelKey (c_cfg c))" "\<not> ReadOnly (c_cfg c)"
  using assms k_client_laws k_content_law k_decode_law k_wait_law
  by (auto simp: setting_def sys_simps res_ifc_def)

lemma converged_gc:
  assumes "setting c gvr view rf" and "gcStaleObjects c gvr desired kind v = (Inr (), s')"
    and "\<And>n. n \<in> set (go_keys desired) \<Longrightarrow> \<exists>u. view (kube v) n = Some u \<and> good n (view (kube s) n) u"
    and "\<And>n. n \<notin> set (go_keys desired) \<Longrightarrow> view (kube v) n = view (kube s) n"
  shows "converged (c_cfg c) (set (go_keys desired)) good (view (kube s)) (view (kube s'))"
proof -
  note g = gcStaleObjects_view [OF setting_k(2-4) [OF assms(1)] assms(2)]
  show ?thesis unfolding converged_def
  proof (intro conjI ballI)
    fix n assume "n \<in> set (go_keys desired)"
    with assms(3) [OF this] show "\<exists>u. view (kube s') n = Some u \<and> good n (view (kube s) n) u" by (auto simp: g)
  qed (use assms(4) in \<open>auto simp: g split: option.splits if_splits\<close>)
qed

lemma applyDesiredObjects_loop:
  assumes "\<not> ReadOnly (c_cfg c)"
  shows "applyDesiredObjects c gvr objects =
    loopIO (\<lambda>k. UnstructuredOps_Apply (fst (snd (k_sys c gvr view rf)))
      \<lparr>uo_Dyn = (\<lambda>_ _. fst (k_sys c gvr view rf)), uo_GVR = gvr,
       uo_Namespace = Namespace (c_cfg c), uo_SSAForce = SSAForce (c_cfg c)\<rparr> (fst k) (snd k) (meta_config (c_cfg c))) objects"
  using assms
  unfolding applyDesiredObjects_def UnstructuredOps_Apply_def res_ifc_def AdaptResource_id Let_def case_prod_beta
  by simp

text \<open>
  The object reflects the document whose \<open>spec\<close> is the decoded entry of \<open>name\<close> in the section, with
  the API version and kind of the resource type and the metadata of the controller.
\<close>

definition entry_applied ::
  "reflection \<Rightarrow> Config \<Rightarrow> GVR \<Rightarrow> raw_message gomap \<Rightarrow> string \<Rightarrow> Unstructured option \<Rightarrow> Unstructured \<Rightarrow> bool" where
  "entry_applied rf cfg gvr objects name old u \<longleftrightarrow>
     (\<exists>raw spec. (name, raw) \<in> set objects \<and> unmarshal_map raw = Inr spec
        \<and> carries rf (KindFor (gvr_Resource gvr)) (meta_config cfg) name (apply_doc gvr spec) old u)"

lemma apply_gc_converges:
  assumes "setting c gvr view rf" and "wf_map desired"
    and "thenIO (applyDesiredObjects c gvr desired) (gcStaleObjects c gvr desired kind) s = (Inr (), s')"
  shows "converged (c_cfg c) (set (go_keys desired)) (entry_applied rf (c_cfg c) gvr desired)
    (view (kube s)) (view (kube s'))"
proof -
  obtain v where a: "applyDesiredObjects c gvr desired s = (Inr (), v)"
      and g: "gcStaleObjects c gvr desired kind v = (Inr (), s')"
    using assms(3) by (auto simp: thenIO_Inr)
  note k = setting_k [OF assms(1)]
  note loop = a [unfolded applyDesiredObjects_loop [OF k(4), where view = view and rf = rf]]
  have d: "fst ` set desired = set (go_keys desired)" by (simp add: go_keys_def)
  show ?thesis
  proof (rule converged_gc [OF assms(1) g])
    fix n assume "n \<in> set (go_keys desired)"
    with unstructured.loop_writes [OF k(1) loop assms(2) [unfolded wf_map_def], of n]
    show "\<exists>u. view (kube v) n = Some u \<and> entry_applied rf (c_cfg c) gvr desired n (view (kube s) n) u"
      unfolding sys_simps entry_applied_def by (force simp: d)
  next
    fix n assume "n \<notin> set (go_keys desired)"
    with unstructured.loop_frame [OF k(1) loop, of n] show "view (kube v) n = view (kube s) n"
      by (simp add: d sys_simps)
  qed
qed

text \<open>
  After the middlewares are reconciled, the managed Middleware objects of the namespace are those
  of the configuration: under each name is the object of its entry, without a grace period no other
  managed one is left, and foreign objects are untouched.
\<close>

theorem reconcileMiddlewares_converges:
  assumes "setting c (gvrMiddleware c) view rf" and "wf_map middlewares"
    and "reconcileMiddlewares c middlewares s = (Inr (), s')"
  shows "converged (c_cfg c) (set (go_keys middlewares)) (entry_applied rf (c_cfg c) (gvrMiddleware c) middlewares)
    (view (kube s)) (view (kube s'))"
  using assms(3) apply_gc_converges [OF assms(1,2)] unfolding reconcileMiddlewares_def by blast

lemma reconcileServices_apply:
  assumes "setting c (gvrTraefikService c) view rf" and "wf_map (of_nil services)"
    and "reconcileServices c services s = (Inr (), s')"
  shows "converged (c_cfg c) (set (go_keys (of_nil services)))
    (entry_applied rf (c_cfg c) (gvrTraefikService c) (of_nil (ProcessServices (c_net c) (Some (c_cfg c)) services)))
    (view (kube s)) (view (kube s'))"
proof -
  let ?p = "of_nil (ProcessServices (c_net c) (Some (c_cfg c)) services)"
  have k: "go_keys ?p = go_keys (of_nil services)"
    by (cases services) (auto simp: ProcessServices_def of_nil_def go_keys_def)
  with assms(2) have "wf_map ?p" by (simp add: wf_map_def go_keys_def)
  from apply_gc_converges [OF assms(1) this] assms(3) k show ?thesis
    unfolding reconcileServices_def Let_def by metis
qed

text \<open>
  The same for the services: the managed TraefikService objects are, by name, the services of
  the configuration, and each holds what \<open>ProcessServices\<close> made of its entry.
\<close>

theorem reconcileServices_converges:
  assumes "setting c (gvrTraefikService c) view rf" and "wf_map (of_nil services)"
    and "reconcileServices c services s = (Inr (), s')"
  shows "converged (c_cfg c) (set (go_keys (of_nil services)))
    (entry_applied rf (c_cfg c) (gvrTraefikService c) (of_nil (ProcessServices (c_net c) (Some (c_cfg c)) services)))
    (view (kube s)) (view (kube s'))"
  using assms by (rule reconcileServices_apply)

section \<open>Routers\<close>

definition router_errors :: "Config \<Rightarrow> raw_message gomap \<Rightarrow> goerr list" where
  "router_errors cfg routers =
     List.map_filter (\<lambda>(name, raw).
       case TransformRouterToIngressRoute name raw (router_config cfg) of
         Inl e \<Rightarrow> Some (Wrap (''router '' @ name) e) | Inr _ \<Rightarrow> None) routers"

lemma transform_routers_aux:
  "fold (\<lambda>(name, raw) (errs, out).
       case TransformRouterToIngressRoute name raw (router_config cfg) of
         Inl e \<Rightarrow> (errs @ [Wrap (''router '' @ name) e], out)
       | Inr u \<Rightarrow> (errs, go_put out name u)) routers (errs, out) = (errs', out') \<Longrightarrow>
   errs' = errs @ router_errors cfg routers
   \<and> (wf_map out \<longrightarrow> wf_map out')
   \<and> set out' \<subseteq> set out \<union> {(n, u). \<exists>raw. (n, raw) \<in> set routers \<and> TransformRouterToIngressRoute n raw (router_config cfg) = Inr u}
   \<and> (router_errors cfg routers = [] \<longrightarrow> set (go_keys out') = set (go_keys out) \<union> set (go_keys routers))"
proof (induction routers arbitrary: errs out)
  case (Cons p routers)
  obtain name raw where p: "p = (name, raw)" by fastforce
  have k: "set (go_keys ((name, raw) # routers)) = insert name (set (go_keys routers))" by (simp add: go_keys_def)
  show ?case
  proof (cases "TransformRouterToIngressRoute name raw (router_config cfg)")
    case (Inl e)
    with Cons.prems p Cons.IH [of "errs @ [Wrap (''router '' @ name) e]" out] show ?thesis
      by (auto simp: router_errors_def List.map_filter_def k)
  next
    case (Inr u)
    with Cons.prems p Cons.IH [of errs "go_put out name u"] show ?thesis
      using set_go_put_subset [of out name u]
      by (auto simp: router_errors_def List.map_filter_def k set_go_keys_put intro: wf_intros)
  qed
qed (simp add: router_errors_def List.map_filter_def go_keys_def)

lemma transform_routers_eq:
  assumes "transform_routers cfg routers = (errs, out)"
  shows "errs = router_errors cfg routers"
    and "errs = [] \<Longrightarrow> set (go_keys out) = set (go_keys routers)"
    and "(n, u) \<in> set out \<Longrightarrow> \<exists>raw. (n, raw) \<in> set routers \<and> TransformRouterToIngressRoute n raw (router_config cfg) = Inr u"
    and "wf_map out"
  using transform_routers_aux [OF assms [unfolded transform_routers_def]] by (auto simp: go_keys_def)

text \<open>
  C24. Routers are applied all or none: when one of them is rejected, the error lists every rejected
  router and nothing has been read from or written to the cluster.
\<close>

theorem reconcileRouters_rejects:
  assumes "router_errors (c_cfg c) routers \<noteq> []"
  shows "reconcileRouters c routers s = (Inl (Joined (router_errors (c_cfg c) routers)), s)"
  using assms transform_routers_eq(1) [of "c_cfg c" routers]
  by (cases "transform_routers (c_cfg c) routers") (simp add: reconcileRouters_def)

lemma applyIngressRoute_loop:
  assumes "\<not> ReadOnly (c_cfg c)"
  shows "loopIO (\<lambda>(name, u). applyIngressRoute c gvr name u) us =
    loopIO (\<lambda>k. IngressRouteOps_Apply (fst (snd (k_sys c gvr view rf)))
      ((route_ops c gvr)\<lparr>iro_ResIfc := fst (k_sys c gvr view rf)\<rparr>) (fst k) (snd k)) us"
  unfolding case_prod_beta applyIngressRoute_def using assms by (simp add: route_ops_def)

definition router_applied ::
  "reflection \<Rightarrow> Config \<Rightarrow> raw_message gomap \<Rightarrow> string \<Rightarrow> Unstructured option \<Rightarrow> Unstructured \<Rightarrow> bool" where
  "router_applied rf cfg routers name old u \<longleftrightarrow>
     (\<exists>raw route. (name, raw) \<in> set routers
        \<and> TransformRouterToIngressRoute name raw (router_config cfg) = Inr route
        \<and> carries rf ''IngressRoute'' (meta_config cfg) name route old u)"

lemma route_ops_meta: "iro_meta (route_ops c gvr) = meta_config (c_cfg c)"
  by (simp add: iro_meta_def route_ops_def meta_config_def)

lemma reconcileRouters_apply:
  assumes "setting c (gvrIngressRoute c) view rf" and "reconcileRouters c routers s = (Inr (), s')"
  shows "converged (c_cfg c) (set (go_keys routers)) (router_applied rf (c_cfg c) routers)
    (view (kube s)) (view (kube s'))"
proof -
  let ?g = "gvrIngressRoute c"
  obtain out v where t: "transform_routers (c_cfg c) routers = ([], out)"
      and a: "loopIO (\<lambda>(name, u). applyIngressRoute c ?g name u) out s = (Inr (), v)"
      and g: "gcStaleObjects c ?g routers ''IngressRoute'' v = (Inr (), s')"
    using assms(2) by (auto simp: reconcileRouters_def thenIO_Inr split: prod.splits if_splits)
  note k = setting_k [OF assms(1)]
  note loop = a [unfolded applyIngressRoute_loop [OF k(4), where view = view and rf = rf]]
  have d: "fst ` set out = set (go_keys routers)" "\<not> iro_ReadOnly (route_ops c ?g)"
    using transform_routers_eq(2) [OF t] k(4) by (simp_all add: go_keys_def route_ops_def)
  show ?thesis
  proof (rule converged_gc [OF assms(1) g])
    fix n assume "n \<in> set (go_keys routers)"
    with ingress_route.loop_writes [OF k(1) loop transform_routers_eq(4) [OF t, unfolded wf_map_def], of n]
      transform_routers_eq(3) [OF t]
    show "\<exists>u. view (kube v) n = Some u \<and> router_applied rf (c_cfg c) routers n (view (kube s) n) u"
      unfolding sys_simps router_applied_def route_ops_meta by (force simp: d)
  next
    fix n assume "n \<notin> set (go_keys routers)"
    with ingress_route.loop_frame [OF k(1) loop, of n] show "view (kube v) n = view (kube s) n"
      by (simp add: d sys_simps)
  qed
qed

text \<open>
  After the routers are reconciled, the managed IngressRoute objects of the namespace are those
  of the configuration, each with the route its router was transformed to, without a grace period no
  other managed one is left, and foreign IngressRoutes are untouched.
\<close>

theorem reconcileRouters_converges:
  assumes "setting c (gvrIngressRoute c) view rf" and "reconcileRouters c routers s = (Inr (), s')"
  shows "converged (c_cfg c) (set (go_keys routers)) (router_applied rf (c_cfg c) routers)
    (view (kube s)) (view (kube s'))"
  using assms by (rule reconcileRouters_apply)

section \<open>Read-only mode\<close>

definition typed_reads_pure :: "('w, 'o) TypedClient \<Rightarrow> bool" where
  "typed_reads_pure cl \<longleftrightarrow> (\<forall>n w. snd (typed_Get cl n w) = w) \<and> (\<forall>s w. snd (typed_List cl s w) = w)"

text \<open>Reading does not change the cluster, whatever is read.\<close>

definition all_reads_pure :: "'w Controller \<Rightarrow> bool" where
  "all_reads_pure c \<longleftrightarrow>
     (\<forall>gvr ns. reads_pure (c_dyn c gvr ns)) \<and> (\<forall>ns. typed_reads_pure (c_services c ns))
     \<and> (\<forall>ns. typed_reads_pure (c_slices c ns))"

text \<open>In read-only mode the phases keep whatever their lists of objects keep.\<close>

definition lists_keep :: "('w kst \<Rightarrow> bool) \<Rightarrow> 'w Controller \<Rightarrow> bool" where
  "lists_keep P c \<longleftrightarrow>
     (\<forall>gvr sel. keeps P (api_List (res_ifc c gvr) sel))
     \<and> (\<forall>ns sel. keeps P (typed_List (k_typed (c_services c ns)) sel))
     \<and> (\<forall>ns sel. keeps P (typed_List (k_typed (c_slices c ns)) sel))"

lemma all_reads_pure_lists: "all_reads_pure c \<Longrightarrow> lists_keep (\<lambda>x. x = s) c"
  by (simp add: lists_keep_def all_reads_pure_def reads_pure_def typed_reads_pure_def k_client_List k_typed_def
      keeps_def k_io_eq)

lemma keeps_gc_read_only [keeps_intros]:
  "lists_keep P c \<Longrightarrow> ReadOnly (c_cfg c) \<Longrightarrow> keeps P (gcStaleObjects c gvr desired kind)"
  unfolding gcStaleObjects_def gc_item_def staleManagedName_eq
  by (intro keeps_intros) (auto simp: lists_keep_def intro: keeps_intros)

lemma keeps_apply_read_only [keeps_intros]:
  "ReadOnly (c_cfg c) \<Longrightarrow> keeps P (applyDesiredObjects c gvr objects)"
  by (simp add: applyDesiredObjects_def keeps_intros)

lemma keeps_gc_typed_read_only [keeps_intros]:
  "(\<And>sel. keeps P (typed_List cl sel)) \<Longrightarrow> ReadOnly (c_cfg c) \<Longrightarrow> keeps P (gc_typed c cl name anno desired)"
  unfolding gc_typed_def by (intro keeps_intros) (auto intro: keeps_intros)

lemma keeps_artifacts_read_only [keeps_intros]:
  assumes "lists_keep P c" and "ReadOnly (c_cfg c)"
  shows "keeps P (reconcile_artifacts c gvr kind arts)"
proof -
  have r: "keeps P (IngressRouteOps_ApplySingle env (route_ops c gvr) m kind)" for env m
    using assms(2) by (simp add: keeps_def ApplySingle_idle route_ops_def)
  show ?thesis
    unfolding reconcile_artifacts_def applyProtocolArtifacts_def applyProtocolServices_def applyProtocolSlices_def
      applyProtocolIngressRoutes_def gcStaleCoreServices_def gcStaleEndpointSlices_def Let_def case_prod_beta
    using assms
    by (intro keeps_intros r)
      (auto simp: applyCoreService_def applyEndpointSlice_def Let_def lists_keep_def intro: keeps_intros)
qed

lemma keeps_phases_read_only:
  assumes "lists_keep P c" and "ReadOnly (c_cfg c)"
  shows "keeps P (reconcileMiddlewares c ms)" and "keeps P (reconcileRouters c rs)"
    and "keeps P (reconcileServersTransports c ts)" and "keeps P (reconcileServices c ss)"
    and "keeps P (reconcileTCP c cfg)" and "keeps P (reconcileUDP c cfg)"
proof -
  have st: "keeps P (reconcileServersTransportTCP c ts)" for ts
    using assms by (auto simp: reconcileServersTransportTCP_def Let_def intro: keeps_intros split: option.split)
  show "keeps P (reconcileMiddlewares c ms)" "keeps P (reconcileServices c ss)"
    using assms by (auto simp: reconcileMiddlewares_def reconcileServices_def Let_def intro: keeps_intros)
  show "keeps P (reconcileRouters c rs)"
    using assms by (auto simp: reconcileRouters_def applyIngressRoute_def intro!: keeps_intros split: prod.split)
  show "keeps P (reconcileServersTransports c ts)"
    using assms by (auto simp: reconcileServersTransports_def intro: keeps_intros split: option.split)
  show "keeps P (reconcileTCP c cfg)" "keeps P (reconcileUDP c cfg)"
    using assms st by (auto simp: reconcileTCP_def reconcileUDP_def intro!: keeps_intros split: option.split)
qed

lemma sequential_read_only:
  assumes "all_reads_pure c" and "ReadOnly (c_cfg c)"
  shows "snd (applyConfigSequential c cfg s) = s"
proof -
  note ph = keeps_phases_read_only [OF all_reads_pure_lists [OF assms(1)] assms(2)]
  have "keeps (\<lambda>x. x = s) (applyConfigSequential c cfg)"
    unfolding applyConfigSequential_def by (intro keeps_intros ph)
  then show ?thesis by (simp add: keeps_def)
qed

section \<open>Instances\<close>

text \<open>A typed client of a namespace that holds nothing and refuses to create.\<close>

definition no_objects :: "('w, 'o) TypedClient" where
  "no_objects =
     \<lparr>typed_Get = (\<lambda>n w. (Inl (KubeErr NotFound n), w)), typed_Create = (\<lambda>u w. (Inl (ErrMsg ''forbidden''), w)),
      typed_Update = (\<lambda>u w. (Inl (ErrMsg ''forbidden''), w)), typed_Delete = (\<lambda>n w. (Inl (KubeErr NotFound n), w)),
      typed_List = (\<lambda>s w. (Inr [], w))\<rparr>"

definition demo :: "Config \<Rightarrow> mem Controller" where
  "demo cfg = NewController cfg (\<lambda>_ _. mem_client) (\<lambda>_. no_objects) (\<lambda>_. no_objects) mem_outside example_net
     (\<lambda>_. False) (\<lambda>_. False)"

definition demo_cfg :: Config where
  "demo_cfg = newDefaults example_host"

definition demo_object :: "string \<Rightarrow> Unstructured" where
  "demo_object n = \<lparr>GetName = n, GetLabels = Some [(''app.kubernetes.io/managed-by'', ''pangolin-kube-controller'')],
     GetAnnotations = Some [(''pangolin.io/managed-by'', ''pangolin-kube-controller'')], UnstructuredContent = []\<rparr>"

definition demo_state :: "mem kst" where
  "demo_state = \<lparr>kube = [demo_object ''old'', (demo_object ''foreign'')\<lparr>GetAnnotations := None\<rparr>],
     graceDelQueue = None, inflight = []\<rparr>"

definition demo_section :: "raw_message gomap" where
  "demo_section = [(''new'', RawJSON (IMap [(''addPrefix'', IMap [(''prefix'', IStr ''/x'')])]))]"

definition demo_routers :: "raw_message gomap" where
  "demo_routers = [(''r'', RawJSON (IMap [(''rule'', IStr ''Host(`a`)''), (''service'', IStr ''web'')]))]"

lemma demo_cfg_fields: "\<not> ReadOnly demo_cfg" "GCGracePeriod demo_cfg \<le> 0" "\<not> ReconcileParallel demo_cfg"
    "CHR ''='' \<notin> set (ManagedLabelKey demo_cfg)"
  by code_simp+

lemma demo_section_wf: "wf_map demo_section"
  by (simp add: demo_section_def wf_map_def)

lemma demo_setting: "setting (demo demo_cfg) gvr mem_view mem_reflects"
  using demo_cfg_fields
  by (simp add: setting_def demo_def NewController_def mem_client_laws mem_content_law mem_decode_law mem_wait_law)

lemma demo_gvr: "gvrMiddleware (demo cfg) = traefik_gvr ''middlewares''"
    "gvrTraefikService (demo cfg) = traefik_gvr ''traefikservices''"
    "gvrIngressRoute (demo cfg) = traefik_gvr ''ingressroutes''" "c_cfg (demo cfg) = cfg" "c_net (demo cfg) = example_net"
  by (simp_all add: demo_def NewController_def)

lemma run_unit: "fst p = Inr () \<Longrightarrow> p = (Inr (), snd p)"
  by (simp add: prod_eq_iff)

lemma convergedD:
  assumes "converged cfg desired good old new"
  shows "n \<in> desired \<Longrightarrow> new n \<noteq> None"
    and "GCGracePeriod cfg \<le> 0 \<Longrightarrow> \<forall>n x. new n = Some x \<and> managed cfg x \<longrightarrow> n \<in> desired"
    and "GCGracePeriod cfg \<le> 0 \<Longrightarrow> n \<notin> desired \<Longrightarrow> old n = Some x \<Longrightarrow> new n = (if managed cfg x then None else Some x)"
  using assms by (auto simp: converged_def)

theorem gcStaleObjects_exact_witness:
  "mem_view (kube (snd (gcStaleObjects (demo demo_cfg) (traefik_gvr ''middlewares'') demo_section ''Middleware'' demo_state)))
     ''old'' = None"
proof -
  have "fst (gcStaleObjects (demo demo_cfg) (traefik_gvr ''middlewares'') demo_section ''Middleware'' demo_state) = Inr ()"
    by code_simp
  note run = run_unit [OF this]
  have "mem_view (kube demo_state) ''old'' = Some (demo_object ''old'')"
      "managed demo_cfg (demo_object ''old'') \<and> ''old'' \<notin> set (go_keys demo_section)"
    by code_simp+
  with gcStaleObjects_exact [OF _ _ _ _ run, of mem_view "''old''"] demo_cfg_fields show ?thesis
    by (simp add: demo_def NewController_def mem_client_laws)
qed

theorem reconcileMiddlewares_converges_witness:
  "\<exists>s'. reconcileMiddlewares (demo demo_cfg) demo_section demo_state = (Inr (), s')
    \<and> mem_view (kube s') ''old'' = None \<and> mem_view (kube s') ''new'' \<noteq> None
    \<and> mem_view (kube s') ''foreign'' = mem_view (kube demo_state) ''foreign''"
proof -
  have "fst (reconcileMiddlewares (demo demo_cfg) demo_section demo_state) = Inr ()" by code_simp
  note run = run_unit [OF this]
  have k: "go_keys demo_section = [''new'']"
    "\<not> managed demo_cfg ((demo_object ''foreign'')\<lparr>GetAnnotations := None\<rparr>)" "managed demo_cfg (demo_object ''old'')"
    "mem_view (kube demo_state) ''old'' = Some (demo_object ''old'')"
    "mem_view (kube demo_state) ''foreign'' = Some ((demo_object ''foreign'')\<lparr>GetAnnotations := None\<rparr>)"
    by code_simp+
  note c = convergedD [OF reconcileMiddlewares_converges [OF demo_setting demo_section_wf run], unfolded demo_gvr k(1)]
  show ?thesis
    using run c(1) [of "''new''"] c(3) [OF demo_cfg_fields(2) _ k(4)] c(3) [OF demo_cfg_fields(2) _ k(5)] k(2-5) by (intro exI conjI) simp_all
qed

theorem reconcileServices_converges_witness:
  "\<exists>s'. reconcileServices (demo demo_cfg) (Some demo_section) demo_state = (Inr (), s')
    \<and> (\<forall>n x. mem_view (kube s') n = Some x \<and> managed demo_cfg x \<longrightarrow> n = ''new'')"
proof -
  have "fst (reconcileServices (demo demo_cfg) (Some demo_section) demo_state) = Inr ()" by code_simp
  note run = run_unit [OF this]
  have k: "go_keys (of_nil (Some demo_section)) = [''new'']" by code_simp
  from convergedD(2) [OF reconcileServices_converges [OF demo_setting _ run], unfolded demo_gvr k] run demo_section_wf
    demo_cfg_fields(2) show ?thesis by (intro exI conjI) simp_all
qed

theorem reconcileRouters_converges_witness:
  "\<exists>s'. reconcileRouters (demo demo_cfg) demo_routers demo_state = (Inr (), s')
    \<and> (\<forall>n x. mem_view (kube s') n = Some x \<and> managed demo_cfg x \<longrightarrow> n = ''r'')"
proof -
  have "fst (reconcileRouters (demo demo_cfg) demo_routers demo_state) = Inr ()" by code_simp
  note run = run_unit [OF this]
  have k: "go_keys demo_routers = [''r'']" by code_simp
  from convergedD(2) [OF reconcileRouters_converges [OF demo_setting run], unfolded demo_gvr k] run demo_cfg_fields(2)
  show ?thesis by (intro exI conjI) simp_all
qed

theorem reconcileRouters_rejects_witness:
  "\<exists>es. length es = 2 \<and> reconcileRouters (demo demo_cfg)
     ((''a'', RawText ''{'') # (''b'', RawJSON (IMap [])) # demo_routers) demo_state = (Inl (Joined es), demo_state)"
proof -
  let ?rs = "(''a'', RawText ''{'') # (''b'', RawJSON (IMap [])) # demo_routers"
  have l: "length (router_errors demo_cfg ?rs) = 2" by code_simp
  then have "router_errors (c_cfg (demo demo_cfg)) ?rs \<noteq> []" by (auto simp: demo_gvr)
  from reconcileRouters_rejects [OF this] l show ?thesis
    unfolding demo_gvr by blast
qed

end
