(* ===== verification/Converge.thy ===== *)
theory Converge
  imports Reconcile
begin

text \<open>
  Applying a whole configuration. The phases of \<open>applyConfig\<close> work on different resource types; what
  one phase does leaves the objects of the other types alone, so that at the end of a sequential run
  every section has converged (\<open>sequential_converges\<close>; \<open>Parallel\<close> has the other mode and the theorem
  about \<open>applyConfig\<close>). The frame rules are instances of one contract: an operation
  keeps a predicate that its client and its timer keep.

  The view of the cluster is now a family, one view per resource type; \<open>cluster_laws\<close> collects what is
  assumed of the API server for all of them.
\<close>

section \<open>Frames\<close>

definition keeps_client :: "('w \<Rightarrow> bool) \<Rightarrow> 'w ResourceClient \<Rightarrow> bool" where
  "keeps_client P cl \<longleftrightarrow>
     (\<forall>n. keeps P (api_Get cl n)) \<and> (\<forall>u opts. keeps P (api_Create cl u opts))
   \<and> (\<forall>n d opts. keeps P (api_Patch cl n d opts)) \<and> (\<forall>n. keeps P (api_Delete cl n)) \<and> (\<forall>s. keeps P (api_List cl s))"

definition keeps_wait :: "('w \<Rightarrow> bool) \<Rightarrow> 'w outside \<Rightarrow> bool" where
  "keeps_wait P env \<longleftrightarrow> (\<forall>d w. P w \<longrightarrow> P (snd (wait env d w)))"

lemma keeps_clientD:
  assumes "keeps_client P cl"
  shows "keeps P (api_Get cl n)" "keeps P (api_Create cl u copts)" "keeps P (api_Patch cl n d popts)"
    "keeps P (api_Delete cl n)" "keeps P (api_List cl s)"
  using assms by (simp_all add: keeps_client_def)

lemma keeps_ssa_loop:
  assumes "keeps P patch" and "keeps_wait P env"
  shows "keeps P (ssa_loop env patch uf k b le)"
proof -
  have "P (snd (ssa_loop env patch uf k b le w))" if "P w" for w
    using that
  proof (induction k arbitrary: b le w)
    case (Suc k)
    obtain r v where p: "patch w = (r, v)" by fastforce
    have v: "P v" using keepsD [OF assms(1) Suc.prems] p by simp
    obtain c v' where wt: "wait env b v = (c, v')" by fastforce
    with v assms(2) have "P v'" by (metis keeps_wait_def snd_conv)
    with Suc.IH v p wt show ?case by (auto split: sum.split bool.split)
  qed (auto split: option.split)
  then show ?thesis by (simp add: keeps_def)
qed

lemma keeps_get_or_missing:
  "keeps P get \<Longrightarrow> keeps P missing \<Longrightarrow> (\<And>x. keeps P (found x)) \<Longrightarrow> keeps P (get_or_missing get missing found)"
  unfolding get_or_missing_def by (intro keeps_intros) auto

text \<open>The writing operations keep what their client and timer keep.\<close>

lemma keeps_create_patch:
  assumes "keeps_client P cl" and "keeps_wait P env"
  shows "keeps P (CreateUnstructured env cl u kind)" and "keeps P (PatchUnstructured env cl name u ex kind pc)"
  unfolding CreateUnstructured_def PatchUnstructured_def ApplySSAWithRetry_def Let_def
  by (intro keeps_intros keeps_clientD [OF assms(1)] keeps_ssa_loop assms(2))+

lemma keeps_UnstructuredOps_Apply:
  assumes "keeps_client P (uo_Dyn ops (uo_GVR ops) (uo_Namespace ops))" and "keeps_wait P env"
  shows "keeps P (UnstructuredOps_Apply env ops name raw mc)"
  unfolding UnstructuredOps_Apply_def Let_def AdaptResource_id case_prod_beta
  by (intro keeps_intros keeps_get_or_missing keeps_create_patch keeps_clientD [OF assms(1)] assms)

lemma keeps_IngressRouteOps_Apply:
  assumes "keeps_client P (iro_ResIfc ops)" and "keeps_wait P env"
  shows "keeps P (IngressRouteOps_Apply env ops name u)"
  unfolding IngressRouteOps_Apply_def Let_def case_prod_beta
  by (intro keeps_intros keeps_get_or_missing keeps_create_patch keeps_clientD [OF assms(1)] assms)

lemma keeps_IngressRouteOps_ApplySingle:
  assumes "keeps_client P (iro_ResIfc ops)" and "keeps_wait P env"
  shows "keeps P (IngressRouteOps_ApplySingle env ops m kind)"
  unfolding IngressRouteOps_ApplySingle_def Let_def case_prod_beta
  by (intro keeps_intros keeps_get_or_missing keeps_create_patch keeps_clientD [OF assms(1)] assms)

text \<open>The same for the operations of the controller, whose state has the deletion queue besides.\<close>

definition keeps_sys :: "'w Controller \<Rightarrow> GVR \<Rightarrow> ('w kst \<Rightarrow> bool) \<Rightarrow> bool" where
  "keeps_sys c gvr P \<longleftrightarrow>
     keeps_client P (res_ifc c gvr) \<and> keeps_wait P (k_outside (c_env c))"

lemma keeps_applyDesiredObjects:
  assumes "keeps_sys c gvr P"
  shows "keeps P (applyDesiredObjects c gvr objects)"
  using assms unfolding applyDesiredObjects_def Let_def case_prod_beta keeps_sys_def
  by (intro keeps_intros keeps_UnstructuredOps_Apply) (auto simp: res_ifc_def)

lemma keeps_applyIngressRoute:
  assumes "keeps_sys c gvr P"
  shows "keeps P (applyIngressRoute c gvr name u)"
  using assms unfolding applyIngressRoute_def keeps_sys_def
  by (intro keeps_intros keeps_IngressRouteOps_Apply) (auto simp: route_ops_def)

lemma keeps_gcStaleObjects:
  assumes "keeps_sys c gvr P"
    and "\<And>n. \<not> ReadOnly (c_cfg c) \<Longrightarrow> GCGracePeriod (c_cfg c) > 0 \<Longrightarrow> keeps P (scheduleGraceDeletion c kind n)"
  shows "keeps P (gcStaleObjects c gvr desired kind)"
  using assms unfolding gcStaleObjects_def gc_item_def staleManagedName_eq case_prod_beta deleteImmediate_def keeps_sys_def
  by (intro keeps_intros) (auto intro: keeps_clientD)

lemma keeps_phases:
  assumes "keeps_sys c gvr P"
    and "\<And>n. \<not> ReadOnly (c_cfg c) \<Longrightarrow> GCGracePeriod (c_cfg c) > 0 \<Longrightarrow> keeps P (scheduleGraceDeletion c kind n)"
  shows "keeps P (thenIO (applyDesiredObjects c gvr objects) (gcStaleObjects c gvr desired kind))"
    and "gvr = gvrIngressRoute c \<Longrightarrow> kind = ''IngressRoute'' \<Longrightarrow> keeps P (reconcileRouters c routers)"
  using assms unfolding reconcileRouters_def case_prod_beta
  by (auto intro!: keeps_intros keeps_applyDesiredObjects keeps_gcStaleObjects keeps_applyIngressRoute)

section \<open>The laws of the whole cluster\<close>

type_synonym 'w views = "GVR \<Rightarrow> 'w \<Rightarrow> string \<Rightarrow> Unstructured option"

definition cluster_laws :: "'w Controller \<Rightarrow> 'w views \<Rightarrow> reflection \<Rightarrow> bool" where
  "cluster_laws c views rf \<longleftrightarrow>
     (\<forall>g. client_laws (c_dyn c g (Namespace (c_cfg c))) (views g)
        \<and> content_law (c_dyn c g (Namespace (c_cfg c))) (views g) rf \<and> wait_law (c_env c) (views g))
   \<and> decode_law (c_env c)
   \<and> (\<forall>g h v. g \<noteq> h \<longrightarrow> keeps_client (\<lambda>w. views h w = v) (c_dyn c g (Namespace (c_cfg c))))"

text \<open>The controller is not read-only, and the label selector can be read back.\<close>

definition writable :: "Config \<Rightarrow> bool" where
  "writable cfg \<longleftrightarrow> CHR ''='' \<notin> set (ManagedLabelKey cfg) \<and> \<not> ReadOnly cfg"

lemma cluster_setting: "cluster_laws c views rf \<Longrightarrow> writable (c_cfg c) \<Longrightarrow> setting c g (views g) rf"
  by (simp add: cluster_laws_def writable_def setting_def)

lemma k_io_keeps: "keeps P m \<Longrightarrow> keeps (\<lambda>s. P (kube s)) (k_io m)"
  by (simp add: keeps_def k_io_eq)

lemma keeps_k_client: "keeps_client P cl \<Longrightarrow> keeps_client (\<lambda>s. P (kube s)) (k_client cl)"
  by (simp add: keeps_client_def k_client_def k_io_keeps)

lemma cluster_frame:
  assumes "cluster_laws c views rf" and "g \<noteq> h"
  shows "keeps_sys c g (\<lambda>s. views h (kube s) = v)"
  using assms keeps_k_client [of "\<lambda>w. views h w = v"]
  by (auto simp: keeps_sys_def cluster_laws_def res_ifc_def keeps_wait_def k_outside_def wait_law_def
      split: prod.split) (metis snd_conv)

text \<open>A phase that succeeds leaves the other resource types as they were.\<close>

lemma section_frame:
  assumes "cluster_laws c views rf" and "g \<noteq> h"
    and "thenIO (applyDesiredObjects c g objects) (gcStaleObjects c g desired kind) s = (Inr x, s')"
  shows "views h (kube s') = views h (kube s)"
  using keepsD [OF keeps_phases(1) [OF cluster_frame [OF assms(1,2)] schedule_kube], of s] assms(3)
  by (metis snd_conv)

lemma routers_frame:
  assumes "cluster_laws c views rf" and "gvrIngressRoute c \<noteq> h" and "reconcileRouters c routers s = (Inr x, s')"
  shows "views h (kube s') = views h (kube s)"
  using keepsD [OF keeps_phases(2) [OF cluster_frame [OF assms(1,2)] schedule_kube refl refl], of s] assms(3)
  by (metis snd_conv)

section \<open>The sequential run converges\<close>

text \<open>The four sections of a sanitised configuration, before and after.\<close>

definition http_converged ::
  "'w Controller \<Rightarrow> 'w views \<Rightarrow> reflection \<Rightarrow> TraefikConfig \<Rightarrow> 'w \<Rightarrow> 'w \<Rightarrow> bool" where
  "http_converged c views rf cfg w w' \<longleftrightarrow>
     (let mws = of_nil (Middlewares (HTTP cfg)); rs = of_nil (Routers (HTTP cfg));
          ts = of_nil (ServersTransports (HTTP cfg)); ss = of_nil (Services (HTTP cfg)) in
      converged (c_cfg c) (set (go_keys mws)) (entry_applied rf (c_cfg c) (gvrMiddleware c) mws)
        (views (gvrMiddleware c) w) (views (gvrMiddleware c) w')
    \<and> converged (c_cfg c) (set (go_keys rs)) (router_applied rf (c_cfg c) rs)
        (views (gvrIngressRoute c) w) (views (gvrIngressRoute c) w')
    \<and> converged (c_cfg c) (set (go_keys ts)) (entry_applied rf (c_cfg c) (gvrServersTransport c) ts)
        (views (gvrServersTransport c) w) (views (gvrServersTransport c) w')
    \<and> converged (c_cfg c) (set (go_keys ss))
        (entry_applied rf (c_cfg c) (gvrTraefikService c) (of_nil (ProcessServices (c_net c) (Some (c_cfg c)) (Some ss))))
        (views (gvrTraefikService c) w) (views (gvrTraefikService c) w'))"

lemma sequential_phases:
  assumes "applyConfigSequential c cfg s = (Inr (), s')" and "TCP cfg = None" and "UDP cfg = None"
    and "ServersTransports (HTTP cfg) = Some ts"
  obtains s1 s2 s3
  where "thenIO (applyDesiredObjects c (gvrMiddleware c) (of_nil (Middlewares (HTTP cfg))))
      (gcStaleObjects c (gvrMiddleware c) (of_nil (Middlewares (HTTP cfg))) ''Middleware'') s = (Inr (), s1)"
    and "reconcileRouters c (of_nil (Routers (HTTP cfg))) s1 = (Inr (), s2)"
    and "thenIO (applyDesiredObjects c (gvrServersTransport c) ts)
      (gcStaleObjects c (gvrServersTransport c) ts ''ServersTransport'') s2 = (Inr (), s3)"
    and "reconcileServices c (Services (HTTP cfg)) s3 = (Inr (), s')"
  using assms
  by (auto simp: applyConfigSequential_def thenIO_Inr wrapIO_Inr reconcileTCP_def reconcileUDP_def
      reconcileMiddlewares_def reconcileServersTransports_def)

lemma sequential_converges:
  assumes laws: "cluster_laws c views rf" "writable (c_cfg c)"
    and kinds: "distinct [gvrMiddleware c, gvrIngressRoute c, gvrServersTransport c, gvrTraefikService c]"
    and run: "applyConfigSequential c cfg s = (Inr (), s')" "TCP cfg = None" "UDP cfg = None"
    and sections: "ServersTransports (HTTP cfg) = Some ts" "Services (HTTP cfg) = Some ss"
      "wf_map (of_nil (Middlewares (HTTP cfg)))" "wf_map ts" "wf_map ss"
  shows "http_converged c views rf cfg (kube s) (kube s')"
proof -
  from run sections(1) obtain s1 s2 s3 where
    p: "thenIO (applyDesiredObjects c (gvrMiddleware c) (of_nil (Middlewares (HTTP cfg))))
        (gcStaleObjects c (gvrMiddleware c) (of_nil (Middlewares (HTTP cfg))) ''Middleware'') s = (Inr (), s1)"
      "reconcileRouters c (of_nil (Routers (HTTP cfg))) s1 = (Inr (), s2)"
      "thenIO (applyDesiredObjects c (gvrServersTransport c) ts)
        (gcStaleObjects c (gvrServersTransport c) ts ''ServersTransport'') s2 = (Inr (), s3)"
      "reconcileServices c (Some ss) s3 = (Inr (), s')"
    by (rule sequential_phases) (simp add: sections)
  note st = cluster_setting [OF laws]
  note c = apply_gc_converges [OF st sections(3) p(1)] reconcileRouters_apply [OF st p(2)]
    apply_gc_converges [OF st sections(4) p(3)] reconcileServices_apply [OF st _ p(4)]
  have d: "gvrMiddleware c \<noteq> gvrIngressRoute c" "gvrMiddleware c \<noteq> gvrServersTransport c"
      "gvrMiddleware c \<noteq> gvrTraefikService c" "gvrIngressRoute c \<noteq> gvrServersTransport c"
      "gvrIngressRoute c \<noteq> gvrTraefikService c" "gvrServersTransport c \<noteq> gvrTraefikService c"
    using kinds by simp_all
  note q = p(4) [unfolded reconcileServices_def Let_def]
  have "views (gvrMiddleware c) (kube s') = views (gvrMiddleware c) (kube s1)"
    using section_frame [OF laws(1) _ q] section_frame [OF laws(1) _ p(3)] routers_frame [OF laws(1) _ p(2)] d by metis
  moreover have "views (gvrIngressRoute c) (kube s') = views (gvrIngressRoute c) (kube s2)"
      "views (gvrIngressRoute c) (kube s1) = views (gvrIngressRoute c) (kube s)"
    using section_frame [OF laws(1) _ q] section_frame [OF laws(1) _ p(3)] section_frame [OF laws(1) _ p(1)] d by metis+
  moreover have "views (gvrServersTransport c) (kube s') = views (gvrServersTransport c) (kube s3)"
      "views (gvrServersTransport c) (kube s2) = views (gvrServersTransport c) (kube s)"
    using section_frame [OF laws(1) _ q] routers_frame [OF laws(1) _ p(2)] section_frame [OF laws(1) _ p(1)] d by metis+
  moreover have "views (gvrTraefikService c) (kube s3) = views (gvrTraefikService c) (kube s)"
    using section_frame [OF laws(1) _ p(3)] routers_frame [OF laws(1) _ p(2)] section_frame [OF laws(1) _ p(1)] d by metis
  ultimately show ?thesis
    using c sections(5) unfolding http_converged_def Let_def sections(1,2) by (simp add: of_nil_def)
qed

section \<open>A cluster in memory\<close>

text \<open>One store per resource type.\<close>

type_synonym cluster = "GVR \<Rightarrow> mem"

definition at_gvr :: "GVR \<Rightarrow> (mem, 'a) io \<Rightarrow> (cluster, 'a) io" where
  "at_gvr g m w = (case m (w g) of (r, x) \<Rightarrow> (r, w(g := x)))"

definition cluster_client :: "GVR \<Rightarrow> cluster ResourceClient" where
  "cluster_client g =
     \<lparr>api_Get = (\<lambda>n. at_gvr g (api_Get mem_client n)), api_Create = (\<lambda>u opts. at_gvr g (api_Create mem_client u opts)),
      api_Patch = (\<lambda>n d opts. at_gvr g (api_Patch mem_client n d opts)),
      api_Delete = (\<lambda>n. at_gvr g (api_Delete mem_client n)), api_List = (\<lambda>s. at_gvr g (api_List mem_client s))\<rparr>"

definition cluster_outside :: "cluster outside" where
  "cluster_outside = \<lparr>UnmarshalJSON = mem_decode, wait = (\<lambda>d w. (True, w))\<rparr>"

definition cluster_views :: "cluster views" where
  "cluster_views g w = mem_view (w g)"

definition cluster_demo :: "Config \<Rightarrow> cluster Controller" where
  "cluster_demo cfg = NewController cfg (\<lambda>g _. cluster_client g) (\<lambda>_. no_objects) (\<lambda>_. no_objects) cluster_outside
     example_net (\<lambda>_. False) (\<lambda>_. False)"

lemma at_gvr_eq: "at_gvr g m w = (fst (m (w g)), w(g := snd (m (w g))))"
  by (simp add: at_gvr_def split: prod.split)

lemma at_gvr_parts: "fst (at_gvr g m w) = fst (m (w g))" "snd (at_gvr g m w) g = snd (m (w g))"
  by (simp_all add: at_gvr_eq)

lemma cluster_client_laws: "client_laws (cluster_client g) (cluster_views g)"
  using mem_client_laws
  unfolding client_laws_def cluster_client_def ResourceClient.select_convs cluster_views_def at_gvr_parts
  by (elim conjE, intro conjI allI) simp_all

lemma at_gvr_Inr: "at_gvr g m w = (r, w') \<longleftrightarrow> (\<exists>x. m (w g) = (r, x) \<and> w' = w(g := x))"
  by (auto simp: at_gvr_eq prod_eq_iff)

lemma cluster_content_law: "content_law (cluster_client g) (cluster_views g) mem_reflects"
  using mem_content_law unfolding content_law_def cluster_client_def ResourceClient.select_convs at_gvr_Inr cluster_views_def
  by (elim conjE, intro conjI allI impI; elim exE conjE) auto

lemma cluster_demo_laws: "cluster_laws (cluster_demo cfg) cluster_views mem_reflects"
  using cluster_client_laws cluster_content_law mem_decode_law
  by (simp add: cluster_laws_def cluster_demo_def NewController_def wait_law_def cluster_outside_def decode_law_def
      mem_outside_def keeps_client_def keeps_def cluster_client_def at_gvr_eq cluster_views_def)

definition cluster_state :: "cluster kst" where
  "cluster_state = \<lparr>kube = (\<lambda>_. [demo_object ''old'']), graceDelQueue = None, inflight = []\<rparr>"

definition cluster_cfg :: TraefikConfig where
  "cluster_cfg = \<lparr>HTTP = \<lparr>Middlewares = Some demo_section, Routers = Some demo_routers, Services = Some demo_section,
     ServersTransports = None\<rparr>, TCP = None, UDP = None\<rparr>"

end
