(* ===== verification/Tracking.thy ===== *)
theory Tracking
  imports Converge
begin

text \<open>
  When two runs of the same operation, against different clients, go the same way. \<open>tracks D R m n\<close>
  says that \<open>m\<close> and \<open>n\<close>, started in states related by \<open>R\<close>, return the same and end in related states,
  unless \<open>m\<close> ends in a state that satisfies \<open>D\<close>, which then lasts. The operations of the controller
  track each other when their clients and timers do: one rule per operation, as for \<open>keeps\<close>.
\<close>

named_theorems tracks_intros \<open>rules for operations that go the same way in related states\<close>

definition tracks ::
  "('v \<Rightarrow> bool) \<Rightarrow> ('v \<Rightarrow> 'w \<Rightarrow> bool) \<Rightarrow> ('v \<Rightarrow> 'r \<times> 'v) \<Rightarrow> ('w \<Rightarrow> 'r \<times> 'w) \<Rightarrow> bool" where
  "tracks D R m n \<longleftrightarrow>
     (\<forall>v. D v \<longrightarrow> D (snd (m v)))
   \<and> (\<forall>v w. R v w \<longrightarrow> fst (m v) = fst (n w) \<and> R (snd (m v)) (snd (n w)) \<or> D (snd (m v)))"

lemma tracksD: "tracks D R m n \<Longrightarrow> R v w \<Longrightarrow> m v = (r, v') \<Longrightarrow> \<not> D v' \<Longrightarrow> \<exists>w'. n w = (r, w') \<and> R v' w'"
  unfolding tracks_def by (metis fst_conv prod.collapse snd_conv)

lemma tracks_ret [tracks_intros]: "tracks D R (retIO x) (retIO x)"
  by (simp add: tracks_def)

lemma tracks_fail [tracks_intros]: "tracks D R (failIO e) (failIO e)"
  by (simp add: tracks_def)

lemma tracks_lift [tracks_intros]: "tracks D R (liftIO r) (liftIO r)"
  by (simp add: tracks_def)

text \<open>Both runs go on with what they have returned.\<close>

lemma tracks_continue:
  assumes m: "tracks D R m n" and f: "\<And>r. tracks D R (f r) (g r)"
  shows "tracks D R (\<lambda>v. case m v of (r, v') \<Rightarrow> f r v') (\<lambda>w. case n w of (r, w') \<Rightarrow> g r w')"
  unfolding tracks_def
proof (intro conjI allI impI)
  fix v assume "D v"
  with m have "D (snd (m v))" by (simp add: tracks_def)
  with f show "D (snd (case m v of (r, v') \<Rightarrow> f r v'))" by (cases "m v") (simp add: tracks_def)
next
  fix v w assume R: "R v w"
  obtain r v' where v: "m v = (r, v')" by fastforce
  obtain q w' where w: "n w = (q, w')" by fastforce
  show "fst (case m v of (r, v') \<Rightarrow> f r v') = fst (case n w of (r, w') \<Rightarrow> g r w')
      \<and> R (snd (case m v of (r, v') \<Rightarrow> f r v')) (snd (case n w of (r, w') \<Rightarrow> g r w'))
    \<or> D (snd (case m v of (r, v') \<Rightarrow> f r v'))"
  proof (cases "D v'")
    case True
    with f v show ?thesis by (simp add: tracks_def)
  next
    case False
    from tracksD [OF m R v False] w have "q = r" "R v' w'" by auto
    with f [of r] v w show ?thesis by (simp add: tracks_def)
  qed
qed

lemma caseIO_continue:
  "caseIO m h f = (\<lambda>v. case m v of (r, v') \<Rightarrow> (case r of Inl e \<Rightarrow> h e | Inr x \<Rightarrow> f x) v')"
  by (rule ext) (auto simp: caseIO_def split: prod.split sum.split)

lemma tracks_case [tracks_intros]:
  assumes "tracks D R m n" and "\<And>e. tracks D R (h e) (k e)" and "\<And>x. tracks D R (f x) (g x)"
  shows "tracks D R (caseIO m h f) (caseIO n k g)"
  unfolding caseIO_continue by (rule tracks_continue) (use assms in \<open>auto split: sum.split\<close>)

lemma tracks_bind [tracks_intros]:
  "tracks D R m n \<Longrightarrow> (\<And>x. tracks D R (f x) (g x)) \<Longrightarrow> tracks D R (bindIO m f) (bindIO n g)"
  unfolding bindIO_def by (intro tracks_intros) auto

lemma tracks_then [tracks_intros]: "tracks D R m n \<Longrightarrow> tracks D R f g \<Longrightarrow> tracks D R (thenIO m f) (thenIO n g)"
  unfolding thenIO_def by (intro tracks_intros) auto

lemma tracks_loop [tracks_intros]:
  "(\<And>x. tracks D R (f x) (g x)) \<Longrightarrow> tracks D R (loopIO f xs) (loopIO g xs)"
  by (induction xs) (auto intro: tracks_intros)

lemma tracks_if [tracks_intros]:
  "(b \<Longrightarrow> tracks D R m n) \<Longrightarrow> (\<not> b \<Longrightarrow> tracks D R f g) \<Longrightarrow>
   tracks D R (if b then m else f) (if b then n else g)"
  by simp

section \<open>Clients and timers\<close>

definition tracks_client :: "('v \<Rightarrow> bool) \<Rightarrow> ('v \<Rightarrow> 'w \<Rightarrow> bool) \<Rightarrow> 'v ResourceClient \<Rightarrow> 'w ResourceClient \<Rightarrow> bool" where
  "tracks_client D R cl dl \<longleftrightarrow>
     (\<forall>n. tracks D R (api_Get cl n) (api_Get dl n)) \<and> (\<forall>u opts. tracks D R (api_Create cl u opts) (api_Create dl u opts))
   \<and> (\<forall>n d opts. tracks D R (api_Patch cl n d opts) (api_Patch dl n d opts))
   \<and> (\<forall>n. tracks D R (api_Delete cl n) (api_Delete dl n)) \<and> (\<forall>s. tracks D R (api_List cl s) (api_List dl s))"

definition tracks_outside :: "('v \<Rightarrow> bool) \<Rightarrow> ('v \<Rightarrow> 'w \<Rightarrow> bool) \<Rightarrow> 'v outside \<Rightarrow> 'w outside \<Rightarrow> bool" where
  "tracks_outside D R env fnv \<longleftrightarrow>
     UnmarshalJSON env = UnmarshalJSON fnv \<and> (\<forall>d. tracks D R (wait env d) (wait fnv d))"

lemma tracks_clientD:
  assumes "tracks_client D R cl dl"
  shows "tracks D R (api_Get cl n) (api_Get dl n)" "tracks D R (api_Create cl u copts) (api_Create dl u copts)"
    "tracks D R (api_Patch cl n d popts) (api_Patch dl n d popts)"
    "tracks D R (api_Delete cl n) (api_Delete dl n)" "tracks D R (api_List cl s) (api_List dl s)"
  using assms by (simp_all add: tracks_client_def)

lemma ssa_loop_continue:
  "ssa_loop env p uf (Suc k) b le = (\<lambda>v. case p v of (r, v') \<Rightarrow>
     (case r of
        Inl e \<Rightarrow> if (IsConflict e \<and> uf) \<or> isTransientError e
          then (\<lambda>w. case wait env b w of (c, w') \<Rightarrow> (if c then ssa_loop env p uf k (b * 2) (Some e) else failIO e) w')
          else failIO e
      | Inr _ \<Rightarrow> retIO ()) v')"
  by (rule ext) (auto split: prod.split sum.split bool.split)

lemma tracks_ssa_loop:
  assumes "tracks D R p q" and "tracks_outside D R env fnv"
  shows "tracks D R (ssa_loop env p uf k b le) (ssa_loop fnv q uf k b le)"
proof (induction k arbitrary: b le)
  case (Suc k)
  from assms(2) have w: "tracks D R (wait env b) (wait fnv b)" by (simp add: tracks_outside_def)
  have "tracks D R
      (case r of
         Inl e \<Rightarrow> if (IsConflict e \<and> uf) \<or> isTransientError e
           then (\<lambda>w. case wait env b w of (c, w') \<Rightarrow> (if c then ssa_loop env p uf k (b * 2) (Some e) else failIO e) w')
           else failIO e
       | Inr _ \<Rightarrow> retIO ())
      (case r of
         Inl e \<Rightarrow> if (IsConflict e \<and> uf) \<or> isTransientError e
           then (\<lambda>w. case wait fnv b w of (c, w') \<Rightarrow> (if c then ssa_loop fnv q uf k (b * 2) (Some e) else failIO e) w')
           else failIO e
       | Inr _ \<Rightarrow> retIO ())" for r :: "Unstructured result"
    by (cases r; simp only: sum.case; intro tracks_intros tracks_continue w Suc.IH)
  then show ?case unfolding ssa_loop_continue by (intro tracks_continue assms(1))
qed (simp add: tracks_def split: option.split)

lemma tracks_create_patch:
  assumes "tracks_client D R cl dl" and "tracks_outside D R env fnv"
  shows "tracks D R (CreateUnstructured env cl u kind) (CreateUnstructured fnv dl u kind)"
    and "tracks D R (PatchUnstructured env cl name u ex kind pc) (PatchUnstructured fnv dl name u ex kind pc)"
proof -
  have "UnmarshalJSON env = UnmarshalJSON fnv" using assms(2) by (simp add: tracks_outside_def)
  then show "tracks D R (CreateUnstructured env cl u kind) (CreateUnstructured fnv dl u kind)"
      "tracks D R (PatchUnstructured env cl name u ex kind pc) (PatchUnstructured fnv dl name u ex kind pc)"
    unfolding CreateUnstructured_def PatchUnstructured_def ApplySSAWithRetry_def Let_def
    by (auto intro!: tracks_intros tracks_clientD [OF assms(1)] tracks_ssa_loop assms(2))
qed

lemma tracks_get_or_missing:
  "tracks D R get get' \<Longrightarrow> tracks D R missing missing' \<Longrightarrow> (\<And>x. tracks D R (found x) (found' x)) \<Longrightarrow>
   tracks D R (get_or_missing get missing found) (get_or_missing get' missing' found')"
  unfolding get_or_missing_def by (intro tracks_intros) auto

section \<open>The controller\<close>

definition tracks_sys ::
  "('v kst \<Rightarrow> bool) \<Rightarrow> ('v kst \<Rightarrow> 'w kst \<Rightarrow> bool) \<Rightarrow> 'v Controller \<Rightarrow> 'w Controller \<Rightarrow> GVR \<Rightarrow> bool" where
  "tracks_sys D R c c' g \<longleftrightarrow>
     c_cfg c = c_cfg c' \<and> tracks_client D R (res_ifc c g) (res_ifc c' g)
     \<and> tracks_outside D R (k_outside (c_env c)) (k_outside (c_env c'))"

lemma tracks_applyDesiredObjects:
  assumes "tracks_sys D R c c' g"
  shows "tracks D R (applyDesiredObjects c g objects) (applyDesiredObjects c' g objects)"
proof -
  note t = assms [unfolded tracks_sys_def res_ifc_def AdaptResource_id]
  then have e: "c_cfg c = c_cfg c'" by simp
  show ?thesis
    unfolding applyDesiredObjects_def UnstructuredOps_Apply_def Let_def case_prod_beta UnstructuredOps.select_convs AdaptResource_id e
    by (intro tracks_intros tracks_get_or_missing tracks_create_patch tracks_clientD(1)) (use t in auto)
qed

lemma tracks_applyIngressRoute:
  assumes "tracks_sys D R c c' g"
  shows "tracks D R (applyIngressRoute c g name u) (applyIngressRoute c' g name u)"
proof -
  from assms have e: "c_cfg c = c_cfg c'" by (simp add: tracks_sys_def)
  have m: "iro_meta (route_ops c g) = iro_meta (route_ops c' g)" by (simp add: iro_meta_def route_ops_def e)
  have "iro_ReadOnly (route_ops c g) = iro_ReadOnly (route_ops c' g)"
      "iro_Namespace (route_ops c g) = iro_Namespace (route_ops c' g)"
      "iro_ResIfc (route_ops c g) = res_ifc c g" "iro_ResIfc (route_ops c' g) = res_ifc c' g"
    by (simp_all add: route_ops_def e)
  note f = this
  show ?thesis
    unfolding applyIngressRoute_def IngressRouteOps_Apply_def Let_def case_prod_beta e m f
    by (intro tracks_intros tracks_get_or_missing tracks_create_patch tracks_clientD(1))
      (use assms in \<open>auto simp: tracks_sys_def\<close>)
qed

lemma tracks_gcStaleObjects:
  assumes "tracks_sys D R c c' g" and "GCGracePeriod (c_cfg c) \<le> 0"
  shows "tracks D R (gcStaleObjects c g desired kind) (gcStaleObjects c' g desired kind)"
proof -
  from assms(1) have e: "c_cfg c = c_cfg c'" and cl: "tracks_client D R (res_ifc c g) (res_ifc c' g)"
    by (simp_all add: tracks_sys_def)
  then have "staleManagedName c = staleManagedName c'" by (intro ext) (simp only: staleManagedName_def)
  with assms(2) e show ?thesis
    unfolding gcStaleObjects_def gc_item_def case_prod_beta deleteImmediate_def
    by (auto intro!: tracks_intros tracks_clientD [OF cl])
qed

lemma tracks_phases:
  assumes "tracks_sys D R c c' g" and "GCGracePeriod (c_cfg c) \<le> 0"
  shows "tracks D R (thenIO (applyDesiredObjects c g objects) (gcStaleObjects c g desired kind))
      (thenIO (applyDesiredObjects c' g objects) (gcStaleObjects c' g desired kind))"
    and "g = gvrIngressRoute c \<Longrightarrow> g = gvrIngressRoute c' \<Longrightarrow>
      tracks D R (reconcileRouters c routers) (reconcileRouters c' routers)"
proof -
  show "tracks D R (thenIO (applyDesiredObjects c g objects) (gcStaleObjects c g desired kind))
      (thenIO (applyDesiredObjects c' g objects) (gcStaleObjects c' g desired kind))"
    by (intro tracks_intros tracks_applyDesiredObjects tracks_gcStaleObjects assms)
  assume g: "g = gvrIngressRoute c" "g = gvrIngressRoute c'"
  from assms(1) have e: "c_cfg c = c_cfg c'" by (simp add: tracks_sys_def)
  show "tracks D R (reconcileRouters c routers) (reconcileRouters c' routers)"
    unfolding reconcileRouters_def case_prod_beta e g(1) [symmetric] g(2) [symmetric]
    by (intro tracks_intros tracks_applyIngressRoute tracks_gcStaleObjects assms)
qed

end
