(* ===== verification/Parallel.thy ===== *)
theory Parallel
  imports Tracking
begin

text \<open>
  Phases in parallel (\<open>applyConfigParallel\<close>, \<^verbatim>\<open>internal/controller/apply.go\<close>). The six phases run as
  goroutines of an error group, at most \<open>max 1 ReconcileMax\<close> of them at a time; what they share is the
  cluster and the queue of delayed deletions.

  A run is given by its events in the order they took place: the calls a phase makes (each atomic,
  with the world before and after it), the requests it puts into the queue, and the cancelling of the
  context of the group. \<open>applyConfigParallel\<close> says which event lists, results and final states are
  possible. A phase is run by itself against a client that carries it, before each of its calls, from the
  world its last call left to the world the event list has for the next one (\<open>watched\<close>); the events
  are those of a run when every phase made exactly the calls the list has for it, and the calls
  and requests lead, one after the other, from the first state to the last (\<open>run_events\<close>).

  \<^verbatim>\<open>errgroup\<close> is not part of the repository: that it cancels its context after the first failure and what
  \<open>Wait\<close> returns is stated as \<open>cancel_ok\<close> and \<open>errgroup_Wait\<close>; what cancelling does to the world is the
  parameter \<open>cancel\<close>.

  Shown: however the phases interleave, a run without an error converges (the phases work on
  different resource types, so the frame rules of the sequential run carry over); read-only mode
  writes nothing, in sequence and in parallel (\<open>applyConfig_read_only\<close>); a sequential run without an
  error is one of the possible runs.
\<close>

section \<open>Events\<close>

datatype 'w event = Call nat 'w 'w | Enqueue nat graceDeleteReq | Cancel

fun phase_of :: "'w event \<Rightarrow> nat option" where
  "phase_of (Call i b a) = Some i"
| "phase_of (Enqueue i req) = Some i"
| "phase_of Cancel = None"

fun calls_of :: "nat \<Rightarrow> 'w event list \<Rightarrow> ('w \<times> 'w) list" where
  "calls_of i [] = []"
| "calls_of i (Call j b a # evs) = (if i = j then (b, a) # calls_of i evs else calls_of i evs)"
| "calls_of i (_ # evs) = calls_of i evs"

fun requests_of :: "nat \<Rightarrow> 'w event list \<Rightarrow> graceDeleteReq list" where
  "requests_of i [] = []"
| "requests_of i (Enqueue j req # evs) = (if i = j then req # requests_of i evs else requests_of i evs)"
| "requests_of i (_ # evs) = requests_of i evs"

fun run_events :: "('w \<Rightarrow> 'w) \<Rightarrow> 'w Controller \<Rightarrow> 'w event list \<Rightarrow> 'w kst \<Rightarrow> 'w kst option" where
  "run_events cancel c [] s = Some s"
| "run_events cancel c (Call i b a # evs) s =
     (if kube s = b then run_events cancel c evs (s\<lparr>kube := a\<rparr>) else None)"
| "run_events cancel c (Enqueue i req # evs) s = run_events cancel c evs (snd (enqueueGraceDeletion c req s))"
| "run_events cancel c (Cancel # evs) s = run_events cancel c evs (s\<lparr>kube := cancel (kube s)\<rparr>)"

section \<open>One phase among the others\<close>

text \<open>
  The world of a phase: the world its last call left, and the calls it has made. The other phases
  carry it from the end of a call to the beginning of the next one.
\<close>

type_synonym 'w watched = "'w \<times> ('w \<times> 'w) list"

definition arrive :: "'w \<Rightarrow> ('w \<times> 'w) list \<Rightarrow> nat \<Rightarrow> 'w \<Rightarrow> 'w" where
  "arrive w0 calls k w = (if k < length calls \<and> w = (w0 # map snd calls) ! k then fst (calls ! k) else w)"

definition at_call :: "'w \<Rightarrow> ('w \<times> 'w) list \<Rightarrow> ('w \<Rightarrow> 'r \<times> 'w) \<Rightarrow> 'w watched \<Rightarrow> 'r \<times> 'w watched" where
  "at_call w0 calls m p =
     (let b = arrive w0 calls (length (snd p)) (fst p) in
      case m b of (r, a) \<Rightarrow> (r, a, snd p @ [(b, a)]))"

definition watched_client :: "'w \<Rightarrow> ('w \<times> 'w) list \<Rightarrow> 'w ResourceClient \<Rightarrow> 'w watched ResourceClient" where
  "watched_client w0 calls cl =
     \<lparr>api_Get = (\<lambda>n. at_call w0 calls (api_Get cl n)), api_Create = (\<lambda>u opts. at_call w0 calls (api_Create cl u opts)),
      api_Patch = (\<lambda>n d opts. at_call w0 calls (api_Patch cl n d opts)),
      api_Delete = (\<lambda>n. at_call w0 calls (api_Delete cl n)), api_List = (\<lambda>s. at_call w0 calls (api_List cl s))\<rparr>"

definition watched_typed :: "'w \<Rightarrow> ('w \<times> 'w) list \<Rightarrow> ('w, 'o) TypedClient \<Rightarrow> ('w watched, 'o) TypedClient" where
  "watched_typed w0 calls cl =
     \<lparr>typed_Get = (\<lambda>n. at_call w0 calls (typed_Get cl n)), typed_Create = (\<lambda>u. at_call w0 calls (typed_Create cl u)),
      typed_Update = (\<lambda>u. at_call w0 calls (typed_Update cl u)),
      typed_Delete = (\<lambda>n. at_call w0 calls (typed_Delete cl n)), typed_List = (\<lambda>s. at_call w0 calls (typed_List cl s))\<rparr>"

text \<open>
  The queue a phase runs with is its own and loses nothing, so that it ends with all requests of the
  phase; the event list puts them into the queue of the controller.
\<close>

definition watched :: "'w \<Rightarrow> ('w \<times> 'w) list \<Rightarrow> 'w Controller \<Rightarrow> 'w watched Controller" where
  "watched w0 calls c =
     \<lparr>c_cfg = c_cfg c, c_dyn = (\<lambda>g ns. watched_client w0 calls (c_dyn c g ns)),
      c_services = (\<lambda>ns. watched_typed w0 calls (c_services c ns)),
      c_slices = (\<lambda>ns. watched_typed w0 calls (c_slices c ns)),
      c_env = \<lparr>UnmarshalJSON = UnmarshalJSON (c_env c), wait = (\<lambda>d. at_call w0 calls (wait (c_env c) d))\<rparr>,
      c_net = c_net c, c_slot = (\<lambda>_. True), c_done = (\<lambda>_. False),
      gvrMiddleware = gvrMiddleware c, gvrIngressRoute = gvrIngressRoute c,
      gvrTraefikService = gvrTraefikService c, gvrServersTransport = gvrServersTransport c,
      gvrIngressRouteTCP = gvrIngressRouteTCP c, gvrIngressRouteUDP = gvrIngressRouteUDP c,
      gvrServersTransportTCP = gvrServersTransportTCP c, gcSem = gcSem c\<rparr>"

text \<open>The functions given to \<open>wrapPhase\<close>, in the order the source starts them.\<close>

definition phases :: "'w Controller \<Rightarrow> TraefikConfig \<Rightarrow> ('w kst, unit) io list" where
  "phases c cfg =
     [reconcileMiddlewares c (of_nil (Middlewares (HTTP cfg))),
      reconcileRouters c (of_nil (Routers (HTTP cfg))),
      reconcileServersTransports c (ServersTransports (HTTP cfg)),
      reconcileServices c (Services (HTTP cfg)),
      reconcileTCP c (Some cfg),
      reconcileUDP c (Some cfg)]"

definition phase_run ::
  "'w Controller \<Rightarrow> TraefikConfig \<Rightarrow> 'w event list \<Rightarrow> 'w \<Rightarrow> nat \<Rightarrow> unit result \<times> 'w watched kst" where
  "phase_run c cfg evs w0 i =
     (phases (watched w0 (calls_of i evs) c) cfg ! i) \<lparr>kube = (w0, []), graceDelQueue = None, inflight = []\<rparr>"

definition phase_ok :: "'w event list \<Rightarrow> nat \<Rightarrow> 'w watched kst \<Rightarrow> bool" where
  "phase_ok evs i s \<longleftrightarrow>
     snd (kube s) = calls_of i evs \<and> inflight s @ of_nil (graceDelQueue s) = requests_of i evs"

section \<open>The group\<close>

text \<open>
  \<open>sem\<close>: a phase holds a slot of the channel at least from its first event to its last.
\<close>

definition active :: "'w event list \<Rightarrow> nat \<Rightarrow> nat \<Rightarrow> bool" where
  "active evs p i \<longleftrightarrow> Some i \<in> set (map phase_of (take (Suc p) evs)) \<and> Some i \<in> set (map phase_of (drop p evs))"

definition concurrency :: "Config \<Rightarrow> int" where
  "concurrency cfg = (if ReconcileMax cfg < 1 then 1 else ReconcileMax cfg)"

definition sem_ok :: "int \<Rightarrow> 'w event list \<Rightarrow> bool" where
  "sem_ok n evs \<longleftrightarrow> (\<forall>p \<in> set [0..<length evs]. int (length (filter (active evs p) [0..<6])) \<le> n)"

text \<open>
  The context is cancelled once when a phase has failed, after all events of some phase that did,
  and not otherwise. \<open>Wait\<close> returns nil when no phase failed and an error of a phase that did
  otherwise.
\<close>

definition cancel_ok :: "'w event list \<Rightarrow> unit result list \<Rightarrow> bool" where
  "cancel_ok evs rs \<longleftrightarrow>
     (if list_all (\<lambda>r. \<not> isl r) rs then Cancel \<notin> set evs
      else length (filter (\<lambda>e. phase_of e = None) evs) = 1
         \<and> list_ex (\<lambda>i. isl (rs ! i) \<and> Some i \<notin> set (map phase_of (dropWhile (\<lambda>e. phase_of e \<noteq> None) evs)))
             [0..<length rs])"

definition errgroup_Wait :: "unit result list \<Rightarrow> unit result \<Rightarrow> bool" where
  "errgroup_Wait rs r \<longleftrightarrow> (if list_all (\<lambda>x. \<not> isl x) rs then r = Inr () else isl r \<and> r \<in> set rs)"

definition applyConfigParallel ::
  "('w \<Rightarrow> 'w) \<Rightarrow> 'w Controller \<Rightarrow> TraefikConfig \<Rightarrow> 'w event list \<Rightarrow> 'w kst \<Rightarrow> unit result \<times> 'w kst \<Rightarrow> bool" where
  "applyConfigParallel cancel c cfg evs s out \<longleftrightarrow>
     (let runs = map (phase_run c cfg evs (kube s)) [0..<6]; rs = map fst runs in
      list_all (\<lambda>e. case phase_of e of None \<Rightarrow> True | Some i \<Rightarrow> i < 6) evs
      \<and> list_all (\<lambda>i. phase_ok evs i (snd (runs ! i))) [0..<6]
      \<and> sem_ok (concurrency (c_cfg c)) evs
      \<and> cancel_ok evs rs \<and> errgroup_Wait rs (fst out)
      \<and> run_events cancel c evs s = Some (snd out))"

text \<open>
  What \<open>applyConfig\<close> is given for the parallel branch: a function that always does a possible run. The
  configurations it meets are sanitised and have no TCP and UDP sections.
\<close>

definition possible :: "('w \<Rightarrow> 'w) \<Rightarrow> 'w Controller \<Rightarrow> TraefikConfig \<Rightarrow> 'w kst \<Rightarrow> unit result \<times> 'w kst \<Rightarrow> bool" where
  "possible cancel c cfg s out \<longleftrightarrow> (\<exists>evs. applyConfigParallel cancel c cfg evs s out)"

definition parallel_by :: "('w \<Rightarrow> 'w) \<Rightarrow> 'w Controller \<Rightarrow> (TraefikConfig \<Rightarrow> ('w kst, unit) io) \<Rightarrow> bool" where
  "parallel_by cancel c par \<longleftrightarrow> (\<forall>cfg s. TCP cfg = None \<and> UDP cfg = None \<longrightarrow> possible cancel c cfg s (par cfg s))"

definition parallel_ok :: "('w \<Rightarrow> 'w) \<Rightarrow> 'w Controller \<Rightarrow> (TraefikConfig \<Rightarrow> ('w kst, unit) io) \<Rightarrow> bool" where
  "parallel_ok cancel c par \<longleftrightarrow> (ReconcileParallel (c_cfg c) \<longrightarrow> parallel_by cancel c par)"

lemma parallel_runD:
  assumes "applyConfigParallel cancel c cfg evs s (Inr (), s')"
  shows "run_events cancel c evs s = Some s'" and "Cancel \<notin> set evs"
    and "i < 6 \<Longrightarrow> \<exists>v. phase_run c cfg evs (kube s) i = (Inr (), v) \<and> phase_ok evs i v"
    and "Call i b a \<in> set evs \<Longrightarrow> i < 6"
proof -
  let ?rs = "map fst (map (phase_run c cfg evs (kube s)) [0..<6])"
  have w: "list_all (\<lambda>x. \<not> isl x) ?rs" "cancel_ok evs ?rs"
    using assms by (auto simp: applyConfigParallel_def Let_def errgroup_Wait_def split: if_splits)
  then show "Cancel \<notin> set evs" by (simp add: cancel_ok_def)
  show "run_events cancel c evs s = Some s'" using assms by (simp add: applyConfigParallel_def Let_def)
  show "i < 6" if "Call i b a \<in> set evs"
    using assms that by (auto simp: applyConfigParallel_def Let_def list_all_iff)
  show "\<exists>v. phase_run c cfg evs (kube s) i = (Inr (), v) \<and> phase_ok evs i v" if "i < 6"
  proof -
    have "\<not> isl (fst (phase_run c cfg evs (kube s) i))" using w(1) that by (simp add: list_all_iff)
    moreover have "phase_ok evs i (snd (phase_run c cfg evs (kube s) i))"
      using assms that by (simp add: applyConfigParallel_def Let_def list_all_iff)
    ultimately show ?thesis
      by (cases "phase_run c cfg evs (kube s) i"; cases "fst (phase_run c cfg evs (kube s) i)") auto
  qed
qed

section \<open>The laws of a watched cluster\<close>

lemma at_call_parts:
  "fst (at_call w0 calls m p) = fst (m (arrive w0 calls (length (snd p)) (fst p)))"
  "fst (snd (at_call w0 calls m p)) = snd (m (arrive w0 calls (length (snd p)) (fst p)))"
  "snd (snd (at_call w0 calls m p)) = snd p @ [(arrive w0 calls (length (snd p)) (fst p),
     snd (m (arrive w0 calls (length (snd p)) (fst p))))]"
  by (simp_all add: at_call_def Let_def split: prod.split)

text \<open>A view that no other phase changes: it is the same when a call begins as when the last one ended.\<close>

fun undisturbed :: "('w \<Rightarrow> 'v) \<Rightarrow> 'w \<Rightarrow> ('w \<times> 'w) list \<Rightarrow> bool" where
  "undisturbed view x [] = True"
| "undisturbed view x ((b, a) # cs) = (view b = view x \<and> undisturbed view a cs)"

lemma undisturbed_arrive:
  assumes "undisturbed view w0 calls"
  shows "view (arrive w0 calls k w) = view w"
proof -
  have "view (fst (cs ! k)) = view ((x # map snd cs) ! k)" if "undisturbed view x cs" "k < length cs" for x cs k
    using that
  proof (induction cs arbitrary: x k)
    case (Cons p cs)
    then show ?case by (cases p; cases k) auto
  qed simp
  with assms show ?thesis by (auto simp: arrive_def)
qed

lemma watched_laws:
  assumes "undisturbed view w0 calls" and "client_laws cl view"
  shows "client_laws (watched_client w0 calls cl) (\<lambda>p. view (fst p))"
proof -
  have b: "view (fst p) = view (arrive w0 calls (length (snd p)) (fst p))" for p
    by (simp add: undisturbed_arrive [OF assms(1)])
  show ?thesis
    using assms(2) unfolding client_laws_def watched_client_def ResourceClient.select_convs at_call_parts
    by (elim conjE, intro conjI allI; unfold b) simp_all
qed

lemma watched_content:
  assumes "content_law cl view rf"
  shows "content_law (watched_client w0 calls cl) (\<lambda>p. view (fst p)) rf"
proof -
  have *: "at_call w0 calls m p = (r, p') \<longleftrightarrow>
      (\<exists>b a. b = arrive w0 calls (length (snd p)) (fst p) \<and> m b = (r, a) \<and> p' = (a, snd p @ [(b, a)]))" for m p and r :: "'r result" and p'
    by (auto simp: at_call_def Let_def split: prod.split)
  show ?thesis
    using assms unfolding content_law_def watched_client_def ResourceClient.select_convs *
    by (elim conjE, intro conjI allI impI; elim exE conjE) auto
qed

lemma watched_setting:
  assumes "setting c g view rf" and "undisturbed view w0 calls"
  shows "setting (watched w0 calls c) g (\<lambda>p. view (fst p)) rf"
  using assms(1) watched_laws [OF assms(2)] watched_content [of _ view rf w0 calls] undisturbed_arrive [OF assms(2)]
  by (auto simp: setting_def watched_def decode_law_def wait_law_def at_call_parts)

section \<open>What the calls of a phase change\<close>

text \<open>
  What holds of the calls a phase has made: each leaves the other views alone, and the phase is where
  its last call left it.
\<close>

definition calls_keep :: "('w \<Rightarrow> 'v) \<Rightarrow> 'w watched \<Rightarrow> bool" where
  "calls_keep view p \<longleftrightarrow> (\<forall>(b, a) \<in> set (snd p). view a = view b)"

definition at_last :: "'w \<Rightarrow> 'w watched \<Rightarrow> bool" where
  "at_last w0 p \<longleftrightarrow> fst p = last (w0 # map snd (snd p))"

lemma calls_keep_client:
  assumes "\<And>v. keeps_client (\<lambda>w. view w = v) cl"
  shows "keeps_client (calls_keep view) (watched_client w0 calls cl)"
  using assms
  by (auto simp: keeps_client_def keeps_def watched_client_def calls_keep_def at_call_parts)

lemma at_last_client: "keeps_client (at_last w0) (watched_client w0 calls cl)"
  by (simp add: keeps_client_def keeps_def watched_client_def at_last_def at_call_parts)

lemma watched_fields [simp]:
  "c_cfg (watched w0 calls c) = c_cfg c" "c_net (watched w0 calls c) = c_net c"
  "gvrMiddleware (watched w0 calls c) = gvrMiddleware c" "gvrIngressRoute (watched w0 calls c) = gvrIngressRoute c"
  "gvrTraefikService (watched w0 calls c) = gvrTraefikService c"
  "gvrServersTransport (watched w0 calls c) = gvrServersTransport c"
  by (simp_all add: watched_def)

lemma keeps_sys_watched:
  assumes "keeps_client P (watched_client w0 calls (c_dyn c g (Namespace (c_cfg c))))"
    and "\<And>d p. P p \<Longrightarrow> P (snd (at_call w0 calls (wait (c_env c) d) p))"
  shows "keeps_sys (watched w0 calls c) g (\<lambda>s. P (kube s))"
  using keeps_k_client [OF assms(1)] assms(2)
  by (simp add: keeps_sys_def res_ifc_def keeps_wait_def k_outside_def watched_def case_prod_beta)

lemma watched_sys:
  assumes "cluster_laws c views rf"
  shows "g \<noteq> h \<Longrightarrow> keeps_sys (watched w0 calls c) g (\<lambda>s. calls_keep (views h) (kube s))"
    and "keeps_sys (watched w0 calls c) g (\<lambda>s. at_last w0 (kube s))"
proof -
  show "keeps_sys (watched w0 calls c) g (\<lambda>s. calls_keep (views h) (kube s))" if "g \<noteq> h"
    using assms that
    by (intro keeps_sys_watched calls_keep_client)
      (auto simp: cluster_laws_def calls_keep_def at_call_parts wait_law_def)
  show "keeps_sys (watched w0 calls c) g (\<lambda>s. at_last w0 (kube s))"
    by (intro keeps_sys_watched at_last_client) (simp add: at_last_def at_call_parts)
qed

text \<open>The resource type of each HTTP phase; the other two have nothing to do without TCP and UDP sections.\<close>

definition phase_gvr :: "'w Controller \<Rightarrow> nat \<Rightarrow> GVR" where
  "phase_gvr c i =
     (if i = 0 then gvrMiddleware c else if i = 1 then gvrIngressRoute c
      else if i = 2 then gvrServersTransport c else gvrTraefikService c)"

lemma phase_keeps:
  assumes "keeps_sys c (phase_gvr c i) (\<lambda>s. P (kube s))" and "TCP cfg = None" and "UDP cfg = None" and "i < 6"
  shows "keeps (\<lambda>s. P (kube s)) (phases c cfg ! i)"
proof -
  note k = keeps_phases(1) [OF _ schedule_kube] keeps_phases(2) [OF _ schedule_kube refl refl]
  from assms(4) have "i = 0 \<or> i = 1 \<or> i = 2 \<or> i = 3 \<or> i = 4 \<or> i = 5" by linarith
  with assms k show ?thesis
    by (elim disjE) (auto simp: phases_def phase_gvr_def reconcileMiddlewares_def reconcileServersTransports_def reconcileServices_def
        reconcileTCP_def reconcileUDP_def Let_def intro: keeps_intros split: option.split)
qed

lemma phase_run_keeps:
  assumes "keeps_sys (watched (kube s) (calls_of i evs) c) (phase_gvr c i) (\<lambda>s. P (kube s))"
    and "TCP cfg = None" and "UDP cfg = None" and "i < 6" and "P (kube s, [])"
  shows "P (kube (snd (phase_run c cfg evs (kube s) i)))"
  unfolding phase_run_def
  by (rule keepsD [OF phase_keeps]) (use assms in \<open>auto simp: phase_gvr_def\<close>)

text \<open>The other phases leave the view of a phase alone.\<close>

lemma undisturbed_run:
  assumes "run_events cancel c evs s = Some s'" and "Cancel \<notin> set evs"
    and "\<forall>j b a. j \<noteq> i \<and> Call j b a \<in> set evs \<longrightarrow> view a = view b" and "view (kube s) = view x"
  shows "undisturbed view x (calls_of i evs) \<and> view (kube s') = view (last (x # map snd (calls_of i evs)))"
  using assms
proof (induction evs arbitrary: s x)
  case (Cons e evs)
  from Cons.prems(3) have o: "\<forall>j b a. j \<noteq> i \<and> Call j b a \<in> set evs \<longrightarrow> view a = view b" by auto
  note IH = Cons.IH [OF _ _ o]
  show ?case
  proof (cases e)
    case (Call j b a)
    with Cons.prems(1) have r: "kube s = b" "run_events cancel c evs (s\<lparr>kube := a\<rparr>) = Some s'"
      by (auto split: if_splits)
    show ?thesis
    proof (cases "j = i")
      case True
      with IH [OF r(2), where x = a] r(1) Cons.prems Call show ?thesis by simp
    next
      case False
      with Cons.prems(3,4) Call r(1) have "view a = view x" by fastforce
      with IH [OF r(2), where x = x] Cons.prems(2) Call False show ?thesis by simp
    qed
  next
    case (Enqueue j req)
    have "kube (snd (enqueueGraceDeletion c req s)) = kube s"
      by (simp add: enqueueGraceDeletion_def startGraceDeletionPool_def Let_def split: option.split)
    with IH [where s = "snd (enqueueGraceDeletion c req s)" and x = x] Cons.prems Enqueue show ?thesis by simp
  next
    case Cancel
    with Cons.prems(2) show ?thesis by simp
  qed
qed simp

lemma calls_of_mem: "Call i b a \<in> set evs \<longleftrightarrow> (b, a) \<in> set (calls_of i evs)"
  by (induction i evs rule: calls_of.induct) auto

lemma requests_of_mem: "Enqueue i r \<in> set evs \<longleftrightarrow> r \<in> set (requests_of i evs)"
  by (induction i evs rule: requests_of.induct) auto

text \<open>So a phase runs as if it were alone, and its resource type ends as it left it.\<close>

lemma phase_alone:
  assumes laws: "cluster_laws c views rf"
    and kinds: "distinct [gvrMiddleware c, gvrIngressRoute c, gvrServersTransport c, gvrTraefikService c]"
    and run: "applyConfigParallel cancel c cfg evs s (Inr (), s')" and l4: "TCP cfg = None" "UDP cfg = None"
    and i: "i < 4"
  shows "\<exists>v. phase_run c cfg evs (kube s) i = (Inr (), v)
      \<and> undisturbed (views (phase_gvr c i)) (kube s) (calls_of i evs)
      \<and> views (phase_gvr c i) (fst (kube v)) = views (phase_gvr c i) (kube s')"
proof -
  let ?h = "phase_gvr c i"
  note d = parallel_runD [OF run]
  have oth: "views ?h a = views ?h b" if "j \<noteq> i" "Call j b a \<in> set evs" for j b a
  proof (cases "j < 4")
    case True
    then have g: "phase_gvr c j \<noteq> ?h" using i that(1) kinds by (auto simp: phase_gvr_def)
    have "calls_keep (views ?h) (kube (snd (phase_run c cfg evs (kube s) j)))"
      by (rule phase_run_keeps [OF watched_sys(1) [OF laws g] l4]) (use True in \<open>auto simp: calls_keep_def\<close>)
    with d(3) [of j] True that(2) show ?thesis by (auto simp: calls_keep_def phase_ok_def calls_of_mem)
  next
    case False
    with d(4) [OF that(2)] consider "j = 4" | "j = 5" by linarith
    then have "phase_run c cfg evs (kube s) j = (Inr (), \<lparr>kube = (kube s, []), graceDelQueue = None, inflight = []\<rparr>)"
      using l4 by cases (simp_all add: phase_run_def phases_def reconcileTCP_def reconcileUDP_def)
    with d(3) [OF d(4) [OF that(2)]] that(2) show ?thesis by (simp add: phase_ok_def calls_of_mem)
  qed
  have u: "undisturbed (views ?h) (kube s) (calls_of i evs)
      \<and> views ?h (kube s') = views ?h (last (kube s # map snd (calls_of i evs)))"
    by (rule undisturbed_run [OF d(1,2)]) (use oth in auto)
  from d(3) [of i] i obtain v where v: "phase_run c cfg evs (kube s) i = (Inr (), v)" "phase_ok evs i v" by auto
  have "at_last (kube s) (kube (snd (phase_run c cfg evs (kube s) i)))"
    by (rule phase_run_keeps [OF watched_sys(2) [OF laws] l4]) (use i in \<open>auto simp: at_last_def\<close>)
  with v u have "views ?h (fst (kube v)) = views ?h (kube s')" by (simp add: at_last_def phase_ok_def)
  with u v(1) show ?thesis by blast
qed

lemma parallel_converges:
  assumes laws: "cluster_laws c views rf" "writable (c_cfg c)"
    and kinds: "distinct [gvrMiddleware c, gvrIngressRoute c, gvrServersTransport c, gvrTraefikService c]"
    and run: "applyConfigParallel cancel c cfg evs s (Inr (), s')" "TCP cfg = None" "UDP cfg = None"
    and sections: "ServersTransports (HTTP cfg) = Some ts" "Services (HTTP cfg) = Some ss"
      "wf_map (of_nil (Middlewares (HTTP cfg)))" "wf_map ts" "wf_map ss"
  shows "http_converged c views rf cfg (kube s) (kube s')"
proof -
  note alone = phase_alone [OF laws(1) kinds run]
  note st = watched_setting [OF cluster_setting [OF laws]]
  note d = phase_run_def phases_def phase_gvr_def
  obtain v0 where "undisturbed (views (gvrMiddleware c)) (kube s) (calls_of 0 evs)"
      "reconcileMiddlewares (watched (kube s) (calls_of 0 evs) c) (of_nil (Middlewares (HTTP cfg)))
         \<lparr>kube = (kube s, []), graceDelQueue = None, inflight = []\<rparr> = (Inr (), v0)"
      and e0: "views (gvrMiddleware c) (fst (kube v0)) = views (gvrMiddleware c) (kube s')"
    using alone [of 0] by (auto simp: d)
  note c0 = apply_gc_converges [OF st [OF this(1)] sections(3) this(2) [unfolded reconcileMiddlewares_def watched_fields]]
  obtain v1 where "undisturbed (views (gvrIngressRoute c)) (kube s) (calls_of 1 evs)"
      "reconcileRouters (watched (kube s) (calls_of 1 evs) c) (of_nil (Routers (HTTP cfg)))
         \<lparr>kube = (kube s, []), graceDelQueue = None, inflight = []\<rparr> = (Inr (), v1)"
      and e1: "views (gvrIngressRoute c) (fst (kube v1)) = views (gvrIngressRoute c) (kube s')"
    using alone [of 1] by (auto simp: d)
  note c1 = reconcileRouters_apply [where c = "watched (kube s) (calls_of 1 evs) c", unfolded watched_fields,
      OF st [OF this(1)] this(2)]
  obtain v2 where "undisturbed (views (gvrServersTransport c)) (kube s) (calls_of 2 evs)"
      "reconcileServersTransports (watched (kube s) (calls_of 2 evs) c) (Some ts)
         \<lparr>kube = (kube s, []), graceDelQueue = None, inflight = []\<rparr> = (Inr (), v2)"
      and e2: "views (gvrServersTransport c) (fst (kube v2)) = views (gvrServersTransport c) (kube s')"
    using alone [of 2] sections by (auto simp: d)
  note c2 = apply_gc_converges [OF st [OF this(1)] sections(4)
      this(2) [unfolded reconcileServersTransports_def option.case watched_fields]]
  obtain v3 where "undisturbed (views (gvrTraefikService c)) (kube s) (calls_of 3 evs)"
      "reconcileServices (watched (kube s) (calls_of 3 evs) c) (Some ss)
         \<lparr>kube = (kube s, []), graceDelQueue = None, inflight = []\<rparr> = (Inr (), v3)"
      and e3: "views (gvrTraefikService c) (fst (kube v3)) = views (gvrTraefikService c) (kube s')"
    using alone [of 3] sections by (auto simp: d)
  note c3 = reconcileServices_apply [where c = "watched (kube s) (calls_of 3 evs) c", unfolded watched_fields,
      OF st [OF this(1)] _ this(2)]
  from c0 c1 c2 c3 sections(5) show ?thesis
    unfolding http_converged_def Let_def sections(1,2) by (simp add: of_nil_def e0 e1 e2 e3)
qed

lemma applyConfig_http_converged:
  assumes "cluster_laws c views rf" and "writable (c_cfg c)"
    and "\<forall>out. ReconcileParallel (c_cfg c) \<and> SanitizeTraefikConfig (Some cfg) = Inr (Some out) \<longrightarrow> possible cancel c out s (par out s)"
    and "distinct [gvrMiddleware c, gvrIngressRoute c, gvrServersTransport c, gvrTraefikService c]"
    and "applyConfig par c (Some cfg) s = (Inr (), s')"
  shows "\<exists>out. SanitizeTraefikConfig (Some cfg) = Inr (Some out) \<and> http_converged c views rf out (kube s) (kube s')"
proof -
  obtain o' where o: "SanitizeTraefikConfig (Some cfg) = Inr o'"
    using assms(5) by (cases "SanitizeTraefikConfig (Some cfg)") (auto simp: applyConfig_def io_defs)
  then obtain out ts ss where out: "o' = Some out" "TCP out = None" "UDP out = None"
      "ServersTransports (HTTP out) = Some ts" "Services (HTTP out) = Some ss"
    by (auto elim: SanitizeTraefikConfig_Inr)
  have wf: "wf_map (of_nil (Middlewares (HTTP out)))" "wf_map ts" "wf_map ss"
    using SanitizeTraefikConfig_keys [OF o [unfolded out(1)]] out(4,5) by (simp_all add: section_renamed_def)
  have "http_converged c views rf out (kube s) (kube s')"
  proof (cases "ReconcileParallel (c_cfg c)")
    case True
    with assms(5) o out(1) have "par out s = (Inr (), s')" by (simp add: applyConfig_def io_defs)
    with assms(3) True o out(1) obtain evs where "applyConfigParallel cancel c out evs s (Inr (), s')"
      by (auto simp: possible_def)
    with parallel_converges [OF assms(1,2,4)] out wf show ?thesis by blast
  next
    case False
    with assms(5) o out(1) have "applyConfigSequential c out s = (Inr (), s')" by (simp add: applyConfig_def io_defs)
    with sequential_converges [OF assms(1,2,4)] out wf show ?thesis by blast
  qed
  with o out show ?thesis by blast
qed

lemma parallel_ok_possible:
  assumes "parallel_ok cancel c par" and "ReconcileParallel (c_cfg c)" and "SanitizeTraefikConfig (Some cfg) = Inr (Some out)"
  shows "possible cancel c out s (par out s)"
  using assms by (auto simp: parallel_ok_def parallel_by_def elim!: SanitizeTraefikConfig_Inr)

text \<open>
  C1. A configuration that is applied without an error, by a controller that is not read-only and whose
  managed label key has no equals sign, has converged, whether its phases run one after the other or
  interleave. For each of the four HTTP sections of its sanitised form: every entry has its object, written
  with the spec of the entry and with each label and annotation of the controller that the object there
  before did not have (as long as no two of those keys coincide); objects of others are untouched; and
  of the objects that carry the label and annotation of the controller and are not in the section
  none is left without a grace period, and all stay as they are, for the workers to delete, with one.
\<close>

theorem applyConfig_converges:
  assumes "cluster_laws c views rf" and "writable (c_cfg c)"
    and "\<forall>out. ReconcileParallel (c_cfg c) \<and> SanitizeTraefikConfig (Some cfg) = Inr (Some out) \<longrightarrow> possible cancel c out s (par out s)"
    and "distinct [gvrMiddleware c, gvrIngressRoute c, gvrServersTransport c, gvrTraefikService c]"
    and "applyConfig par c (Some cfg) s = (Inr (), s')"
  shows "\<exists>out. SanitizeTraefikConfig (Some cfg) = Inr (Some out) \<and> http_converged c views rf out (kube s) (kube s')"
  using assms by (rule applyConfig_http_converged)

section \<open>Read-only mode\<close>

text \<open>A phase that only reads: no call it has made changed the world, and it has put nothing into the queue.\<close>

definition only_read :: "'w watched kst \<Rightarrow> bool" where
  "only_read s \<longleftrightarrow> (\<forall>(b, a) \<in> set (snd (kube s)). a = b) \<and> graceDelQueue s = None \<and> inflight s = []"

lemma only_read_call: "(\<And>w. snd (m w) = w) \<Longrightarrow> keeps only_read (k_io (at_call w0 calls m))"
  by (simp add: keeps_def only_read_def k_io_eq at_call_parts case_prod_beta)

lemma watched_lists:
  assumes "all_reads_pure c"
  shows "lists_keep only_read (watched w0 calls c)"
  using assms
  by (auto simp: lists_keep_def all_reads_pure_def reads_pure_def typed_reads_pure_def k_client_List watched_def
      watched_client_def watched_typed_def k_typed_def intro!: only_read_call)

lemma phase_only_reads:
  assumes "all_reads_pure c" and "ReadOnly (c_cfg c)" and "i < 6"
  shows "only_read (snd (phase_run c cfg evs w0 i))"
proof -
  let ?c = "watched w0 (calls_of i evs) c"
  note ph = keeps_phases_read_only [OF watched_lists [OF assms(1)], unfolded watched_fields, OF assms(2)]
  from assms(3) have "i = 0 \<or> i = 1 \<or> i = 2 \<or> i = 3 \<or> i = 4 \<or> i = 5" by linarith
  then have "keeps only_read (phases ?c cfg ! i)" using ph by (elim disjE) (simp_all add: phases_def)
  from keepsD [OF this, of "\<lparr>kube = (w0, []), graceDelQueue = None, inflight = []\<rparr>"] show ?thesis
    by (simp add: phase_run_def only_read_def [of "\<lparr>kube = _, graceDelQueue = _, inflight = _\<rparr>"])
qed

lemma run_events_only_read:
  assumes "run_events cancel c evs s = Some s'"
    and "\<forall>i b a. Call i b a \<in> set evs \<longrightarrow> a = b" and "\<forall>i r. Enqueue i r \<notin> set evs"
  shows "s' = s\<lparr>kube := (cancel ^^ length (filter (\<lambda>e. phase_of e = None) evs)) (kube s)\<rparr>"
  using assms
proof (induction cancel c evs s rule: run_events.induct)
  case (2 cancel c i b a evs s)
  then have "kube s = b" "a = b" by (auto split: if_splits)
  with 2 show ?case by simp
next
  case (3 cancel c i req evs s)
  then show ?case by auto
next
  case (4 cancel c evs s)
  then show ?case by (simp add: funpow_swap1)
qed simp

lemma parallel_read_only:
  assumes "all_reads_pure c" and "ReadOnly (c_cfg c)" and "applyConfigParallel cancel c cfg evs s (r, s')"
  shows "s' = s \<or> isl r \<and> s' = s\<lparr>kube := cancel (kube s)\<rparr>"
proof -
  let ?rs = "map fst (map (phase_run c cfg evs (kube s)) [0..<6])"
  have d: "list_all (\<lambda>e. case phase_of e of None \<Rightarrow> True | Some i \<Rightarrow> i < 6) evs" "cancel_ok evs ?rs" "errgroup_Wait ?rs r"
      "run_events cancel c evs s = Some s'"
      "\<And>i. i < 6 \<Longrightarrow> phase_ok evs i (snd (phase_run c cfg evs (kube s) i))"
    using assms(3) by (simp_all add: applyConfigParallel_def Let_def list_all_iff)
  have ph: "only_read (snd (phase_run c cfg evs (kube s) i)) \<and> phase_ok evs i (snd (phase_run c cfg evs (kube s) i))"
    if "e \<in> set evs" "phase_of e = Some i" for e i
    using phase_only_reads [OF assms(1,2)] d(5) d(1) that by (fastforce simp: list_all_iff)
  have "a = b" if "Call i b a \<in> set evs" for i b a
    using ph [OF that] that by (auto simp: only_read_def phase_ok_def calls_of_mem)
  moreover have "Enqueue i q \<notin> set evs" for i q
    using ph [of "Enqueue i q" i] by (auto simp: only_read_def phase_ok_def requests_of_mem of_nil_def)
  ultimately have s': "s' = s\<lparr>kube := (cancel ^^ length (filter (\<lambda>e. phase_of e = None) evs)) (kube s)\<rparr>"
    using run_events_only_read [OF d(4)] by blast
  show ?thesis
  proof (cases "list_all (\<lambda>x. \<not> isl x) ?rs")
    case True
    with d(2) have "Cancel \<notin> set evs" by (simp add: cancel_ok_def)
    then have "filter (\<lambda>e. phase_of e = None) evs = []" by (simp add: filter_empty_conv) (metis phase_of.simps(1,2) event.exhaust not_None_eq)
    with s' show ?thesis by simp
  next
    case False
    with d(2,3) s' show ?thesis by (simp add: cancel_ok_def errgroup_Wait_def)
  qed
qed

text \<open>
  C25. Read-only mode writes nothing, in sequence and in parallel: whatever the configuration, valid or
  not, and however the phases interleave, the cluster and the deletion queue are as before when all
  phases have run or one has failed. The only trace of a parallel run that fails is that the context of
  its goroutines is cancelled.
\<close>

theorem applyConfig_read_only:
  assumes "all_reads_pure c" and "ReadOnly (c_cfg c)"
    and "\<forall>out. ReconcileParallel (c_cfg c) \<and> SanitizeTraefikConfig cfg = Inr (Some out) \<longrightarrow> possible cancel c out s (par out s)"
    and "applyConfig par c cfg s = (r, s')"
  shows "s' = s \<or> ReconcileParallel (c_cfg c) \<and> isl r \<and> s' = s\<lparr>kube := cancel (kube s)\<rparr>"
proof (cases "SanitizeTraefikConfig cfg")
  case (Inl e)
  with assms(4) show ?thesis by (auto simp: applyConfig_def io_defs)
next
  case (Inr o')
  show ?thesis
  proof (cases cfg)
    case None
    with Inr assms(4) show ?thesis by (auto simp: applyConfig_def io_defs SanitizeTraefikConfig_def [of None])
  next
    case (Some cf)
    with Inr obtain out where out: "o' = Some out" by (auto elim: SanitizeTraefikConfig_Inr)
    show ?thesis
    proof (cases "ReconcileParallel (c_cfg c)")
      case True
      with assms(4) Inr out have "par out s = (r, s')" by (simp add: applyConfig_def io_defs)
      with assms(3) True Inr out obtain evs where "applyConfigParallel cancel c out evs s (r, s')" by (auto simp: possible_def)
      from parallel_read_only [OF assms(1,2) this] True show ?thesis by blast
    next
      case False
      with assms(4) Inr out have "applyConfigSequential c out s = (r, s')" by (simp add: applyConfig_def io_defs)
      with sequential_read_only [OF assms(1,2), of out s] show ?thesis by simp
    qed
  qed
qed

section \<open>The sequential run is a possible run\<close>

text \<open>A relation between two states of the controller, from one between their worlds.\<close>

definition k_rel :: "('v \<Rightarrow> 'w \<Rightarrow> bool) \<Rightarrow> graceDeleteReq list option \<times> graceDeleteReq list \<Rightarrow> 'v kst \<Rightarrow> 'w kst \<Rightarrow> bool" where
  "k_rel R q s t \<longleftrightarrow> R (kube s) (kube t) \<and> (graceDelQueue s, inflight s) = q \<and> (graceDelQueue t, inflight t) = (None, [])"

lemma tracks_k_io: "tracks D R m n \<Longrightarrow> tracks (\<lambda>s. D (kube s)) (k_rel R q) (k_io m) (k_io n)"
  unfolding tracks_def k_io_eq k_rel_def by fastforce

lemma tracks_k_sys:
  assumes "tracks_client D R (c_dyn c g (Namespace (c_cfg c))) (c_dyn c' g (Namespace (c_cfg c')))"
    and "tracks_outside D R (c_env c) (c_env c')" and "c_cfg c = c_cfg c'"
  shows "tracks_sys (\<lambda>s. D (kube s)) (k_rel R q) c c' g"
proof -
  have "tracks (\<lambda>s. D (kube s)) (k_rel R q) (wait (k_outside (c_env c)) d) (wait (k_outside (c_env c')) d)" for d
    using assms(2) unfolding tracks_outside_def tracks_def k_outside_def k_rel_def by (auto simp: case_prod_beta)
  with assms show ?thesis
    by (simp add: tracks_sys_def res_ifc_def tracks_client_def k_client_def tracks_k_io tracks_outside_def k_outside_def)
qed

text \<open>The run of a phase is determined by the calls it has made.\<close>

definition recorded :: "('w \<times> 'w) list \<Rightarrow> 'w watched \<Rightarrow> bool" where
  "recorded calls p \<longleftrightarrow> (\<exists>rest. calls = snd p @ rest)"

lemma arrive_replay:
  assumes "at_last w0 p" and "recorded l (snd (at_call w0 calls m p))"
  shows "arrive w0 calls (length (snd p)) (fst p) = arrive w0 l (length (snd p)) (fst p)"
proof -
  let ?k = "length (snd p)"
  obtain a rest where l: "l = snd p @ (arrive w0 calls ?k (fst p), a) # rest"
    using assms(2) by (auto simp: recorded_def at_call_parts)
  have "(w0 # map snd l) ! ?k = fst p"
    using assms(1) l by (cases "snd p" rule: rev_cases) (auto simp: nth_append nth_Cons' at_last_def)
  moreover have "?k < length l" "fst (l ! ?k) = arrive w0 calls ?k (fst p)"
    using l by (simp_all add: nth_append)
  ultimately show ?thesis unfolding arrive_def [of w0 l ?k "fst p"] by simp
qed

lemma at_call_replay:
  "tracks (\<lambda>p. \<not> recorded l p) (\<lambda>p q. p = q \<and> at_last w0 p \<and> recorded l p) (at_call w0 calls m) (at_call w0 l m)"
  unfolding tracks_def
proof (intro conjI allI impI)
  fix p assume "\<not> recorded l p"
  then show "\<not> recorded l (snd (at_call w0 calls m p))" by (auto simp: recorded_def at_call_parts)
next
  fix p q assume "p = q \<and> at_last w0 p \<and> recorded l p"
  then have pq: "q = p" "at_last w0 p" by auto
  show "fst (at_call w0 calls m p) = fst (at_call w0 l m q)
      \<and> snd (at_call w0 calls m p) = snd (at_call w0 l m q) \<and> at_last w0 (snd (at_call w0 calls m p))
      \<and> recorded l (snd (at_call w0 calls m p))
    \<or> \<not> recorded l (snd (at_call w0 calls m p))"
    using arrive_replay [OF pq(2), of l calls m] unfolding pq(1) by (auto simp: at_call_def at_last_def Let_def split: prod.split)
qed

text \<open>A run that nothing interferes with, begun after other phases have gone from \<open>w0\<close> to \<open>b0\<close>.\<close>

fun linked :: "'w \<Rightarrow> ('w \<times> 'w) list \<Rightarrow> 'w \<Rightarrow> bool" where
  "linked x [] y = (x = y)"
| "linked x ((b, a) # cs) y = (b = x \<and> linked a cs y)"

lemma linked_snoc: "linked x (cs @ [(b, a)]) y \<longleftrightarrow> linked x cs b \<and> a = y"
  by (induction x cs b rule: linked.induct) auto

lemma at_call_start:
  "tracks (\<lambda>_. False) (\<lambda>w p. linked b0 (snd p) w \<and> fst p = (if snd p = [] then w0 else w)) m (at_call w0 [(b0, b0)] m)"
proof -
  have "arrive w0 [(b0, b0)] (length cs) v = w" if "linked b0 cs w" "v = (if cs = [] then w0 else w)" for cs v w
    using that by (cases cs) (auto simp: arrive_def)
  then show ?thesis by (simp add: tracks_def at_call_parts linked_snoc)
qed

lemma watched_tracks:
  shows "tracks_sys (\<lambda>s. \<not> recorded l (kube s)) (k_rel (\<lambda>p q. p = q \<and> at_last w0 p \<and> recorded l p) (None, []))
      (watched w0 calls c) (watched w0 l c) g"
    and "tracks_sys (\<lambda>_. False) (k_rel (\<lambda>w p. linked b0 (snd p) w \<and> fst p = (if snd p = [] then w0 else w)) q)
      c (watched w0 [(b0, b0)] c) g"
  by (rule tracks_k_sys;
      simp add: watched_def watched_client_def tracks_client_def tracks_outside_def at_call_replay at_call_start)+

lemma phase_tracks:
  assumes "tracks_sys D R c c' (phase_gvr c i)" and "GCGracePeriod (c_cfg c) \<le> 0" and "TCP cfg = None" and "UDP cfg = None"
    and "i < 6" and "c_net c = c_net c'" and "\<forall>j. phase_gvr c j = phase_gvr c' j"
  shows "tracks D R (phases c cfg ! i) (phases c' cfg ! i)"
proof -
  have e: "c_cfg c = c_cfg c'" using assms(1) by (simp add: tracks_sys_def)
  have g: "gvrMiddleware c = gvrMiddleware c'" "gvrIngressRoute c = gvrIngressRoute c'"
      "gvrServersTransport c = gvrServersTransport c'" "gvrTraefikService c = gvrTraefikService c'"
    using assms(7) [rule_format, of 0] assms(7) [rule_format, of 1] assms(7) [rule_format, of 2] assms(7) [rule_format, of 3]
    by (simp_all add: phase_gvr_def)
  from assms(5) have "i = 0 \<or> i = 1 \<or> i = 2 \<or> i = 3 \<or> i = 4 \<or> i = 5" by linarith
  with assms(1-4) show ?thesis
    by (elim disjE) (auto simp: phases_def phase_gvr_def reconcileMiddlewares_def reconcileServersTransports_def
        reconcileServices_def reconcileTCP_def reconcileUDP_def Let_def g assms(6) simp flip: e
        intro!: tracks_phases [simplified g] intro: tracks_intros split: option.split)
qed

definition makes_calls :: "'w Controller \<Rightarrow> TraefikConfig \<Rightarrow> 'w \<Rightarrow> nat \<Rightarrow> ('w \<times> 'w) list \<Rightarrow> bool" where
  "makes_calls c cfg w0 i l \<longleftrightarrow>
     (\<exists>v. (phases (watched w0 l c) cfg ! i) \<lparr>kube = (w0, []), graceDelQueue = None, inflight = []\<rparr> = (Inr (), v)
        \<and> snd (kube v) = l \<and> graceDelQueue v = None \<and> inflight v = [])"

lemma sequential_phase:
  assumes run: "(phases c cfg ! i) s = (Inr (), s')" and i: "i < 6" and imm: "GCGracePeriod (c_cfg c) \<le> 0"
    and l4: "TCP cfg = None" "UDP cfg = None"
  shows "\<exists>l. makes_calls c cfg w0 i l \<and> linked (kube s) l (kube s') \<and> graceDelQueue s' = graceDelQueue s \<and> inflight s' = inflight s"
proof -
  let ?z = "\<lparr>kube = (w0, []), graceDelQueue = None, inflight = []\<rparr>"
  have "tracks (\<lambda>_. False)
      (k_rel (\<lambda>w p. linked (kube s) (snd p) w \<and> fst p = (if snd p = [] then w0 else w)) (graceDelQueue s, inflight s))
      (phases c cfg ! i) (phases (watched w0 [(kube s, kube s)] c) cfg ! i)"
    by (rule phase_tracks [OF watched_tracks(2) imm l4 i]) (simp_all add: phase_gvr_def)
  from tracksD [OF this _ run, of ?z] obtain u where
    u: "(phases (watched w0 [(kube s, kube s)] c) cfg ! i) ?z = (Inr (), u)"
      "linked (kube s) (snd (kube u)) (kube s')" "(graceDelQueue s', inflight s') = (graceDelQueue s, inflight s)"
    by (auto simp: k_rel_def)
  let ?l = "snd (kube u)"
  have "tracks (\<lambda>s. \<not> recorded ?l (kube s)) (k_rel (\<lambda>p q. p = q \<and> at_last w0 p \<and> recorded ?l p) (None, []))
      (phases (watched w0 [(kube s, kube s)] c) cfg ! i) (phases (watched w0 ?l c) cfg ! i)"
    by (rule phase_tracks [OF watched_tracks(1) _ l4 i]) (simp_all add: phase_gvr_def imm)
  from tracksD [OF this _ u(1), of ?z] obtain v where
    "(phases (watched w0 ?l c) cfg ! i) ?z = (Inr (), v)" "kube v = kube u" "graceDelQueue v = None" "inflight v = []"
    by (auto simp: k_rel_def recorded_def at_last_def)
  with u show ?thesis by (intro exI [of _ ?l]) (auto simp: makes_calls_def)
qed

lemma linked_events:
  assumes "linked (kube s) l w"
  shows "run_events cancel c (map (\<lambda>(b, a). Call i b a) l @ evs) s = run_events cancel c evs (s\<lparr>kube := w\<rparr>)"
  using assms by (induction l arbitrary: s) auto

lemma calls_of_append [simp]: "calls_of i (xs @ ys) = calls_of i xs @ calls_of i ys"
  by (induction i xs rule: calls_of.induct) auto

lemma calls_of_map [simp]: "calls_of i (map (\<lambda>(b, a). Call j b a) l) = (if i = j then l else [])"
  by (induction l) auto

lemma requests_of_calls: "(\<forall>e \<in> set evs. \<exists>i b a. e = Call i b a) \<Longrightarrow> requests_of i evs = []"
  by (induction i evs rule: requests_of.induct) auto

text \<open>Phases one after the other never hold more than one slot.\<close>

lemma sem_ok_sorted:
  assumes "sorted (map (\<lambda>e. case phase_of e of None \<Rightarrow> 0 | Some i \<Rightarrow> i) evs)" and "1 \<le> n"
    and "\<forall>e \<in> set evs. phase_of e \<noteq> None"
  shows "sem_ok n evs"
proof -
  let ?f = "\<lambda>e. case phase_of e of None \<Rightarrow> 0 | Some i \<Rightarrow> i"
  have one: "i = ?f (evs ! p)" if p: "p < length evs" and act: "active evs p i" for p i
  proof -
    from act obtain j where j: "j \<le> p" "?f (evs ! j) = i"
      using p by (auto simp: active_def in_set_conv_nth image_iff) (metis Suc_leI less_Suc_eq_le min.absorb2 option.simps(5))
    from act obtain k where k: "p + k < length evs" "?f (evs ! (p + k)) = i"
      by (auto simp: active_def in_set_conv_nth image_iff) (metis add.commute less_diff_conv option.simps(5))
    from sorted_nth_mono [OF assms(1), of j p] sorted_nth_mono [OF assms(1), of p "p + k"] p j k show ?thesis by simp
  qed
  have "length (filter (active evs p) [0..<6]) \<le> 1" if "p < length evs" for p
  proof -
    have "set (filter (active evs p) [0..<6]) \<subseteq> {?f (evs ! p)}" using one [OF that] by auto
    with card_mono [OF _ this] show ?thesis by (simp add: distinct_card [symmetric])
  qed
  with assms(2) show ?thesis by (fastforce simp: sem_ok_def)
qed

lemma sequential_possible:
  assumes "applyConfigSequential c cfg s = (Inr (), s')" and "GCGracePeriod (c_cfg c) \<le> 0"
    and "TCP cfg = None" and "UDP cfg = None"
  shows "possible cancel c cfg s (Inr (), s')"
proof -
  let ?p = "phases c cfg"
  obtain s1 s2 s3 where r: "(?p ! 0) s = (Inr (), s1)" "(?p ! 1) s1 = (Inr (), s2)" "(?p ! 2) s2 = (Inr (), s3)"
      "(?p ! 3) s3 = (Inr (), s')"
    using assms(1,3,4)
    by (auto simp: applyConfigSequential_def thenIO_Inr wrapIO_Inr reconcileTCP_def reconcileUDP_def phases_def)
  note ph = sequential_phase [OF _ _ assms(2-4), where ?w0.0 = "kube s"]
  obtain l0 l1 l2 l3 where
    l: "makes_calls c cfg (kube s) 0 l0" "makes_calls c cfg (kube s) 1 l1" "makes_calls c cfg (kube s) 2 l2" "makes_calls c cfg (kube s) 3 l3"
      "linked (kube s) l0 (kube s1)" "linked (kube s1) l1 (kube s2)" "linked (kube s2) l2 (kube s3)" "linked (kube s3) l3 (kube s')"
      "graceDelQueue s' = graceDelQueue s" "inflight s' = inflight s"
    using ph [OF r(1)] ph [OF r(2)] ph [OF r(3)] ph [OF r(4)] by auto
  let ?b = "\<lambda>i. map (\<lambda>(b, a). Call i b a)"
  let ?evs = "?b 0 l0 @ ?b 1 l1 @ ?b 2 l2 @ ?b 3 l3"
  have c: "calls_of 0 ?evs = l0" "calls_of 1 ?evs = l1" "calls_of 2 ?evs = l2" "calls_of 3 ?evs = l3"
      "calls_of 4 ?evs = []" "calls_of 5 ?evs = []" by simp_all
  have ok: "\<exists>v. phase_run c cfg ?evs (kube s) i = (Inr (), v) \<and> phase_ok ?evs i v" if "i < 6" for i
  proof -
    have "requests_of i ?evs = []" by (rule requests_of_calls) auto
    moreover have "makes_calls c cfg (kube s) 4 []" "makes_calls c cfg (kube s) 5 []"
      using assms(3,4) by (simp_all add: makes_calls_def phases_def reconcileTCP_def reconcileUDP_def)
    moreover from that have "i = 0 \<or> i = 1 \<or> i = 2 \<or> i = 3 \<or> i = 4 \<or> i = 5" by linarith
    ultimately show ?thesis using l c
      by (elim disjE) (auto simp: makes_calls_def phase_run_def phase_ok_def of_nil_def simp del: calls_of_append)
  qed
  then have rs: "map fst (map (phase_run c cfg ?evs (kube s)) [0..<6]) = replicate 6 (Inr ())"
    by (intro nth_equalityI) (auto, metis fst_conv)
  have "run_events cancel c ?evs s = Some (s\<lparr>kube := kube s'\<rparr>)" using l
    by (simp add: linked_events linked_events [where evs = "[]", simplified])
  moreover have "s\<lparr>kube := kube s'\<rparr> = s'" using l by simp
  moreover have "sem_ok (concurrency (c_cfg c)) ?evs"
    by (rule sem_ok_sorted) (auto simp: concurrency_def sorted_append case_prod_beta comp_def map_replicate_const)
  ultimately have "applyConfigParallel cancel c cfg ?evs s (Inr (), s')"
    unfolding applyConfigParallel_def Let_def rs
    using ok by (auto simp: list_all_iff cancel_ok_def errgroup_Wait_def split: option.split) (metis snd_conv)
  then show ?thesis by (auto simp: possible_def)
qed

text \<open>
  C6. Reconciling in parallel can do what reconciling one phase after the other does: with the same
  clients and deletion at once, a sequential run without an error is a possible run of
  \<open>applyConfigParallel\<close>, whatever the number of slots.
\<close>

theorem sequential_run_possible:
  assumes "applyConfigSequential c cfg s = (Inr (), s')" and "GCGracePeriod (c_cfg c) \<le> 0"
    and "TCP cfg = None" and "UDP cfg = None"
  shows "possible cancel c cfg s (Inr (), s')"
  using assms by (rule sequential_possible)

section \<open>Instances\<close>

definition parallel_cfg :: Config where
  "parallel_cfg = demo_cfg\<lparr>ReconcileParallel := True, ReconcileMax := 2\<rparr>"

lemma parallel_cfg_fields: "ReconcileParallel parallel_cfg" "writable parallel_cfg" "GCGracePeriod parallel_cfg \<le> 0"
  by code_simp+

lemma parallel_demo_cfg: "c_cfg (cluster_demo cfg) = cfg"
  by (simp add: cluster_demo_def NewController_def)

lemma parallel_demo_run:
  obtains s' where "applyConfig (applyConfigSequential (cluster_demo parallel_cfg)) (cluster_demo parallel_cfg)
      (Some cluster_cfg) cluster_state = (Inr (), s')"
proof -
  have "fst (applyConfig (applyConfigSequential (cluster_demo parallel_cfg)) (cluster_demo parallel_cfg)
      (Some cluster_cfg) cluster_state) = Inr ()"
    by code_simp
  then show thesis using that by (metis run_unit)
qed

lemma parallel_demo_possible:
  assumes "SanitizeTraefikConfig (Some cluster_cfg) = Inr (Some out)"
  shows "possible cancel (cluster_demo parallel_cfg) out cluster_state
    (applyConfigSequential (cluster_demo parallel_cfg) out cluster_state)"
proof -
  obtain s' where "applyConfig (applyConfigSequential (cluster_demo parallel_cfg)) (cluster_demo parallel_cfg)
      (Some cluster_cfg) cluster_state = (Inr (), s')" by (rule parallel_demo_run)
  with assms have "applyConfigSequential (cluster_demo parallel_cfg) out cluster_state = (Inr (), s')"
    by (simp add: applyConfig_def io_defs)
  with sequential_possible [OF this] assms show ?thesis
    by (auto simp: parallel_demo_cfg parallel_cfg_fields elim!: SanitizeTraefikConfig_Inr)
qed

theorem applyConfig_converges_witness:
  "\<exists>out s'. ReconcileParallel (c_cfg (cluster_demo parallel_cfg))
    \<and> applyConfig (applyConfigSequential (cluster_demo parallel_cfg)) (cluster_demo parallel_cfg) (Some cluster_cfg) cluster_state
      = (Inr (), s')
    \<and> http_converged (cluster_demo parallel_cfg) cluster_views mem_reflects out (kube cluster_state) (kube s')"
proof -
  let ?c = "cluster_demo parallel_cfg"
  obtain s' where r: "applyConfig (applyConfigSequential ?c) ?c (Some cluster_cfg) cluster_state = (Inr (), s')"
    by (rule parallel_demo_run)
  have d: "distinct [gvrMiddleware ?c, gvrIngressRoute ?c, gvrServersTransport ?c, gvrTraefikService ?c]" by code_simp
  from applyConfig_converges [OF cluster_demo_laws _ _ d r, where cancel = id] r show ?thesis
    by (auto simp: parallel_demo_cfg parallel_cfg_fields parallel_demo_possible)
qed

theorem applyConfig_read_only_witness:
  "\<exists>s'. ReconcileParallel (c_cfg (cluster_demo (parallel_cfg\<lparr>ReadOnly := True\<rparr>)))
    \<and> applyConfig (applyConfigSequential (cluster_demo (parallel_cfg\<lparr>ReadOnly := True\<rparr>)))
        (cluster_demo (parallel_cfg\<lparr>ReadOnly := True\<rparr>)) (Some cluster_cfg) cluster_state = (Inr (), s')
    \<and> s' = cluster_state"
proof -
  let ?c = "cluster_demo (parallel_cfg\<lparr>ReadOnly := True\<rparr>)"
  have f: "ReconcileParallel (c_cfg ?c)" "ReadOnly (c_cfg ?c)" "GCGracePeriod (c_cfg ?c) \<le> 0"
    using parallel_cfg_fields by (simp_all add: parallel_demo_cfg)
  have "fst (applyConfig (applyConfigSequential ?c) ?c (Some cluster_cfg) cluster_state) = Inr ()" by code_simp
  then obtain s' where r: "applyConfig (applyConfigSequential ?c) ?c (Some cluster_cfg) cluster_state = (Inr (), s')"
    by (metis run_unit)
  have "possible id ?c out cluster_state (applyConfigSequential ?c out cluster_state)"
    if "SanitizeTraefikConfig (Some cluster_cfg) = Inr (Some out)" for out
  proof -
    from r that f(1) have "applyConfigSequential ?c out cluster_state = (Inr (), s')"
      by (simp add: applyConfig_def io_defs)
    with sequential_possible [OF this f(3)] that show ?thesis by (auto elim!: SanitizeTraefikConfig_Inr)
  qed
  moreover have "all_reads_pure ?c"
    using mem_reads_pure by (simp add: all_reads_pure_def cluster_demo_def NewController_def reads_pure_def
        typed_reads_pure_def no_objects_def cluster_client_def at_gvr_eq)
  ultimately show ?thesis using applyConfig_read_only [OF _ f(2) _ r, where cancel = id] r f(1) by auto
qed

theorem sequential_run_possible_witness:
  "\<exists>out s'. SanitizeTraefikConfig (Some cluster_cfg) = Inr (Some out)
     \<and> possible id (cluster_demo parallel_cfg) out cluster_state (Inr (), s')"
proof -
  let ?c = "cluster_demo parallel_cfg"
  obtain s' where r: "applyConfig (applyConfigSequential ?c) ?c (Some cluster_cfg) cluster_state = (Inr (), s')"
    by (rule parallel_demo_run)
  then obtain x where x: "SanitizeTraefikConfig (Some cluster_cfg) = Inr x"
    by (cases "SanitizeTraefikConfig (Some cluster_cfg)") (auto simp: applyConfig_def io_defs)
  then obtain out where o: "x = Some out" "TCP out = None" "UDP out = None" by (auto elim: SanitizeTraefikConfig_Inr)
  with r x have "applyConfigSequential ?c out cluster_state = (Inr (), s')"
    by (simp add: applyConfig_def io_defs parallel_demo_cfg parallel_cfg_fields)
  from sequential_run_possible [OF this _ o(2,3)] x o show ?thesis
    by (auto simp: parallel_demo_cfg parallel_cfg_fields)
qed

end
