(* ===== verification/Machine.thy ===== *)
theory Machine
  imports Prelude
begin

text \<open>
  State machines. A machine is a predicate on its first states and a step relation whose steps are
  labelled with what happened; \<open>run\<close> relates the labels of a run, in their order, to the state it leads to.

  Three contracts, each a case of the one before it, with what follows for every run: \<open>simulation\<close> (every step
  of a machine is, under a relation of the states, a step of a specification with the same label),
  \<open>fold_simulation\<close> (the specification is a function of the labels) and \<open>invariant\<close> (it has one state). The
  components interpret them on their own steps: the deletion queue, the poll loop, and the running
  controller against the configuration it is to show.
\<close>

section \<open>Runs\<close>

inductive run :: "('s \<Rightarrow> bool) \<Rightarrow> ('s \<Rightarrow> 'l \<Rightarrow> 's \<Rightarrow> bool) \<Rightarrow> 'l list \<Rightarrow> 's \<Rightarrow> bool" for init step where
  start: "init s \<Longrightarrow> run init step [] s"
| step: "run init step ls s \<Longrightarrow> step s l t \<Longrightarrow> run init step (ls @ [l]) t"

inductive_simps run_Nil: "run init step [] s"
inductive_cases run_snocE: "run init step (ls @ [l]) t"

definition reachable :: "('s \<Rightarrow> bool) \<Rightarrow> ('s \<Rightarrow> 'l \<Rightarrow> 's \<Rightarrow> bool) \<Rightarrow> 's \<Rightarrow> bool" where
  "reachable init step s \<longleftrightarrow> (\<exists>ls. run init step ls s)"

lemma reachable_start: "init s \<Longrightarrow> reachable init step s"
  by (auto simp: reachable_def intro: run.start)

lemma reachable_step: "reachable init step s \<Longrightarrow> step s l t \<Longrightarrow> reachable init step t"
  by (auto simp: reachable_def intro: run.step)

lemmas reachable_intros = reachable_start reachable_step

lemma run_single: "init s \<Longrightarrow> step s l t \<Longrightarrow> run init step [l] t"
  using run.step [of init step "[]" s l t] by (simp add: run.start)

lemma run_step_of: "run init step ls t \<Longrightarrow> l \<in> set ls \<Longrightarrow> \<exists>s s'. reachable init step s \<and> step s l s'"
  by (induction rule: run.induct) (auto simp: reachable_def)

section \<open>Simulations\<close>

locale simulation =
  fixes init :: "'s \<Rightarrow> bool" and step :: "'s \<Rightarrow> 'l \<Rightarrow> 's \<Rightarrow> bool"
    and spec_init :: "'a \<Rightarrow> bool" and spec_step :: "'a \<Rightarrow> 'l \<Rightarrow> 'a \<Rightarrow> bool"
    and rel :: "'s \<Rightarrow> 'a \<Rightarrow> bool"
  assumes sim_init: "init s \<Longrightarrow> \<exists>a. spec_init a \<and> rel s a"
    and sim_step: "rel s a \<Longrightarrow> step s l t \<Longrightarrow> \<exists>b. spec_step a l b \<and> rel t b"
begin

lemma run_simulated: "run init step ls s \<Longrightarrow> \<exists>a. run spec_init spec_step ls a \<and> rel s a"
proof (induction rule: run.induct)
  case (start s)
  with sim_init show ?case by (blast intro: run.start)
next
  case (step ls s l t)
  then obtain a where "run spec_init spec_step ls a" "rel s a" by blast
  with sim_step [OF _ step.hyps(2)] show ?case by (blast intro: run.step)
qed

end

text \<open>A specification that is a function of the labels: it is in the state that a fold over them computes.\<close>

lemma run_function: "run (\<lambda>a. a = a0) (\<lambda>a l b. b = nxt a l) ls a \<Longrightarrow> a = foldl nxt a0 ls"
  by (induction rule: run.induct) auto

locale fold_simulation =
  fixes init :: "'s \<Rightarrow> bool" and step :: "'s \<Rightarrow> 'l \<Rightarrow> 's \<Rightarrow> bool"
    and a0 :: 'a and nxt :: "'a \<Rightarrow> 'l \<Rightarrow> 'a" and rel :: "'s \<Rightarrow> 'a \<Rightarrow> bool"
  assumes rel_init: "init s \<Longrightarrow> rel s a0"
    and rel_step: "rel s a \<Longrightarrow> step s l t \<Longrightarrow> rel t (nxt a l)"

sublocale fold_simulation \<subseteq> simulation init step "\<lambda>a. a = a0" "\<lambda>a l b. b = nxt a l" rel
  by unfold_locales (auto intro: rel_init rel_step)

context fold_simulation
begin

lemma run_fold: "run init step ls s \<Longrightarrow> rel s (foldl nxt a0 ls)"
  using run_simulated run_function by fastforce

end

section \<open>Invariants\<close>

text \<open>An invariant is a simulation by the specification that has one state.\<close>

locale invariant =
  fixes init :: "'s \<Rightarrow> bool" and step :: "'s \<Rightarrow> 'l \<Rightarrow> 's \<Rightarrow> bool" and inv :: "'s \<Rightarrow> bool"
  assumes init_inv: "init s \<Longrightarrow> inv s"
    and step_inv: "inv s \<Longrightarrow> step s l t \<Longrightarrow> inv t"

sublocale invariant \<subseteq> fold_simulation init step "()" "\<lambda>_ _. ()" "\<lambda>s _. inv s"
  by unfold_locales (auto intro: init_inv step_inv)

context invariant
begin

lemma reachable_inv: "reachable init step s \<Longrightarrow> inv s"
  by (auto simp: reachable_def dest: run_fold)

end

end
