(* ===== verification/GraceQueue.thy ===== *)
theory GraceQueue
  imports Parallel Machine
begin

text \<open>
  Delayed deletion (\<open>GC_GRACE_PERIOD\<close>): the queue of \<^verbatim>\<open>internal/controller/apply.go\<close> as a state machine.
  Reconciliation enqueues the stale objects, workers take requests from the queue and delete after
  the delay, and other clients of the cluster write whenever they want; the steps interleave in any
  order.

  Shown: the queue never exceeds its size and holds only requests with the configured delay, for
  kinds the workers know; with a grace period, garbage collection deletes nothing itself and, unless
  requests are dropped, schedules exactly the stale managed objects; and a worker deletes its object
  even when it has become desired again in the meantime.
\<close>

section \<open>Steps\<close>

datatype grace_label = Reconciled | Taken graceDeleteReq | Finished graceDeleteReq | OtherClient

inductive grace_step ::
  "(TraefikConfig \<Rightarrow> ('w kst, unit) io) \<Rightarrow> 'w Controller \<Rightarrow> 'w kst \<Rightarrow> grace_label \<Rightarrow> 'w kst \<Rightarrow> bool" for par c where
  reconcile: "applyConfig par c cfg s = (r, s') \<Longrightarrow> grace_step par c s Reconciled s'"
| take_request: "grace_take s = Some (req, s') \<Longrightarrow> grace_step par c s (Taken req) s'"
| finish_request: "req \<in> set (inflight s) \<Longrightarrow> grace_step par c s (Finished req) (grace_finish c req s)"
| other_client: "grace_step par c s OtherClient (s\<lparr>kube := w\<rparr>)"

inductive_simps grace_step_simps:
  "grace_step par c s (Taken req) s'" "grace_step par c s (Finished req) s'"

definition grace_start :: "'w kst \<Rightarrow> bool" where
  "grace_start s \<longleftrightarrow> of_nil (graceDelQueue s) = [] \<and> inflight s = []"

abbreviation grace_reach ::
  "(TraefikConfig \<Rightarrow> ('w kst, unit) io) \<Rightarrow> 'w Controller \<Rightarrow> 'w kst \<Rightarrow> bool" where
  "grace_reach par c \<equiv> reachable grace_start (grace_step par c)"

section \<open>The invariant\<close>

definition grace_kinds :: "string list" where
  "grace_kinds = [''Middleware'', ''IngressRoute'', ''TraefikService'', ''ServersTransport'', ''IngressRouteTCP'',
     ''IngressRouteUDP'', ''ServersTransportTCP'']"

definition request_ok :: "'w Controller \<Rightarrow> graceDeleteReq \<Rightarrow> bool" where
  "request_ok c r \<longleftrightarrow> gd_delay r = GCGracePeriod (c_cfg c) \<and> GCGracePeriod (c_cfg c) > 0 \<and> \<not> ReadOnly (c_cfg c)
     \<and> gd_kind r \<in> set grace_kinds"

definition queue_inv :: "'w Controller \<Rightarrow> 'w kst \<Rightarrow> bool" where
  "queue_inv c s \<longleftrightarrow> int (length (of_nil (graceDelQueue s))) \<le> queue_size (c_cfg c)
     \<and> (\<forall>r \<in> set (of_nil (graceDelQueue s)) \<union> set (inflight s). request_ok c r)"

lemma queue_size_pos: "queue_size cfg > 0"
  by (simp add: queue_size_def)

text \<open>What an enqueue does: the request is dropped, waits in the queue, or waits there after another was taken.\<close>

lemma enqueue_cases:
  assumes "enqueueGraceDeletion c req s = (r, s')"
  obtains "of_nil (graceDelQueue s') = of_nil (graceDelQueue s)" "inflight s' = inflight s"
      "c_done c (kube s) \<or> \<not> c_slot c (kube s)" "kube s' = kube s" "r = Inr ()"
    | "of_nil (graceDelQueue s') = of_nil (graceDelQueue s) @ [req]" "inflight s' = inflight s"
      "int (length (of_nil (graceDelQueue s))) < queue_size (c_cfg c)" "kube s' = kube s" "r = Inr ()"
    | h q where "of_nil (graceDelQueue s) = h # q" "of_nil (graceDelQueue s') = q @ [req]"
      "inflight s' = inflight s @ [h]" "kube s' = kube s" "r = Inr ()"
proof -
  have p: "of_nil (graceDelQueue (startGraceDeletionPool s)) = of_nil (graceDelQueue s)"
      "kube (startGraceDeletionPool s) = kube s" "inflight (startGraceDeletionPool s) = inflight s"
    by (simp_all add: startGraceDeletionPool_def of_nil_def split: option.split)
  have "of_nil (Some q) = q" for q :: "graceDeleteReq list" by (simp add: of_nil_def)
  with assms that p queue_size_pos [of "c_cfg c"] show thesis
    by (cases "of_nil (graceDelQueue s)") (auto simp: enqueueGraceDeletion_def Let_def split: if_splits)
qed

lemma queue_inv_schedule:
  assumes "\<not> ReadOnly (c_cfg c)" and "GCGracePeriod (c_cfg c) > 0" and "kind \<in> set grace_kinds"
  shows "keeps (queue_inv c) (scheduleGraceDeletion c kind n)"
proof -
  let ?req = "\<lparr>gd_kind = kind, gd_name = n, gd_delay = GCGracePeriod (c_cfg c)\<rparr>"
  have ok: "request_ok c ?req" using assms by (simp add: request_ok_def)
  have "queue_inv c (snd (enqueueGraceDeletion c ?req s))" if inv: "queue_inv c s" for s
  proof -
    obtain r s' where e: "enqueueGraceDeletion c ?req s = (r, s')" by fastforce
    from e inv ok have "queue_inv c s'" by (cases rule: enqueue_cases) (auto simp: queue_inv_def)
    with e show ?thesis by simp
  qed
  then show ?thesis by (simp add: keeps_def scheduleGraceDeletion_def)
qed

lemma queue_inv_kube: "queue_inv c (s\<lparr>kube := w\<rparr>) = queue_inv c s"
  by (simp add: queue_inv_def)

lemma queue_inv_sys: "keeps_sys c g (queue_inv c)"
  by (simp add: keeps_sys_def keeps_client_def res_ifc_def k_client_def keeps_def k_io_eq queue_inv_kube
      keeps_wait_def k_outside_def split: prod.split)

lemma keeps_handleGraceDelete:
  assumes "keeps_sys c (gvrForKind c (gd_kind req)) P" and "P s"
  shows "P (handleGraceDelete c req s)"
proof -
  obtain b v where v: "(if gd_delay req > 0 then wait (k_outside (c_env c)) (gd_delay req) s else (True, s)) = (b, v)"
    by fastforce
  with assms have "P v" by (auto simp: keeps_sys_def keeps_wait_def split: if_splits) (metis snd_conv)
  with v assms(1) keepsD [OF keeps_clientD(4)] show ?thesis
    by (auto simp: handleGraceDelete_def keeps_sys_def Let_def)
qed

lemma queue_inv_sections:
  assumes "kind \<in> set grace_kinds"
  shows "keeps (queue_inv c) (thenIO (applyDesiredObjects c g a) (gcStaleObjects c g b kind))"
    and "keeps (queue_inv c) (reconcileRouters c routers)"
proof -
  have sch: "keeps (queue_inv c) (scheduleGraceDeletion c kind n)"
    if "kind \<in> set grace_kinds" "\<not> ReadOnly (c_cfg c)" "GCGracePeriod (c_cfg c) > 0" for kind n
    using queue_inv_schedule that by blast
  show "keeps (queue_inv c) (thenIO (applyDesiredObjects c g a) (gcStaleObjects c g b kind))"
      "keeps (queue_inv c) (reconcileRouters c routers)"
    using keeps_phases(1) [OF queue_inv_sys sch [OF assms]]
      keeps_phases(2) [OF queue_inv_sys sch [of "''IngressRoute''"] refl refl]
    by (auto simp: grace_kinds_def)
qed

lemma queue_inv_phase:
  assumes "TCP cfg = None" and "UDP cfg = None" and "i < 6"
  shows "keeps (queue_inv c) (phases c cfg ! i)"
proof -
  from assms(3) have "i = 0 \<or> i = 1 \<or> i = 2 \<or> i = 3 \<or> i = 4 \<or> i = 5" by linarith
  with assms(1,2) show ?thesis
    by (elim disjE) (auto simp: phases_def reconcileMiddlewares_def reconcileServersTransports_def reconcileServices_def
        reconcileTCP_def reconcileUDP_def Let_def grace_kinds_def
        intro!: queue_inv_sections intro: keeps_intros split: option.split)
qed

lemma queue_inv_sequential:
  assumes "TCP cfg = None" and "UDP cfg = None"
  shows "keeps (queue_inv c) (applyConfigSequential c cfg)"
  using queue_inv_phase [OF assms, of 0 c] queue_inv_phase [OF assms, of 1 c] queue_inv_phase [OF assms, of 2 c]
    queue_inv_phase [OF assms, of 3 c] queue_inv_phase [OF assms, of 4 c] queue_inv_phase [OF assms, of 5 c]
  unfolding applyConfigSequential_def phases_def by (auto intro!: keeps_intros)

text \<open>In parallel: every request of a phase is one the queue may hold.\<close>

lemma parallel_requests:
  assumes "applyConfigParallel cancel c cfg evs s out" and "TCP cfg = None" and "UDP cfg = None" and "Enqueue i r \<in> set evs"
  shows "request_ok c r"
proof -
  from assms(1,4) have i: "i < 6" by (auto simp: applyConfigParallel_def Let_def list_all_iff)
  with assms(1) have "phase_ok evs i (snd (phase_run c cfg evs (kube s) i))"
    by (simp add: applyConfigParallel_def Let_def list_all_iff)
  moreover have "queue_inv (watched (kube s) (calls_of i evs) c) (snd (phase_run c cfg evs (kube s) i))"
    unfolding phase_run_def
    by (rule keepsD [OF queue_inv_phase [OF assms(2,3) i]]) (simp add: queue_inv_def of_nil_def queue_size_def)
  moreover have "request_ok (watched (kube s) (calls_of i evs) c) = request_ok c"
    by (intro ext) (simp add: request_ok_def)
  ultimately show ?thesis using assms(4) unfolding queue_inv_def phase_ok_def requests_of_mem by (metis Un_commute set_append)
qed

lemma queue_inv_events:
  assumes "run_events cancel c evs s = Some s'" and "queue_inv c s" and "\<forall>i r. Enqueue i r \<in> set evs \<longrightarrow> request_ok c r"
  shows "queue_inv c s'"
  using assms
proof (induction cancel c evs s rule: run_events.induct)
  case (3 cancel c i req evs s)
  obtain r v where e: "enqueueGraceDeletion c req s = (r, v)" by fastforce
  from e 3 have "queue_inv c v" by (cases rule: enqueue_cases) (auto simp: queue_inv_def)
  with 3 e show ?case by simp
qed (auto simp: queue_inv_kube split: if_splits)

lemma queue_inv_applyConfig:
  assumes "parallel_ok cancel c par"
  shows "keeps (queue_inv c) (applyConfig par c cfg)"
proof -
  have "keeps (queue_inv c) (if \<not> ReconcileParallel (c_cfg c) then applyConfigSequential c out else par out)"
    if "TCP out = None" "UDP out = None" for out
  proof (cases "ReconcileParallel (c_cfg c)")
    case True
    have "queue_inv c (snd (par out s))" if "queue_inv c s" for s
    proof -
      from assms True \<open>TCP out = None\<close> \<open>UDP out = None\<close> obtain evs
        where e: "applyConfigParallel cancel c out evs s (par out s)"
        by (auto simp: parallel_ok_def parallel_by_def possible_def)
      then have "run_events cancel c evs s = Some (snd (par out s))" by (simp add: applyConfigParallel_def Let_def)
      from queue_inv_events [OF this that] parallel_requests [OF e] \<open>TCP out = None\<close> \<open>UDP out = None\<close>
      show ?thesis by blast
    qed
    with True show ?thesis by (simp add: keeps_def)
  qed (use queue_inv_sequential that in simp)
  then have "keeps (queue_inv c) (case x of None \<Rightarrow> retIO () | Some s \<Rightarrow>
        if \<not> ReconcileParallel (c_cfg c) then applyConfigSequential c s else par s)"
    if "SanitizeTraefikConfig cfg = Inr x" for x
    using that by (cases cfg) (auto simp: SanitizeTraefikConfig_def [of None] intro: keeps_intros elim!: SanitizeTraefikConfig_Inr)
  then show ?thesis
    unfolding applyConfig_def by (cases "SanitizeTraefikConfig cfg") (auto simp: keeps_def io_defs)
qed

lemma queue_inv_take: "queue_inv c s \<Longrightarrow> grace_take s = Some (req, s') \<Longrightarrow> queue_inv c s' \<and> request_ok c req"
  by (auto simp: grace_take_def queue_inv_def of_nil_def split: option.splits list.splits)

lemma queue_inv_finish: "queue_inv c s \<Longrightarrow> queue_inv c (grace_finish c req s)"
  unfolding grace_finish_def
  by (rule keeps_handleGraceDelete [OF queue_inv_sys]) (auto simp: queue_inv_def dest: subsetD [OF set_remove1_subset])

lemma queue_inv_step:
  assumes "parallel_ok cancel c par" and "grace_step par c s l s'" and "queue_inv c s"
  shows "queue_inv c s'"
  using assms(2)
proof (cases rule: grace_step.cases)
  case (reconcile cfg r)
  with keepsD [OF queue_inv_applyConfig [OF assms(1)] assms(3)] show ?thesis by (metis snd_conv)
qed (use assms(3) in \<open>auto simp: queue_inv_kube queue_inv_take queue_inv_finish\<close>)

lemma queue_inv_start: "grace_start s \<Longrightarrow> queue_inv c s"
  using queue_size_pos [of "c_cfg c"] by (simp add: queue_inv_def grace_start_def)

interpretation grace_queue: invariant grace_start "grace_step par c" "\<lambda>s. parallel_ok cancel c par \<longrightarrow> queue_inv c s"
  for par :: "TraefikConfig \<Rightarrow> ('w kst, unit) io" and c cancel
  by unfold_locales (auto intro: queue_inv_start queue_inv_step)

text \<open>
  C9. In every reachable state of the deletion queue, whatever the interleaving: the queue is within
  its size, and every request, waiting or in flight, carries the configured positive delay and a kind
  the workers know. In read-only mode and without a grace period there are no requests at all.
\<close>

theorem grace_queue_invariant:
  assumes "grace_reach par c s" and "parallel_ok cancel c par"
  shows "queue_inv c s"
  using grace_queue.reachable_inv [OF assms(1)] assms(2) by blast

text \<open>The kinds of the requests are those \<open>gvrForKind\<close> knows, so no worker drops one.\<close>

lemma grace_kinds_known:
  assumes "kind \<in> set grace_kinds"
  shows "gvr_Resource (gvrForKind (NewController cfg dyn svcs slices env net slot cancelled) kind) \<noteq> []"
  using assms by (auto simp: grace_kinds_def gvrForKind_def NewController_def traefik_gvr_def)

section \<open>Scheduling\<close>

definition request_for :: "'w Controller \<Rightarrow> string \<Rightarrow> string \<Rightarrow> graceDeleteReq" where
  "request_for c kind n = \<lparr>gd_kind = kind, gd_name = n, gd_delay = GCGracePeriod (c_cfg c)\<rparr>"

definition pending :: "'w kst \<Rightarrow> graceDeleteReq set" where
  "pending s = set (of_nil (graceDelQueue s)) \<union> set (inflight s)"

lemma pending_schedule:
  assumes "scheduleGraceDeletion c kind n s = (r, s')"
  shows "kube s' = kube s" "pending s \<subseteq> pending s'" "pending s' \<subseteq> insert (request_for c kind n) (pending s)"
    "\<lbrakk>\<not> c_done c (kube s); c_slot c (kube s)\<rbrakk> \<Longrightarrow> request_for c kind n \<in> pending s'"
  using assms unfolding scheduleGraceDeletion_def request_for_def [symmetric]
  by (cases rule: enqueue_cases; auto simp: pending_def)+

lemma gc_loop_grace:
  assumes "\<not> ReadOnly (c_cfg c)" and "GCGracePeriod (c_cfg c) > 0"
    and "loopIO (gc_item c gvr desired kind) items s = (Inr u, s')"
  defines "reqs \<equiv> request_for c kind ` GetName ` {x \<in> set items. stale c desired x}"
  shows "kube s' = kube s \<and> pending s \<subseteq> pending s' \<and> pending s' \<subseteq> pending s \<union> reqs
    \<and> (\<not> c_done c (kube s) \<and> c_slot c (kube s) \<longrightarrow> reqs \<subseteq> pending s')"
  using assms(3) unfolding reqs_def
proof (induction items arbitrary: s)
  case (Cons x items)
  then obtain y v where x: "gc_item c gvr desired kind x s = (Inr y, v)"
      and l: "loopIO (gc_item c gvr desired kind) items v = (Inr u, s')"
    by (auto simp: thenIO_Inr)
  note ih = Cons.IH [OF l]
  show ?case
  proof (cases "stale c desired x")
    case True
    with x assms(1,2) have "scheduleGraceDeletion c kind (GetName x) s = (Inr y, v)"
      by (simp add: gc_item_def staleManagedName_eq)
    note p = pending_schedule [OF this]
    have "{y \<in> set (x # items). stale c desired y} = insert x {y \<in> set items. stale c desired y}" using True by auto
    with ih p show ?thesis unfolding image_insert by auto
  next
    case False
    with x have "v = s" by (simp add: gc_item_def staleManagedName_eq)
    with ih False show ?thesis by auto
  qed
qed simp

text \<open>
  Garbage collection with a grace period deletes nothing at once. It adds requests only for
  objects that carry the managed label and annotation and are not desired; and unless the queue is
  full with no worker free, or the context is cancelled, for every one of them.
\<close>

theorem gcStaleObjects_grace:
  assumes "client_laws (c_dyn c gvr (Namespace (c_cfg c))) view" and "CHR ''='' \<notin> set (ManagedLabelKey (c_cfg c))"
    and "\<not> ReadOnly (c_cfg c)" and "GCGracePeriod (c_cfg c) > 0"
    and "gcStaleObjects c gvr desired kind s = (Inr (), s')"
  defines "due \<equiv> request_for c kind ` {n. n \<notin> set (go_keys desired) \<and> (\<exists>x. view (kube s) n = Some x \<and> managed (c_cfg c) x)}"
  shows "view (kube s') = view (kube s) \<and> pending s' \<subseteq> pending s \<union> due
    \<and> ((\<forall>w. \<not> c_done c w \<and> c_slot c w) \<longrightarrow> pending s' = pending s \<union> due)"
proof -
  have laws: "client_laws (res_ifc c gvr) (\<lambda>s. view (kube s))"
    using k_client_laws [OF assms(1)] by (simp add: res_ifc_def)
  obtain items v where l: "api_List (res_ifc c gvr) (managed_selector (c_cfg c)) s = (Inr items, v)"
      and loop: "loopIO (gc_item c gvr (buildDesiredSet desired) kind) items v = (Inr (), s')"
    using assms(5) by (auto simp: gcStaleObjects_def bindIO_Inr)
  note li = client_laws_List [OF laws l [unfolded managed_selector_def] assms(2)]
  have "GetName ` {x \<in> set items. stale c (buildDesiredSet desired) x} =
      {n. n \<notin> set (go_keys desired) \<and> (\<exists>x. view (kube s) n = Some x \<and> managed (c_cfg c) x)}"
    using client_laws_name [OF assms(1)] by (auto simp: li(2) stale_iff managed_def buildDesiredSet_def image_iff)
  note g = gc_loop_grace [OF assms(3,4) loop, unfolded this, folded due_def]
  have "pending v = pending s"
    using l by (auto simp: k_client_List k_io_eq pending_def)
  with g li(1) show ?thesis by auto
qed

section \<open>Deletion\<close>

text \<open>
  C27. A worker deletes the object of its request whatever the object is by then: when the timer
  fires and the call succeeds or finds nothing, no object of that name is left, managed or not,
  desired again or not.
\<close>

theorem grace_finish_deletes:
  assumes "client_laws (c_dyn c (gvrForKind c (gd_kind req)) (Namespace (c_cfg c))) view"
    and "wait_law (c_env c) view" and "gvr_Resource (gvrForKind c (gd_kind req)) \<noteq> []"
    and "\<And>d w. fst (wait (c_env c) d w)"
    and "\<And>w e. fst (api_Delete (c_dyn c (gvrForKind c (gd_kind req)) (Namespace (c_cfg c))) (gd_name req) w) = Inl e \<Longrightarrow>
      IsNotFound e"
  shows "view (kube (grace_finish c req s)) = (view (kube s))(gd_name req := None)"
proof -
  let ?g = "gvrForKind c (gd_kind req)" and ?s = "s\<lparr>inflight := remove1 req (inflight s)\<rparr>"
  obtain w where w: "view w = view (kube s)"
    and f: "grace_finish c req s = snd (api_Delete (res_ifc c ?g) (gd_name req) (?s\<lparr>kube := w\<rparr>))"
  proof (cases "gd_delay req > 0")
    case True
    obtain b v where b: "wait (c_env c) (gd_delay req) (kube s) = (b, v)" by fastforce
    with assms(4) [of "gd_delay req" "kube s"] assms(2) have "b" "view v = view (kube s)"
      by (auto simp: wait_law_def) (metis snd_conv)+
    with b True assms(3) show thesis
      by (intro that [of v]) (auto simp: grace_finish_def handleGraceDelete_def k_outside_def Let_def)
  next
    case False
    with assms(3) show thesis
      by (intro that [of "kube s"]) (auto simp: grace_finish_def handleGraceDelete_def Let_def)
  qed
  obtain r v where d: "api_Delete (c_dyn c ?g (Namespace (c_cfg c))) (gd_name req) w = (r, v)" by fastforce
  have "view v = (view w)(gd_name req := None)"
    using client_laws_Delete [OF assms(1) d] assms(5) [of w] d by (cases r) auto
  with f w d show ?thesis by (simp add: k_client_Delete k_io_eq)
qed

section \<open>Instances\<close>

definition grace_cfg :: Config where
  "grace_cfg = demo_cfg\<lparr>GCGracePeriod := 30 * Second\<rparr>"

lemma grace_cfg_fields: "\<not> ReadOnly grace_cfg" "GCGracePeriod grace_cfg > 0" "\<not> ReconcileParallel grace_cfg"
    "CHR ''='' \<notin> set (ManagedLabelKey grace_cfg)"
  by code_simp+

theorem grace_queue_invariant_witness:
  "\<exists>s. grace_reach (\<lambda>_. retIO ()) (cluster_demo grace_cfg) s \<and> length (of_nil (graceDelQueue s)) = 4
     \<and> queue_inv (cluster_demo grace_cfg) s"
proof -
  let ?s = "snd (applyConfig (\<lambda>_. retIO ()) (cluster_demo grace_cfg) (Some cluster_cfg) cluster_state)"
  have "grace_reach (\<lambda>_. retIO ()) (cluster_demo grace_cfg) cluster_state"
    by (rule reachable_start) (simp add: grace_start_def cluster_state_def of_nil_def)
  then have r: "grace_reach (\<lambda>_. retIO ()) (cluster_demo grace_cfg) ?s"
    by (rule reachable_step) (rule grace_step.reconcile, rule prod.collapse [symmetric])
  have "parallel_ok id (cluster_demo grace_cfg) (\<lambda>_. retIO ())"
    using grace_cfg_fields(3) by (simp add: parallel_ok_def cluster_demo_def NewController_def)
  note inv = grace_queue_invariant [OF r this]
  have "length (of_nil (graceDelQueue ?s)) = 4" by code_simp
  with r inv show ?thesis by blast
qed

text \<open>A middleware is dropped from the configuration and then put back before its grace period is over.\<close>

definition grace_s1 :: "mem kst" where
  "grace_s1 = snd (reconcileMiddlewares ((demo grace_cfg)\<lparr>c_slot := \<lambda>_. True\<rparr>) [] demo_state)"

definition grace_s2 :: "mem kst" where
  "grace_s2 = snd (reconcileMiddlewares (demo grace_cfg) [(''old'', RawJSON (IMap []))] grace_s1)"

theorem gcStaleObjects_grace_witness:
  "pending grace_s1 = {\<lparr>gd_kind = ''Middleware'', gd_name = ''old'', gd_delay = 30 * Second\<rparr>}
   \<and> mem_view (kube grace_s1) ''old'' \<noteq> None"
proof -
  let ?c = "(demo grace_cfg)\<lparr>c_slot := \<lambda>_. True\<rparr>" and ?g = "traefik_gvr ''middlewares''"
  have "fst (gcStaleObjects ?c ?g [] ''Middleware'' demo_state) = Inr ()" by code_simp
  note run = run_unit [OF this]
  have s1: "grace_s1 = snd (gcStaleObjects ?c ?g [] ''Middleware'' demo_state)"
    using grace_cfg_fields(1)
    by (simp add: grace_s1_def reconcileMiddlewares_def applyDesiredObjects_def demo_def NewController_def thenIO_def
        bindIO_def caseIO_def)
  have f: "c_cfg ?c = grace_cfg" "c_dyn ?c ?g (Namespace grace_cfg) = mem_client" "c_slot ?c w" "\<not> c_done ?c w" for w
    by (simp_all add: demo_def NewController_def)
  note t = gcStaleObjects_grace [of ?c ?g mem_view, OF _ _ _ _ run, unfolded f, OF mem_client_laws
      grace_cfg_fields(4,1,2), folded s1]
  have v: "mem_view (kube demo_state) n = (if n = ''old'' then Some (demo_object ''old'') else
      if n = ''foreign'' then Some ((demo_object ''foreign'')\<lparr>GetAnnotations := None\<rparr>) else None)" for n
    by (auto simp: mem_view_def demo_state_def demo_object_def)
  have m: "managed grace_cfg (demo_object ''old'')"
      "\<not> managed grace_cfg ((demo_object ''foreign'')\<lparr>GetAnnotations := None\<rparr>)" "pending demo_state = {}"
    by code_simp+
  have "{n. n \<notin> set (go_keys ([] :: raw_message gomap)) \<and> (\<exists>x. mem_view (kube demo_state) n = Some x \<and> managed grace_cfg x)}
      = {''old''}"
    using m by (auto simp: v go_keys_def split: if_splits)
  moreover have "GCGracePeriod grace_cfg = 30 * Second" by (simp add: grace_cfg_def)
  moreover have "\<not> c_done (demo grace_cfg) w" for w by (simp add: demo_def NewController_def)
  ultimately show ?thesis using t m(3) by (simp add: request_for_def f v)
qed

theorem grace_finish_deletes_witness:
  "mem_view (kube grace_s2) ''old'' \<noteq> None
   \<and> mem_view (kube (grace_finish (demo grace_cfg)
        \<lparr>gd_kind = ''Middleware'', gd_name = ''old'', gd_delay = 30 * Second\<rparr> grace_s2)) ''old'' = None"
proof -
  let ?r = "\<lparr>gd_kind = ''Middleware'', gd_name = ''old'', gd_delay = 30 * Second\<rparr>"
  have "gvr_Resource (gvrForKind (demo grace_cfg) (gd_kind ?r)) \<noteq> []" by code_simp
  moreover have "IsNotFound e" if "fst (api_Delete mem_client n w) = Inl e" for n w e
    using that by (auto simp: mem_client_def IsNotFound_def split: option.splits)
  ultimately have "mem_view (kube (grace_finish (demo grace_cfg) ?r grace_s2)) = (mem_view (kube grace_s2))(gd_name ?r := None)"
    by (intro grace_finish_deletes)
      (auto simp: demo_def NewController_def mem_client_laws mem_wait_law, simp add: mem_outside_def)
  moreover have "mem_view (kube grace_s2) ''old'' \<noteq> None" by code_simp
  ultimately show ?thesis by simp
qed

end
