(* ===== verification/Backoff.thy ===== *)
theory Backoff
  imports AppConfig Sha256 "HOL-Library.Log_Nat"
begin

text \<open>
  Waiting between polls (\<^verbatim>\<open>internal/controller/backoff.go\<close>): the duration doubles with every
  consecutive error up to a maximum and is scattered by a random factor between 0.8 and 1.2.

  The random factor is computed in \<open>float64\<close>. A finite float is a rational number, and an operation
  rounds its exact result to 53 significant bits, ties to even (\<open>fround\<close>); the values of this file are
  far from the ends of the exponent range. \<open>int64\<close> arithmetic wraps.

  Shown: the duration without jitter is the poll interval times two to the errors, within the maximum
  (and one nanosecond); with jitter it stays within a fifth of that, up to rounding, and inside
  \<open>int64\<close>.
\<close>

section \<open>Rounding to float64\<close>

text \<open>The binary exponent of a positive rational.\<close>

definition ilog2 :: "rat \<Rightarrow> int" where
  "ilog2 x = (case quotient_of x of (a, b) \<Rightarrow>
     let k = bitlen a - bitlen b in if 2 powi k \<le> x then k else k - 1)"

definition round_half_even :: "rat \<Rightarrow> int" where
  "round_half_even x =
     (let n = \<lfloor>x\<rfloor>; d = x - of_int n in
      if d < 1 / 2 then n else if d > 1 / 2 then n + 1 else if even n then n else n + 1)"

definition fround :: "rat \<Rightarrow> rat" where
  "fround x = (if x = 0 then 0 else
     let e = ilog2 \<bar>x\<bar> - 52 in of_int (round_half_even (x / 2 powi e)) * 2 powi e)"

text \<open>Conversion of a float to \<open>int64\<close> drops the fraction.\<close>

definition ftrunc :: "rat \<Rightarrow> int" where
  "ftrunc x = (if x \<ge> 0 then \<lfloor>x\<rfloor> else \<lceil>x\<rceil>)"

lemma ilog2_bounds:
  assumes "x > 0"
  shows "2 powi ilog2 x \<le> x" and "x < 2 powi (ilog2 x + 1)"
proof -
  obtain a b where q: "quotient_of x = (a, b)" by fastforce
  then have b: "b > 0" and x: "x = of_int a / of_int b"
    by (simp_all add: quotient_of_denom_pos quotient_of_div)
  with assms have a: "a > 0" by (simp add: zero_less_divide_iff)
  have len: "bitlen a \<ge> 1" "bitlen b \<ge> 1" using a b bitlen_nonneg [of a] bitlen_nonneg [of b]
    by (metis bitlen_eq_zero_iff int_one_le_iff_zero_less less_le not_less)+
  have up: "rat_of_int n < 2 powi bitlen n" "2 powi (bitlen n - 1) \<le> rat_of_int n" if "n > 0" "bitlen n \<ge> 1" for n
  proof -
    have "2 ^ nat (bitlen n - 1) \<le> n" "n < 2 ^ nat (bitlen n)" using bitlen_bounds [OF that(1)] by auto
    then have "rat_of_int (2 ^ nat (bitlen n - 1)) \<le> of_int n" "rat_of_int n < of_int (2 ^ nat (bitlen n))"
      by (simp_all only: of_int_le_iff of_int_less_iff)
    with that(2) show "rat_of_int n < 2 powi bitlen n" "2 powi (bitlen n - 1) \<le> rat_of_int n"
      by (simp_all add: power_int_def)
  qed
  let ?k = "bitlen a - bitlen b"
  have "x < 2 powi bitlen a / 2 powi (bitlen b - 1)"
    unfolding x using up [OF a len(1)] up [OF b len(2)] a b by (intro frac_less) auto
  also have "\<dots> = 2 powi (?k + 1)" by (simp flip: power_int_diff add: algebra_simps)
  finally have hi: "x < 2 powi (?k + 1)" .
  have "2 powi (?k - 1) = 2 powi (bitlen a - 1) / (2 powi bitlen b :: rat)"
    by (simp flip: power_int_diff add: algebra_simps)
  also have "\<dots> \<le> x"
    unfolding x using up [OF a len(1)] up [OF b len(2)] a b by (intro frac_le) auto
  finally have lo: "2 powi (?k - 1) \<le> x" .
  show "2 powi ilog2 x \<le> x" "x < 2 powi (ilog2 x + 1)"
    using hi lo by (auto simp: ilog2_def q Let_def)
qed

lemma round_half_even_error: "\<bar>of_int (round_half_even x) - x\<bar> \<le> 1 / 2"
proof -
  have "of_int \<lfloor>x\<rfloor> \<le> x" "x < of_int \<lfloor>x\<rfloor> + 1" by (rule of_int_floor_le) linarith
  then show ?thesis by (simp add: round_half_even_def Let_def abs_le_iff)
qed

lemma fround_error: "\<bar>fround x - x\<bar> \<le> \<bar>x\<bar> / 2 ^ 53"
proof (cases "x = 0")
  case False
  let ?e = "ilog2 \<bar>x\<bar> - 52"
  let ?u = "2 powi ?e :: rat"
  have u: "?u > 0" by simp
  have "fround x - x = (of_int (round_half_even (x / ?u)) - x / ?u) * ?u"
    using False u by (simp add: fround_def Let_def left_diff_distrib)
  then have "\<bar>fround x - x\<bar> = \<bar>of_int (round_half_even (x / ?u)) - x / ?u\<bar> * ?u"
    using u by (simp add: abs_mult)
  also have "\<dots> \<le> 1 / 2 * ?u" using round_half_even_error [of "x / ?u"] u by (intro mult_right_mono) auto
  also have "\<dots> = 2 powi ilog2 \<bar>x\<bar> / 2 ^ 53" by (simp add: power_int_diff)
  also have "\<dots> \<le> \<bar>x\<bar> / 2 ^ 53" using ilog2_bounds(1) [of "\<bar>x\<bar>"] False by (intro divide_right_mono) auto
  finally show ?thesis .
qed (simp add: fround_def)

section \<open>Jitter\<close>

text \<open>\<open>binary.BigEndian.Uint64\<close> and \<open>PutUint64\<close> (a conversion to \<open>uint64\<close> wraps).\<close>

definition be_uint :: "string \<Rightarrow> int" where
  "be_uint bs = foldl (\<lambda>a c. a * 256 + int (byte_of c)) 0 bs"

definition put_uint64 :: "int \<Rightarrow> string" where
  "put_uint64 n = be_bytes 8 (nat (n mod 2 ^ 64))"

text \<open>
  What the jitter is drawn from: the bytes of \<open>crypto/rand\<close>, or none when it fails, and then the
  clock and the process id. The counter of the fallback is state.
\<close>

record entropy =
  cryptoRead :: "string option"
  jitterNow :: int
  jitterPID :: int

definition unit_float :: "int \<Rightarrow> rat" where
  "unit_float n = fround (fround (of_int n) / 2 ^ 64)"

definition fallbackJitterFloat64 :: "entropy \<Rightarrow> int \<Rightarrow> rat \<times> int" where
  "fallbackJitterFloat64 e counter =
     (let seq = (counter + 1) mod 2 ^ 64;
          sum = Sum256 (put_uint64 (jitterNow e) @ put_uint64 (jitterPID e) @ put_uint64 seq)
      in (unit_float (be_uint (take 8 sum)), seq))"

definition getJitterFloat64 :: "entropy \<Rightarrow> int \<Rightarrow> rat \<times> int" where
  "getJitterFloat64 e counter =
     (case cryptoRead e of
        Some b \<Rightarrow> (unit_float (be_uint (take 8 b)), counter)
      | None \<Rightarrow> fallbackJitterFloat64 e counter)"

section \<open>The duration\<close>

definition wrap64 :: "int \<Rightarrow> int" where
  "wrap64 n = (n + 2 ^ 63) mod 2 ^ 64 - 2 ^ 63"

text \<open>Division of \<open>int64\<close> drops the fraction.\<close>

definition half :: "int \<Rightarrow> int" where
  "half n = (if n \<ge> 0 then n div 2 else - ((- n) div 2))"

fun backoff_loop :: "int \<Rightarrow> nat \<Rightarrow> int \<Rightarrow> int" where
  "backoff_loop mx 0 d = d"
| "backoff_loop mx (Suc k) d = (if d \<ge> half mx then mx else backoff_loop mx k (wrap64 (d * 2)))"

definition backoff_base :: "Config \<Rightarrow> int \<Rightarrow> int" where
  "backoff_base cfg errorCount =
     (let d = backoff_loop (MaxBackoff cfg) (nat (errorCount - 1)) (PollInterval cfg)
      in if d > MaxBackoff cfg then MaxBackoff cfg else d)"

definition jitter_factor :: "rat \<Rightarrow> rat" where
  "jitter_factor r = fround (fround (8 / 10) + fround (r * fround (4 / 10)))"

definition computeBackoffDuration :: "Config \<Rightarrow> entropy \<Rightarrow> int \<Rightarrow> int \<Rightarrow> int \<times> int" where
  "computeBackoffDuration cfg e counter errorCount =
     (if errorCount \<le> 0 then (PollInterval cfg, counter)
      else
        let d = backoff_base cfg errorCount;
            (randFloat, counter') = getJitterFloat64 e counter
        in (ftrunc (fround (fround (of_int d) * jitter_factor randFloat)), counter'))"

section \<open>Bounds\<close>

lemma wrap64_id: "- (2 ^ 63) \<le> n \<Longrightarrow> n < 2 ^ 63 \<Longrightarrow> wrap64 n = n"
  by (simp add: wrap64_def)

text \<open>Doubling without jitter: never beyond the maximum, and no product leaves \<open>int64\<close>.\<close>

lemma backoff_loop_bounds:
  assumes "0 \<le> d" and "0 < mx" and "mx < 2 ^ 63"
  shows "min (d * 2 ^ k) mx \<le> min (backoff_loop mx k d) mx \<and> min (backoff_loop mx k d) mx \<le> min (d * 2 ^ k) mx + 1"
  using assms(1)
proof (induction k arbitrary: d)
  case (Suc k)
  show ?case
  proof (cases "d \<ge> half mx")
    case True
    then have "2 * d \<ge> mx - 1" using assms(2) by (simp add: half_def)
    moreover have "2 * d * 1 \<le> 2 * d * 2 ^ k" using Suc.prems by (intro mult_left_mono) auto
    ultimately have "d * 2 ^ Suc k \<ge> mx - 1" by (simp add: algebra_simps)
    with True show ?thesis by auto
  next
    case False
    then have "2 * d < mx" using assms(2) by (auto simp: half_def)
    then have "wrap64 (d * 2) = d * 2" using Suc.prems assms(3) by (intro wrap64_id) auto
    with False Suc.IH [of "d * 2"] Suc.prems show ?thesis by (simp add: algebra_simps)
  qed
qed simp

lemma be_uint_range: "0 \<le> be_uint bs \<and> be_uint bs < 256 ^ length bs"
proof (induction bs rule: rev_induct)
  case (snoc c bs)
  have "int (byte_of c) < 256" using byte_of_lt [of c] by linarith
  moreover have "be_uint (bs @ [c]) = be_uint bs * 256 + int (byte_of c)" by (simp add: be_uint_def)
  moreover have "256 ^ length (bs @ [c]) = 256 ^ length bs * (256 :: int)" by simp
  moreover have "be_uint bs * 256 + 256 \<le> 256 ^ length bs * 256" using snoc by linarith
  ultimately show ?case using snoc by linarith
qed (simp add: be_uint_def)

abbreviation eps :: rat where "eps \<equiv> 1 / 2 ^ 53"

lemma fround_bounds:
  assumes "0 \<le> lo" and "lo \<le> x" and "x \<le> hi"
  shows "lo * (1 - eps) \<le> fround x" and "fround x \<le> hi * (1 + eps)" and "0 \<le> fround x"
proof -
  have e: "x * (1 - eps) \<le> fround x" "fround x \<le> x * (1 + eps)"
    using abs_le_D1 [OF fround_error [of x]] abs_le_D2 [OF fround_error [of x]] assms
    by (simp_all add: right_diff_distrib distrib_left)
  have "lo * (1 - eps) \<le> x * (1 - eps)" "x * (1 + eps) \<le> hi * (1 + eps)"
    using assms by (auto intro!: mult_right_mono)
  with e show "lo * (1 - eps) \<le> fround x" "fround x \<le> hi * (1 + eps)" by linarith+
  have "0 \<le> x * (1 - eps)" using assms by (intro mult_nonneg_nonneg) auto
  with e show "0 \<le> fround x" by linarith
qed

lemma unit_float_bounds:
  assumes "0 \<le> n" and "n < 2 ^ 64"
  shows "0 \<le> unit_float n" and "unit_float n \<le> (1 + eps) ^ 2"
proof -
  have "rat_of_int n \<le> of_int (2 ^ 64)" using assms by (simp only: of_int_le_iff)
  then have a: "0 \<le> fround (of_int n)" "fround (of_int n) \<le> 2 ^ 64 * (1 + eps)"
    using fround_bounds [of 0 "rat_of_int n" "2 ^ 64"] assms(1) by simp_all
  then have "0 \<le> fround (of_int n) / 2 ^ 64" "fround (of_int n) / 2 ^ 64 \<le> 1 + eps"
    by (simp_all add: divide_le_eq)
  from fround_bounds [OF order_refl this] show "0 \<le> unit_float n" "unit_float n \<le> (1 + eps) ^ 2"
    by (simp_all only: unit_float_def power2_eq_square)
qed

lemma getJitterFloat64_bounds:
  assumes "getJitterFloat64 e counter = (r, counter')"
  shows "0 \<le> r" and "r \<le> (1 + eps) ^ 2"
proof -
  have "0 \<le> be_uint (take 8 bs) \<and> be_uint (take 8 bs) < 2 ^ 64" for bs
  proof -
    have "256 ^ length (take 8 bs) \<le> (256::int) ^ 8" by (intro power_increasing) auto
    with be_uint_range [of "take 8 bs"] show ?thesis by simp
  qed
  with assms unit_float_bounds show "0 \<le> r" "r \<le> (1 + eps) ^ 2"
    by (auto simp: getJitterFloat64_def fallbackJitterFloat64_def Let_def split: option.splits)
qed

lemma jitter_factor_bounds:
  assumes "0 \<le> r" and "r \<le> (1 + eps) ^ 2"
  shows "8 / 10 * (1 - eps) ^ 2 \<le> jitter_factor r" and "jitter_factor r \<le> 12 / 10 * (1 + eps) ^ 5"
proof -
  have c8: "8 / 10 * (1 - eps) \<le> fround (8 / 10)" "fround (8 / 10) \<le> 8 / 10 * (1 + eps)"
    by (rule fround_bounds [OF _ order_refl order_refl]; simp)+
  have c4: "0 \<le> fround (4 / 10)" "fround (4 / 10) \<le> 4 / 10 * (1 + eps)"
    by (rule fround_bounds [OF _ order_refl order_refl]; simp)+
  have "r * fround (4 / 10) \<le> (1 + eps) ^ 2 * (4 / 10 * (1 + eps))"
    using assms c4 by (intro mult_mono) auto
  from fround_bounds(2,3) [OF order_refl _ this] assms c4
  have p: "0 \<le> fround (r * fround (4 / 10))"
      "fround (r * fround (4 / 10)) \<le> (1 + eps) ^ 2 * (4 / 10 * (1 + eps)) * (1 + eps)"
    by simp_all
  have "8 / 10 * (1 + eps) + (1 + eps) ^ 2 * (4 / 10 * (1 + eps)) * (1 + eps) \<le> 12 / 10 * (1 + eps) ^ 4"
    by (simp add: power2_eq_square eval_nat_numeral field_simps)
  with p c8 have "8 / 10 * (1 - eps) \<le> fround (8 / 10) + fround (r * fround (4 / 10))"
      "fround (8 / 10) + fround (r * fround (4 / 10)) \<le> 12 / 10 * (1 + eps) ^ 4"
    by linarith+
  from fround_bounds(1,2) [OF _ this]
  show "8 / 10 * (1 - eps) ^ 2 \<le> jitter_factor r" "jitter_factor r \<le> 12 / 10 * (1 + eps) ^ 5"
    by (simp_all only: jitter_factor_def) (simp_all add: power2_eq_square eval_nat_numeral field_simps)
qed

lemma scaled_bounds:
  assumes "0 \<le> d" and "8 / 10 * (1 - eps) ^ 2 \<le> f" and "f \<le> 12 / 10 * (1 + eps) ^ 5"
  shows "d * (8 / 10 * (1 - 1 / 2 ^ 50)) \<le> fround (fround d * f)"
    and "fround (fround d * f) \<le> d * (12 / 10 * (1 + 1 / 2 ^ 50))"
proof -
  have d: "d * (1 - eps) \<le> fround d" "fround d \<le> d * (1 + eps)" "0 \<le> fround d"
    using fround_bounds [OF assms(1) order_refl order_refl] by simp_all
  have pos: "(0::rat) \<le> 8 / 10 * (1 - eps) ^ 2" "0 \<le> d * (1 - eps)" using assms(1) by (auto intro: mult_nonneg_nonneg)
  then have f: "0 \<le> f" using assms(2) by linarith
  have "d * (1 - eps) * (8 / 10 * (1 - eps) ^ 2) \<le> fround d * f"
    using d(1,3) assms(2) pos by (intro mult_mono) auto
  moreover have "fround d * f \<le> d * (1 + eps) * (12 / 10 * (1 + eps) ^ 5)"
    using d(2,3) assms(1,3) f by (intro mult_mono) auto
  moreover have "0 \<le> d * (1 - eps) * (8 / 10 * (1 - eps) ^ 2)" using pos by (rule mult_nonneg_nonneg [rotated])
  ultimately have b: "d * (1 - eps) * (8 / 10 * (1 - eps) ^ 2) * (1 - eps) \<le> fround (fround d * f)"
      "fround (fround d * f) \<le> d * (1 + eps) * (12 / 10 * (1 + eps) ^ 5) * (1 + eps)"
    using fround_bounds(1,2) by blast+
  have "8 / 10 * (1 - 1 / 2 ^ 50) \<le> (1 - eps) * (8 / 10 * (1 - eps) ^ 2) * (1 - eps)"
      "(1 + eps) * (12 / 10 * (1 + eps) ^ 5) * (1 + eps) \<le> 12 / 10 * (1 + 1 / 2 ^ 50)"
    by (simp_all add: eval_nat_numeral field_simps)
  from mult_left_mono [OF this(1) assms(1)] mult_left_mono [OF this(2) assms(1)] b
  show "d * (8 / 10 * (1 - 1 / 2 ^ 50)) \<le> fround (fround d * f)"
      "fround (fround d * f) \<le> d * (12 / 10 * (1 + 1 / 2 ^ 50))"
    by (simp_all only: mult.assoc)
qed

text \<open>
  C17. After \<open>n\<close> consecutive errors the controller waits between 0.8 and 1.2 times the poll interval
  doubled \<open>n - 1\<close> times, cut at \<open>MAX_BACKOFF\<close> (up to one nanosecond and rounding), whatever the source
  of randomness; and the duration is within \<open>int64\<close>. Without errors it waits the poll interval.
\<close>

theorem computeBackoffDuration_bounds:
  assumes "0 \<le> PollInterval cfg" and "0 < MaxBackoff cfg" and "MaxBackoff cfg \<le> 2 ^ 62"
    and "computeBackoffDuration cfg e counter n = (D, counter')"
  shows "if n \<le> 0 then D = PollInterval cfg
    else (let t = min (PollInterval cfg * 2 ^ nat (n - 1)) (MaxBackoff cfg) in
       of_int t * (8 / 10 * (1 - 1 / 2 ^ 50)) - 1 < rat_of_int D
       \<and> rat_of_int D \<le> of_int (t + 1) * (12 / 10 * (1 + 1 / 2 ^ 50)) \<and> 0 \<le> D \<and> D < 2 ^ 63)"
proof (cases "n \<le> 0")
  case True
  with assms(4) show ?thesis by (simp add: computeBackoffDuration_def)
next
  case False
  then have n: "n \<ge> 1" by simp
  define t where "t = min (PollInterval cfg * 2 ^ nat (n - 1)) (MaxBackoff cfg)"
  define d where "d = backoff_base cfg n"
  have d: "d = min (backoff_loop (MaxBackoff cfg) (nat (n - 1)) (PollInterval cfg)) (MaxBackoff cfg)"
    by (simp add: d_def backoff_base_def Let_def)
  have t: "t \<le> d" "d \<le> t + 1" "0 \<le> t" "d \<le> MaxBackoff cfg"
    using backoff_loop_bounds [OF assms(1,2), of "nat (n - 1)"] assms(1-3) by (auto simp: t_def d)
  obtain r c where r: "getJitterFloat64 e counter = (r, c)" by fastforce
  let ?x = "fround (fround (of_int d) * jitter_factor r)"
  have D: "D = ftrunc ?x" using assms(4) n r by (simp add: computeBackoffDuration_def d_def Let_def)
  have b: "of_int d * (8 / 10 * (1 - 1 / 2 ^ 50)) \<le> ?x" "?x \<le> of_int d * (12 / 10 * (1 + 1 / 2 ^ 50))"
    using scaled_bounds [OF _ jitter_factor_bounds [OF getJitterFloat64_bounds [OF r]]] t by simp_all
  have "0 \<le> of_int d * (8 / 10 * (1 - 1 / 2 ^ 50) :: rat)" using t by (intro mult_nonneg_nonneg) auto
  with b(1) have x: "0 \<le> ?x" by linarith
  then have Dx: "rat_of_int D \<le> ?x" "?x < of_int D + 1" "0 \<le> D" using D by (auto simp: ftrunc_def) linarith
  have "of_int t * (8 / 10 * (1 - 1 / 2 ^ 50)) \<le> rat_of_int d * (8 / 10 * (1 - 1 / 2 ^ 50))"
      "of_int d * (12 / 10 * (1 + 1 / 2 ^ 50)) \<le> rat_of_int (t + 1) * (12 / 10 * (1 + 1 / 2 ^ 50))"
    using t by (intro mult_right_mono; simp)+
  moreover have "of_int d * (12 / 10 * (1 + 1 / 2 ^ 50)) \<le> rat_of_int (2 ^ 62) * (12 / 10 * (1 + 1 / 2 ^ 50))"
    using t(4) assms(3) by (intro mult_right_mono) (simp_all only: of_int_le_iff, simp_all)
  moreover have "rat_of_int (2 ^ 62) * (12 / 10 * (1 + 1 / 2 ^ 50)) < rat_of_int (2 ^ 63)" by simp
  ultimately have "of_int t * (8 / 10 * (1 - 1 / 2 ^ 50)) - 1 < rat_of_int D"
      "rat_of_int D \<le> of_int (t + 1) * (12 / 10 * (1 + 1 / 2 ^ 50))" "rat_of_int D < rat_of_int (2 ^ 63)"
    using b Dx by linarith+
  with Dx(3) False show ?thesis
    unfolding Let_def t_def [symmetric] by (simp only: of_int_less_iff if_False)
qed

text \<open>With the largest draw the wait exceeds \<open>MAX_BACKOFF\<close>.\<close>

definition max_draw :: entropy where
  "max_draw = \<lparr>cryptoRead = Some (replicate 8 (CHR 0xFF)), jitterNow = 0, jitterPID = 0\<rparr>"

theorem computeBackoffDuration_bounds_witness:
  "\<exists>D c. computeBackoffDuration (newDefaults example_host) max_draw 0 10 = (D, c)
     \<and> D > MaxBackoff (newDefaults example_host) \<and> rat_of_int D \<le> (120 * 10 ^ 9 + 1) * (12 / 10 * (1 + 1 / 2 ^ 50))"
proof -
  obtain D c where r: "computeBackoffDuration (newDefaults example_host) max_draw 0 10 = (D, c)" by fastforce
  have f: "PollInterval (newDefaults example_host) = 15 * 10 ^ 9" "MaxBackoff (newDefaults example_host) = 120 * 10 ^ 9"
    by code_simp+
  have "120 * 10 ^ 9 < fst (computeBackoffDuration (newDefaults example_host) max_draw 0 10)"
    by code_simp
  with r computeBackoffDuration_bounds [OF _ _ _ r] show ?thesis by (simp add: f Let_def)
qed

end
