(* ===== verification/Fetch.thy ===== *)
theory Fetch
  imports AppConfig NetAddr Kube
begin

text \<open>
  Fetching the configuration (\<^verbatim>\<open>internal/controller/fetch.go\<close>): the HTTP client with its TLS settings
  and redirect policy, the conditional request, and the bounded read of the response.

  The network is the parameter \<open>http_Do\<close>, an operation on the outside world; certificate pools and
  key pairs are the record \<open>pki\<close>. A header is a map from canonical names to values. A reader is the
  list of what its successive \<open>Read\<close> calls return, bytes and possibly an error; a list that is used
  up stands for the end of the file.

  Shown: a body is read in full or refused when it exceeds the limit, and never much more than the
  limit is held; the authorization header follows a redirect only to the same host and scheme;
  plaintext HTTP is refused, before any request, unless allowed; certificate checks are switched off
  only with the explicit acknowledgement.
\<close>

section \<open>TLS\<close>

record ('p, 'c) pki =
  SystemCertPool :: "'p option"
  NewCertPool :: 'p
  AppendCertsFromPEM :: "'p \<Rightarrow> string \<Rightarrow> 'p"
  LoadX509KeyPair :: "string \<Rightarrow> string \<Rightarrow> 'c option"

record ('p, 'c) TLSConfig =
  InsecureSkipVerify :: bool
  RootCAs :: "'p option"
  Certificates :: "'c list"

definition applySkipVerifyWithAck :: "Config \<Rightarrow> ('p, 'c) TLSConfig \<Rightarrow> string \<Rightarrow> ('p, 'c) TLSConfig" where
  "applySkipVerifyWithAck cfg tlsCfg ack =
     (if \<not> TLSSkipVerify cfg then tlsCfg
      else if \<not> EqualFold ack ''true'' \<and> ack \<noteq> ''1'' \<and> \<not> EqualFold ack ''yes'' then tlsCfg
      else tlsCfg\<lparr>InsecureSkipVerify := True\<rparr>)"

definition ack_variable :: string where
  "ack_variable = ''I_UNDERSTAND_CONFIG_TLS_SKIP_VERIFY_IS_INSECURE''"

definition applySkipVerify :: "host \<Rightarrow> Config \<Rightarrow> ('p, 'c) TLSConfig \<Rightarrow> ('p, 'c) TLSConfig" where
  "applySkipVerify h cfg tlsCfg =
     (if \<not> TLSSkipVerify cfg then tlsCfg
      else applySkipVerifyWithAck cfg tlsCfg (Getenv h ack_variable))"

definition loadCustomCA :: "host \<Rightarrow> ('p, 'c) pki \<Rightarrow> Config \<Rightarrow> ('p, 'c) TLSConfig \<Rightarrow> ('p, 'c) TLSConfig" where
  "loadCustomCA h pk cfg tlsCfg =
     (if CAFile cfg = [] then tlsCfg
      else case ReadFile h (CAFile cfg) of
             None \<Rightarrow> tlsCfg
           | Some pemData \<Rightarrow>
               let pool = (case SystemCertPool pk of None \<Rightarrow> NewCertPool pk | Some p \<Rightarrow> p)
               in tlsCfg\<lparr>RootCAs := Some (AppendCertsFromPEM pk pool pemData)\<rparr>)"

definition loadClientCert :: "('p, 'c) pki \<Rightarrow> Config \<Rightarrow> ('p, 'c) TLSConfig \<Rightarrow> ('p, 'c) TLSConfig" where
  "loadClientCert pk cfg tlsCfg =
     (if ClientCertFile cfg = [] \<or> ClientKeyFile cfg = [] then tlsCfg
      else case LoadX509KeyPair pk (ClientCertFile cfg) (ClientKeyFile cfg) of
             None \<Rightarrow> tlsCfg
           | Some cert \<Rightarrow> tlsCfg\<lparr>Certificates := [cert]\<rparr>)"

text \<open>The minimum version is TLS 1.2 throughout and not part of the record.\<close>

definition buildTLSConfigFromConfig :: "host \<Rightarrow> ('p, 'c) pki \<Rightarrow> Config \<Rightarrow> ('p, 'c) TLSConfig" where
  "buildTLSConfigFromConfig h pk cfg =
     (let tlsCfg = \<lparr>InsecureSkipVerify = False, RootCAs = None, Certificates = []\<rparr>
      in loadClientCert pk cfg (loadCustomCA h pk cfg (applySkipVerify h cfg tlsCfg)))"

record ('p, 'c) Transport =
  TLSClientConfig :: "('p, 'c) TLSConfig"
  MaxIdleConns :: int
  MaxIdleConnsPerHost :: int
  IdleConnTimeout :: int
  TLSHandshakeTimeout :: int

definition newHTTPTransport :: "Config \<Rightarrow> ('p, 'c) TLSConfig \<Rightarrow> ('p, 'c) Transport" where
  "newHTTPTransport cfg tlsCfg =
     \<lparr>TLSClientConfig = tlsCfg, MaxIdleConns = HTTPMaxIdleConns cfg,
      MaxIdleConnsPerHost = HTTPMaxIdleConnsPerHost cfg, IdleConnTimeout = HTTPIdleConnTimeout cfg,
      TLSHandshakeTimeout = 10 * Second\<rparr>"

section \<open>Requests and redirects\<close>

record HttpRequest =
  rq_Scheme :: string
  rq_Host :: string
  rq_Header :: "string gomap"

definition headerIfNoneMatch :: string where "headerIfNoneMatch = ''If-None-Match''"
definition headerETag :: string where "headerETag = ''Etag''"
definition headerAuthorization :: string where "headerAuthorization = ''Authorization''"

definition SetHeader :: "string \<Rightarrow> string \<Rightarrow> HttpRequest \<Rightarrow> HttpRequest" where
  "SetHeader k v req = req\<lparr>rq_Header := go_put (rq_Header req) k v\<rparr>"

definition DelHeader :: "string \<Rightarrow> HttpRequest \<Rightarrow> HttpRequest" where
  "DelHeader k req = req\<lparr>rq_Header := go_del (rq_Header req) k\<rparr>"

text \<open>The redirect policy: the request as it is sent on, and the error that stops the chain.\<close>

definition CheckRedirect :: "Config \<Rightarrow> HttpRequest \<Rightarrow> HttpRequest list \<Rightarrow> HttpRequest \<times> goerr option" where
  "CheckRedirect cfg req via =
     (let req' = (case via of
          [] \<Rightarrow> req
        | orig # _ \<Rightarrow>
            (let v = get_str (rq_Header orig) headerIfNoneMatch;
                 req = (if v \<noteq> [] then SetHeader headerIfNoneMatch v req else req);
                 sameHost = EqualFold (rq_Host req) (rq_Host orig);
                 sameScheme = EqualFold (rq_Scheme req) (rq_Scheme orig)
             in if AuthHeader cfg \<noteq> [] \<and> sameHost \<and> sameScheme
                then SetHeader headerAuthorization (AuthHeader cfg) req
                else DelHeader headerAuthorization req))
      in (req', if length via \<ge> 10 then Some (ErrMsg ''stopped after 10 redirects'') else None))"

section \<open>Reading the body\<close>

datatype read_error = EOF | ReadError goerr

type_synonym reader = "(string \<times> read_error option) list"

fun ReadAll :: "reader \<Rightarrow> string \<Rightarrow> string \<times> goerr option" where
  "ReadAll [] acc = (acc, None)"
| "ReadAll ((bs, e) # r) acc =
     (case e of
        None \<Rightarrow> ReadAll r (acc @ bs)
      | Some EOF \<Rightarrow> (acc @ bs, None)
      | Some (ReadError err) \<Rightarrow> (acc @ bs, Some err))"

fun read_loop :: "reader \<Rightarrow> int \<Rightarrow> string \<Rightarrow> int \<Rightarrow> string \<times> int \<times> goerr option" where
  "read_loop [] limit acc tot = (acc, tot, None)"
| "read_loop ((bs, e) # r) limit acc tot =
     (let acc' = acc @ bs; tot' = tot + int (length bs) in
      if bs \<noteq> [] \<and> tot' > limit
      then (acc', tot', Some (ErrMsg ''response body exceeds maximum size''))
      else case e of
             None \<Rightarrow> read_loop r limit acc' tot'
           | Some EOF \<Rightarrow> (acc', tot', None)
           | Some (ReadError err) \<Rightarrow> (acc', tot', Some err))"

definition readWithLimit :: "reader \<Rightarrow> int \<Rightarrow> string \<times> int \<times> goerr option" where
  "readWithLimit r limit =
     (if limit \<le> 0 then (case ReadAll r [] of (b, err) \<Rightarrow> (b, 0, err))
      else read_loop r limit [] 0)"

section \<open>Fetching\<close>

record Response =
  StatusCode :: int
  resp_Header :: "string gomap"
  Body :: reader

text \<open>\<open>envBool\<close> of the controller package reads the variable anew at every fetch.\<close>

definition fetch_envBool :: "host \<Rightarrow> string \<Rightarrow> bool" where
  "fetch_envBool h key \<longleftrightarrow> ToLower (Getenv h key) \<in> {''true'', ''1'', ''yes''}"

type_synonym 'w http = "HttpRequest \<Rightarrow> ('w, Response) io"

definition fetchConditional ::
  "netlib \<Rightarrow> 'w http \<Rightarrow> Config \<Rightarrow> string \<Rightarrow> string \<Rightarrow> ('w, string \<times> string \<times> int) io" where
  "fetchConditional net http_Do cfg url ifNoneMatch =
     bindIO (liftIO (url_Parse net url)) (\<lambda>u.
       let req = \<lparr>rq_Scheme = Scheme u, rq_Host = Host u, rq_Header = []\<rparr>;
           req = (if AuthHeader cfg \<noteq> [] then SetHeader headerAuthorization (AuthHeader cfg) req else req);
           req = (if ifNoneMatch \<noteq> [] then SetHeader headerIfNoneMatch ifNoneMatch req else req)
       in bindIO (http_Do req) (\<lambda>resp.
            case readWithLimit (Body resp) (MaxResponseBodyBytes cfg) of
              (b, _, Some err) \<Rightarrow> failIO (Wrap ''read response body'' err)
            | (b, _, None) \<Rightarrow> retIO (get_str (resp_Header resp) headerETag, b, StatusCode resp)))"

definition fetchConfigOnce ::
  "host \<Rightarrow> netlib \<Rightarrow> 'w http \<Rightarrow> Config \<Rightarrow> string \<Rightarrow> ('w, string \<times> string \<times> int) io" where
  "fetchConfigOnce h net http_Do cfg ifNoneMatch =
     (if HasPrefix (ToLower (Endpoint cfg)) ''http://''
        \<and> \<not> (AllowInsecureHTTP cfg \<or> fetch_envBool h ''CONFIG_ALLOW_INSECURE_HTTP'')
      then failIO (ErrMsg ''CONFIG_ENDPOINT uses plaintext HTTP which is disallowed'')
      else fetchConditional net http_Do cfg (Endpoint cfg) ifNoneMatch)"

section \<open>Bounded reading\<close>

text \<open>All bytes of a reader, up to its first error or its end.\<close>

fun reader_bytes :: "reader \<Rightarrow> string" where
  "reader_bytes [] = []"
| "reader_bytes ((bs, None) # r) = bs @ reader_bytes r"
| "reader_bytes ((bs, Some e) # r) = bs"

fun reader_fails :: "reader \<Rightarrow> bool" where
  "reader_fails [] = False"
| "reader_fails ((bs, None) # r) = reader_fails r"
| "reader_fails ((bs, Some e) # r) = (e \<noteq> EOF)"

lemma read_loop_spec:
  assumes "tot = int (length acc)" and "tot \<le> limit" and "list_all (\<lambda>(bs, e). length bs \<le> m) r"
    and "read_loop r limit acc tot = (b, t, err)"
  shows "(err = None \<longleftrightarrow> \<not> reader_fails r \<and> int (length (acc @ reader_bytes r)) \<le> limit)
    \<and> (err = None \<longrightarrow> b = acc @ reader_bytes r)
    \<and> int (length b) \<le> limit + int m \<and> prefix b (acc @ reader_bytes r) \<and> t = int (length b)"
  using assms
proof (induction r limit acc tot rule: read_loop.induct)
  case (2 bs e r limit acc tot)
  show ?case
  proof (cases "bs \<noteq> [] \<and> tot + int (length bs) > limit")
    case True
    with 2(2-) show ?thesis by (cases e; cases "the e") (auto simp: Let_def)
  next
    case False
    then have t: "tot + int (length bs) \<le> limit" using 2(3) by auto
    show ?thesis
    proof (cases e)
      case None
      with 2(2-) False t 2(1) [OF refl refl _ None] show ?thesis by auto
    next
      case (Some x)
      with 2(2-) False t show ?thesis by (cases x) (auto simp: Let_def)
    qed
  qed
qed auto

text \<open>
  With a limit, a body is returned exactly when its reader does not fail and it is within the
  limit, and then in full; a longer body is refused with at most one buffer of 8192 bytes more than
  the limit in memory, and what has been read is always a prefix of the body.
\<close>

theorem readWithLimit_spec:
  assumes "limit > 0" and "list_all (\<lambda>(bs, e). length bs \<le> 8192) r" and "readWithLimit r limit = (b, t, err)"
  shows "(err = None \<longleftrightarrow> \<not> reader_fails r \<and> int (length (reader_bytes r)) \<le> limit)
    \<and> (err = None \<longrightarrow> b = reader_bytes r) \<and> int (length b) \<le> limit + 8192 \<and> prefix b (reader_bytes r)"
  using read_loop_spec [OF _ _ assms(2), of 0 "[]" limit b t err] assms(1,3)
  by (simp add: readWithLimit_def)

theorem readWithLimit_spec_witness:
  "fst (readWithLimit [(''abc'', None), (''de'', Some EOF)] 5) = ''abcde''
   \<and> snd (snd (readWithLimit [(''abc'', None), (''de'', Some EOF)] 4)) \<noteq> None"
proof -
  let ?r = "[(''abc'', None), (''de'', Some EOF)]"
  obtain b t err where r5: "readWithLimit ?r 5 = (b, t, err)" by (metis prod_cases3)
  obtain b' t' err' where r4: "readWithLimit ?r 4 = (b', t', err')" by (metis prod_cases3)
  from readWithLimit_spec [OF _ _ r5] readWithLimit_spec [OF _ _ r4] r5 r4 show ?thesis by auto
qed

section \<open>What leaves the controller\<close>

text \<open>
  C10. Whatever headers a redirected request comes with, after the policy it carries an authorization
  header only towards the host and scheme of the first request, and then the configured one; a
  conditional request stays conditional; and the chain stops after ten redirects.
\<close>

theorem CheckRedirect_no_leak:
  assumes "CheckRedirect cfg req (orig # via) = (req', err)"
  shows "go_get (rq_Header req') headerAuthorization =
      (if AuthHeader cfg \<noteq> [] \<and> EqualFold (rq_Host req) (rq_Host orig) \<and> EqualFold (rq_Scheme req) (rq_Scheme orig)
       then Some (AuthHeader cfg) else None)
    \<and> (get_str (rq_Header orig) headerIfNoneMatch \<noteq> [] \<longrightarrow>
      go_get (rq_Header req') headerIfNoneMatch = Some (get_str (rq_Header orig) headerIfNoneMatch))
    \<and> rq_Host req' = rq_Host req \<and> rq_Scheme req' = rq_Scheme req \<and> (err = None \<longleftrightarrow> length via < 9)"
  using assms
  by (auto simp: CheckRedirect_def Let_def SetHeader_def DelHeader_def headerAuthorization_def headerIfNoneMatch_def
      split: if_splits)

theorem CheckRedirect_no_leak_witness:
  "go_get (rq_Header (fst (CheckRedirect ((newDefaults example_host)\<lparr>AuthHeader := ''Bearer t''\<rparr>)
      \<lparr>rq_Scheme = ''https'', rq_Host = ''evil'', rq_Header = [(''Authorization'', ''Bearer t'')]\<rparr>
      [\<lparr>rq_Scheme = ''https'', rq_Host = ''pangolin'', rq_Header = []\<rparr>]))) headerAuthorization = None"
proof -
  let ?cfg = "(newDefaults example_host)\<lparr>AuthHeader := ''Bearer t''\<rparr>"
    and ?req = "\<lparr>rq_Scheme = ''https'', rq_Host = ''evil'', rq_Header = [(''Authorization'', ''Bearer t'')]\<rparr>"
    and ?orig = "\<lparr>rq_Scheme = ''https'', rq_Host = ''pangolin'', rq_Header = []\<rparr>"
  obtain req' err where r: "CheckRedirect ?cfg ?req [?orig] = (req', err)" by fastforce
  have "\<not> EqualFold ''evil'' ''pangolin''" by code_simp
  with CheckRedirect_no_leak [OF r] r show ?thesis by simp
qed

text \<open>
  A plaintext endpoint is refused before any request is made, unless plaintext is allowed.
\<close>

lemma fetchConfigOnce_plaintext:
  assumes "HasPrefix (ToLower (Endpoint cfg)) ''http://''" and "\<not> AllowInsecureHTTP cfg"
    and "ToLower (Getenv h ''CONFIG_ALLOW_INSECURE_HTTP'') \<notin> {''true'', ''1'', ''yes''}"
  shows "\<exists>e. fetchConfigOnce h net http_Do cfg inm w = (Inl e, w)"
  using assms by (simp add: fetchConfigOnce_def fetch_envBool_def)

text \<open>
  Certificates of the configuration server are not verified exactly when the settings ask for it
  and the environment acknowledges the risk, whatever certificate files are configured.
\<close>

theorem buildTLSConfig_skip_verify:
  "InsecureSkipVerify (buildTLSConfigFromConfig h pk cfg) \<longleftrightarrow>
     TLSSkipVerify cfg \<and> (EqualFold (Getenv h ack_variable) ''true'' \<or> Getenv h ack_variable = ''1''
       \<or> EqualFold (Getenv h ack_variable) ''yes'')"
  by (auto simp: buildTLSConfigFromConfig_def loadClientCert_def loadCustomCA_def applySkipVerify_def
      applySkipVerifyWithAck_def Let_def split: option.split)

end
