(* ===== verification/Loop.thy ===== *)
theory Loop
  imports Parallel Machine Backoff Fetch
begin

text \<open>
  The polling loop (\<^verbatim>\<open>internal/controller/loop.go\<close>, \<^verbatim>\<open>change_detection.go\<close>, \<^verbatim>\<open>readiness.go\<close>): fetch the
  configuration, decide whether it has changed, apply it, remember its signature, wait.

  The local variables of \<open>runLoop\<close> and the atomic fields it writes are one record; an iteration is a
  function from state to state that also says how it ended (\<open>outcome\<close>). The clock, the randomness, the
  network and the bytes-to-JSON step of \<open>encoding/json\<close> are the record \<open>looplib\<close>. Log lines and metrics
  are left out; the decision when to log at info level is kept.

  Shown: the remembered signature is always that of the configuration applied last; a response is
  skipped exactly when it matches that signature, so a configuration that could not be applied is
  tried again; an iteration that reports success has brought the cluster to the configuration; a 404
  removes the managed objects, at once or through the queue; errors of fetching escalate the wait, errors of applying do not;
  readiness follows the last good poll.
\<close>

section \<open>Change detection\<close>

definition computeHash :: "string \<Rightarrow> string" where
  "computeHash b = EncodeToString (Sum256 b)"

definition isWeakETag :: "string \<Rightarrow> bool" where
  "isWeakETag et \<longleftrightarrow> HasPrefix et ''W/''"

definition decideChangeNoETag :: "string \<Rightarrow> string \<Rightarrow> bool" where
  "decideChangeNoETag lastHash curHash = (if lastHash \<noteq> [] \<and> curHash = lastHash then False else True)"

definition decideChangeWithETag :: "string \<Rightarrow> string \<Rightarrow> string \<Rightarrow> string \<Rightarrow> bool \<Rightarrow> bool" where
  "decideChangeWithETag etagHeader lastETag lastHash curHash lastETagIsHeader =
     (let weak = isWeakETag etagHeader in
      if \<not> weak \<and> lastETagIsHeader \<and> etagHeader = lastETag then False
      else if weak then (if lastHash \<noteq> [] \<and> curHash = lastHash then False else True)
      else if lastHash \<noteq> [] \<and> curHash = lastHash then False
      else True)"

definition decideChange :: "string \<Rightarrow> string \<Rightarrow> string \<Rightarrow> string \<Rightarrow> bool \<Rightarrow> bool" where
  "decideChange etagHeader lastETag lastHash body lastETagIsHeader =
     (let curHash = computeHash body in
      if etagHeader \<noteq> [] then decideChangeWithETag etagHeader lastETag lastHash curHash lastETagIsHeader
      else decideChangeNoETag lastHash curHash)"

text \<open>The body to apply (nil is \<open>None\<close>), its ETag, whether to proceed, whether the status is good, the hash.\<close>

definition shouldProceedAfterStatus ::
  "string \<Rightarrow> string \<Rightarrow> int \<Rightarrow> string \<Rightarrow> string \<Rightarrow> bool \<Rightarrow> string option \<times> string \<times> bool \<times> bool \<times> string" where
  "shouldProceedAfterStatus body etagHeader status lastETag lastHash lastETagIsHeader =
     (if status = 304 then (None, etagHeader, False, True, lastHash)
      else if status = 401 \<or> status = 403 then (None, [], False, False, lastHash)
      else if status \<noteq> 404 \<and> status \<ge> 500 then (None, [], False, False, lastHash)
      else if status \<noteq> 404 \<and> status \<noteq> 200 then (None, [], False, False, lastHash)
      else
        let (body, etagHeader) = (if status = 404 then (''{}'', []) else (body, etagHeader));
            hash = computeHash body
        in if \<not> decideChange etagHeader lastETag lastHash body lastETagIsHeader
           then (None, etagHeader, False, True, hash)
           else (Some body, etagHeader, True, True, hash))"

definition computeIfNoneMatch :: "bool \<Rightarrow> string \<Rightarrow> string" where
  "computeIfNoneMatch lastETagIsHeader lastETag = (if lastETagIsHeader \<and> lastETag \<noteq> [] then lastETag else [])"

section \<open>State\<close>

record 'w loopst =
  ks :: "'w kst"
  lastETag :: string
  lastHash :: string
  lastETagIsHeader :: bool
  consecutiveErrors :: int
  lastFetchInfoLog :: "int option"
  lastSuccessfulReconcile :: int
  jitterCounter :: int

record 'w looplib =
  lib_host :: host
  http_Do :: "'w http"
  now :: "'w \<Rightarrow> int"
  draw :: "'w \<Rightarrow> entropy"
  ctx_done :: "'w \<Rightarrow> bool"
  json_of :: "string \<Rightarrow> raw_message"

definition clock :: "'w looplib \<Rightarrow> 'w loopst \<Rightarrow> int" where
  "clock lib s = now lib (kube (ks s))"

section \<open>Parts of an iteration\<close>

definition shouldLogFetchInfo :: "Config \<Rightarrow> int \<Rightarrow> int option \<Rightarrow> bool" where
  "shouldLogFetchInfo cfg t last_log =
     (let interval = FetchLogInterval cfg in
      if interval \<le> 0 then last_log = None
      else case last_log of None \<Rightarrow> True | Some l \<Rightarrow> t - l \<ge> interval)"

definition logPollingStart :: "bool \<Rightarrow> int \<Rightarrow> int option \<Rightarrow> int option" where
  "logPollingStart info start last_log = (if info then Some start else last_log)"

definition sleepWithBackoff :: "'w looplib \<Rightarrow> 'w Controller \<Rightarrow> int \<Rightarrow> 'w loopst \<Rightarrow> 'w loopst" where
  "sleepWithBackoff lib c errorCount s =
     (let (d, ctr) = computeBackoffDuration (c_cfg c) (draw lib (kube (ks s))) (jitterCounter s) errorCount
      in s\<lparr>jitterCounter := ctr, ks := snd (wait (k_outside (c_env c)) d (ks s))\<rparr>)"

definition resetConsecutiveErrors :: "'w loopst \<Rightarrow> 'w loopst" where
  "resetConsecutiveErrors s = s\<lparr>consecutiveErrors := 0\<rparr>"

definition handleReconcileError :: "'w loopst \<Rightarrow> 'w loopst" where
  "handleReconcileError s = s\<lparr>consecutiveErrors := consecutiveErrors s + 1\<rparr>"

definition handleFetchOutcome :: "'w looplib \<Rightarrow> 'w Controller \<Rightarrow> bool \<Rightarrow> bool \<Rightarrow> 'w loopst \<Rightarrow> bool \<times> 'w loopst" where
  "handleFetchOutcome lib c ok proceed s =
     (if \<not> ok then
        (let s = s\<lparr>consecutiveErrors := consecutiveErrors s + 1\<rparr>
         in (True, sleepWithBackoff lib c (consecutiveErrors s) s))
      else if \<not> proceed then
        (let s = s\<lparr>consecutiveErrors := 0, lastSuccessfulReconcile := clock lib s\<rparr>
         in (True, sleepWithBackoff lib c 0 s))
      else (False, s))"

definition processAndApply ::
  "'w looplib \<Rightarrow> (TraefikConfig \<Rightarrow> ('w kst, unit) io) \<Rightarrow> 'w Controller \<Rightarrow> string \<Rightarrow> 'w loopst \<Rightarrow> bool \<times> 'w loopst" where
  "processAndApply lib par c body s =
     (case parseTraefikConfig (json_of lib body) of
        Inl err \<Rightarrow>
          (let s = handleReconcileError s in (False, sleepWithBackoff lib c (consecutiveErrors s) s))
      | Inr cfg \<Rightarrow>
          (case applyConfig par c (Some cfg) (ks s) of
             (Inl err, k) \<Rightarrow>
               (let s = handleReconcileError (s\<lparr>ks := k\<rparr>)
                in (False, sleepWithBackoff lib c (consecutiveErrors s) s))
           | (Inr _, k) \<Rightarrow> (True, s\<lparr>ks := k\<rparr>)))"

definition updateSignaturesAfterSuccess :: "string \<Rightarrow> string \<Rightarrow> 'w loopst \<Rightarrow> 'w loopst" where
  "updateSignaturesAfterSuccess etag body s =
     (let s = (if etag \<noteq> [] then s\<lparr>lastETag := etag, lastETagIsHeader := True\<rparr>
               else s\<lparr>lastETag := [], lastETagIsHeader := False\<rparr>)
      in s\<lparr>lastHash := computeHash body\<rparr>)"

definition recordSyncSuccess :: "'w looplib \<Rightarrow> 'w loopst \<Rightarrow> 'w loopst" where
  "recordSyncSuccess lib s = s\<lparr>lastSuccessfulReconcile := clock lib s\<rparr>"

section \<open>The loop\<close>

text \<open>How an iteration ended; the last two say what was, or was to be, applied.\<close>

datatype outcome = Cancelled | FetchFailed | Rejected | NoChange | ApplyFailed string string | Applied string string

definition runLoop_iter ::
  "'w looplib \<Rightarrow> (TraefikConfig \<Rightarrow> ('w kst, unit) io) \<Rightarrow> 'w Controller \<Rightarrow> 'w loopst \<Rightarrow> outcome \<times> 'w loopst" where
  "runLoop_iter lib par c s =
     (if ctx_done lib (kube (ks s)) then (Cancelled, s)
      else
        let start = clock lib s;
            logAtInfo = shouldLogFetchInfo (c_cfg c) start (lastFetchInfoLog s);
            s = s\<lparr>lastFetchInfoLog := logPollingStart logAtInfo start (lastFetchInfoLog s)\<rparr>
        in case k_io (fetchConfigOnce (lib_host lib) (c_net c) (http_Do lib) (c_cfg c)
                   (computeIfNoneMatch (lastETagIsHeader s) (lastETag s))) (ks s) of
             (Inl err, k) \<Rightarrow>
               (let s = handleReconcileError (s\<lparr>ks := k\<rparr>)
                in (FetchFailed, sleepWithBackoff lib c (consecutiveErrors s) s))
           | (Inr (etagHeader, body, status), k) \<Rightarrow>
               (case shouldProceedAfterStatus body etagHeader status (lastETag s) (lastHash s) (lastETagIsHeader s) of
                  (cfgBody, etagHeaderAdj, proceed, ok, hash) \<Rightarrow>
                    (case handleFetchOutcome lib c ok proceed (s\<lparr>ks := k\<rparr>) of
                       (True, s) \<Rightarrow> (if ok then NoChange else Rejected, s)
                     | (False, s) \<Rightarrow>
                         (let body = (case cfgBody of None \<Rightarrow> [] | Some b \<Rightarrow> b) in
                          case processAndApply lib par c body (resetConsecutiveErrors s) of
                            (False, s) \<Rightarrow> (ApplyFailed etagHeaderAdj body, s)
                          | (True, s) \<Rightarrow>
                              (let s = recordSyncSuccess lib (updateSignaturesAfterSuccess etagHeaderAdj body s)
                               in (Applied etagHeaderAdj body, sleepWithBackoff lib c 0 s))))))"

partial_function (option) runLoop ::
  "'w looplib \<Rightarrow> (TraefikConfig \<Rightarrow> ('w kst, unit) io) \<Rightarrow> 'w Controller \<Rightarrow> 'w loopst \<Rightarrow> 'w loopst option" where
  "runLoop lib par c s =
     (case runLoop_iter lib par c s of
        (Cancelled, s') \<Rightarrow> Some s'
      | (_, s') \<Rightarrow> runLoop lib par c s')"

definition initial_loopst :: "'w kst \<Rightarrow> 'w loopst" where
  "initial_loopst k =
     \<lparr>ks = k, lastETag = [], lastHash = [], lastETagIsHeader = False, consecutiveErrors = 0,
      lastFetchInfoLog = None, lastSuccessfulReconcile = 0, jitterCounter = 0\<rparr>"

definition Run ::
  "'w looplib \<Rightarrow> (TraefikConfig \<Rightarrow> ('w kst, unit) io) \<Rightarrow> 'w Controller \<Rightarrow> 'w kst \<Rightarrow> 'w loopst option" where
  "Run lib par c k = runLoop lib par c (initial_loopst (startGraceDeletionPool k))"

section \<open>Readiness\<close>

definition Ready :: "'w looplib \<Rightarrow> 'w Controller \<Rightarrow> 'w loopst \<Rightarrow> bool" where
  "Ready lib c s =
     (let ts = lastSuccessfulReconcile s in
      if ts = 0 then False
      else
        let pi = (if PollInterval (c_cfg c) > 0 then PollInterval (c_cfg c) else Second)
        in if clock lib s - ts > wrap64 (5 * pi) then False else True)"

section \<open>Signatures\<close>

definition signature :: "'w loopst \<Rightarrow> string \<times> string \<times> bool" where
  "signature s = (lastETag s, lastHash s, lastETagIsHeader s)"

text \<open>The signature a configuration leaves when it has been applied; none at the start.\<close>

definition signature_of :: "(string \<times> string) option \<Rightarrow> string \<times> string \<times> bool" where
  "signature_of g = (case g of None \<Rightarrow> ([], [], False) | Some (e, b) \<Rightarrow> (e, computeHash b, e \<noteq> []))"

lemma computeHash_nonempty [simp]: "computeHash b \<noteq> []"
  by (metis computeHash_def length_EncodeToString length_Sum256 list.size(3) mult_eq_0_iff zero_neq_numeral)

lemma sleep_fields [simp]:
  "lastETag (sleepWithBackoff lib c n s) = lastETag s" "lastHash (sleepWithBackoff lib c n s) = lastHash s"
  "lastETagIsHeader (sleepWithBackoff lib c n s) = lastETagIsHeader s"
  "consecutiveErrors (sleepWithBackoff lib c n s) = consecutiveErrors s"
  "lastSuccessfulReconcile (sleepWithBackoff lib c n s) = lastSuccessfulReconcile s"
  "lastFetchInfoLog (sleepWithBackoff lib c n s) = lastFetchInfoLog s"
  by (simp_all add: sleepWithBackoff_def Let_def split: prod.split)

lemma updateSignatures_fields [simp]:
  "signature (updateSignaturesAfterSuccess e b s) = (e, computeHash b, e \<noteq> [])"
  "ks (updateSignaturesAfterSuccess e b s) = ks s"
  "consecutiveErrors (updateSignaturesAfterSuccess e b s) = consecutiveErrors s"
  by (simp_all add: updateSignaturesAfterSuccess_def signature_def Let_def)

lemma recordSyncSuccess_fields [simp]:
  "signature (recordSyncSuccess lib s) = signature s" "ks (recordSyncSuccess lib s) = ks s"
  "consecutiveErrors (recordSyncSuccess lib s) = consecutiveErrors s"
  "lastSuccessfulReconcile (recordSyncSuccess lib s) = clock lib s"
  by (simp_all add: recordSyncSuccess_def signature_def)

lemma signature_sleep [simp]: "signature (sleepWithBackoff lib c n s) = signature s"
  by (simp add: signature_def)

lemma signature_update [simp]:
  "signature (s\<lparr>ks := k\<rparr>) = signature s" "signature (s\<lparr>consecutiveErrors := n\<rparr>) = signature s"
  "signature (s\<lparr>lastFetchInfoLog := t\<rparr>) = signature s" "signature (s\<lparr>lastSuccessfulReconcile := u\<rparr>) = signature s"
  by (simp_all add: signature_def)

text \<open>What \<open>processAndApply\<close> does, when it succeeds and when it does not.\<close>

lemma processAndApply_cases:
  assumes "processAndApply lib par c body s = (r, s')"
  obtains (ok) cfg k where "r" "parseTraefikConfig (json_of lib body) = Inr cfg"
      "applyConfig par c (Some cfg) (ks s) = (Inr (), k)" "s' = s\<lparr>ks := k\<rparr>"
    | (bad) k where "\<not> r"
      "s' = sleepWithBackoff lib c (consecutiveErrors s + 1) (s\<lparr>ks := k, consecutiveErrors := consecutiveErrors s + 1\<rparr>)"
proof (cases "parseTraefikConfig (json_of lib body)")
  case (Inl e)
  with assms show ?thesis
    by (intro bad [of "ks s"]) (auto simp: processAndApply_def handleReconcileError_def Let_def)
next
  case (Inr cfg)
  obtain x k where a: "applyConfig par c (Some cfg) (ks s) = (x, k)" by fastforce
  with Inr assms ok bad [of k] show ?thesis
    by (cases x) (auto simp: processAndApply_def handleReconcileError_def Let_def)
qed

section \<open>The outcomes of an iteration\<close>

text \<open>
  An iteration by cases. \<open>s1\<close> is the state after the fetch; \<open>fetched\<close> says what was fetched and in which
  way it was conditional.
\<close>

definition fetched ::
  "'w looplib \<Rightarrow> 'w Controller \<Rightarrow> 'w loopst \<Rightarrow> (string \<times> string \<times> int) result \<Rightarrow> 'w loopst \<Rightarrow> bool" where
  "fetched lib c s r s1 \<longleftrightarrow>
     \<not> ctx_done lib (kube (ks s))
   \<and> (\<exists>t k. k_io (fetchConfigOnce (lib_host lib) (c_net c) (http_Do lib) (c_cfg c)
             (computeIfNoneMatch (lastETagIsHeader s) (lastETag s))) (ks s) = (r, k)
         \<and> s1 = s\<lparr>lastFetchInfoLog := t, ks := k\<rparr>)"

lemma fetched_signature: "fetched lib c s r s1 \<Longrightarrow> signature s1 = signature s"
  and fetched_errors: "fetched lib c s r s1 \<Longrightarrow> consecutiveErrors s1 = consecutiveErrors s"
  and fetched_success: "fetched lib c s r s1 \<Longrightarrow> lastSuccessfulReconcile s1 = lastSuccessfulReconcile s"
  by (auto simp: fetched_def)

lemma iter_cases:
  assumes "runLoop_iter lib par c s = (out, s')"
  obtains (cancelled) "out = Cancelled" "s' = s" "ctx_done lib (kube (ks s))"
    | (fetch) e s1 where "fetched lib c s (Inl e) s1" "out = FetchFailed"
      "s' = sleepWithBackoff lib c (consecutiveErrors s + 1) (s1\<lparr>consecutiveErrors := consecutiveErrors s + 1\<rparr>)"
    | (rejected) etag body status s1 where "fetched lib c s (Inr (etag, body, status)) s1" "out = Rejected"
      "status \<notin> {200, 304, 404}"
      "s' = sleepWithBackoff lib c (consecutiveErrors s + 1) (s1\<lparr>consecutiveErrors := consecutiveErrors s + 1\<rparr>)"
    | (nochange) etag body status s1 where "fetched lib c s (Inr (etag, body, status)) s1" "out = NoChange"
      "status = 304 \<or> status = 200 \<and> \<not> decideChange etag (lastETag s) (lastHash s) body (lastETagIsHeader s)
        \<or> status = 404 \<and> \<not> decideChange [] (lastETag s) (lastHash s) ''{}'' (lastETagIsHeader s)"
      "s' = sleepWithBackoff lib c 0 (s1\<lparr>consecutiveErrors := 0, lastSuccessfulReconcile := clock lib s1\<rparr>)"
    | (change) etag body status s1 etag' body' r s2 where "fetched lib c s (Inr (etag, body, status)) s1"
      "status = 200 \<and> etag' = etag \<and> body' = body \<or> status = 404 \<and> etag' = [] \<and> body' = ''{}''"
      "decideChange etag' (lastETag s) (lastHash s) body' (lastETagIsHeader s)"
      "processAndApply lib par c body' (s1\<lparr>consecutiveErrors := 0\<rparr>) = (r, s2)"
      "out = (if r then Applied etag' body' else ApplyFailed etag' body')"
      "s' = (if r then sleepWithBackoff lib c 0 (recordSyncSuccess lib (updateSignaturesAfterSuccess etag' body' s2)) else s2)"
proof (cases "ctx_done lib (kube (ks s))")
  case True
  with assms cancelled show ?thesis by (simp add: runLoop_iter_def)
next
  case False
  let ?t = "logPollingStart (shouldLogFetchInfo (c_cfg c) (clock lib s) (lastFetchInfoLog s)) (clock lib s) (lastFetchInfoLog s)"
  obtain r k where f: "k_io (fetchConfigOnce (lib_host lib) (c_net c) (http_Do lib) (c_cfg c)
      (computeIfNoneMatch (lastETagIsHeader s) (lastETag s))) (ks s) = (r, k)" by fastforce
  define s1 where "s1 = s\<lparr>lastFetchInfoLog := ?t, ks := k\<rparr>"
  have fe: "fetched lib c s r s1" using False f by (auto simp: fetched_def s1_def)
  show ?thesis
  proof (cases r)
    case (Inl e)
    with fe fetch [of e s1] False f assms show ?thesis
      by (auto simp: runLoop_iter_def Let_def s1_def handleReconcileError_def)
  next
    case (Inr x)
    obtain etag body status where x: "x = (etag, body, status)" by (metis prod_cases3)
    note fx = fe [unfolded Inr x]
    have run: "(out, s') = (case shouldProceedAfterStatus body etag status (lastETag s) (lastHash s) (lastETagIsHeader s) of
        (cfgBody, etagHeaderAdj, proceed, ok, hash) \<Rightarrow>
          (case handleFetchOutcome lib c ok proceed s1 of
             (True, s) \<Rightarrow> (if ok then NoChange else Rejected, s)
           | (False, s) \<Rightarrow>
               (let body = (case cfgBody of None \<Rightarrow> [] | Some b \<Rightarrow> b) in
                case processAndApply lib par c body (resetConsecutiveErrors s) of
                  (False, s) \<Rightarrow> (ApplyFailed etagHeaderAdj body, s)
                | (True, s) \<Rightarrow>
                    (let s = recordSyncSuccess lib (updateSignaturesAfterSuccess etagHeaderAdj body s)
                     in (Applied etagHeaderAdj body, sleepWithBackoff lib c 0 s)))))"
      using assms False f Inr x by (simp add: runLoop_iter_def Let_def s1_def)
    define etag' where "etag' = (if status = 404 then [] else etag)"
    define body' where "body' = (if status = 404 then ''{}'' else body)"
    have e1: "consecutiveErrors s1 = consecutiveErrors s" by (simp add: s1_def)
    consider "status \<notin> {200, 304, 404}" | "status = 304"
      | "status \<in> {200, 404}" "\<not> decideChange etag' (lastETag s) (lastHash s) body' (lastETagIsHeader s)"
      | "status \<in> {200, 404}" "decideChange etag' (lastETag s) (lastHash s) body' (lastETagIsHeader s)" by blast
    then show ?thesis
    proof cases
      case 1
      with run e1 rejected [OF fx] show ?thesis
        by (auto simp: shouldProceedAfterStatus_def handleFetchOutcome_def Let_def split: if_splits)
    next
      case 2
      with run nochange [OF fx] show ?thesis
        by (auto simp: shouldProceedAfterStatus_def handleFetchOutcome_def Let_def clock_def)
    next
      case 3
      with run nochange [OF fx] show ?thesis
        by (auto simp: shouldProceedAfterStatus_def handleFetchOutcome_def Let_def clock_def etag'_def body'_def)
    next
      case 4
      obtain b s2 where p: "processAndApply lib par c body' (s1\<lparr>consecutiveErrors := 0\<rparr>) = (b, s2)" by fastforce
      have "shouldProceedAfterStatus body etag status (lastETag s) (lastHash s) (lastETagIsHeader s) =
          (Some body', etag', True, True, computeHash body')"
        using 4 by (auto simp: shouldProceedAfterStatus_def etag'_def body'_def Let_def)
      with run p have "(out, s') = (if b then (Applied etag' body', sleepWithBackoff lib c 0
          (recordSyncSuccess lib (updateSignaturesAfterSuccess etag' body' s2))) else (ApplyFailed etag' body', s2))"
        by (simp add: handleFetchOutcome_def resetConsecutiveErrors_def Let_def)
      with change [OF fx _ 4(2) p] 4(1) show ?thesis by (auto simp: etag'_def body'_def split: if_splits)
    qed
  qed
qed

section \<open>The signature is that of the last applied configuration\<close>

text \<open>
  The loop as a machine. Between iterations the workers and other clients may change the cluster and
  the deletion queue. \<open>applied_after\<close> keeps the configuration applied last.
\<close>

datatype loop_label = Iterated outcome | Elsewhere

inductive loop_step ::
  "'w looplib \<Rightarrow> (TraefikConfig \<Rightarrow> ('w kst, unit) io) \<Rightarrow> 'w Controller \<Rightarrow> 'w loopst \<Rightarrow> loop_label \<Rightarrow> 'w loopst \<Rightarrow> bool"
  for lib par c where
  iter: "runLoop_iter lib par c s = (out, s') \<Longrightarrow> loop_step lib par c s (Iterated out) s'"
| others: "loop_step lib par c s Elsewhere (s\<lparr>ks := k\<rparr>)"

definition loop_start :: "'w loopst \<Rightarrow> bool" where
  "loop_start s \<longleftrightarrow> (\<exists>k. s = initial_loopst k)"

fun applied_after :: "(string \<times> string) option \<Rightarrow> loop_label \<Rightarrow> (string \<times> string) option" where
  "applied_after g (Iterated (Applied e b)) = Some (e, b)"
| "applied_after g _ = g"

text \<open>A reachable state, with the configuration applied last.\<close>

definition loop_reach ::
  "'w looplib \<Rightarrow> (TraefikConfig \<Rightarrow> ('w kst, unit) io) \<Rightarrow> 'w Controller \<Rightarrow> 'w loopst \<Rightarrow> (string \<times> string) option \<Rightarrow> bool" where
  "loop_reach lib par c s g \<longleftrightarrow> (\<exists>ls. run loop_start (loop_step lib par c) ls s \<and> g = foldl applied_after None ls)"

lemma loop_reach_start: "loop_reach lib par c (initial_loopst k) None"
  unfolding loop_reach_def by (intro exI [of _ "[]"]) (auto simp: run_Nil loop_start_def)

lemma loop_reach_step:
  assumes "loop_reach lib par c s g" and "loop_step lib par c s l s'"
  shows "loop_reach lib par c s' (applied_after g l)"
proof -
  from assms(1) obtain ls where "run loop_start (loop_step lib par c) ls s" "g = foldl applied_after None ls"
    by (auto simp: loop_reach_def)
  with run.step [OF this(1) assms(2)] show ?thesis
    unfolding loop_reach_def by (intro exI [of _ "ls @ [l]"]) simp
qed

lemmas loop_reach_iter = loop_reach_step [OF _ loop_step.iter]

lemma iter_signature:
  assumes "runLoop_iter lib par c s = (out, s')"
  shows "signature s' = (case out of Applied e b \<Rightarrow> (e, computeHash b, e \<noteq> []) | _ \<Rightarrow> signature s)"
  using assms
proof (cases rule: iter_cases)
  case (change etag body status s1 etag' body' r s2)
  from change(4) have "signature s2 = signature s" if "\<not> r"
    using that fetched_signature [OF change(1)] by (cases rule: processAndApply_cases) auto
  with change(5,6) show ?thesis by (cases r) auto
qed (auto dest: fetched_signature)

interpretation poll_loop:
  fold_simulation loop_start "loop_step lib par c" None applied_after "\<lambda>s g. signature s = signature_of g"
  for lib :: "'w looplib" and par c
proof
  fix s g l t
  assume g: "signature s = signature_of g" and st: "loop_step lib par c s l t"
  from st show "signature t = signature_of (applied_after g l)"
  proof (cases rule: loop_step.cases)
    case (iter out)
    with iter_signature [OF iter(2)] g show ?thesis by (cases out) (auto simp: signature_of_def)
  qed (use g in simp)
qed (auto simp: loop_start_def signature_of_def initial_loopst_def signature_def)

lemma reach_signature: "loop_reach lib par c s g \<Longrightarrow> signature s = signature_of g"
  unfolding loop_reach_def using poll_loop.run_fold by blast

lemma decideChange_iff:
  "decideChange e le lh b lh' \<longleftrightarrow>
     \<not> (lh \<noteq> [] \<and> computeHash b = lh) \<and> \<not> (e \<noteq> [] \<and> \<not> isWeakETag e \<and> lh' \<and> e = le)"
  by (auto simp: decideChange_def decideChangeWithETag_def decideChangeNoETag_def Let_def)

text \<open>
  C4. A response with status 200 is skipped exactly when it matches what was applied last: its hash is
  that of the last applied body, or its strong ETag is that of the last applied configuration. Any other
  configuration is processed, also one that was tried before and failed.
\<close>

theorem loop_skips_iff_applied:
  assumes "loop_reach lib par c s g" and "runLoop_iter lib par c s = (out, s')"
    and "fetched lib c s (Inr (etag, body, 200)) s1"
  shows "(out = NoChange \<longleftrightarrow>
      (\<exists>e b. g = Some (e, b) \<and> (computeHash body = computeHash b \<or> etag = e \<and> etag \<noteq> [] \<and> \<not> isWeakETag etag)))
    \<and> out \<in> {NoChange, Applied etag body, ApplyFailed etag body}"
proof -
  have d: "\<not> decideChange etag (lastETag s) (lastHash s) body (lastETagIsHeader s) \<longleftrightarrow>
      (\<exists>e b. g = Some (e, b) \<and> (computeHash body = computeHash b \<or> etag = e \<and> etag \<noteq> [] \<and> \<not> isWeakETag etag))"
    using reach_signature [OF assms(1)]
    by (cases g) (auto simp: decideChange_iff signature_def signature_of_def)
  have f: "r = Inr (etag, body, 200)" if "fetched lib c s r s2" for r s2
    using that assms(3) by (auto simp: fetched_def)
  have "\<not> ctx_done lib (kube (ks s))" using assms(3) by (simp add: fetched_def)
  with assms(2) show ?thesis unfolding d [symmetric]
    by (cases rule: iter_cases) (auto dest: f split: if_splits)
qed

section \<open>Errors and waiting\<close>

text \<open>
  C15. The counter of consecutive errors, by outcome, and the wait that ends the iteration: a failed
  fetch and a bad status raise the counter, a good poll clears it, and a configuration that cannot be
  decoded or applied sets it to one, however many attempts failed before; the iteration then waits
  for the duration of that counter.
\<close>

theorem loop_errors:
  assumes "runLoop_iter lib par c s = (out, s')"
  shows "consecutiveErrors s' = (case out of
      Cancelled \<Rightarrow> consecutiveErrors s
    | FetchFailed \<Rightarrow> consecutiveErrors s + 1
    | Rejected \<Rightarrow> consecutiveErrors s + 1
    | NoChange \<Rightarrow> 0
    | ApplyFailed _ _ \<Rightarrow> 1
    | Applied _ _ \<Rightarrow> 0)
    \<and> (out \<noteq> Cancelled \<longrightarrow> (\<exists>s2. s' = sleepWithBackoff lib c (consecutiveErrors s') s2))"
proof -
  have p: "consecutiveErrors s2 = (if r then 0 else 1) \<and> (\<not> r \<longrightarrow> (\<exists>s3. s2 = sleepWithBackoff lib c 1 s3))"
    if "processAndApply lib par c b (s1\<lparr>consecutiveErrors := 0\<rparr>) = (r, s2)" for b s1 r s2
    using that by (cases rule: processAndApply_cases) auto
  have n: "consecutiveErrors s' = (case out of
      Cancelled \<Rightarrow> consecutiveErrors s | FetchFailed \<Rightarrow> consecutiveErrors s + 1 | Rejected \<Rightarrow> consecutiveErrors s + 1
    | NoChange \<Rightarrow> 0 | ApplyFailed _ _ \<Rightarrow> 1 | Applied _ _ \<Rightarrow> 0)"
    using assms by (cases rule: iter_cases) (auto dest: p split: if_splits)
  moreover have "\<exists>s2. s' = sleepWithBackoff lib c (consecutiveErrors s') s2" if "out \<noteq> Cancelled"
    using assms
  proof (cases rule: iter_cases)
    case (change etag body status s1 etag' body' r s2)
    with n p [OF change(4)] show ?thesis by (cases r) auto
  qed (use n that in auto)
  ultimately show ?thesis by blast
qed

section \<open>Readiness follows the last good poll\<close>

definition good_poll :: "outcome \<Rightarrow> bool" where
  "good_poll out \<longleftrightarrow> (case out of NoChange \<Rightarrow> True | Applied _ _ \<Rightarrow> True | _ \<Rightarrow> False)"

text \<open>
  An iteration sets the time stamp of readiness exactly when its poll was good, to the time at
  which its final wait begins; after a bad one the controller is ready only as long as five poll
  intervals from the last good poll have not passed, and never if there was none.
\<close>

theorem loop_readiness:
  assumes "runLoop_iter lib par c s = (out, s')"
    and "0 < PollInterval (c_cfg c)" and "PollInterval (c_cfg c) < 2 ^ 60"
  shows "if good_poll out
    then \<exists>s2. s' = sleepWithBackoff lib c 0 s2 \<and> lastSuccessfulReconcile s' = clock lib s2
    else lastSuccessfulReconcile s' = lastSuccessfulReconcile s
      \<and> (Ready lib c s' \<longrightarrow> lastSuccessfulReconcile s \<noteq> 0
            \<and> clock lib s' - lastSuccessfulReconcile s \<le> 5 * PollInterval (c_cfg c))"
proof -
  have p: "lastSuccessfulReconcile s2 = lastSuccessfulReconcile s1"
    if "processAndApply lib par c b (s1\<lparr>consecutiveErrors := 0\<rparr>) = (r, s2)" for b s1 r s2
    using that by (cases rule: processAndApply_cases) auto
  have c: "clock lib (s2\<lparr>lastSuccessfulReconcile := t, consecutiveErrors := n\<rparr>) = clock lib s2"
      "clock lib (recordSyncSuccess lib s2) = clock lib s2" for s2 t n
    by (simp_all add: clock_def recordSyncSuccess_def)
  have "\<exists>s2. s' = sleepWithBackoff lib c 0 s2 \<and> lastSuccessfulReconcile s' = clock lib s2" if "good_poll out"
    using assms(1) that
    by (cases rule: iter_cases) (auto simp: good_poll_def c recordSyncSuccess_def clock_def split: if_splits)
  moreover have bad: "lastSuccessfulReconcile s' = lastSuccessfulReconcile s" if "\<not> good_poll out"
    using assms(1) that
    by (cases rule: iter_cases) (auto simp: good_poll_def fetched_success dest: p split: if_splits)
  ultimately show ?thesis
    using assms(2,3) wrap64_id [of "5 * PollInterval (c_cfg c)"] by (auto simp: Ready_def Let_def split: if_splits)
qed

section \<open>An applied configuration has converged\<close>

text \<open>Fetching does not touch the cluster.\<close>

definition http_frame :: "'w looplib \<Rightarrow> 'w views \<Rightarrow> bool" where
  "http_frame lib views \<longleftrightarrow> (\<forall>g v req. keeps (\<lambda>w. views g w = v) (http_Do lib req))"

lemma fetch_frame:
  assumes "http_frame lib views" and "fetched lib c s r s1"
  shows "views g (kube (ks s1)) = views g (kube (ks s))"
proof -
  have "keeps (\<lambda>w. views g w = v) (fetchConfigOnce h net (http_Do lib) cfg inm)" for v h net cfg inm
    using assms(1) unfolding http_frame_def fetchConfigOnce_def fetchConditional_def Let_def case_prod_beta
    by (intro keeps_intros) (auto intro!: keeps_intros split: option.split)
  from keepsD [OF k_io_keeps [OF this]] assms(2) show ?thesis
    by (auto simp: fetched_def) (metis snd_conv)
qed

lemma sleep_frame:
  assumes "wait_law (c_env c) (views g)"
  shows "views g (kube (ks (sleepWithBackoff lib c n s))) = views g (kube (ks s))"
  using assms
  by (auto simp: sleepWithBackoff_def Let_def k_outside_def wait_law_def split: prod.split) (metis snd_conv)

lemma http_converged_views:
  assumes "\<And>g. views g w1 = views g w" and "\<And>g. views g w2 = views g w'"
  shows "http_converged c views rf cfg w1 w2 \<longleftrightarrow> http_converged c views rf cfg w w'"
  by (simp add: http_converged_def assms)

lemma iter_applied:
  assumes laws: "cluster_laws c views rf" "writable (c_cfg c)" "parallel_ok cancel c par"
      "distinct [gvrMiddleware c, gvrIngressRoute c, gvrServersTransport c, gvrTraefikService c]"
      "http_frame lib views"
    and run: "runLoop_iter lib par c s = (Applied e b, s')"
  shows "\<exists>cfg out. parseTraefikConfig (json_of lib b) = Inr cfg \<and> SanitizeTraefikConfig (Some cfg) = Inr (Some out)
    \<and> http_converged c views rf out (kube (ks s)) (kube (ks s'))"
  using run
proof (cases rule: iter_cases)
  case (change etag body status s1 etag' body' r s2)
  then have r: "r" "etag' = e" "body' = b" by (auto split: if_splits)
  from change(4) r obtain cfg k where p: "parseTraefikConfig (json_of lib b) = Inr cfg"
      "applyConfig par c (Some cfg) (ks s1) = (Inr (), k)" "s2 = s1\<lparr>consecutiveErrors := 0, ks := k\<rparr>"
    by (cases rule: processAndApply_cases) auto
  have "wait_law (c_env c) (views g)" for g using laws(1) by (simp add: cluster_laws_def)
  then have "views g (kube (ks s')) = views g (kube k)" for g
    using change(6) r p(3) sleep_frame [of c views g] by simp
  moreover have "views g (kube (ks s1)) = views g (kube (ks s))" for g
    by (rule fetch_frame [OF laws(5) change(1)])
  ultimately have "http_converged c views rf out (kube (ks s1)) (kube k) \<longleftrightarrow>
      http_converged c views rf out (kube (ks s)) (kube (ks s'))" for out
    by (intro http_converged_views) simp_all
  with applyConfig_http_converged [OF laws(1,2) _ laws(4) p(2)] parallel_ok_possible [OF laws(3)] p(1) show ?thesis by blast
qed auto

text \<open>
  C3. When an iteration of a controller that is not read-only, and whose managed label key has no equals
  sign, reports that a body was applied, the body decodes to a configuration and the cluster has converged
  to its sanitised form, the wait at the end of the iteration included: every entry has its object,
  foreign objects are untouched, and the managed objects that are not in the configuration are gone when
  there is no grace period and stay as they are, for the workers to delete, when there is one.
\<close>

theorem loop_applied_converges:
  assumes "cluster_laws c views rf" "writable (c_cfg c)" "parallel_ok cancel c par"
    and "distinct [gvrMiddleware c, gvrIngressRoute c, gvrServersTransport c, gvrTraefikService c]"
    and "http_frame lib views" and "runLoop_iter lib par c s = (Applied e b, s')"
  shows "\<exists>cfg out. parseTraefikConfig (json_of lib b) = Inr cfg \<and> SanitizeTraefikConfig (Some cfg) = Inr (Some out)
    \<and> http_converged c views rf out (kube (ks s)) (kube (ks s'))"
  using assms by (rule iter_applied)

lemma sanitize_empty:
  "SanitizeTraefikConfig (Some \<lparr>HTTP = empty_http, TCP = None, UDP = None\<rparr>) =
     Inr (Some \<lparr>HTTP = \<lparr>Middlewares = Some [], Routers = Some [], Services = Some [], ServersTransports = Some []\<rparr>,
       TCP = None, UDP = None\<rparr>)"
  by code_simp

lemma parse_empty_object: "parseTraefikConfig (RawJSON (IMap [])) = Inr \<lparr>HTTP = empty_http, TCP = None, UDP = None\<rparr>"
  by (simp add: parseTraefikConfig_def zero_config_def)

text \<open>
  C26. A server that answers 404 has no configuration: when that answer is applied by a controller that
  is not read-only, and whose managed label key has no equals sign, the four HTTP resource types hold what
  they held before but for the objects that carry the label and annotation of the controller: those are
  gone when there is no grace period, and stay, for the workers to delete, when there is one.
\<close>

theorem loop_404_removes:
  assumes "cluster_laws c views rf" "writable (c_cfg c)" "parallel_ok cancel c par"
    and "distinct [gvrMiddleware c, gvrIngressRoute c, gvrServersTransport c, gvrTraefikService c]"
    and "http_frame lib views" and "json_of lib ''{}'' = RawJSON (IMap [])"
    and "fetched lib c s (Inr (etag, body, 404)) s1" and "runLoop_iter lib par c s = (Applied e b, s')"
    and "g \<in> {gvrMiddleware c, gvrIngressRoute c, gvrServersTransport c, gvrTraefikService c}"
  shows "views g (kube (ks s')) n = (case views g (kube (ks s)) n of
      None \<Rightarrow> None
    | Some x \<Rightarrow> if managed (c_cfg c) x \<and> GCGracePeriod (c_cfg c) \<le> 0 then None else Some x)"
proof -
  have "b = ''{}''" using assms(8) by (cases rule: iter_cases) (use assms(7) in \<open>auto simp: fetched_def split: if_splits\<close>)
  then obtain out where "SanitizeTraefikConfig (Some \<lparr>HTTP = empty_http, TCP = None, UDP = None\<rparr>) = Inr (Some out)"
      and conv: "http_converged c views rf out (kube (ks s)) (kube (ks s'))"
    using iter_applied [OF assms(1-5,8)] assms(6) parse_empty_object by auto
  then have "out = \<lparr>HTTP = \<lparr>Middlewares = Some [], Routers = Some [], Services = Some [], ServersTransports = Some []\<rparr>,
      TCP = None, UDP = None\<rparr>"
    using sanitize_empty by simp
  with conv have "\<exists>good. converged (c_cfg c) {} good (views g (kube (ks s))) (views g (kube (ks s')))"
    using assms(9) unfolding http_converged_def Let_def by (simp add: of_nil_def go_keys_def) blast
  then show ?thesis unfolding converged_def by blast
qed

section \<open>The loop ends when it is cancelled\<close>

abbreviation next_state where
  "next_state lib par c s \<equiv> snd (runLoop_iter lib par c s)"

lemma iter_Cancelled: "fst (runLoop_iter lib par c s) = Cancelled \<longleftrightarrow> ctx_done lib (kube (ks s))"
proof -
  obtain out s' where r: "runLoop_iter lib par c s = (out, s')" by fastforce
  then show ?thesis by (cases rule: iter_cases) (auto simp: fetched_def r split: if_splits)
qed

lemma runLoop_step:
  "runLoop lib par c s = (if ctx_done lib (kube (ks s)) then Some s else runLoop lib par c (next_state lib par c s))"
proof -
  obtain out s' where r: "runLoop_iter lib par c s = (out, s')" by fastforce
  have "ctx_done lib (kube (ks s)) \<Longrightarrow> s' = s" using r by (simp add: runLoop_iter_def)
  with r iter_Cancelled [of lib par c s] show ?thesis
    by (subst runLoop.simps) (auto split: outcome.split)
qed

lemma runLoop_returnsD:
  assumes "runLoop lib par c s = Some s'"
  shows "\<exists>k. s' = (next_state lib par c ^^ k) s \<and> ctx_done lib (kube (ks s'))
    \<and> (\<forall>j < k. \<not> ctx_done lib (kube (ks ((next_state lib par c ^^ j) s))))"
  using assms
proof (induction rule: runLoop.raw_induct [rotated 1, consumes 1, case_names iteration])
  case (iteration runLoop' lib par c s s')
  obtain out t where r: "runLoop_iter lib par c s = (out, t)" by fastforce
  show ?case
  proof (cases "ctx_done lib (kube (ks s))")
    case True
    with r iter_Cancelled [of lib par c s] iteration(2) have "s' = t" "t = s"
      by (auto simp: runLoop_iter_def)
    with True show ?thesis by (intro exI [of _ 0]) simp
  next
    case False
    with r iter_Cancelled [of lib par c s] iteration(2) have "runLoop' lib par c t = Some s'"
      by (auto split: outcome.splits)
    from iteration(1) [OF this] obtain k where "s' = (next_state lib par c ^^ k) t" "ctx_done lib (kube (ks s'))"
        "\<forall>j < k. \<not> ctx_done lib (kube (ks ((next_state lib par c ^^ j) t)))" by blast
    with r False show ?thesis
      by (intro exI [of _ "Suc k"]) (auto simp: funpow_Suc_right less_Suc_eq_0_disj simp del: funpow.simps(2))
  qed
qed

lemma runLoop_returnsI:
  assumes "s' = (next_state lib par c ^^ k) s" and "ctx_done lib (kube (ks s'))"
    and "\<forall>j < k. \<not> ctx_done lib (kube (ks ((next_state lib par c ^^ j) s)))"
  shows "runLoop lib par c s = Some s'"
  using assms
proof (induction k arbitrary: s)
  case 0
  then show ?case by (subst runLoop_step) simp
next
  case (Suc k)
  have "\<not> ctx_done lib (kube (ks s))" using Suc.prems(3) by force
  moreover have "\<forall>j < k. \<not> ctx_done lib (kube (ks ((next_state lib par c ^^ j) (next_state lib par c s))))"
    using Suc.prems(3) by (metis Suc_mono comp_apply funpow_Suc_right)
  ultimately show ?case
    using Suc.IH [of "next_state lib par c s"] Suc.prems(1,2)
    by (subst runLoop_step) (simp add: funpow_Suc_right del: funpow.simps(2))
qed

text \<open>
  C11. The loop returns exactly when its context is cancelled: it ends in the first state, counted in
  iterations, in which the context is found done, and it ends if there is such a state.
\<close>

theorem runLoop_returns_iff:
  "runLoop lib par c s = Some s' \<longleftrightarrow>
     (\<exists>k. s' = (next_state lib par c ^^ k) s \<and> ctx_done lib (kube (ks s'))
        \<and> (\<forall>j < k. \<not> ctx_done lib (kube (ks ((next_state lib par c ^^ j) s)))))"
  using runLoop_returnsD runLoop_returnsI by blast

section \<open>Instances\<close>

definition demo_json :: "string \<Rightarrow> raw_message" where
  "demo_json b =
     (if b = ''{}'' then RawJSON (IMap [])
      else if b = ''config'' then RawJSON (IMap [(''http'', IMap [(''middlewares'', IMap [(''new'', IMap [])])])])
      else RawText b)"

definition demo_lib :: "int \<Rightarrow> cluster looplib" where
  "demo_lib status =
     \<lparr>lib_host = example_host,
      http_Do = (\<lambda>req w. (Inr \<lparr>StatusCode = status, resp_Header = [], Body = [(''config'', Some EOF)]\<rparr>, w)),
      now = (\<lambda>_. 1000), draw = (\<lambda>_. max_draw), ctx_done = (\<lambda>_. False), json_of = demo_json\<rparr>"

definition demo_loop_of :: "Config \<Rightarrow> cluster Controller" where
  "demo_loop_of cfg = (cluster_demo cfg)\<lparr>c_net := example_net\<lparr>url_Parse := \<lambda>s. Inr
     \<lparr>Scheme = ''https'', Host = ''pangolin:3001'', Path = [], RawQuery = []\<rparr>\<rparr>\<rparr>"

definition demo_loop :: "cluster Controller" where
  "demo_loop = demo_loop_of demo_cfg"

definition demo_start :: "cluster loopst" where
  "demo_start = initial_loopst cluster_state"

abbreviation demo_iter where
  "demo_iter status \<equiv> runLoop_iter (demo_lib status) (\<lambda>_. retIO ()) demo_loop demo_start"

lemma demo_loop_fields:
  "c_cfg demo_loop = demo_cfg" "lib_host (demo_lib st) = example_host" "json_of (demo_lib st) = demo_json"
  "ctx_done (demo_lib st) w = False" "ks demo_start = cluster_state" "consecutiveErrors demo_start = 0"
  "lastHash demo_start = []" "lastETag demo_start = []" "\<not> lastETagIsHeader demo_start"
  "lastSuccessfulReconcile demo_start = 0" "now (demo_lib st) w = 1000"
  by (simp_all add: demo_loop_def demo_lib_def demo_start_def initial_loopst_def demo_loop_of_def cluster_demo_def
      NewController_def)

lemma demo_loop_laws:
  "cluster_laws demo_loop cluster_views mem_reflects" "writable (c_cfg demo_loop)"
  "parallel_ok id demo_loop (\<lambda>_. retIO ())"
  "distinct [gvrMiddleware demo_loop, gvrIngressRoute demo_loop, gvrServersTransport demo_loop, gvrTraefikService demo_loop]"
  "http_frame (demo_lib st) cluster_views"
proof -
  show "cluster_laws demo_loop cluster_views mem_reflects"
    using cluster_demo_laws [of demo_cfg] by (simp add: cluster_laws_def demo_loop_def demo_loop_of_def)
  have "\<not> ReconcileParallel (c_cfg demo_loop)" by code_simp
  then show "parallel_ok id demo_loop (\<lambda>_. retIO ())" by (simp add: parallel_ok_def)
  show "writable (c_cfg demo_loop)"
      "distinct [gvrMiddleware demo_loop, gvrIngressRoute demo_loop, gvrServersTransport demo_loop, gvrTraefikService demo_loop]"
    by code_simp+
  show "http_frame (demo_lib st) cluster_views" by (simp add: http_frame_def demo_lib_def keeps_def)
qed

lemma demo_fetch:
  "fetchConfigOnce example_host (c_net demo_loop) (http_Do (demo_lib st)) demo_cfg [] w = (Inr ([], ''config'', st), w)"
proof -
  have "\<not> HasPrefix (ToLower (Endpoint demo_cfg)) ''http://''" "AuthHeader demo_cfg = []"
      "readWithLimit [(''config'', Some EOF)] (MaxResponseBodyBytes demo_cfg) = (''config'', 6, None)"
    by code_simp+
  moreover have "\<exists>u. url_Parse (c_net demo_loop) (Endpoint demo_cfg) = Inr u" by (simp add: demo_loop_def demo_loop_of_def)
  ultimately show ?thesis
    by (auto simp: fetchConfigOnce_def fetchConditional_def demo_lib_def io_defs Let_def get_str_def)
qed

lemma demo_fetched: "fetched (demo_lib st) demo_loop demo_start r s1 \<Longrightarrow> r = Inr ([], ''config'', st) \<and> ks s1 = cluster_state"
  and demo_fetched_ex: "\<exists>s1. fetched (demo_lib st) demo_loop demo_start (Inr ([], ''config'', st)) s1"
  by (auto simp: fetched_def demo_loop_fields computeIfNoneMatch_def k_io_eq demo_fetch)

lemma demo_apply:
  "fst (applyConfig (\<lambda>_. retIO ()) demo_loop (Some (projr (parseTraefikConfig (demo_json ''config'')))) cluster_state) = Inr ()"
  "fst (applyConfig (\<lambda>_. retIO ()) demo_loop (Some (projr (parseTraefikConfig (demo_json ''{}'')))) cluster_state) = Inr ()"
  "\<not> isl (parseTraefikConfig (demo_json ''config''))" "\<not> isl (parseTraefikConfig (demo_json ''{}''))"
  by code_simp+

lemma demo_process:
  assumes "b \<in> {''config'', ''{}''}" and "ks s1 = cluster_state"
    and "processAndApply (demo_lib st) (\<lambda>_. retIO ()) demo_loop b s1 = (r, s2)"
  shows "r"
proof -
  obtain cfg where cfg: "parseTraefikConfig (demo_json b) = Inr cfg"
    using assms(1) demo_apply(3,4) by (cases "parseTraefikConfig (demo_json b)") auto
  then have "fst (applyConfig (\<lambda>_. retIO ()) demo_loop (Some cfg) cluster_state) = Inr ()"
    using assms(1) demo_apply(1,2) by auto
  then obtain k where "applyConfig (\<lambda>_. retIO ()) demo_loop (Some cfg) cluster_state = (Inr (), k)"
    by (metis run_unit)
  with cfg assms(2,3) show ?thesis by (simp add: processAndApply_def demo_loop_fields)
qed

lemma demo_outcome:
  assumes "demo_iter st = (out, s')"
  shows "st = 200 \<Longrightarrow> out = Applied [] ''config''" and "st = 404 \<Longrightarrow> out = Applied [] ''{}''"
    and "st = 500 \<Longrightarrow> out = Rejected"
proof -
  have d: "decideChange [] [] [] b h" for b h by (simp add: decideChange_iff)
  have "st = 200 \<and> out = Applied [] ''config'' \<or> st = 404 \<and> out = Applied [] ''{}''
      \<or> st \<notin> {200, 404, 304} \<and> out = Rejected \<or> st = 304"
    using assms
  proof (cases rule: iter_cases)
    case (change etag body status s1 etag' body' r s2)
    from demo_fetched [OF change(1)] have f: "etag = []" "body = ''config''" "status = st" "ks s1 = cluster_state" by simp_all
    with change(2) have b: "body' \<in> {''config'', ''{}''}" by auto
    have "r" using demo_process [OF b _ change(4)] f(4) by simp
    with change(2,5) f show ?thesis by auto
  qed (auto simp: demo_loop_fields d dest!: demo_fetched)
  then show "st = 200 \<Longrightarrow> out = Applied [] ''config''" "st = 404 \<Longrightarrow> out = Applied [] ''{}''"
      "st = 500 \<Longrightarrow> out = Rejected"
    by auto
qed

theorem loop_applied_converges_witness:
  "\<exists>out s'. demo_iter 200 = (Applied [] ''config'', s')
     \<and> http_converged demo_loop cluster_views mem_reflects out (kube cluster_state) (kube (ks s'))"
proof -
  obtain out s' where r: "demo_iter 200 = (out, s')" by fastforce
  with demo_outcome(1) [OF r] loop_applied_converges [OF demo_loop_laws, of 200 demo_start "[]" "''config''" s']
  show ?thesis by (auto simp: demo_loop_fields)
qed

theorem loop_404_removes_witness:
  "\<exists>s'. demo_iter 404 = (Applied [] ''{}'', s') \<and> cluster_views (gvrMiddleware demo_loop) (kube (ks s')) ''old'' = None"
proof -
  let ?g = "gvrMiddleware demo_loop"
  obtain out s' where r: "demo_iter 404 = (out, s')" by fastforce
  with demo_outcome(2) [OF r] have r: "demo_iter 404 = (Applied [] ''{}'', s')" by simp
  obtain s1 where f: "fetched (demo_lib 404) demo_loop demo_start (Inr ([], ''config'', 404)) s1"
    using demo_fetched_ex by blast
  have j: "json_of (demo_lib 404) ''{}'' = RawJSON (IMap [])" by (simp add: demo_loop_fields demo_json_def)
  have m: "managed (c_cfg demo_loop) (demo_object ''old'')"
      "cluster_views ?g (kube (ks demo_start)) ''old'' = Some (demo_object ''old'')"
    by code_simp+
  have "GCGracePeriod (c_cfg demo_loop) \<le> 0" by code_simp
  with loop_404_removes [where views = cluster_views and g = ?g, OF demo_loop_laws j f r, of "''old''"] m r
  show ?thesis by simp
qed

theorem loop_errors_witness:
  "\<exists>s'. demo_iter 500 = (Rejected, s') \<and> consecutiveErrors s' = 1 \<and> (\<exists>s2. s' = sleepWithBackoff (demo_lib 500) demo_loop 1 s2)"
proof -
  obtain out s' where r: "demo_iter 500 = (out, s')" by fastforce
  with demo_outcome(3) [OF r] have r: "demo_iter 500 = (Rejected, s')" by simp
  from loop_errors [OF r] r show ?thesis by (auto simp: demo_loop_fields)
qed

theorem loop_readiness_witness:
  "\<exists>s'. demo_iter 500 = (Rejected, s') \<and> \<not> Ready (demo_lib 500) demo_loop s'"
proof -
  obtain out s' where r: "demo_iter 500 = (out, s')" by fastforce
  with demo_outcome(3) [OF r] have r: "demo_iter 500 = (Rejected, s')" by simp
  have "0 < PollInterval demo_cfg" "PollInterval demo_cfg < 2 ^ 60" by code_simp+
  with loop_readiness [OF r] r show ?thesis by (simp add: good_poll_def demo_loop_fields)
qed

theorem loop_skips_iff_applied_witness:
  "\<exists>s'. demo_iter 200 = (Applied [] ''config'', s') \<and> Applied [] ''config'' \<noteq> NoChange"
proof -
  obtain out s' where r: "demo_iter 200 = (out, s')" by fastforce
  have s: "loop_reach (demo_lib 200) (\<lambda>_. retIO ()) demo_loop demo_start None"
    unfolding demo_start_def by (rule loop_reach_start)
  obtain s1 where f: "fetched (demo_lib 200) demo_loop demo_start (Inr ([], ''config'', 200)) s1"
    using demo_fetched_ex by blast
  from loop_skips_iff_applied [OF s r f] demo_outcome(1) [OF r] r show ?thesis by auto
qed

theorem runLoop_returns_iff_witness:
  "\<exists>s'. runLoop ((demo_lib 200)\<lparr>ctx_done := \<lambda>_. True\<rparr>) (\<lambda>_. retIO ()) demo_loop demo_start = Some s'"
  by (subst runLoop_returns_iff) (intro exI [of _ demo_start] exI [of _ 0], simp)

end
