(* ===== verification/Redact.thy ===== *)
theory Redact
  imports Loop
begin

text \<open>
  The configuration preview of the log: \<^verbatim>\<open>internal/observability/logging/redact.go\<close> and
  \<open>logFetchedBodyIfEnabled\<close> of \<^verbatim>\<open>internal/controller/loop.go\<close>; and the warning of \<open>ApplySingle\<close>
  (\<^verbatim>\<open>internal/apply/ingressroute.go\<close>) about an object without a name.

  Redaction works on the decoded document. It writes into the maps and slices it walks, which nothing
  else refers to, so the functions here return the new value. The text \<open>encoding/json\<close> prints for a
  document is a parameter.

  Shown: redaction hides exactly the values under sensitive keys, so two bodies that differ only in
  such values have the same preview, and the preview is within its limit.
\<close>

section \<open>Redaction\<close>

definition sensitiveSubstrings :: "string list" where
  "sensitiveSubstrings = [''auth'', ''pass'', ''secret'', ''token'', ''key'']"

definition redacted :: string where
  "redacted = ''***redacted***''"

definition containsSensitive :: "string \<Rightarrow> bool" where
  "containsSensitive key = (let lk = ToLower key in list_ex (\<lambda>sub. Contains lk sub) sensitiveSubstrings)"

fun redactAny :: "iface \<Rightarrow> iface" and redactMap :: "obj \<Rightarrow> obj" and redactSlice :: "iface list \<Rightarrow> iface list" where
  "redactAny (IMap m) = IMap (redactMap m)"
| "redactAny (ISlice t) = ISlice (redactSlice t)"
| "redactAny v = v"
| "redactMap [] = []"
| "redactMap ((k, val) # m) = (k, if containsSensitive k then IStr redacted else redactAny val) # redactMap m"
| "redactSlice [] = []"
| "redactSlice (v # t) = redactAny v # redactSlice t"

definition RedactJSONLike :: "raw_message \<Rightarrow> raw_message result" where
  "RedactJSONLike raw =
     (case raw of
        RawText _ \<Rightarrow> Inl (ErrMsg ''json: syntax error'')
      | RawJSON v \<Rightarrow> Marshal (redactAny v))"

section \<open>The log line\<close>

text \<open>What the line says of the body; the preview is the text before quoting.\<close>

record fetch_log =
  log_len :: int
  log_sha :: string
  log_etag :: string
  log_preview :: "string option"

definition logFetchedBodyIfEnabled ::
  "(string \<Rightarrow> raw_message) \<Rightarrow> (raw_message \<Rightarrow> string) \<Rightarrow> Config \<Rightarrow> string \<Rightarrow> string \<Rightarrow> fetch_log option" where
  "logFetchedBodyIfEnabled json text cfg body etag =
     (if \<not> ShouldLogConfigPreview (Some cfg) then None
      else
        let sha = computeHash body;
            limit = MaxConfigLogBytes cfg;
            src = (if body \<noteq> [] then (case RedactJSONLike (json body) of Inr red \<Rightarrow> text red | Inl _ \<Rightarrow> []) else []) in
        if limit \<le> 0 \<or> src = [] then
          Some \<lparr>log_len = int (length body), log_sha = sha, log_etag = etag, log_preview = None\<rparr>
        else
          let limit = (if limit > int (length src) then int (length src) else limit);
              preview = take (nat limit) src;
              preview = (if limit < int (length src) then preview @ ''...<truncated>'' else preview) in
          Some \<lparr>log_len = int (length body), log_sha = sha, log_etag = etag, log_preview = Some preview\<rparr>)"

text \<open>
  The warning of \<open>ApplySingle\<close> (\<^verbatim>\<open>internal/apply/ingressroute.go\<close>) about an object without a name. A failed
  assertion and a nil map both give no metadata.
\<close>

definition redactMapForLog :: "obj option \<Rightarrow> raw_message option" where
  "redactMapForLog m =
     (case m of
        None \<Rightarrow> None
      | Some m \<Rightarrow>
          (case Marshal (IMap m) of
             Inl _ \<Rightarrow> None
           | Inr b \<Rightarrow> (case RedactJSONLike b of Inl _ \<Rightarrow> None | Inr r \<Rightarrow> Some r)))"

record malformed_log =
  ml_kind :: string
  ml_namespace :: string
  ml_metadata :: "raw_message option"
  ml_message :: string

definition logApplySingleMalformedInput :: "string \<Rightarrow> obj \<Rightarrow> obj option \<Rightarrow> malformed_log" where
  "logApplySingleMalformedInput kind input metaIn =
     (case metaIn of
        None \<Rightarrow>
          \<lparr>ml_kind = kind, ml_namespace = [], ml_metadata = redactMapForLog (Some input),
           ml_message = ''ApplySingle: missing metadata''\<rparr>
      | Some mt \<Rightarrow>
          \<lparr>ml_kind = kind, ml_namespace = str_or_empty (map_get mt ''namespace''), ml_metadata = redactMapForLog (Some mt),
           ml_message = ''ApplySingle: missing name in metadata''\<rparr>)"

fun meta_in :: "iface \<Rightarrow> obj option" where
  "meta_in (IMap mt) = Some mt"
| "meta_in v = None"

definition ApplySingle_log :: "obj \<Rightarrow> string \<Rightarrow> malformed_log option" where
  "ApplySingle_log m kind =
     (if single_name m = [] then Some (logApplySingleMalformedInput kind m (meta_in (map_get m ''metadata''))) else None)"

section \<open>What is hidden\<close>

text \<open>Two values that agree but for what is under sensitive keys.\<close>

inductive public_eq :: "iface \<Rightarrow> iface \<Rightarrow> bool" where
  same: "public_eq v v"
| slices: "list_all2 public_eq t t' \<Longrightarrow> public_eq (ISlice t) (ISlice t')"
| maps: "list_all2 (\<lambda>p q. fst p = fst q \<and> (containsSensitive (fst p) \<or> public_eq (snd p) (snd q))) m m'
    \<Longrightarrow> public_eq (IMap m) (IMap m')"
monos list.rel_mono_strong

lemma redactSlice_map: "redactSlice t = map redactAny t"
  by (induction t) auto

definition redact_entry :: "string \<times> iface \<Rightarrow> string \<times> iface" where
  "redact_entry p = (fst p, if containsSensitive (fst p) then IStr redacted else redactAny (snd p))"

lemma redactMap_map: "redactMap m = map redact_entry m"
  by (induction m) (auto simp: redact_entry_def)

lemma redact_public_eq: "public_eq v v' \<Longrightarrow> redactAny v = redactAny v'"
proof (induction rule: public_eq.induct)
  case (slices t t')
  have "list_all2 (\<lambda>x y. redactAny x = redactAny y) t t'" by (rule list_all2_mono [OF slices.IH]) simp
  then show ?case by (simp add: redactSlice_map list_all2_conv_all_nth list_eq_iff_nth_eq)
next
  case (maps m m')
  have "list_all2 (\<lambda>p q. redact_entry p = redact_entry q) m m'"
    by (rule list_all2_mono [OF maps.IH]) (auto simp: redact_entry_def)
  then show ?case by (simp add: redactMap_map list_all2_conv_all_nth list_eq_iff_nth_eq)
qed simp

lemma redact_inverses:
  "IMap m = redactAny v \<Longrightarrow> \<exists>n. v = IMap n \<and> m = redactMap n"
  "ISlice t = redactAny v \<Longrightarrow> \<exists>u. v = ISlice u \<and> t = redactSlice u"
  by (cases v; simp)+

lemma redact_leaf:
  assumes "redactAny w = redactAny v" and "\<And>m. w \<noteq> IMap m" and "\<And>t. w \<noteq> ISlice t"
  shows "public_eq w v"
proof -
  have "redactAny w = w" using assms(2,3) by (cases w) auto
  with assms show ?thesis by (cases v) (auto intro: public_eq.same)
qed

lemma redact_public_eq_conv: "redactAny v = redactAny v' \<Longrightarrow> public_eq v v'"
proof (induction v arbitrary: v')
  case (ISlice t)
  then obtain t' where t': "v' = ISlice t'" "redactSlice t = redactSlice t'"
    using redact_inverses(2) by (metis iface.inject(15) redactAny.simps(2))
  have "list_all2 (\<lambda>x y. redactAny x = redactAny y) t t'"
    using t'(2) by (simp add: redactSlice_map list_all2_conv_all_nth list_eq_iff_nth_eq)
  with ISlice.IH have "list_all2 public_eq t t'"
    by (auto intro: list_all2_mono simp: list_all2_conv_all_nth)
  with t'(1) show ?case by (auto intro: public_eq.slices)
next
  case (IMap m)
  then obtain m' where m': "v' = IMap m'" "redactMap m = redactMap m'"
    using redact_inverses(1) by (metis iface.inject(17) redactAny.simps(1))
  have "list_all2 (\<lambda>p q. redact_entry p = redact_entry q) m m'"
    using m'(2) by (simp add: redactMap_map list_all2_conv_all_nth list_eq_iff_nth_eq)
  moreover have "fst p = fst q \<and> (containsSensitive (fst p) \<or> public_eq (snd p) (snd q))"
    if "p \<in> set m" "redact_entry p = redact_entry q" for p q
    using that IMap.IH [OF that(1), of "snd p" "snd q"] snds.intros [of p]
    by (cases p) (auto simp: redact_entry_def split: if_splits)
  ultimately have "list_all2 (\<lambda>p q. fst p = fst q \<and> (containsSensitive (fst p) \<or> public_eq (snd p) (snd q))) m m'"
    unfolding list_all2_conv_all_nth by (metis nth_mem)
  with m'(1) show ?case by (auto intro: public_eq.maps)
qed (erule redact_leaf; simp)+

text \<open>
  C13. Redaction hides exactly the values under sensitive keys: two documents have the same redacted
  form if and only if they agree but for such values, at any depth. So no such value can be read
  from the redacted document, and nothing else is lost.
\<close>

theorem redactAny_hides_exactly: "redactAny v = redactAny v' \<longleftrightarrow> public_eq v v'"
  using redact_public_eq redact_public_eq_conv by blast

lemma RedactJSONLike_public_eq: "public_eq v v' \<Longrightarrow> RedactJSONLike (RawJSON v) = RedactJSONLike (RawJSON v')"
  by (simp add: RedactJSONLike_def redact_public_eq)

text \<open>
  C12. The log does not leak: for two bodies whose documents agree but for values under sensitive
  keys, the logged previews are the same, and a preview is at most the configured number of bytes of
  the redacted document, with a mark when it was cut. A body that is not JSON has no preview.
\<close>

theorem logFetchedBody_no_leak:
  assumes "body \<noteq> []" and "body' \<noteq> []"
    and "json body = RawJSON v" and "json body' = RawJSON v'" and "public_eq v v'"
  shows "map_option log_preview (logFetchedBodyIfEnabled json text cfg body etag)
      = map_option log_preview (logFetchedBodyIfEnabled json text cfg body' etag')
    \<and> (\<forall>l p. logFetchedBodyIfEnabled json text cfg body etag = Some l \<longrightarrow> log_preview l = Some p \<longrightarrow>
        (\<exists>red. RedactJSONLike (RawJSON v) = Inr red
          \<and> p = take (nat (MaxConfigLogBytes cfg)) (text red)
              @ (if MaxConfigLogBytes cfg < int (length (text red)) then ''...<truncated>'' else [])))"
  using assms RedactJSONLike_public_eq [OF assms(5)]
  by (auto simp: logFetchedBodyIfEnabled_def Let_def split: sum.splits if_splits)

lemma logFetchedBody_not_json:
  "json body = RawText t \<Longrightarrow> logFetchedBodyIfEnabled json text cfg body etag = Some l \<Longrightarrow> log_preview l = None"
  by (auto simp: logFetchedBodyIfEnabled_def RedactJSONLike_def Let_def split: if_splits)

section \<open>The warning about an object without a name\<close>

lemma map_insort_key: "(\<And>y. f (g y) = f y) \<Longrightarrow> map g (insort_key f x xs) = insort_key f (g x) (map g xs)"
  by (induction xs) auto

lemma map_sort_key: "(\<And>y. f (g y) = f y) \<Longrightarrow> map g (sort_key f xs) = sort_key f (map g xs)"
  by (induction xs) (simp_all add: map_insort_key)

lemma redact_norm: "redactAny (json_norm v) = json_norm (redactAny v)"
proof (induction v)
  case (IMap m)
  have "redact_entry (map_prod id json_norm p) = map_prod id json_norm (redact_entry p)" if "p \<in> set m" for p
    using IMap that by (cases p) (auto simp: redact_entry_def)
  then have "map (redact_entry \<circ> map_prod id json_norm) m = map (map_prod id json_norm \<circ> redact_entry) m"
    by (intro map_cong) simp_all
  then have "sort_key fst (map (redact_entry \<circ> map_prod id json_norm) m)
      = sort_key fst (map (map_prod id json_norm \<circ> redact_entry) m)" by (rule arg_cong)
  moreover have "fst (redact_entry p) = fst p" for p by (simp add: redact_entry_def)
  ultimately show ?case by (simp only: json_norm_IMap redactAny.simps redactMap_map norm_map_def map_sort_key map_map)
qed (simp_all add: redactSlice_map)

lemma go_get_redactMap:
  "go_get (redactMap m) k = map_option (\<lambda>v. if containsSensitive k then IStr redacted else redactAny v) (go_get m k)"
  by (induction m) (auto simp: gomap_simps)

lemma redactMap_get:
  assumes "redactMap m = redactMap m'" and "\<not> containsSensitive k"
  shows "redactAny (map_get m k) = redactAny (map_get m' k)"
proof -
  have "map_option redactAny (go_get m k) = map_option redactAny (go_get m' k)"
    using go_get_redactMap [of m k] go_get_redactMap [of m' k] assms by simp
  then show ?thesis by (auto simp: map_get_def split: option.splits)
qed

lemma redactMapForLog_eq:
  assumes "redactMap m = redactMap m'" and "marshalable (IMap m)" and "marshalable (IMap m')"
  shows "redactMapForLog (Some m) = redactMapForLog (Some m')"
proof -
  have "redactAny (json_norm (IMap m)) = redactAny (json_norm (IMap m'))"
    unfolding redact_norm by (simp add: assms(1))
  with assms(2,3) show ?thesis by (simp add: redactMapForLog_def Marshal_def RedactJSONLike_def)
qed

lemma public_fields:
  "\<not> containsSensitive ''metadata''" "\<not> containsSensitive ''namespace''" "\<not> containsSensitive ''name''"
  by code_simp+

lemma meta_in_redact: "redactAny v = redactAny v' \<Longrightarrow> map_option redactMap (meta_in v) = map_option redactMap (meta_in v')"
  by (cases v; cases v') auto

lemma str_redact: "redactAny v = redactAny v' \<Longrightarrow> str_or_empty v = str_or_empty v'"
  by (cases v; cases v') (auto simp: str_or_empty_def)

lemma single_name_meta_in:
  "single_name m = (case meta_in (map_get m ''metadata'') of None \<Rightarrow> [] | Some mt \<Rightarrow> str_or_empty (map_get mt ''name''))"
  by (cases "map_get m ''metadata''") (auto simp: single_name_def of_nil_def str_or_empty_def map_get_def)

lemma marshalable_meta_in: "marshalable (IMap m) \<Longrightarrow> meta_in (map_get m k) = Some mt \<Longrightarrow> marshalable (IMap mt)"
  by (cases "map_get m k") (fastforce simp: map_get_def split: option.splits dest!: go_get_in_set)+

text \<open>
  The warning about an object without a name does not leak either: two objects that can be encoded and agree but for
  values under sensitive keys cause the same warning, with the same namespace and the same metadata.
\<close>

theorem ApplySingle_log_no_leak:
  assumes "public_eq (IMap m) (IMap m')" and "marshalable (IMap m)" and "marshalable (IMap m')"
  shows "ApplySingle_log m kind = ApplySingle_log m' kind"
proof -
  have r: "redactMap m = redactMap m'" using redact_public_eq [OF assms(1)] by simp
  let ?meta = "\<lambda>m. meta_in (map_get m ''metadata'')"
  have q: "map_option redactMap (?meta m) = map_option redactMap (?meta m')"
    by (rule meta_in_redact) (rule redactMap_get [OF r public_fields(1)])
  show ?thesis
  proof (cases "?meta m")
    case None
    with q redactMapForLog_eq [OF r assms(2,3)] show ?thesis
      by (simp add: ApplySingle_log_def single_name_meta_in logApplySingleMalformedInput_def)
  next
    case (Some mt)
    with q obtain mt' where mt': "?meta m' = Some mt'" "redactMap mt = redactMap mt'" by (cases "?meta m'") auto
    have "str_or_empty (map_get mt k) = str_or_empty (map_get mt' k)" if "\<not> containsSensitive k" for k
      by (rule str_redact) (rule redactMap_get [OF mt'(2) that])
    moreover have "redactMapForLog (Some mt) = redactMapForLog (Some mt')"
      using assms(2,3) Some mt' by (blast intro: redactMapForLog_eq marshalable_meta_in)
    ultimately show ?thesis
      using Some mt'(1) public_fields
      by (simp add: ApplySingle_log_def single_name_meta_in logApplySingleMalformedInput_def)
  qed
qed

section \<open>Witnesses\<close>

definition demo_doc :: "string \<Rightarrow> iface" where
  "demo_doc pw = IMap [(''http'', IMap [(''basicAuth'', IMap [(''users'', ISlice [IStr pw])]), (''rule'', IStr ''x'')])]"

lemma demo_doc_public_eq: "public_eq (demo_doc a) (demo_doc b)"
proof -
  have "containsSensitive ''basicAuth''" by code_simp
  then show ?thesis by (auto simp: demo_doc_def intro!: public_eq.maps public_eq.same)
qed

definition demo_nameless :: "string \<Rightarrow> obj" where
  "demo_nameless pw = [(''metadata'', IMap [(''namespace'', IStr ''ns''), (''apiToken'', IStr pw)])]"

theorem ApplySingle_log_no_leak_witness:
  "ApplySingle_log (demo_nameless ''hunter2'') ''Middleware'' = ApplySingle_log (demo_nameless ''letmein'') ''Middleware''
   \<and> map_option ml_namespace (ApplySingle_log (demo_nameless ''hunter2'') ''Middleware'') = Some ''ns''"
proof
  have "containsSensitive ''apiToken''" by code_simp
  then have "public_eq (IMap (demo_nameless ''hunter2'')) (IMap (demo_nameless ''letmein''))"
    by (auto simp: demo_nameless_def intro!: public_eq.maps public_eq.same)
  then show "ApplySingle_log (demo_nameless ''hunter2'') ''Middleware'' = ApplySingle_log (demo_nameless ''letmein'') ''Middleware''"
    by (rule ApplySingle_log_no_leak) (simp_all add: demo_nameless_def)
  show "map_option ml_namespace (ApplySingle_log (demo_nameless ''hunter2'') ''Middleware'') = Some ''ns''"
    by code_simp
qed

text \<open>The documents with the passwords \<open>hunter2\<close> and \<open>letmein\<close> have one preview.\<close>

theorem logFetchedBody_no_leak_witness:
  "map_option log_preview (logFetchedBodyIfEnabled (\<lambda>b. RawJSON (demo_doc b))
      (\<lambda>r. if r = RawJSON (IMap [(''http'', IMap [(''basicAuth'', IStr ''***redacted***''), (''rule'', IStr ''x'')])])
            then ''{redacted}'' else ''{}'')
      ((newDefaults example_host)\<lparr>LogConfigPreview := True, MaxConfigLogBytes := 4\<rparr>) ''hunter2'' [])
   = Some (Some ''{red...<truncated>'')"
proof -
  let ?text = "\<lambda>r. if r = RawJSON (IMap [(''http'', IMap [(''basicAuth'', IStr ''***redacted***''), (''rule'', IStr ''x'')])])
            then ''{redacted}'' else ''{}''"
  let ?log = "\<lambda>b. map_option log_preview (logFetchedBodyIfEnabled (\<lambda>b. RawJSON (demo_doc b)) ?text
      ((newDefaults example_host)\<lparr>LogConfigPreview := True, MaxConfigLogBytes := 4\<rparr>) b [])"
  have "?log ''hunter2'' = ?log ''letmein''"
    by (rule logFetchedBody_no_leak [THEN conjunct1]) (auto simp: demo_doc_public_eq)
  moreover have "RedactJSONLike (RawJSON (demo_doc ''letmein'')) =
      Inr (RawJSON (IMap [(''http'', IMap [(''basicAuth'', IStr ''***redacted***''), (''rule'', IStr ''x'')])]))"
    by code_simp
  then have "?log ''letmein'' = Some (Some ''{red...<truncated>'')"
    by (simp add: logFetchedBodyIfEnabled_def ShouldLogConfigPreview_def Let_def)
  ultimately show ?thesis by simp
qed

end
