(* ===== verification/Iteration.thy ===== *)
theory Iteration
  imports Prelude
begin

text \<open>
  Loops that may run for ever. \<open>iterate\<close> repeats a step that either returns (\<open>Inl\<close>) or goes on in a
  new state (\<open>Inr\<close>); \<open>None\<close> means that the loop never returns. \<open>iterate_Some_iff\<close> says when it
  returns, and with what.
\<close>

partial_function (option) iterate :: "('s \<Rightarrow> 'r + 's) \<Rightarrow> 's \<Rightarrow> 'r option" where
  "iterate step s = (case step s of Inl r \<Rightarrow> Some r | Inr s' \<Rightarrow> iterate step s')"

abbreviation goes_on :: "('s \<Rightarrow> 'r + 's) \<Rightarrow> 's \<Rightarrow> 's \<Rightarrow> bool" where
  "goes_on step s s' \<equiv> step s = Inr s'"

lemma iterate_returns:
  "(goes_on step)\<^sup>*\<^sup>* s t \<Longrightarrow> step t = Inl r \<Longrightarrow> iterate step s = Some r"
  by (induction rule: converse_rtranclp_induct) (simp_all add: iterate.simps)

lemma iterate_reaches:
  "iterate step s = Some r \<Longrightarrow> \<exists>t. (goes_on step)\<^sup>*\<^sup>* s t \<and> step t = Inl r"
proof (induction rule: iterate.raw_induct [rotated 1, consumes 1, case_names round])
  case (round rec step s r)
  show ?case
  proof (cases "step s")
    case (Inr s')
    with round obtain t where "(goes_on step)\<^sup>*\<^sup>* s' t" "step t = Inl r" by fastforce
    with Inr show ?thesis by (blast intro: converse_rtranclp_into_rtranclp)
  qed (use round in auto)
qed

lemma iterate_Some_iff:
  "iterate step s = Some r \<longleftrightarrow> (\<exists>t. (goes_on step)\<^sup>*\<^sup>* s t \<and> step t = Inl r)"
  using iterate_returns iterate_reaches by metis

text \<open>An invariant of the step holds of what the loop returns.\<close>

lemma iterate_invariant:
  assumes "iterate step s = Some r" and "P s" and "\<And>a b. P a \<Longrightarrow> step a = Inr b \<Longrightarrow> P b"
  shows "\<exists>t. P t \<and> step t = Inl r"
proof -
  from iterate_reaches [OF assms(1)] obtain t where t: "(goes_on step)\<^sup>*\<^sup>* s t" "step t = Inl r" by blast
  from t(1) assms(2) have "P t" by (induction rule: rtranclp_induct) (auto intro: assms(3))
  with t(2) show ?thesis by blast
qed

end
