(* ===== verification/Labels.thy ===== *)
theory Labels
  imports AppConfig Kube Iteration
begin

text \<open>
  The Traefik instance label: \<^verbatim>\<open>internal/kube/labels/resolver.go\<close>.

  Before the controller starts, \<open>ResolveInstanceLabel\<close> takes the label from the settings or detects it
  from the IngressClass; while it runs, \<open>Monitor\<close> checks at intervals that the class still carries it.
  The API client, the timer and the validation rules of \<open>k8s.io/apimachinery\<close> are parameters;
  log lines and metrics are left out.

  Shown: exactly which label is resolved, that what was detected passes the check of the monitor, and
  exactly when the monitor ends with an error.
\<close>

section \<open>Resolving\<close>

definition traefikControllerID :: string where
  "traefikControllerID = ''traefik.io/ingress-controller''"

definition InstanceLabelKey :: string where
  "InstanceLabelKey = ''app.kubernetes.io/instance''"

text \<open>The package \<open>k8s.io/apimachinery/pkg/util/validation\<close>: the problems it finds.\<close>

record label_rules =
  IsQualifiedName :: "string \<Rightarrow> string list"
  IsValidLabelValue :: "string \<Rightarrow> string list"

record IngressClass =
  ic_Name :: string
  ic_Labels :: "string gomap option"
  ic_Controller :: string

record 'w class_client =
  ic_Get :: "string \<Rightarrow> ('w, IngressClass) io"
  ic_List :: "('w, IngressClass list) io"

definition validateKV :: "label_rules \<Rightarrow> string \<Rightarrow> string \<Rightarrow> unit result" where
  "validateKV rules key val =
     (let key = TrimSpace key; val = TrimSpace val in
      if key = [] \<or> val = [] then Inl (ErrMsg ''empty key or value'')
      else if IsQualifiedName rules key \<noteq> [] then Inl (ErrMsg ''invalid label key'')
      else if IsValidLabelValue rules val \<noteq> [] then Inl (ErrMsg ''invalid label value'')
      else Inr ())"

text \<open>The two blocks of \<open>pickPreferredLabel\<close>; \<open>None\<close> falls through to the next.\<close>

definition try_label :: "label_rules \<Rightarrow> string gomap \<Rightarrow> string \<Rightarrow> (string \<times> string) result option" where
  "try_label rules labels k =
     (case go_get labels k of
        None \<Rightarrow> None
      | Some v \<Rightarrow>
          (let vTrim = TrimSpace v in
           if vTrim \<noteq> [] then Some (case validateKV rules k vTrim of Inl err \<Rightarrow> Inl err | Inr _ \<Rightarrow> Inr (k, vTrim))
           else None))"

definition pickPreferredLabel :: "label_rules \<Rightarrow> IngressClass \<Rightarrow> (string \<times> string) result" where
  "pickPreferredLabel rules ic =
     (let labels = of_nil (ic_Labels ic) in
      case try_label rules labels ''app'' of
        Some r \<Rightarrow> r
      | None \<Rightarrow>
          (case try_label rules labels InstanceLabelKey of
             Some r \<Rightarrow> r
           | None \<Rightarrow> Inl (ErrMsg ''preferred labels not found on IngressClass'')))"

definition resolveFromIngressClass ::
  "label_rules \<Rightarrow> 'w class_client \<Rightarrow> string \<Rightarrow> bool \<Rightarrow> ('w, string \<times> string \<times> string) io" where
  "resolveFromIngressClass rules kube ingressClassOpt userProvided =
     (let picked = (\<lambda>ic. case pickPreferredLabel rules ic of
             Inl e \<Rightarrow> failIO (Wrap ''label pick error'' e)
           | Inr (k, v) \<Rightarrow> retIO (k, v, ic_Name ic)) in
      if userProvided then
        caseIO (ic_Get kube ingressClassOpt) (\<lambda>e. failIO (Wrap ''get error'' e)) picked
      else
        caseIO (ic_List kube) (\<lambda>e. failIO (Wrap ''list ingressclasses error'' e)) (\<lambda>items.
          let candidates = filter (\<lambda>ic. ic_Controller ic = traefikControllerID) items in
          case candidates of
            [] \<Rightarrow> failIO (ErrMsg ''no Traefik IngressClass found'')
          | [ic] \<Rightarrow> picked ic
          | _ \<Rightarrow> failIO (ErrMsg ''>1 Traefik IngressClasses found'')))"

text \<open>The settings are updated in place; the result is the updated settings.\<close>

definition ResolveInstanceLabel :: "label_rules \<Rightarrow> 'w class_client \<Rightarrow> Config \<Rightarrow> ('w, Config) io" where
  "ResolveInstanceLabel rules kube cfg =
     (if TraefikInstanceLabelKey cfg \<noteq> [] \<and> TraefikInstanceLabelValue cfg \<noteq> [] then
        (case validateKV rules (TraefikInstanceLabelKey cfg) (TraefikInstanceLabelValue cfg) of
           Inl err \<Rightarrow> failIO (Wrap ''invalid TRAEFIK_INSTANCE_LABEL'' err)
         | Inr _ \<Rightarrow> retIO cfg)
      else
        bindIO (resolveFromIngressClass rules kube (IngressClass cfg) (IngressClassProvided cfg)) (\<lambda>(k, v, icName).
          retIO (cfg\<lparr>TraefikInstanceLabelKey := k, TraefikInstanceLabelValue := v, IngressClass := icName\<rparr>)))"

section \<open>Checking\<close>

definition verifyIngressClassLabel :: "'w class_client \<Rightarrow> Config \<Rightarrow> ('w, unit) io" where
  "verifyIngressClassLabel kube cfg =
     caseIO (ic_Get kube (IngressClass cfg)) (\<lambda>err. failIO (Wrap ''verify failed'' err)) (\<lambda>ic.
       let actual = get_str (of_nil (ic_Labels ic)) (TraefikInstanceLabelKey cfg) in
       if TrimSpace actual \<noteq> TrimSpace (TraefikInstanceLabelValue cfg)
       then failIO (ErrMsg (''verify mismatch: '' @ TraefikInstanceLabelKey cfg))
       else retIO ())"

text \<open>One round of the monitor: the ticker or the end of the context, then the check.\<close>

definition monitor_interval :: "Config \<Rightarrow> int" where
  "monitor_interval cfg =
     (if IngressClassLabelVerifyInterval cfg \<le> 0 then 3 * Hour else IngressClassLabelVerifyInterval cfg)"

definition monitor_round ::
  "'w class_client \<Rightarrow> (int \<Rightarrow> 'w \<Rightarrow> bool \<times> 'w) \<Rightarrow> Config \<Rightarrow> 'w \<Rightarrow> unit result \<times> 'w + 'w" where
  "monitor_round kube tick cfg w =
     (case tick (monitor_interval cfg) w of
        (False, w) \<Rightarrow> Inl (Inr (), w)
      | (True, w) \<Rightarrow>
          (case verifyIngressClassLabel kube cfg w of
             (Inl err, w) \<Rightarrow> if IngressClassLabelStrict cfg then Inl (Inl err, w) else Inr w
           | (Inr _, w) \<Rightarrow> Inr w))"

definition Monitor ::
  "'w class_client \<Rightarrow> (int \<Rightarrow> 'w \<Rightarrow> bool \<times> 'w) \<Rightarrow> Config \<Rightarrow> 'w \<Rightarrow> (unit result \<times> 'w) option" where
  "Monitor kube tick cfg w =
     (if IngressClass cfg = [] \<or> TraefikInstanceLabelKey cfg = [] then Some (Inr (), w)
      else iterate (monitor_round kube tick cfg) w)"

section \<open>What is resolved\<close>

text \<open>
  The classes of a cluster, by name. A read changes none of them and may fail. A \<open>Get\<close> that succeeds returns
  the class of that name, and one that fails with \<open>NotFound\<close> says that there is none; a \<open>List\<close> that
  succeeds returns each class once.
\<close>

definition class_laws :: "'w class_client \<Rightarrow> ('w \<Rightarrow> string \<Rightarrow> IngressClass option) \<Rightarrow> bool" where
  "class_laws kube view \<longleftrightarrow>
     (\<forall>w n ic. view w n = Some ic \<longrightarrow> ic_Name ic = n)
   \<and> (\<forall>w n. view (snd (ic_Get kube n w)) = view w
        \<and> (case fst (ic_Get kube n w) of Inr ic \<Rightarrow> view w n = Some ic | Inl e \<Rightarrow> IsNotFound e \<longrightarrow> view w n = None))
   \<and> (\<forall>w. view (snd (ic_List kube w)) = view w
        \<and> (case fst (ic_List kube w) of Inr items \<Rightarrow> distinct items \<and> set items = ran (view w) | Inl _ \<Rightarrow> True))"

lemma class_laws_Get:
  assumes "class_laws kube view"
  shows "view (snd (ic_Get kube n w)) = view w"
    and "fst (ic_Get kube n w) = Inr ic \<Longrightarrow> view w n = Some ic"
    and "fst (ic_Get kube n w) = Inl e \<Longrightarrow> IsNotFound e \<Longrightarrow> view w n = None"
proof -
  have g: "view (snd (ic_Get kube n w)) = view w
      \<and> (case fst (ic_Get kube n w) of Inr ic \<Rightarrow> view w n = Some ic | Inl e \<Rightarrow> IsNotFound e \<longrightarrow> view w n = None)"
    using assms unfolding class_laws_def by blast
  then show "view (snd (ic_Get kube n w)) = view w" "fst (ic_Get kube n w) = Inr ic \<Longrightarrow> view w n = Some ic"
      "fst (ic_Get kube n w) = Inl e \<Longrightarrow> IsNotFound e \<Longrightarrow> view w n = None"
    by auto
qed

lemma class_laws_List:
  assumes "class_laws kube view"
  shows "view (snd (ic_List kube w)) = view w"
    and "fst (ic_List kube w) = Inr items \<Longrightarrow> distinct items \<and> set items = ran (view w)"
proof -
  have g: "view (snd (ic_List kube w)) = view w
      \<and> (case fst (ic_List kube w) of Inr items \<Rightarrow> distinct items \<and> set items = ran (view w) | Inl _ \<Rightarrow> True)"
    using assms unfolding class_laws_def by blast
  then show "view (snd (ic_List kube w)) = view w"
      "fst (ic_List kube w) = Inr items \<Longrightarrow> distinct items \<and> set items = ran (view w)"
    by auto
qed

definition carries_label :: "IngressClass \<Rightarrow> string \<Rightarrow> string \<Rightarrow> bool" where
  "carries_label ic k v \<longleftrightarrow> v \<noteq> [] \<and> (\<exists>x. go_get (of_nil (ic_Labels ic)) k = Some x \<and> TrimSpace x = v)"

definition valid_label :: "label_rules \<Rightarrow> string \<Rightarrow> string \<Rightarrow> bool" where
  "valid_label rules k v \<longleftrightarrow> TrimSpace k \<noteq> [] \<and> TrimSpace v \<noteq> []
     \<and> IsQualifiedName rules (TrimSpace k) = [] \<and> IsValidLabelValue rules (TrimSpace v) = []"

text \<open>The label of a class: \<open>app\<close> before \<open>app.kubernetes.io/instance\<close>.\<close>

definition class_label :: "label_rules \<Rightarrow> IngressClass \<Rightarrow> string \<Rightarrow> string \<Rightarrow> bool" where
  "class_label rules ic k v \<longleftrightarrow> carries_label ic k v \<and> valid_label rules k v
     \<and> (k = ''app'' \<or> k = InstanceLabelKey \<and> (\<forall>u. \<not> carries_label ic ''app'' u))"

lemma validateKV_iff: "validateKV rules k v = Inr () \<longleftrightarrow> valid_label rules k v"
  by (auto simp: validateKV_def valid_label_def Let_def)

lemma try_label_cases:
  assumes "labels = of_nil (ic_Labels ic)"
  shows "try_label rules labels k = None \<longleftrightarrow> (\<forall>u. \<not> carries_label ic k u)"
    and "try_label rules labels k = Some (Inr (k', v)) \<longleftrightarrow> k' = k \<and> carries_label ic k v \<and> valid_label rules k v"
  unfolding validateKV_iff [symmetric] using assms
  by (auto simp: try_label_def carries_label_def Let_def split: option.splits sum.splits)

lemma pickPreferredLabel_iff: "pickPreferredLabel rules ic = Inr (k, v) \<longleftrightarrow> class_label rules ic k v"
proof -
  have "pickPreferredLabel rules ic = Inr (k, v) \<longleftrightarrow>
      try_label rules (of_nil (ic_Labels ic)) ''app'' = Some (Inr (k, v))
      \<or> try_label rules (of_nil (ic_Labels ic)) ''app'' = None
        \<and> try_label rules (of_nil (ic_Labels ic)) InstanceLabelKey = Some (Inr (k, v))"
    by (auto simp: pickPreferredLabel_def Let_def split: option.splits)
  then show ?thesis unfolding try_label_cases [OF refl] by (auto simp: class_label_def)
qed

text \<open>
  The class that is used: the one the user names, or the only one of the Traefik controller.
\<close>

definition chosen_class :: "(string \<Rightarrow> IngressClass option) \<Rightarrow> Config \<Rightarrow> IngressClass \<Rightarrow> bool" where
  "chosen_class classes cfg ic \<longleftrightarrow>
     (if IngressClassProvided cfg then classes (IngressClass cfg) = Some ic
      else {x \<in> ran classes. ic_Controller x = traefikControllerID} = {ic})"

text \<open>The API call that the choice rests on succeeds.\<close>

definition class_read :: "'w class_client \<Rightarrow> Config \<Rightarrow> 'w \<Rightarrow> bool" where
  "class_read kube cfg w \<longleftrightarrow>
     (if IngressClassProvided cfg then \<not> isl (fst (ic_Get kube (IngressClass cfg) w)) else \<not> isl (fst (ic_List kube w)))"

lemma single_filter: "distinct xs \<Longrightarrow> filter P xs = [x] \<longleftrightarrow> {y \<in> set xs. P y} = {x}"
proof
  assume "distinct xs" and e: "{y \<in> set xs. P y} = {x}"
  then have "distinct (filter P xs)" "set (filter P xs) = {x}" by auto
  then show "filter P xs = [x]"
    by (metis distinct_card card.empty card_insert_disjoint empty_iff finite.emptyI length_0_conv length_Suc_conv
        list.set_intros(1) singletonD)
qed (metis list.set(1) list.set(2) set_filter)

lemma resolveFromIngressClass_iff:
  assumes "class_laws kube view"
  shows "fst (resolveFromIngressClass rules kube (IngressClass cfg) (IngressClassProvided cfg) w) = Inr (k, v, n) \<longleftrightarrow>
    class_read kube cfg w \<and> (\<exists>ic. chosen_class (view w) cfg ic \<and> n = ic_Name ic \<and> class_label rules ic k v)"
    and "view (snd (resolveFromIngressClass rules kube (IngressClass cfg) (IngressClassProvided cfg) w)) = view w"
proof -
  let ?r = "resolveFromIngressClass rules kube (IngressClass cfg) (IngressClassProvided cfg) w"
  have "(fst ?r = Inr (k, v, n) \<longleftrightarrow>
      class_read kube cfg w \<and> (\<exists>ic. chosen_class (view w) cfg ic \<and> n = ic_Name ic \<and> class_label rules ic k v))
      \<and> view (snd ?r) = view w"
  proof (cases "IngressClassProvided cfg")
    case True
    obtain x w' where g: "ic_Get kube (IngressClass cfg) w = (x, w')" by fastforce
    with class_laws_Get [OF assms, where n = "IngressClass cfg" and w = w] have "view w' = view w"
        "\<And>ic. x = Inr ic \<Longrightarrow> view w (IngressClass cfg) = Some ic" by simp_all
    with True g show ?thesis
      by (cases x) (auto simp: resolveFromIngressClass_def caseIO_def chosen_class_def class_read_def
          pickPreferredLabel_iff [symmetric] split: sum.splits)
  next
    case False
    obtain x w' where g: "ic_List kube w = (x, w')" by fastforce
    with class_laws_List [OF assms, where w = w] have l: "view w' = view w"
        "\<And>items. x = Inr items \<Longrightarrow> distinct items \<and> set items = ran (view w)" by simp_all
    show ?thesis
    proof (cases x)
      case (Inl e)
      with False g l(1) show ?thesis by (simp add: resolveFromIngressClass_def caseIO_def class_read_def)
    next
      case (Inr items)
      have c: "chosen_class (view w) cfg ic \<longleftrightarrow> filter (\<lambda>ic. ic_Controller ic = traefikControllerID) items = [ic]" for ic
        using False l(2) [OF Inr] by (simp add: chosen_class_def single_filter)
      show ?thesis
      proof (cases "filter (\<lambda>ic. ic_Controller ic = traefikControllerID) items" rule: remdups_adj.cases)
        case (2 ic)
        with False g l(1) Inr show ?thesis
          by (auto simp: resolveFromIngressClass_def caseIO_def c class_read_def pickPreferredLabel_iff [symmetric] split: sum.splits)
      qed (use False g l(1) Inr in \<open>auto simp: resolveFromIngressClass_def caseIO_def c\<close>)
    qed
  qed
  then show "fst ?r = Inr (k, v, n) \<longleftrightarrow>
      class_read kube cfg w \<and> (\<exists>ic. chosen_class (view w) cfg ic \<and> n = ic_Name ic \<and> class_label rules ic k v)"
      and "view (snd ?r) = view w" by simp_all
qed

abbreviation label_configured :: "Config \<Rightarrow> bool" where
  "label_configured cfg \<equiv> TraefikInstanceLabelKey cfg \<noteq> [] \<and> TraefikInstanceLabelValue cfg \<noteq> []"

lemma resolve_iff:
  assumes "class_laws kube view"
  shows "fst (ResolveInstanceLabel rules kube cfg w) = Inr cfg' \<longleftrightarrow>
    (if label_configured cfg
     then cfg' = cfg \<and> valid_label rules (TraefikInstanceLabelKey cfg) (TraefikInstanceLabelValue cfg)
     else class_read kube cfg w \<and> (\<exists>ic k v. chosen_class (view w) cfg ic \<and> class_label rules ic k v
       \<and> cfg' = cfg\<lparr>TraefikInstanceLabelKey := k, TraefikInstanceLabelValue := v, IngressClass := ic_Name ic\<rparr>))"
    and "view (snd (ResolveInstanceLabel rules kube cfg w)) = view w"
proof -
  let ?r = "resolveFromIngressClass rules kube (IngressClass cfg) (IngressClassProvided cfg) w"
  note r = resolveFromIngressClass_iff [OF assms]
  have "fst (bindIO (resolveFromIngressClass rules kube (IngressClass cfg) (IngressClassProvided cfg)) (\<lambda>(k, v, icName).
          retIO (cfg\<lparr>TraefikInstanceLabelKey := k, TraefikInstanceLabelValue := v, IngressClass := icName\<rparr>)) w) = Inr cfg'
      \<longleftrightarrow> (\<exists>k v n. fst ?r = Inr (k, v, n)
            \<and> cfg' = cfg\<lparr>TraefikInstanceLabelKey := k, TraefikInstanceLabelValue := v, IngressClass := n\<rparr>)"
    by (auto simp: bindIO_def caseIO_def split: prod.splits sum.splits)
  then show "fst (ResolveInstanceLabel rules kube cfg w) = Inr cfg' \<longleftrightarrow>
    (if label_configured cfg
     then cfg' = cfg \<and> valid_label rules (TraefikInstanceLabelKey cfg) (TraefikInstanceLabelValue cfg)
     else class_read kube cfg w \<and> (\<exists>ic k v. chosen_class (view w) cfg ic \<and> class_label rules ic k v
       \<and> cfg' = cfg\<lparr>TraefikInstanceLabelKey := k, TraefikInstanceLabelValue := v, IngressClass := ic_Name ic\<rparr>))"
    unfolding r validateKV_iff [symmetric] by (auto simp: ResolveInstanceLabel_def split: sum.splits)
  have "view (snd (bindIO (resolveFromIngressClass rules kube (IngressClass cfg) (IngressClassProvided cfg)) (\<lambda>(k, v, icName).
          retIO (cfg\<lparr>TraefikInstanceLabelKey := k, TraefikInstanceLabelValue := v, IngressClass := icName\<rparr>)) w)) = view (snd ?r)"
    by (auto simp: bindIO_def caseIO_def split: prod.splits sum.splits)
  then show "view (snd (ResolveInstanceLabel rules kube cfg w)) = view w"
    unfolding r(2) by (auto simp: ResolveInstanceLabel_def split: sum.splits)
qed

text \<open>\<open>Get\<close> fails only when there is no class of that name.\<close>

definition gets_succeed :: "'w class_client \<Rightarrow> bool" where
  "gets_succeed kube \<longleftrightarrow> (\<forall>n w e. fst (ic_Get kube n w) = Inl e \<longrightarrow> IsNotFound e)"

lemma verify_iff:
  assumes "class_laws kube view" and "gets_succeed kube"
  shows "fst (verifyIngressClassLabel kube cfg w) = Inr () \<longleftrightarrow>
    (\<exists>ic. view w (IngressClass cfg) = Some ic
      \<and> TrimSpace (get_str (of_nil (ic_Labels ic)) (TraefikInstanceLabelKey cfg)) = TrimSpace (TraefikInstanceLabelValue cfg))"
    and "view (snd (verifyIngressClassLabel kube cfg w)) = view w"
proof -
  obtain x w' where g: "ic_Get kube (IngressClass cfg) w = (x, w')" by fastforce
  note l = class_laws_Get [OF assms(1), where n = "IngressClass cfg" and w = w, unfolded g fst_conv snd_conv]
  have "x = Inl e \<Longrightarrow> view w (IngressClass cfg) = None" for e
    using l(3) assms(2) g unfolding gets_succeed_def by (metis fst_conv)
  with g l(2) show "fst (verifyIngressClassLabel kube cfg w) = Inr () \<longleftrightarrow>
    (\<exists>ic. view w (IngressClass cfg) = Some ic
      \<and> TrimSpace (get_str (of_nil (ic_Labels ic)) (TraefikInstanceLabelKey cfg)) = TrimSpace (TraefikInstanceLabelValue cfg))"
    by (cases x) (auto simp: verifyIngressClassLabel_def caseIO_def Let_def)
  from g l(1) show "view (snd (verifyIngressClassLabel kube cfg w)) = view w"
    by (cases x) (auto simp: verifyIngressClassLabel_def caseIO_def Let_def)
qed

text \<open>
  C19. Exactly which label is resolved, and when resolving fails, whatever calls of the API fail. A label
  from the settings is used as it is, if it is valid. Otherwise the class the user names is used, or, if
  none is named, the only class of the Traefik controller; its label \<open>app\<close> is taken if that is not blank,
  else \<open>app.kubernetes.io/instance\<close>, and it must be valid. In every other case resolving fails, and it
  fails whenever the call that reads the class, or lists the classes, fails.
\<close>

theorem ResolveInstanceLabel_spec:
  assumes "class_laws kube view"
  shows "fst (ResolveInstanceLabel rules kube cfg w) = Inr cfg' \<longleftrightarrow>
    (if label_configured cfg
     then cfg' = cfg \<and> valid_label rules (TraefikInstanceLabelKey cfg) (TraefikInstanceLabelValue cfg)
     else class_read kube cfg w \<and> (\<exists>ic k v. chosen_class (view w) cfg ic \<and> class_label rules ic k v
       \<and> cfg' = cfg\<lparr>TraefikInstanceLabelKey := k, TraefikInstanceLabelValue := v, IngressClass := ic_Name ic\<rparr>))"
  by (rule resolve_iff [OF assms])

section \<open>The monitor\<close>

text \<open>The check passes on what was detected, as long as the classes stay as they are.\<close>

lemma detected_verifies:
  assumes "class_laws kube view" and "fst (ResolveInstanceLabel rules kube cfg w) = Inr cfg'" and "\<not> label_configured cfg"
    and "view w' = view w" and "gets_succeed kube"
  shows "fst (verifyIngressClassLabel kube cfg' w') = Inr ()"
proof -
  from assms(2,3) obtain ic k v where ic: "chosen_class (view w) cfg ic" "class_label rules ic k v"
      "cfg' = cfg\<lparr>TraefikInstanceLabelKey := k, TraefikInstanceLabelValue := v, IngressClass := ic_Name ic\<rparr>"
    unfolding resolve_iff(1) [OF assms(1)] by auto
  have "view w (ic_Name ic) = Some ic"
  proof (cases "IngressClassProvided cfg")
    case False
    with ic(1) have "ic \<in> ran (view w)" by (auto simp: chosen_class_def)
    with assms(1) show ?thesis by (auto simp: ran_def class_laws_def)
  qed (use ic(1) assms(1) in \<open>auto simp: chosen_class_def class_laws_def\<close>)
  moreover have "TrimSpace (get_str (of_nil (ic_Labels ic)) k) = TrimSpace v"
    using ic(2) by (auto simp: class_label_def carries_label_def get_str_def)
  ultimately show ?thesis using ic(3) assms(4) by (simp add: verify_iff(1) [OF assms(1,5)])
qed

text \<open>
  What was detected passes the monitor: as long as nobody changes the IngressClasses and the API
  answers, the monitor never ends with an error, also in strict mode.
\<close>

theorem Monitor_accepts_detected:
  assumes "class_laws kube view" and "ResolveInstanceLabel rules kube cfg w = (Inr cfg', w')" and "\<not> label_configured cfg"
    and "\<And>d v. view (snd (tick d v)) = view v" and "gets_succeed kube"
  shows "Monitor kube tick cfg' w' \<noteq> Some (Inl e, w'')"
proof
  assume "Monitor kube tick cfg' w' = Some (Inl e, w'')"
  then have m: "iterate (monitor_round kube tick cfg') w' = Some (Inl e, w'')"
    by (auto simp: Monitor_def split: if_splits)
  have w': "view w' = view w" using resolve_iff(2) [OF assms(1), of rules cfg w] assms(2) by simp
  have ok: "fst (verifyIngressClassLabel kube cfg' v) = Inr ()" if "view v = view w" for v
    using detected_verifies [OF assms(1) _ assms(3) that assms(5), of rules cfg'] assms(2) by simp
  have step: "(\<forall>u. monitor_round kube tick cfg' v \<noteq> Inl (Inl e, u)) \<and> (\<forall>u. monitor_round kube tick cfg' v = Inr u \<longrightarrow> view u = view w)"
    if v: "view v = view w" for v
  proof -
    obtain b v1 where t: "tick (monitor_interval cfg') v = (b, v1)" by fastforce
    with assms(4) [of "monitor_interval cfg'" v] v have "view v1 = view w" by simp
    with ok [OF this] verify_iff(2) [OF assms(1,5), of cfg' v1] t show ?thesis
      by (auto simp: monitor_round_def split: bool.split prod.split sum.split)
  qed
  obtain t where "view t = view w" "monitor_round kube tick cfg' t = Inl (Inl e, w'')"
    using iterate_invariant [OF m, of "\<lambda>v. view v = view w"] w' step by blast
  with step show False by blast
qed

text \<open>A round of the monitor that goes on: the ticker fired and the check passed, or does not matter.\<close>

definition monitor_goes_on ::
  "'w class_client \<Rightarrow> (int \<Rightarrow> 'w \<Rightarrow> bool \<times> 'w) \<Rightarrow> Config \<Rightarrow> 'w \<Rightarrow> 'w \<Rightarrow> bool" where
  "monitor_goes_on kube tick cfg v v' \<longleftrightarrow>
     (\<exists>v1 r. tick (monitor_interval cfg) v = (True, v1) \<and> verifyIngressClassLabel kube cfg v1 = (r, v')
        \<and> (r = Inr () \<or> \<not> IngressClassLabelStrict cfg))"

lemma monitor_round_cases:
  "goes_on (monitor_round kube tick cfg) = monitor_goes_on kube tick cfg"
  "monitor_round kube tick cfg v = Inl (Inl e, w) \<longleftrightarrow>
     IngressClassLabelStrict cfg
     \<and> (\<exists>v1. tick (monitor_interval cfg) v = (True, v1) \<and> verifyIngressClassLabel kube cfg v1 = (Inl e, w))"
  by (auto simp: fun_eq_iff monitor_goes_on_def monitor_round_def split: bool.splits prod.splits sum.splits if_splits)

text \<open>
  C20. The monitor ends with an error exactly when it is strict and the check fails at one of its
  ticks, after rounds that passed; there is nothing to check without a class and a label key.
\<close>

theorem Monitor_error_iff:
  "Monitor kube tick cfg w = Some (Inl e, w') \<longleftrightarrow>
     IngressClass cfg \<noteq> [] \<and> TraefikInstanceLabelKey cfg \<noteq> [] \<and> IngressClassLabelStrict cfg
     \<and> (\<exists>v v1. (monitor_goes_on kube tick cfg)\<^sup>*\<^sup>* w v \<and> tick (monitor_interval cfg) v = (True, v1)
          \<and> verifyIngressClassLabel kube cfg v1 = (Inl e, w'))"
  by (auto simp: Monitor_def iterate_Some_iff monitor_round_cases)

section \<open>Witnesses\<close>

text \<open>A cluster in memory.\<close>

definition mem_classes :: "IngressClass list class_client" where
  "mem_classes = \<lparr>
     ic_Get = (\<lambda>n w. case find (\<lambda>ic. ic_Name ic = n) w of None \<Rightarrow> (Inl (KubeErr NotFound n), w) | Some ic \<Rightarrow> (Inr ic, w)),
     ic_List = (\<lambda>w. (Inr (remdups (filter (\<lambda>ic. find (\<lambda>x. ic_Name x = ic_Name ic) w = Some ic) w)), w))\<rparr>"

definition mem_class :: "IngressClass list \<Rightarrow> string \<Rightarrow> IngressClass option" where
  "mem_class w n = find (\<lambda>ic. ic_Name ic = n) w"

lemma mem_class_laws: "class_laws mem_classes mem_class"
proof -
  have "ran (mem_class w) = set (filter (\<lambda>ic. find (\<lambda>x. ic_Name x = ic_Name ic) w = Some ic) w)" for w
    by (fastforce simp: ran_def mem_class_def find_Some_iff)
  then show ?thesis
    by (auto simp: class_laws_def mem_classes_def mem_class_def find_Some_iff split: option.split)
qed

lemma mem_gets_succeed: "gets_succeed mem_classes"
  by (auto simp: gets_succeed_def mem_classes_def IsNotFound_def split: option.splits)

definition any_rules :: label_rules where
  "any_rules = \<lparr>IsQualifiedName = (\<lambda>_. []), IsValidLabelValue = (\<lambda>_. [])\<rparr>"

definition demo_classes :: "IngressClass list" where
  "demo_classes =
     [\<lparr>ic_Name = ''nginx'', ic_Labels = None, ic_Controller = ''k8s.io/ingress-nginx''\<rparr>,
      \<lparr>ic_Name = ''public'', ic_Labels = Some [(''app'', '' ''), (InstanceLabelKey, '' edge'')],
       ic_Controller = traefikControllerID\<rparr>]"

lemma demo_resolved:
  "ResolveInstanceLabel any_rules mem_classes (newDefaults example_host) demo_classes =
     (Inr ((newDefaults example_host)\<lparr>TraefikInstanceLabelKey := InstanceLabelKey, TraefikInstanceLabelValue := ''edge'',
        IngressClass := ''public''\<rparr>), demo_classes)"
  by code_simp

theorem ResolveInstanceLabel_spec_witness:
  "\<exists>ic. chosen_class (mem_class demo_classes) (newDefaults example_host) ic \<and> class_label any_rules ic InstanceLabelKey ''edge''"
proof -
  have "\<not> label_configured (newDefaults example_host)" by code_simp
  with iffD1 [OF ResolveInstanceLabel_spec [OF mem_class_laws] arg_cong [OF demo_resolved, of fst, unfolded fst_conv]]
  obtain ic k v where "chosen_class (mem_class demo_classes) (newDefaults example_host) ic" "class_label any_rules ic k v"
      "(newDefaults example_host)\<lparr>TraefikInstanceLabelKey := InstanceLabelKey, TraefikInstanceLabelValue := ''edge'',
        IngressClass := ''public''\<rparr> = (newDefaults example_host)\<lparr>TraefikInstanceLabelKey := k, TraefikInstanceLabelValue := v,
        IngressClass := ic_Name ic\<rparr>"
    by auto
  moreover from this(3) have "k = InstanceLabelKey" "v = ''edge''"
    by (auto dest: arg_cong [where f = TraefikInstanceLabelKey] arg_cong [where f = TraefikInstanceLabelValue])
  ultimately show ?thesis by blast
qed

theorem Monitor_accepts_detected_witness:
  "Monitor mem_classes (\<lambda>_ w. (True, w)) ((newDefaults example_host)\<lparr>TraefikInstanceLabelKey := InstanceLabelKey,
     TraefikInstanceLabelValue := ''edge'', IngressClass := ''public''\<rparr>) demo_classes \<noteq> Some (Inl (ErrMsg ''mismatch''), demo_classes)"
proof -
  have "\<not> label_configured (newDefaults example_host)" by code_simp
  from Monitor_accepts_detected [OF mem_class_laws demo_resolved this _ mem_gets_succeed] show ?thesis by simp
qed

end
