(* ===== verification/Certificates.thy ===== *)
theory Certificates
  imports AppConfig Kube
begin

text \<open>
  The certificate endpoint: \<^verbatim>\<open>internal/certificates/certificates.go\<close>.

  The API server's Secrets, the PEM decoder and the X.509 parser are parameters; a parsed certificate
  is known by its common name and its DNS names. Log lines are left out.

  Shown: exactly which certificates are served, in which order and with which fields, and that
  nothing is read or served for a method other than GET and HEAD.
\<close>

section \<open>Model\<close>

definition serviceAccountNamespaceFile :: string where
  "serviceAccountNamespaceFile = ''/var/run/secrets/kubernetes.io/serviceaccount/namespace''"

record CertificateResponse =
  Wildcard :: bool
  AltName :: string
  CertName :: string
  CommonName :: string
  CertFile :: string
  KeyFile :: string

record Secret =
  secret_Type :: string
  secret_Data :: "string gomap"

definition SecretTypeTLS :: string where
  "SecretTypeTLS = ''kubernetes.io/tls''"

record Certificate =
  SubjectCommonName :: string
  DNSNames :: "string list"

record 'w cert_env =
  secret_Get :: "string \<Rightarrow> string \<Rightarrow> ('w, Secret) io"
  pem_Decode :: "string \<Rightarrow> string option"
  x509_ParseCertificate :: "string \<Rightarrow> Certificate result"

definition ControllerNamespace :: "host \<Rightarrow> string \<Rightarrow> string" where
  "ControllerNamespace h fallback =
     (case ReadFile h serviceAccountNamespaceFile of
        None \<Rightarrow> fallback
      | Some b \<Rightarrow> (let ns = TrimSpace b in if ns \<noteq> [] then ns else fallback))"

definition parseCertificate :: "'w cert_env \<Rightarrow> string \<Rightarrow> Certificate result" where
  "parseCertificate env pemData =
     (case pem_Decode env pemData of
        None \<Rightarrow> Inl (ErrMsg ''no PEM block found in tls.crt'')
      | Some block \<Rightarrow> x509_ParseCertificate env block)"

definition firstDNSSAN :: "Certificate \<Rightarrow> string" where
  "firstDNSSAN cert = (if length (DNSNames cert) > 0 then hd (DNSNames cert) else [])"

definition isWildcard :: "Certificate \<Rightarrow> bool" where
  "isWildcard cert =
     (if HasPrefix (SubjectCommonName cert) ''*.'' then True
      else list_ex (\<lambda>san. HasPrefix san ''*.'') (DNSNames cert))"

definition fetchOne :: "'w cert_env \<Rightarrow> string \<Rightarrow> string \<Rightarrow> 'w \<Rightarrow> CertificateResponse option \<times> 'w" where
  "fetchOne env name namespace w =
     (case secret_Get env namespace name w of
        (Inl err, w) \<Rightarrow> (None, w)
      | (Inr secret, w) \<Rightarrow>
          if secret_Type secret \<noteq> SecretTypeTLS then (None, w)
          else case go_get (secret_Data secret) ''tls.crt'' of
            None \<Rightarrow> (None, w)
          | Some certPEM \<Rightarrow>
              if certPEM = [] then (None, w)
              else case go_get (secret_Data secret) ''tls.key'' of
                None \<Rightarrow> (None, w)
              | Some keyPEM \<Rightarrow>
                  if keyPEM = [] then (None, w)
                  else case parseCertificate env certPEM of
                    Inl err \<Rightarrow> (None, w)
                  | Inr cert \<Rightarrow>
                      let commonName = SubjectCommonName cert;
                          altName = firstDNSSAN cert;
                          altName = (if altName = [] then commonName else altName) in
                      (Some \<lparr>Wildcard = isWildcard cert, AltName = altName, CertName = name, CommonName = commonName,
                         CertFile = certPEM, KeyFile = keyPEM\<rparr>, w))"

text \<open>The loop of \<open>FetchAll\<close>, with the results so far.\<close>

fun fetch_loop ::
  "'w cert_env \<Rightarrow> string \<Rightarrow> CertificateSecretRef list \<Rightarrow> CertificateResponse list \<Rightarrow> 'w \<Rightarrow> CertificateResponse list \<times> 'w" where
  "fetch_loop env controllerNamespace [] results w = (results, w)"
| "fetch_loop env controllerNamespace (ref # refs) results w =
     (let ns = (if SecretNamespace ref = [] then controllerNamespace else SecretNamespace ref) in
      case fetchOne env (SecretName ref) ns w of
        (Some resp, w) \<Rightarrow> fetch_loop env controllerNamespace refs (results @ [resp]) w
      | (None, w) \<Rightarrow> fetch_loop env controllerNamespace refs results w)"

definition FetchAll ::
  "'w cert_env \<Rightarrow> CertificateSecretRef list \<Rightarrow> string \<Rightarrow> 'w \<Rightarrow> CertificateResponse list \<times> 'w" where
  "FetchAll env refs controllerNamespace w = fetch_loop env controllerNamespace refs [] w"

text \<open>What the handler writes: an error page, or the JSON array.\<close>

datatype cert_reply = MethodNotAllowed | CertificateJSON "CertificateResponse list"

definition Handler ::
  "'w cert_env \<Rightarrow> CertificateSecretRef list \<Rightarrow> string \<Rightarrow> string \<Rightarrow> 'w \<Rightarrow> cert_reply \<times> 'w" where
  "Handler env refs controllerNamespace verb w =
     (if verb \<noteq> ''GET'' \<and> verb \<noteq> ''HEAD'' then (MethodNotAllowed, w)
      else case FetchAll env refs controllerNamespace w of (certs, w) \<Rightarrow> (CertificateJSON certs, w))"

section \<open>What is served\<close>

text \<open>Reading Secrets changes none of them, and finds them as they are.\<close>

definition secret_laws :: "'w cert_env \<Rightarrow> ('w \<Rightarrow> string \<Rightarrow> string \<Rightarrow> Secret option) \<Rightarrow> bool" where
  "secret_laws env view \<longleftrightarrow>
     (\<forall>w ns n. view (snd (secret_Get env ns n w)) = view w
        \<and> (case fst (secret_Get env ns n w) of Inr s \<Rightarrow> view w ns n = Some s | Inl _ \<Rightarrow> view w ns n = None))"

text \<open>A Secret that can be served, with its certificate, its chain and its key.\<close>

definition servable :: "'w cert_env \<Rightarrow> Secret option \<Rightarrow> Certificate \<Rightarrow> string \<Rightarrow> string \<Rightarrow> bool" where
  "servable env s cert certPEM keyPEM \<longleftrightarrow>
     (\<exists>sec. s = Some sec \<and> secret_Type sec = SecretTypeTLS
        \<and> go_get (secret_Data sec) ''tls.crt'' = Some certPEM \<and> certPEM \<noteq> []
        \<and> go_get (secret_Data sec) ''tls.key'' = Some keyPEM \<and> keyPEM \<noteq> []
        \<and> (\<exists>block. pem_Decode env certPEM = Some block \<and> x509_ParseCertificate env block = Inr cert))"

definition ref_secret :: "(string \<Rightarrow> string \<Rightarrow> Secret option) \<Rightarrow> string \<Rightarrow> CertificateSecretRef \<Rightarrow> Secret option" where
  "ref_secret secrets ns ref = secrets (if SecretNamespace ref = [] then ns else SecretNamespace ref) (SecretName ref)"

text \<open>What is served of it: the names are those of the certificate, the files those of the Secret.\<close>

definition certificate_for :: "'w cert_env \<Rightarrow> Secret option \<Rightarrow> string \<Rightarrow> CertificateResponse \<Rightarrow> bool" where
  "certificate_for env s n r \<longleftrightarrow>
     (\<exists>cert certPEM keyPEM. servable env s cert certPEM keyPEM
        \<and> r = \<lparr>Wildcard = \<exists>d \<in> insert (SubjectCommonName cert) (set (DNSNames cert)). prefix ''*.'' d,
               AltName = (case DNSNames cert of d # _ \<Rightarrow> if d = [] then SubjectCommonName cert else d
                          | [] \<Rightarrow> SubjectCommonName cert),
               CertName = n, CommonName = SubjectCommonName cert, CertFile = certPEM, KeyFile = keyPEM\<rparr>)"

lemma fetchOne_Some:
  assumes "secret_laws env view"
  shows "fst (fetchOne env n ns w) = Some r \<longleftrightarrow>
      certificate_for env (view w ns n) n r"
    and "view (snd (fetchOne env n ns w)) = view w"
proof -
  obtain r0 w1 where g: "secret_Get env ns n w = (r0, w1)" by fastforce
  from assms have "view (snd (secret_Get env ns n w)) = view w
      \<and> (case fst (secret_Get env ns n w) of Inr s \<Rightarrow> view w ns n = Some s | Inl _ \<Rightarrow> view w ns n = None)"
    unfolding secret_laws_def by blast
  with g have v: "view w1 = view w" "case r0 of Inr s \<Rightarrow> view w ns n = Some s | Inl _ \<Rightarrow> view w ns n = None" by simp_all
  show "view (snd (fetchOne env n ns w)) = view w"
    using g v(1) by (auto simp: fetchOne_def Let_def split: sum.split option.split)
  have a: "(let a = firstDNSSAN cert in if a = [] then SubjectCommonName cert else a) =
      (case DNSNames cert of d # _ \<Rightarrow> if d = [] then SubjectCommonName cert else d | [] \<Rightarrow> SubjectCommonName cert)" for cert
    by (auto simp: firstDNSSAN_def Let_def split: list.split)
  have i: "isWildcard cert \<longleftrightarrow> (\<exists>d \<in> insert (SubjectCommonName cert) (set (DNSNames cert)). prefix ''*.'' d)" for cert
    by (auto simp: isWildcard_def HasPrefix_def list_ex_iff)
  show "fst (fetchOne env n ns w) = Some r \<longleftrightarrow>
      certificate_for env (view w ns n) n r"
    unfolding certificate_for_def a [symmetric] i [symmetric] using g v(2)
    by (cases r0) (auto simp: fetchOne_def servable_def parseCertificate_def Let_def split: option.splits sum.splits if_splits)
qed

definition served_ref :: "'w cert_env \<Rightarrow> (string \<Rightarrow> string \<Rightarrow> Secret option) \<Rightarrow> string \<Rightarrow> CertificateSecretRef \<Rightarrow> bool" where
  "served_ref env secrets ns ref \<longleftrightarrow> (\<exists>cert certPEM keyPEM. servable env (ref_secret secrets ns ref) cert certPEM keyPEM)"

lemma served_ref_iff: "served_ref env secrets ns ref \<longleftrightarrow> (\<exists>r. certificate_for env (ref_secret secrets ns ref) (SecretName ref) r)"
  by (auto simp: served_ref_def certificate_for_def)

lemma fetch_loop_spec:
  assumes "secret_laws env view" and "fetch_loop env ns refs results w = (certs, w')"
  shows "view w' = view w \<and> (\<exists>new. certs = results @ new
      \<and> list_all2 (\<lambda>ref r. certificate_for env (ref_secret (view w) ns ref) (SecretName ref) r)
          (filter (served_ref env (view w) ns) refs) new)"
  using assms(2)
proof (induction refs arbitrary: results w)
  case (Cons ref refs)
  obtain o' w1 where f: "fetchOne env (SecretName ref) (if SecretNamespace ref = [] then ns else SecretNamespace ref) w = (o', w1)"
    by fastforce
  note one = fetchOne_Some [OF assms(1), of "SecretName ref" "if SecretNamespace ref = [] then ns else SecretNamespace ref" w,
      unfolded f fst_conv snd_conv, folded ref_secret_def]
  have w1: "view w1 = view w" using one(2) .
  have l: "fetch_loop env ns refs (results @ (case o' of None \<Rightarrow> [] | Some r \<Rightarrow> [r])) w1 = (certs, w')"
    using Cons.prems f by (auto simp: Let_def split: option.splits)
  from Cons.IH [OF l] w1 obtain new where new: "view w' = view w" "certs = results @ (case o' of None \<Rightarrow> [] | Some r \<Rightarrow> [r]) @ new"
      "list_all2 (\<lambda>ref r. certificate_for env (ref_secret (view w) ns ref) (SecretName ref) r)
          (filter (served_ref env (view w) ns) refs) new" by auto
  show ?case
  proof (cases o')
    case None
    with one(1) have "\<not> served_ref env (view w) ns ref" by (simp add: served_ref_iff)
    with None new show ?thesis by simp
  next
    case (Some r)
    with one(1) [of r] have r: "certificate_for env (ref_secret (view w) ns ref) (SecretName ref) r" by simp
    then have "served_ref env (view w) ns ref" unfolding served_ref_iff by blast
    with Some r new show ?thesis by (intro conjI exI [of _ "r # new"]) simp_all
  qed
qed auto

text \<open>
  C28. What the endpoint serves. A GET or HEAD request is answered with one entry for each configured
  reference, in order, whose Secret exists, is of the TLS type and has a non-empty key and a chain that
  parses; other references are skipped and do not stop the rest. An entry has the Secret's bytes, the
  certificate's common name, its first DNS name or else the common name, and is marked as wildcard when
  any of its names is. Secrets are only read. Another method gets an error and reads nothing.
\<close>

theorem Handler_exact:
  assumes "secret_laws env view" and "Handler env refs ns verb w = (reply, w')"
  shows "view w' = view w
    \<and> (if verb \<in> {''GET'', ''HEAD''}
       then \<exists>certs. reply = CertificateJSON certs
         \<and> list_all2 (\<lambda>ref r. certificate_for env (ref_secret (view w) ns ref) (SecretName ref) r)
             (filter (served_ref env (view w) ns) refs) certs
       else reply = MethodNotAllowed \<and> w' = w)"
proof -
  obtain certs w1 where f: "fetch_loop env ns refs [] w = (certs, w1)" by fastforce
  note l = fetch_loop_spec [OF assms(1) f]
  with assms(2) f show ?thesis by (auto simp: Handler_def FetchAll_def split: if_splits)
qed

section \<open>Witness\<close>

definition demo_certs :: "unit cert_env" where
  "demo_certs = \<lparr>
     secret_Get = (\<lambda>ns n w. (if ns = ''pangolin'' \<and> n = ''web''
        then Inr \<lparr>secret_Type = SecretTypeTLS, secret_Data = [(''tls.crt'', ''CERT''), (''tls.key'', ''KEY'')]\<rparr>
        else Inl (KubeErr NotFound n), w)),
     pem_Decode = (\<lambda>s. Some s),
     x509_ParseCertificate = (\<lambda>b. Inr \<lparr>SubjectCommonName = ''example.com'', DNSNames = [''*.example.com'']\<rparr>)\<rparr>"

definition demo_secret :: "unit \<Rightarrow> string \<Rightarrow> string \<Rightarrow> Secret option" where
  "demo_secret w ns n = (if ns = ''pangolin'' \<and> n = ''web''
     then Some \<lparr>secret_Type = SecretTypeTLS, secret_Data = [(''tls.crt'', ''CERT''), (''tls.key'', ''KEY'')]\<rparr> else None)"

theorem Handler_exact_witness:
  "Handler demo_certs [\<lparr>SecretName = ''gone'', SecretNamespace = []\<rparr>, \<lparr>SecretName = ''web'', SecretNamespace = []\<rparr>]
      ''pangolin'' ''GET'' () =
    (CertificateJSON [\<lparr>Wildcard = True, AltName = ''*.example.com'', CertName = ''web'', CommonName = ''example.com'',
       CertFile = ''CERT'', KeyFile = ''KEY''\<rparr>], ())
   \<and> served_ref demo_certs (demo_secret ()) ''pangolin'' \<lparr>SecretName = ''web'', SecretNamespace = []\<rparr>
   \<and> \<not> served_ref demo_certs (demo_secret ()) ''pangolin'' \<lparr>SecretName = ''gone'', SecretNamespace = []\<rparr>"
proof -
  let ?refs = "[\<lparr>SecretName = ''gone'', SecretNamespace = []\<rparr>, \<lparr>SecretName = ''web'', SecretNamespace = []\<rparr>]"
  let ?c = "\<lparr>Wildcard = True, AltName = ''*.example.com'', CertName = ''web'', CommonName = ''example.com'',
       CertFile = ''CERT'', KeyFile = ''KEY''\<rparr>"
  have laws: "secret_laws demo_certs demo_secret" by (simp add: secret_laws_def demo_certs_def demo_secret_def)
  have h: "Handler demo_certs ?refs ''pangolin'' ''GET'' () = (CertificateJSON [?c], ())" by code_simp
  have "\<not> served_ref demo_certs (demo_secret ()) ''pangolin'' \<lparr>SecretName = ''gone'', SecretNamespace = []\<rparr>"
    by (simp add: served_ref_def servable_def ref_secret_def demo_secret_def)
  with Handler_exact [OF laws h] h show ?thesis by (auto split: if_splits)
qed

end
