(* ===== verification/HttpServer.thy ===== *)
theory HttpServer
  imports Redact Certificates
begin

text \<open>
  The HTTP endpoints of the controller (\<^verbatim>\<open>internal/httpserver/routes.go\<close>, \<^verbatim>\<open>server.go\<close>, \<^verbatim>\<open>tls.go\<close>) and the
  probe binary that calls them (\<^verbatim>\<open>cmd/healthcheck/main.go\<close>).

  A \<open>ServeMux\<close> is the list of its patterns; registering a pattern twice panics (\<open>None\<close>). A path in
  clean form is served by the pattern equal to it, else by the longest pattern that ends in a slash
  and is a prefix of it. The state a handler reads is that of the poll loop. What the standard
  library does once it listens is not modelled: \<open>Start\<close> returns how it listens.

  Shown: registration never panics; the probes answer by the readiness function, also when it is set
  after the routes; profiling is never reachable over plaintext unless the settings allow it; and the
  probe binary succeeds exactly when the controller is ready.
\<close>

section \<open>Routes\<close>

datatype handler = HMetrics | HLivez | HReady | HPprof string | HCertificates

type_synonym routes = "(string \<times> handler) list"

definition mux_Handle :: "string \<Rightarrow> handler \<Rightarrow> routes \<Rightarrow> routes option" where
  "mux_Handle pat hdl mux = (if pat \<in> set (map fst mux) then None else Some (mux @ [(pat, hdl)]))"

fun handle_all :: "(string \<times> handler) list \<Rightarrow> routes \<Rightarrow> routes option" where
  "handle_all [] mux = Some mux"
| "handle_all ((pat, hdl) # rest) mux = (case mux_Handle pat hdl mux of None \<Rightarrow> None | Some mux \<Rightarrow> handle_all rest mux)"

definition newServeMux :: "Config \<Rightarrow> bool \<Rightarrow> routes option" where
  "newServeMux cfg metrics =
     handle_all
       ((if metrics then [(''/metrics'', HMetrics)] else [])
        @ (if \<not> DisableLivez cfg then [(''/livez'', HLivez), (''/health/live'', HLivez)] else [])
        @ [(''/healthz'', HReady), (''/readyz'', HReady), (''/health/ready'', HReady)]
        @ (if EnablePprof cfg then
             [(''/debug/pprof/'', HPprof ''index''), (''/debug/pprof/cmdline'', HPprof ''cmdline''),
              (''/debug/pprof/profile'', HPprof ''profile''), (''/debug/pprof/symbol'', HPprof ''symbol''),
              (''/debug/pprof/trace'', HPprof ''trace'')]
           else [])) []"

text \<open>The pattern that serves a path.\<close>

definition subtree :: "string \<Rightarrow> string \<Rightarrow> bool" where
  "subtree pat path \<longleftrightarrow> HasSuffix pat ''/'' \<and> HasPrefix path pat"

definition mux_match :: "routes \<Rightarrow> string \<Rightarrow> handler option" where
  "mux_match mux path =
     (case go_get mux path of
        Some hdl \<Rightarrow> Some hdl
      | None \<Rightarrow>
          (case sort_key (\<lambda>p. - int (length (fst p))) (filter (\<lambda>p. subtree (fst p) path) mux) of
             [] \<Rightarrow> None
           | p # _ \<Rightarrow> Some (snd p)))"

text \<open>\<open>livezHandler\<close> and \<open>readyHandler\<close>: the status and the body.\<close>

definition livezHandler :: "int \<times> string" where
  "livezHandler = (200, ''ok'')"

definition readyHandler :: "('s \<Rightarrow> bool) \<Rightarrow> 's \<Rightarrow> int \<times> string" where
  "readyHandler readiness s = (if readiness s then (200, ''ok'') else (503, ''not ready''))"

definition timeoutOrDefault :: "int \<Rightarrow> int \<Rightarrow> int" where
  "timeoutOrDefault d def' = (if d > 0 then d else def')"

section \<open>The server\<close>

record 's Server =
  sv_cfg :: Config
  srv_Addr :: string
  srv_ReadHeaderTimeout :: int
  sv_mux :: routes
  sv_readiness :: "'s \<Rightarrow> bool"

definition NewServer :: "Config \<Rightarrow> bool \<Rightarrow> 's Server option" where
  "NewServer cfg metrics =
     map_option (\<lambda>mux.
       \<lparr>sv_cfg = cfg, srv_Addr = MetricsAddr cfg,
        srv_ReadHeaderTimeout = timeoutOrDefault (MetricsReadHeaderTimeout cfg) (3 * Second),
        sv_mux = mux, sv_readiness = (\<lambda>_. False)\<rparr>) (newServeMux cfg metrics)"

definition RegisterCertificatesHandler :: "'s Server \<Rightarrow> 's Server option" where
  "RegisterCertificatesHandler s =
     map_option (\<lambda>mux. s\<lparr>sv_mux := mux\<rparr>) (mux_Handle ''/api/v1/certificates'' HCertificates (sv_mux s))"

definition SetReadinessFunc :: "('s \<Rightarrow> bool) option \<Rightarrow> 's Server \<Rightarrow> 's Server" where
  "SetReadinessFunc fn s =
     (case fn of None \<Rightarrow> s\<lparr>sv_readiness := (\<lambda>_. False)\<rparr> | Some f \<Rightarrow> s\<lparr>sv_readiness := f\<rparr>)"

definition computeBindAddr :: "string \<Rightarrow> string" where
  "computeBindAddr addr =
     (if addr = [] then '':9090''
      else if HasPrefix addr '':'' then ''0.0.0.0'' @ addr
      else addr)"

definition checkPprofPlaintextAllowed :: "Config \<Rightarrow> unit result" where
  "checkPprofPlaintextAllowed cfg =
     (if EnablePprof cfg \<and> \<not> MetricsPlaintextOK cfg
      then Inl (ErrMsg ''pprof enabled but TLS is not configured and METRICS_PLAINTEXT_OK=false'')
      else Inr ())"

text \<open>How the server listens: with the certificate and key files, or in plaintext.\<close>

datatype listening = ListenTLS string string | ListenPlain

definition Start :: "'s Server \<Rightarrow> listening result \<times> 's Server" where
  "Start s =
     (let cfg = sv_cfg s in
      if MetricsTLSCertFile cfg \<noteq> [] \<and> MetricsTLSKeyFile cfg \<noteq> []
      then (Inr (ListenTLS (MetricsTLSCertFile cfg) (MetricsTLSKeyFile cfg)), s\<lparr>srv_Addr := MetricsAddr cfg\<rparr>)
      else case checkPprofPlaintextAllowed cfg of
        Inl err \<Rightarrow> (Inl err, s)
      | Inr _ \<Rightarrow> (Inr ListenPlain, s\<lparr>srv_Addr := computeBindAddr (MetricsAddr cfg)\<rparr>))"

text \<open>The same on a listener that is open already, at its address.\<close>

definition Serve :: "string \<Rightarrow> 's Server \<Rightarrow> listening result \<times> 's Server" where
  "Serve addr s =
     (let cfg = sv_cfg s in
      if MetricsTLSCertFile cfg \<noteq> [] \<and> MetricsTLSKeyFile cfg \<noteq> []
      then (Inr (ListenTLS (MetricsTLSCertFile cfg) (MetricsTLSKeyFile cfg)), s\<lparr>srv_Addr := MetricsAddr cfg\<rparr>)
      else case checkPprofPlaintextAllowed cfg of
        Inl err \<Rightarrow> (Inl err, s)
      | Inr _ \<Rightarrow> (Inr ListenPlain, s\<lparr>srv_Addr := addr\<rparr>))"

text \<open>
  What \<open>Shutdown\<close> makes of the result of \<^verbatim>\<open>net/http\<close>: a context that was cancelled or ran out is not
  an error.
\<close>

definition Server_Shutdown :: "(goerr \<Rightarrow> bool) \<Rightarrow> (goerr \<Rightarrow> bool) \<Rightarrow> goerr option \<Rightarrow> goerr option" where
  "Server_Shutdown is_canceled is_deadline r =
     (case r of
        None \<Rightarrow> None
      | Some err \<Rightarrow>
          if is_canceled err \<or> is_deadline err then None else Some (Wrap ''shutdown metrics server'' err))"

text \<open>The reply of the probe endpoints; the other handlers are not served here.\<close>

definition serve_probe :: "'s Server \<Rightarrow> string \<Rightarrow> 's \<Rightarrow> (int \<times> string) option" where
  "serve_probe srv path s =
     (case mux_match (sv_mux srv) path of
        Some HLivez \<Rightarrow> Some livezHandler
      | Some HReady \<Rightarrow> Some (readyHandler (sv_readiness srv) s)
      | _ \<Rightarrow> None)"

section \<open>The probe binary\<close>

definition healthcheck_url :: "host \<Rightarrow> string \<Rightarrow> string" where
  "healthcheck_url h arg =
     (let url = TrimSpace arg in
      if url = [] \<or> \<not> HasPrefix url ''http'' then
        let addr = Getenv h ''METRICS_ADDR'';
            addr = (if addr = [] then '':9090'' else addr);
            addr = (if HasPrefix addr '':'' then ''localhost'' @ addr else addr)
        in ''http://'' @ addr @ ''/health/ready''
      else url)"

text \<open>\<open>main\<close>: the exit code, given what \<open>httpGet\<close> returns.\<close>

definition healthcheck :: "host \<Rightarrow> (string \<Rightarrow> int result) \<Rightarrow> string \<Rightarrow> int" where
  "healthcheck h httpGet arg =
     (case httpGet (healthcheck_url h arg) of
        Inl err \<Rightarrow> 1
      | Inr status \<Rightarrow> if status \<noteq> 200 then 1 else 0)"

section \<open>Properties\<close>

definition all_routes :: "Config \<Rightarrow> bool \<Rightarrow> routes" where
  "all_routes cfg metrics =
     (if metrics then [(''/metrics'', HMetrics)] else [])
     @ (if \<not> DisableLivez cfg then [(''/livez'', HLivez), (''/health/live'', HLivez)] else [])
     @ [(''/healthz'', HReady), (''/readyz'', HReady), (''/health/ready'', HReady)]
     @ (if EnablePprof cfg then
          [(''/debug/pprof/'', HPprof ''index''), (''/debug/pprof/cmdline'', HPprof ''cmdline''),
           (''/debug/pprof/profile'', HPprof ''profile''), (''/debug/pprof/symbol'', HPprof ''symbol''),
           (''/debug/pprof/trace'', HPprof ''trace'')]
        else [])"

lemma handle_all_distinct:
  "distinct (map fst mux @ map fst regs) \<Longrightarrow> handle_all regs mux = Some (mux @ regs)"
  by (induction regs arbitrary: mux) (auto simp: mux_Handle_def)

lemma newServeMux_routes: "newServeMux cfg metrics = Some (all_routes cfg metrics)"
proof -
  have "distinct (map fst (all_routes cfg metrics))"
    by (cases metrics; cases "DisableLivez cfg"; cases "EnablePprof cfg") (simp_all add: all_routes_def)
  with handle_all_distinct [of "[]" "all_routes cfg metrics"] show ?thesis
    by (simp add: newServeMux_def all_routes_def)
qed

lemma NewServer_routes:
  "NewServer cfg metrics = Some \<lparr>sv_cfg = cfg, srv_Addr = MetricsAddr cfg,
     srv_ReadHeaderTimeout = timeoutOrDefault (MetricsReadHeaderTimeout cfg) (3 * Second),
     sv_mux = all_routes cfg metrics, sv_readiness = (\<lambda>_. False)\<rparr>"
  by (simp add: NewServer_def newServeMux_routes)

lemma Register_routes:
  "sv_mux s = all_routes cfg metrics \<Longrightarrow>
   RegisterCertificatesHandler s = Some (s\<lparr>sv_mux := all_routes cfg metrics @ [(''/api/v1/certificates'', HCertificates)]\<rparr>)"
  by (cases metrics; cases "DisableLivez cfg"; cases "EnablePprof cfg")
    (simp_all add: RegisterCertificatesHandler_def mux_Handle_def all_routes_def)

text \<open>Only the profiling index is a subtree, so nothing else is reached but by its exact path.\<close>

lemma mux_match_exact:
  assumes "\<forall>p \<in> set mux. HasSuffix (fst p) ''/'' \<longrightarrow> (\<exists>x. snd p = HPprof x)" and "\<nexists>x. h = HPprof x"
  shows "mux_match mux path = Some h \<longleftrightarrow> go_get mux path = Some h"
proof -
  have "snd p \<noteq> h" if "sort_key (\<lambda>p. - int (length (fst p))) (filter (\<lambda>p. subtree (fst p) path) mux) = p # ps" for p ps
  proof -
    from that have "p \<in> set (filter (\<lambda>p. subtree (fst p) path) mux)" by (metis list.set_intros(1) set_sort)
    with assms show ?thesis by (auto simp: subtree_def)
  qed
  then show ?thesis by (auto simp: mux_match_def split: option.split list.splits)
qed

lemma mux_match_mem: "mux_match mux path = Some h \<Longrightarrow> h \<in> snd ` set mux"
proof -
  have "snd p \<in> snd ` set mux" if "sort_key (\<lambda>p. - int (length (fst p))) (filter (\<lambda>p. subtree (fst p) path) mux) = p # ps" for p ps
    using that by (metis (no_types, lifting) filter_is_subset image_eqI list.set_intros(1) set_sort subsetD)
  then show "mux_match mux path = Some h \<Longrightarrow> h \<in> snd ` set mux"
    by (auto simp: mux_match_def dest!: go_get_in_set split: option.splits list.splits) force
qed

lemma routes_subtree:
  "\<forall>p \<in> set (all_routes cfg metrics @ [(''/api/v1/certificates'', HCertificates)]).
     HasSuffix (fst p) ''/'' \<longrightarrow> (\<exists>x. snd p = HPprof x)"
  by (auto simp: all_routes_def HasSuffix_def suffix_def)

lemma probe_patterns:
  "mux_match (all_routes cfg metrics @ [(''/api/v1/certificates'', HCertificates)]) path = Some HLivez \<longleftrightarrow>
     path \<in> {''/livez'', ''/health/live''} \<and> \<not> DisableLivez cfg"
  "mux_match (all_routes cfg metrics @ [(''/api/v1/certificates'', HCertificates)]) path = Some HReady \<longleftrightarrow>
     path \<in> {''/healthz'', ''/readyz'', ''/health/ready''}"
  unfolding mux_match_exact [OF routes_subtree, of HLivez, simplified] mux_match_exact [OF routes_subtree, of HReady, simplified]
  by (cases metrics; cases "DisableLivez cfg"; cases "EnablePprof cfg"; simp add: all_routes_def gomap_simps)+

lemma serve_probe_cases:
  "serve_probe srv path st =
     (if mux_match (sv_mux srv) path = Some HReady then Some (readyHandler (sv_readiness srv) st)
      else if mux_match (sv_mux srv) path = Some HLivez then Some livezHandler
      else None)"
  by (simp add: serve_probe_def split: option.split handler.split)

lemma registered_server:
  assumes "NewServer cfg metrics = Some s0" and "RegisterCertificatesHandler s0 = Some s1"
  shows "sv_cfg s1 = cfg" and "sv_mux s1 = all_routes cfg metrics @ [(''/api/v1/certificates'', HCertificates)]"
proof -
  have s0: "sv_cfg s0 = cfg" "sv_mux s0 = all_routes cfg metrics" using assms(1) by (auto simp: NewServer_routes)
  with assms(2) Register_routes [OF s0(2)] show "sv_cfg s1 = cfg"
      "sv_mux s1 = all_routes cfg metrics @ [(''/api/v1/certificates'', HCertificates)]" by auto
qed

lemma server_exists:
  obtains s0 s1 where "NewServer cfg metrics = Some s0" and "RegisterCertificatesHandler s0 = Some s1"
proof -
  obtain s0 :: "'a Server" where s0: "NewServer cfg metrics = Some s0" using NewServer_routes by blast
  then have "sv_mux s0 = all_routes cfg metrics" by (auto simp: NewServer_routes)
  from Register_routes [OF this] that s0 show thesis by blast
qed

definition probe_reply :: "Config \<Rightarrow> ('s \<Rightarrow> bool) option \<Rightarrow> string \<Rightarrow> 's \<Rightarrow> (int \<times> string) option" where
  "probe_reply cfg fn path st =
     (if path \<in> {''/healthz'', ''/readyz'', ''/health/ready''}
      then Some (case fn of Some f \<Rightarrow> if f st then (200, ''ok'') else (503, ''not ready'') | None \<Rightarrow> (503, ''not ready''))
      else if path \<in> {''/livez'', ''/health/live''} \<and> \<not> DisableLivez cfg then Some (200, ''ok'')
      else None)"

lemma serve_probe_reply:
  assumes "NewServer cfg metrics = Some s0" and "RegisterCertificatesHandler s0 = Some s1"
  shows "serve_probe (SetReadinessFunc fn s1) path st = probe_reply cfg fn path st"
proof -
  have mux: "sv_mux (SetReadinessFunc fn s1) = all_routes cfg metrics @ [(''/api/v1/certificates'', HCertificates)]"
    using registered_server(2) [OF assms] by (simp add: SetReadinessFunc_def split: option.split)
  have f: "readyHandler (sv_readiness (SetReadinessFunc fn s1)) st =
      (case fn of Some f \<Rightarrow> if f st then (200, ''ok'') else (503, ''not ready'') | None \<Rightarrow> (503, ''not ready''))"
    by (simp add: SetReadinessFunc_def readyHandler_def split: option.split)
  show ?thesis unfolding probe_reply_def serve_probe_cases mux probe_patterns f livezHandler_def by (rule refl)
qed

text \<open>
  The probes of a server, from its construction on. Neither the routes nor the certificate
  endpoint panic. Readiness is answered at three paths and follows the function that was set last,
  which is called when the request comes; without one the server is not ready. Liveness is answered at
  two paths unless it is disabled. No other path is a probe.
\<close>

theorem server_probes:
  "\<exists>s0 s1. NewServer cfg metrics = Some s0 \<and> RegisterCertificatesHandler s0 = Some s1
     \<and> (\<forall>fn path st. serve_probe (SetReadinessFunc fn s1) path st =
          (if path \<in> {''/healthz'', ''/readyz'', ''/health/ready''}
           then Some (case fn of Some f \<Rightarrow> if f st then (200, ''ok'') else (503, ''not ready'') | None \<Rightarrow> (503, ''not ready''))
           else if path \<in> {''/livez'', ''/health/live''} \<and> \<not> DisableLivez cfg then Some (200, ''ok'')
           else None))"
proof -
  obtain s0 s1 :: "'a Server" where s: "NewServer cfg metrics = Some s0" "RegisterCertificatesHandler s0 = Some s1"
    by (rule server_exists)
  with serve_probe_reply [OF s] show ?thesis unfolding probe_reply_def by blast
qed

text \<open>
  C23. Profiling is not exposed by accident. When a server, with the handler for certificates registered as in
  the controller, listens in plaintext, on its own address or
  on a given listener, a path that leads to a profiling handler exists only if both profiling and
  plaintext were enabled; and it is refused to start exactly when profiling is on, plaintext is not
  allowed, and the certificate or the key file is missing.
\<close>

theorem pprof_not_plaintext:
  assumes "NewServer cfg metrics = Some s0" and "RegisterCertificatesHandler s0 = Some s1"
    and "(r, s') \<in> {Start s1, Serve addr s1}"
  shows "(r = Inr ListenPlain \<and> mux_match (sv_mux s') path = Some (HPprof x) \<longrightarrow> EnablePprof cfg \<and> MetricsPlaintextOK cfg)
    \<and> ((\<exists>e. r = Inl e) \<longleftrightarrow> EnablePprof cfg \<and> \<not> MetricsPlaintextOK cfg
         \<and> (MetricsTLSCertFile cfg = [] \<or> MetricsTLSKeyFile cfg = []))"
proof -
  note s1 = registered_server [OF assms(1,2)]
  have "EnablePprof cfg" if "mux_match (sv_mux s1) path = Some (HPprof x)"
    using mux_match_mem [OF that] by (auto simp: s1 all_routes_def split: if_splits)
  with assms(3) s1(1) show ?thesis
    by (auto simp: Start_def Serve_def checkPprofPlaintextAllowed_def Let_def split: if_splits)
qed

lemma LoadFromEnv_MetricsAddr: "MetricsAddr (LoadFromEnv h) = envString h ''METRICS_ADDR'' '':9090''"
proof -
  have d: "MetricsAddr (newDefaults h) = envString h ''METRICS_ADDR'' '':9090''"
    unfolding newDefaults_def by (simp only: Config.select_convs)
  have e: "MetricsAddr (markIngressClassProvided h c) = MetricsAddr c"
      "MetricsAddr (populateInstanceLabelFromEnv h c) = MetricsAddr c" "MetricsAddr (normalize c) = MetricsAddr c" for c
    by (simp_all add: populateInstanceLabelFromEnv_def markIngressClassProvided_def normalize_def applyKVPair_def Let_def
        split: option.split prod.split)
  have f: "MetricsAddr (mergeFileIngressClass c fc) = MetricsAddr c" "MetricsAddr (mergeFileVerifyInterval h c fc) = MetricsAddr c"
      "MetricsAddr (mergeFileStrict h c fc) = MetricsAddr c" "MetricsAddr (mergeFileCertificateSecrets h c fc) = MetricsAddr c"
      "MetricsAddr (mergeFileInstanceLabel c fc) = MetricsAddr c" for c fc
    by (simp_all add: mergeFileVerifyInterval_def mergeFileStrict_def mergeFileInstanceLabel_def
        mergeFileCertificateSecrets_def mergeFileIngressClass_def applyKVPair_def Let_def split: option.split prod.split)
  have m: "MetricsAddr (mergeConfigFile h c) = MetricsAddr c" for c
    by (simp add: mergeConfigFile_def f Let_def split: option.split)
  show ?thesis by (simp add: LoadFromEnv_def Let_def e m d)
qed

text \<open>
  C22. The probe binary agrees with the controller. Called without an argument in the same environment
  as the controller, it asks the port the controller listens on, and its exit code is zero exactly when
  the controller is ready, provided the request gets through in plaintext.
\<close>

theorem healthcheck_iff_ready:
  assumes "NewServer (LoadFromEnv h) metrics = Some s0" and "RegisterCertificatesHandler s0 = Some s1"
    and "srv = SetReadinessFunc (Some (Ready lib c)) s1"
    and "\<And>addr path. (computeBindAddr (MetricsAddr (LoadFromEnv h)) = addr
        \<or> computeBindAddr (MetricsAddr (LoadFromEnv h)) = ''0.0.0.0'' @ drop 9 addr \<and> take 9 addr = ''localhost'')
      \<Longrightarrow> httpGet (''http://'' @ addr @ path) = Inr (case serve_probe srv path st of Some (code, _) \<Rightarrow> code | None \<Rightarrow> 404)"
  shows "healthcheck h httpGet [] = (if Ready lib c st then 0 else 1)"
proof -
  let ?addr = "let a = (if Getenv h ''METRICS_ADDR'' = [] then '':9090'' else Getenv h ''METRICS_ADDR'')
    in if HasPrefix a '':'' then ''localhost'' @ a else a"
  have m: "MetricsAddr (LoadFromEnv h) = (if Getenv h ''METRICS_ADDR'' = [] then '':9090'' else Getenv h ''METRICS_ADDR'')"
    by (simp add: LoadFromEnv_MetricsAddr envString_def Let_def)
  have "computeBindAddr (MetricsAddr (LoadFromEnv h)) = ?addr
      \<or> computeBindAddr (MetricsAddr (LoadFromEnv h)) = ''0.0.0.0'' @ drop 9 ?addr \<and> take 9 ?addr = ''localhost''"
    by (auto simp: m computeBindAddr_def Let_def)
  from assms(4) [OF this, of "''/health/ready''"]
  have g: "httpGet (healthcheck_url h []) = Inr (case serve_probe srv ''/health/ready'' st of Some (code, _) \<Rightarrow> code | None \<Rightarrow> 404)"
    by (simp add: healthcheck_url_def Let_def)
  have "serve_probe srv ''/health/ready'' st = Some (if Ready lib c st then (200, ''ok'') else (503, ''not ready''))"
    unfolding assms(3) serve_probe_reply [OF assms(1,2)] by (simp add: probe_reply_def)
  with g show ?thesis by (simp add: healthcheck_def)
qed

section \<open>Witnesses\<close>

definition pprof_cfg :: Config where
  "pprof_cfg = (newDefaults example_host)\<lparr>EnablePprof := True, MetricsPlaintextOK := False\<rparr>"

theorem pprof_not_plaintext_witness:
  "\<exists>s0 s1 e. NewServer pprof_cfg True = Some s0 \<and> RegisterCertificatesHandler s0 = Some (s1 :: unit Server)
     \<and> fst (Start s1) = Inl e"
proof -
  obtain s0 s1 :: "unit Server" where s: "NewServer pprof_cfg True = Some s0" "RegisterCertificatesHandler s0 = Some s1"
    by (rule server_exists)
  have c: "EnablePprof pprof_cfg \<and> \<not> MetricsPlaintextOK pprof_cfg \<and> MetricsTLSCertFile pprof_cfg = []" by code_simp
  have "(fst (Start s1), snd (Start s1)) \<in> {Start s1, Serve [] s1}" by simp
  from pprof_not_plaintext [OF s this] c obtain e where "fst (Start s1) = Inl e" by blast
  with s show ?thesis by blast
qed

text \<open>A server whose controller polled successfully at time 999, asked at time 1000.\<close>

definition probe_server :: "cluster loopst Server" where
  "probe_server = SetReadinessFunc (Some (Ready (demo_lib 200) demo_loop))
     (the (RegisterCertificatesHandler (the (NewServer (LoadFromEnv example_host) True))))"

definition probe_get :: "cluster loopst \<Rightarrow> string \<Rightarrow> int result" where
  "probe_get st url =
     (let reply = (\<lambda>path. Inr (case serve_probe probe_server path st of Some (code, _) \<Rightarrow> code | None \<Rightarrow> 404)) in
      if HasPrefix url ''http://0.0.0.0:9090'' then reply (drop 19 url) else reply (drop 21 url))"

theorem healthcheck_iff_ready_witness:
  "healthcheck example_host (probe_get demo_start) [] = 1
   \<and> healthcheck example_host (probe_get (demo_start\<lparr>lastSuccessfulReconcile := 999\<rparr>)) [] = 0"
proof -
  obtain s0 s1 :: "cluster loopst Server" where s: "NewServer (LoadFromEnv example_host) True = Some s0"
      "RegisterCertificatesHandler s0 = Some s1"
    by (rule server_exists)
  then have srv: "probe_server = SetReadinessFunc (Some (Ready (demo_lib 200) demo_loop)) s1"
    by (simp add: probe_server_def)
  have b: "computeBindAddr (MetricsAddr (LoadFromEnv example_host)) = ''0.0.0.0:9090''" by code_simp
  have l: "probe_get st (''http://'' @ addr @ path) = Inr (case serve_probe probe_server path st of Some (code, _) \<Rightarrow> code | None \<Rightarrow> 404)"
    if "computeBindAddr (MetricsAddr (LoadFromEnv example_host)) = addr
        \<or> computeBindAddr (MetricsAddr (LoadFromEnv example_host)) = ''0.0.0.0'' @ drop 9 addr \<and> take 9 addr = ''localhost''"
    for addr path st
  proof -
    from that [unfolded b] consider "addr = ''0.0.0.0:9090''" | "drop 9 addr = '':9090''" "take 9 addr = ''localhost''" by auto
    then have "addr = ''0.0.0.0:9090'' \<or> addr = ''localhost:9090''"
      by cases (metis append_Cons append_Nil append_take_drop_id)+
    then show ?thesis by (auto simp: probe_get_def HasPrefix_def)
  qed
  have "PollInterval demo_cfg = 15 * 10 ^ 9" by code_simp
  moreover have "wrap64 (5 * (15 * 10 ^ 9)) = 75 * 10 ^ 9" by code_simp
  ultimately have "\<not> Ready (demo_lib 200) demo_loop demo_start"
      "Ready (demo_lib 200) demo_loop (demo_start\<lparr>lastSuccessfulReconcile := 999\<rparr>)"
    by (simp_all add: Ready_def demo_loop_fields clock_def Let_def)
  then show ?thesis using healthcheck_iff_ready [OF s srv l] by simp
qed

end
