(* ===== verification/EndpointSlices.thy ===== *)
theory EndpointSlices
  imports Apply
begin

text \<open>
  Applying EndpointSlices with key tracking: \<^verbatim>\<open>internal/apply/endpointslice.go\<close>.

  The operation writes into the object it is given which label and annotation keys it manages, as JSON
  in two annotations; the next update removes the keys that were managed and are no longer wanted, and
  leaves those of others alone. JSON encoding of a list of strings is a parameter, of which only the
  round trip of ASCII strings is assumed.

  Shown: the tracked keys are read back as they were written; what an update sends, key by key; and
  that a key managed by one run and not by the next is gone after it, whatever the object was before.
\<close>

section \<open>Model\<close>

definition managedLabelKeysAnnotation :: string where
  "managedLabelKeysAnnotation = ''pangolin-kube-controller/managed-label-keys''"

definition managedAnnoKeysAnnotation :: string where
  "managedAnnoKeysAnnotation = ''pangolin-kube-controller/managed-annotation-keys''"

record keys_codec =
  keys_Marshal :: "string list \<Rightarrow> string option"
  keys_Unmarshal :: "string \<Rightarrow> string list option"

record 'w EndpointSliceOps =
  eo_Slices :: "string \<Rightarrow> ('w, EndpointSlice) TypedClient"
  eo_Namespace :: string
  eo_ManagedLabelKey :: string
  eo_ManagedLabelValue :: string
  eo_TraefikInstanceLabelKey :: string
  eo_TraefikInstanceLabelValue :: string
  eo_ManagedAnnoKey :: string
  eo_ManagedAnnoValue :: string
  eo_ReadOnly :: bool

definition mergeStringMap :: "string gomap \<Rightarrow> string gomap option \<Rightarrow> string gomap" where
  "mergeStringMap dst src =
     (case src of None \<Rightarrow> dst | Some m \<Rightarrow> fold (\<lambda>(k, v) d. go_put d k v) m dst)"

definition eo_ensureManagedMeta :: "'w EndpointSliceOps \<Rightarrow> EndpointSlice \<Rightarrow> EndpointSlice" where
  "eo_ensureManagedMeta ops es =
     (let labels = of_nil (es_Labels es);
          labels = (if eo_ManagedLabelKey ops \<noteq> []
                    then go_put labels (eo_ManagedLabelKey ops) (eo_ManagedLabelValue ops) else labels);
          labels = (if eo_TraefikInstanceLabelKey ops \<noteq> [] \<and> eo_TraefikInstanceLabelValue ops \<noteq> []
                    then go_put labels (eo_TraefikInstanceLabelKey ops) (eo_TraefikInstanceLabelValue ops)
                    else labels);
          annotations = of_nil (es_Annotations es);
          annotations = (if eo_ManagedAnnoKey ops \<noteq> []
                         then go_put annotations (eo_ManagedAnnoKey ops) (eo_ManagedAnnoValue ops)
                         else annotations)
      in es\<lparr>es_Labels := Some labels, es_Annotations := Some annotations\<rparr>)"

definition marshalManagedKeys :: "keys_codec \<Rightarrow> string gomap \<Rightarrow> string" where
  "marshalManagedKeys codec m =
     (if m = [] then ''[]''
      else case keys_Marshal codec (sort (filter (\<lambda>k. k \<noteq> []) (go_keys m))) of
        None \<Rightarrow> ''[]''
      | Some b \<Rightarrow> b)"

text \<open>The set of keys as a list; nil and empty sets behave alike.\<close>

definition parseManagedKeys :: "keys_codec \<Rightarrow> string \<Rightarrow> string list" where
  "parseManagedKeys codec raw =
     (if raw = [] then []
      else case keys_Unmarshal codec raw of
        None \<Rightarrow> []
      | Some keys \<Rightarrow> filter (\<lambda>k. k \<noteq> []) keys)"

definition ensureManagedKeysTracking ::
  "keys_codec \<Rightarrow> string list \<Rightarrow> string list \<Rightarrow> EndpointSlice \<Rightarrow> EndpointSlice" where
  "ensureManagedKeysTracking codec labelKeys annoKeys es =
     (let annotations = of_nil (es_Annotations es);
          allowedLabels = filter (\<lambda>k. k \<noteq> []) labelKeys;
          lbls = filter (\<lambda>p. fst p \<in> set allowedLabels) (of_nil (es_Labels es));
          annotations = go_put annotations managedLabelKeysAnnotation (marshalManagedKeys codec lbls);
          annos = filter (\<lambda>p. fst p \<noteq> managedLabelKeysAnnotation \<and> fst p \<noteq> managedAnnoKeysAnnotation) annotations;
          allowedAnnos = filter (\<lambda>k. k \<noteq> []) annoKeys;
          annosFiltered = filter (\<lambda>p. fst p \<in> set allowedAnnos) annos;
          annotations = go_put annotations managedAnnoKeysAnnotation (marshalManagedKeys codec annosFiltered)
      in es\<lparr>es_Annotations := Some annotations\<rparr>)"

definition removeManagedKeys :: "string gomap \<Rightarrow> string gomap option \<Rightarrow> string list \<Rightarrow> string gomap" where
  "removeManagedKeys existing desired managed =
     fold (\<lambda>k m. if k = [] then m
                 else case desired of
                   None \<Rightarrow> go_del m k
                 | Some d \<Rightarrow> if go_get d k = None then go_del m k else m) managed existing"

text \<open>The object that \<open>updateExisting\<close> sends.\<close>

definition updated_slice :: "keys_codec \<Rightarrow> EndpointSlice \<Rightarrow> EndpointSlice \<Rightarrow> EndpointSlice" where
  "updated_slice codec existing es =
     (let labels = of_nil (es_Labels existing);
          annotations = of_nil (es_Annotations existing);
          labels' = removeManagedKeys labels (es_Labels es)
            (parseManagedKeys codec (get_str annotations managedLabelKeysAnnotation));
          annotations' = removeManagedKeys annotations (es_Annotations es)
            (parseManagedKeys codec (get_str annotations managedAnnoKeysAnnotation))
      in existing\<lparr>es_Endpoints := es_Endpoints es, es_Ports := es_Ports es, es_AddressType := es_AddressType es,
           es_Labels := Some (mergeStringMap labels' (es_Labels es)),
           es_Annotations := Some (mergeStringMap annotations' (es_Annotations es))\<rparr>)"

definition updateExisting :: "keys_codec \<Rightarrow> 'w EndpointSliceOps \<Rightarrow> EndpointSlice \<Rightarrow> EndpointSlice \<Rightarrow> ('w, unit) io" where
  "updateExisting codec ops existing es =
     thenIO (typed_Update (eo_Slices ops (eo_Namespace ops)) (updated_slice codec existing es)) (retIO ())"

text \<open>What \<open>Apply\<close> makes of the object it is given, before the first call.\<close>

definition prepared :: "keys_codec \<Rightarrow> 'w EndpointSliceOps \<Rightarrow> EndpointSlice \<Rightarrow> EndpointSlice" where
  "prepared codec ops es =
     ensureManagedKeysTracking codec [eo_ManagedLabelKey ops, eo_TraefikInstanceLabelKey ops] [eo_ManagedAnnoKey ops]
       (eo_ensureManagedMeta ops es)"

definition EndpointSliceOps_Apply :: "keys_codec \<Rightarrow> 'w EndpointSliceOps \<Rightarrow> EndpointSlice \<Rightarrow> ('w, unit) io" where
  "EndpointSliceOps_Apply codec ops es =
     (let es = prepared codec ops es in
      if eo_ReadOnly ops then retIO ()
      else
        let cli = eo_Slices ops (eo_Namespace ops) in
        get_or_missing (typed_Get cli (es_Name es))
          (thenIO (typed_Create cli es) (retIO ()))
          (\<lambda>existing. updateExisting codec ops existing es))"

section \<open>Tracking\<close>

definition ascii :: "string \<Rightarrow> bool" where
  "ascii s \<longleftrightarrow> (\<forall>c \<in> set s. (of_char c :: int) < 128)"

text \<open>What is assumed of \<open>encoding/json\<close>.\<close>

definition codec_law :: "keys_codec \<Rightarrow> bool" where
  "codec_law codec \<longleftrightarrow> keys_Unmarshal codec ''[]'' = Some []
     \<and> (\<forall>ks. list_all ascii ks \<longrightarrow>
          (\<exists>b. keys_Marshal codec ks = Some b \<and> b \<noteq> [] \<and> keys_Unmarshal codec b = Some ks))"

text \<open>
  The keys written to a tracking annotation are read back from it: the keys of the map but the
  empty one, whatever the order of the map.
\<close>

lemma tracked_roundtrip:
  assumes "codec_law codec" and "\<forall>k \<in> set (go_keys m). ascii k"
  shows "set (parseManagedKeys codec (marshalManagedKeys codec m)) = {k. go_get m k \<noteq> None \<and> k \<noteq> []}"
proof -
  let ?ks = "sort (filter (\<lambda>k. k \<noteq> []) (go_keys m))"
  have "list_all ascii ?ks" using assms(2) by (auto simp: list_all_iff)
  with assms(1) obtain b where "keys_Marshal codec ?ks = Some b" "b \<noteq> []" "keys_Unmarshal codec b = Some ?ks"
    unfolding codec_law_def by blast
  moreover have "keys_Unmarshal codec ''[]'' = Some []" using assms(1) by (simp add: codec_law_def)
  ultimately show ?thesis by (auto simp: marshalManagedKeys_def parseManagedKeys_def set_go_keys)
qed

lemma get_filter_fst: "go_get (filter (\<lambda>p. P (fst p)) m) k = (if P k then go_get m k else None)"
  by (induction m) (auto simp: gomap_simps)

lemma get_remove:
  "go_get (removeManagedKeys m desired managed) k =
     (if k \<in> set managed \<and> k \<noteq> [] \<and> go_get (of_nil desired) k = None then None else go_get m k)"
  unfolding removeManagedKeys_def
  by (induction managed arbitrary: m) (auto simp: of_nil_def split: option.split)

lemma get_merge_list:
  "wf_map s \<Longrightarrow> go_get (fold (\<lambda>(k, v) d. go_put d k v) s m) k =
     (case go_get s k of Some v \<Rightarrow> Some v | None \<Rightarrow> go_get m k)"
proof (induction s arbitrary: m)
  case (Cons p s)
  obtain a b where p: "p = (a, b)" by fastforce
  from Cons.prems p have s: "wf_map s" and "a \<notin> set (go_keys s)" by (auto simp: wf_map_def go_keys_def)
  then have "go_get s a = None" by (simp add: set_go_keys)
  with Cons.IH [OF s] p show ?case by (auto simp: gomap_simps split: option.split)
qed simp

lemma get_merge:
  "wf_map (of_nil src) \<Longrightarrow>
   go_get (mergeStringMap m src) k = (case go_get (of_nil src) k of Some v \<Rightarrow> Some v | None \<Rightarrow> go_get m k)"
  by (cases src) (simp_all add: mergeStringMap_def of_nil_def get_merge_list)

section \<open>Updates\<close>

lemma updated_slice_get:
  fixes old es :: EndpointSlice
  assumes "wf_map (of_nil (es_Labels es))" and "wf_map (of_nil (es_Annotations es))"
  shows "go_get (of_nil (es_Labels (updated_slice codec old es))) k =
        (if go_get (of_nil (es_Labels es)) k \<noteq> None then go_get (of_nil (es_Labels es)) k
         else if k \<noteq> [] \<and> k \<in> set (parseManagedKeys codec (get_str (of_nil (es_Annotations old)) managedLabelKeysAnnotation))
         then None else go_get (of_nil (es_Labels old)) k)"
    and "go_get (of_nil (es_Annotations (updated_slice codec old es))) k =
        (if go_get (of_nil (es_Annotations es)) k \<noteq> None then go_get (of_nil (es_Annotations es)) k
         else if k \<noteq> [] \<and> k \<in> set (parseManagedKeys codec (get_str (of_nil (es_Annotations old)) managedAnnoKeysAnnotation))
         then None else go_get (of_nil (es_Annotations old)) k)"
proof -
  have o: "of_nil (Some x) = x" for x :: "string gomap" by (simp add: of_nil_def)
  show "go_get (of_nil (es_Labels (updated_slice codec old es))) k =
        (if go_get (of_nil (es_Labels es)) k \<noteq> None then go_get (of_nil (es_Labels es)) k
         else if k \<noteq> [] \<and> k \<in> set (parseManagedKeys codec (get_str (of_nil (es_Annotations old)) managedLabelKeysAnnotation))
         then None else go_get (of_nil (es_Labels old)) k)"
    using assms(1) by (auto simp: updated_slice_def Let_def o get_merge get_remove split: option.split)
  show "go_get (of_nil (es_Annotations (updated_slice codec old es))) k =
        (if go_get (of_nil (es_Annotations es)) k \<noteq> None then go_get (of_nil (es_Annotations es)) k
         else if k \<noteq> [] \<and> k \<in> set (parseManagedKeys codec (get_str (of_nil (es_Annotations old)) managedAnnoKeysAnnotation))
         then None else go_get (of_nil (es_Annotations old)) k)"
    using assms(2) by (auto simp: updated_slice_def Let_def o get_merge get_remove split: option.split)
qed

text \<open>
  What an update sends, key by key: the labels and annotations of the new object win; a key of the
  old one that its tracking annotation lists is removed when the new object does not have it; every
  other key of the old object is kept. Endpoints, ports and address type are the new ones, and the
  rest of the object is untouched.
\<close>

theorem updated_slice_keys:
  fixes old es :: EndpointSlice
  assumes "wf_map (of_nil (es_Labels es))" and "wf_map (of_nil (es_Annotations es))"
  defines "old_labels \<equiv> of_nil (es_Labels old)" and "old_annos \<equiv> of_nil (es_Annotations old)"
    and "new_labels \<equiv> of_nil (es_Labels es)" and "new_annos \<equiv> of_nil (es_Annotations es)"
  shows "updated_slice codec old es = old\<lparr>es_Endpoints := es_Endpoints es, es_Ports := es_Ports es,
        es_AddressType := es_AddressType es, es_Labels := es_Labels (updated_slice codec old es),
        es_Annotations := es_Annotations (updated_slice codec old es)\<rparr>
    \<and> (\<forall>k. go_get (of_nil (es_Labels (updated_slice codec old es))) k =
        (if go_get new_labels k \<noteq> None then go_get new_labels k
         else if k \<noteq> [] \<and> k \<in> set (parseManagedKeys codec (get_str old_annos managedLabelKeysAnnotation)) then None
         else go_get old_labels k))
    \<and> (\<forall>k. go_get (of_nil (es_Annotations (updated_slice codec old es))) k =
        (if go_get new_annos k \<noteq> None then go_get new_annos k
         else if k \<noteq> [] \<and> k \<in> set (parseManagedKeys codec (get_str old_annos managedAnnoKeysAnnotation)) then None
         else go_get old_annos k))"
proof -
  have "updated_slice codec old es = old\<lparr>es_Endpoints := es_Endpoints es, es_Ports := es_Ports es,
        es_AddressType := es_AddressType es, es_Labels := es_Labels (updated_slice codec old es),
        es_Annotations := es_Annotations (updated_slice codec old es)\<rparr>"
    by (simp add: updated_slice_def Let_def)
  then show ?thesis
    unfolding old_labels_def old_annos_def new_labels_def new_annos_def using updated_slice_get [OF assms(1,2)] by blast
qed

section \<open>From one run to the next\<close>

text \<open>
  What is assumed of the API server: reads change nothing and find what is stored; a successful
  create or update stores the object with the labels and annotations it was given.
\<close>

definition slice_laws :: "('w, EndpointSlice) TypedClient \<Rightarrow> ('w \<Rightarrow> string \<Rightarrow> EndpointSlice option) \<Rightarrow> bool" where
  "slice_laws cl view \<longleftrightarrow>
     (\<forall>w n r w'. typed_Get cl n w = (r, w') \<longrightarrow> view w' = view w
        \<and> (\<forall>x. r = Inr x \<longrightarrow> view w n = Some x \<and> es_Name x = n)
        \<and> (\<forall>e. r = Inl e \<longrightarrow> IsNotFound e \<longrightarrow> view w n = None))
   \<and> (\<forall>w x y w'. typed_Create cl x w = (Inr y, w') \<or> typed_Update cl x w = (Inr y, w') \<longrightarrow>
        (\<exists>x'. view w' = (view w)(es_Name x \<mapsto> x') \<and> es_Labels x' = es_Labels x \<and> es_Annotations x' = es_Annotations x))"

lemma prepared_name [simp]: "es_Name (prepared codec ops es) = es_Name es"
  by (simp add: prepared_def ensureManagedKeysTracking_def eo_ensureManagedMeta_def Let_def)

lemma updated_name [simp]: "es_Name (updated_slice codec old es) = es_Name old"
  by (simp add: updated_slice_def Let_def)

lemma prepared_maps:
  assumes "wf_map (of_nil (es_Labels es))" and "wf_map (of_nil (es_Annotations es))"
  shows "wf_map (of_nil (es_Labels (prepared codec ops es)))" and "wf_map (of_nil (es_Annotations (prepared codec ops es)))"
proof -
  have o: "of_nil (Some x) = x" for x :: "string gomap" by (simp add: of_nil_def)
  from assms show "wf_map (of_nil (es_Labels (prepared codec ops es)))"
      "wf_map (of_nil (es_Annotations (prepared codec ops es)))"
    by (auto simp: prepared_def ensureManagedKeysTracking_def eo_ensureManagedMeta_def Let_def o intro!: wf_intros)
qed

text \<open>The label keys that a run manages: those of its settings that it has set on the object.\<close>

definition managed_labels :: "'w EndpointSliceOps \<Rightarrow> EndpointSlice \<Rightarrow> string set" where
  "managed_labels ops es =
     {k \<in> {eo_ManagedLabelKey ops, eo_TraefikInstanceLabelKey ops}. k \<noteq> [] \<and> go_get (of_nil (es_Labels (eo_ensureManagedMeta ops es))) k \<noteq> None}"

lemma prepared_tracking:
  assumes "codec_law codec" and "ascii (eo_ManagedLabelKey ops)" and "ascii (eo_TraefikInstanceLabelKey ops)"
  shows "\<exists>t. go_get (of_nil (es_Annotations (prepared codec ops es))) managedLabelKeysAnnotation = Some t
    \<and> set (parseManagedKeys codec t) = managed_labels ops es"
proof -
  let ?P = "\<lambda>k. k \<in> set (filter (\<lambda>k. k \<noteq> []) [eo_ManagedLabelKey ops, eo_TraefikInstanceLabelKey ops])"
  let ?l = "filter (\<lambda>p. ?P (fst p)) (of_nil (es_Labels (eo_ensureManagedMeta ops es)))"
  have g: "go_get ?l k = (if ?P k then go_get (of_nil (es_Labels (eo_ensureManagedMeta ops es))) k else None)" for k
    by (rule get_filter_fst)
  have a: "\<forall>k \<in> set (go_keys ?l). ascii k" using assms(2,3) by (auto simp: go_keys_def)
  have "managedLabelKeysAnnotation \<noteq> managedAnnoKeysAnnotation"
    by (simp add: managedLabelKeysAnnotation_def managedAnnoKeysAnnotation_def)
  then have "go_get (of_nil (es_Annotations (prepared codec ops es))) managedLabelKeysAnnotation = Some (marshalManagedKeys codec ?l)"
    by (simp add: prepared_def ensureManagedKeysTracking_def Let_def of_nil_def)
  moreover have "set (parseManagedKeys codec (marshalManagedKeys codec ?l)) = managed_labels ops es"
    unfolding tracked_roundtrip [OF assms(1) a] g by (auto simp: managed_labels_def split: if_splits)
  ultimately show ?thesis by blast
qed

text \<open>What a successful run leaves: the object as prepared, or the update of the one that was there.\<close>

lemma slice_Apply_stores:
  assumes "slice_laws (eo_Slices ops (eo_Namespace ops)) view" and "\<not> eo_ReadOnly ops"
    and "EndpointSliceOps_Apply codec ops es w = (Inr (), w')"
  shows "\<exists>x. view w' (es_Name es) = Some x
    \<and> (case view w (es_Name es) of
         None \<Rightarrow> es_Labels x = es_Labels (prepared codec ops es) \<and> es_Annotations x = es_Annotations (prepared codec ops es)
       | Some old \<Rightarrow> es_Labels x = es_Labels (updated_slice codec old (prepared codec ops es))
           \<and> es_Annotations x = es_Annotations (updated_slice codec old (prepared codec ops es)))"
proof -
  let ?cl = "eo_Slices ops (eo_Namespace ops)" and ?es = "prepared codec ops es"
  obtain r w1 where g: "typed_Get ?cl (es_Name es) w = (r, w1)" by fastforce
  have v1: "view w1 = view w" and found: "\<And>x. r = Inr x \<Longrightarrow> view w (es_Name es) = Some x \<and> es_Name x = es_Name es"
      and none: "\<And>e. r = Inl e \<Longrightarrow> IsNotFound e \<Longrightarrow> view w (es_Name es) = None"
    using assms(1) g unfolding slice_laws_def by blast+
  have wr: "\<exists>x'. view w2 = (view w1)(es_Name x \<mapsto> x') \<and> es_Labels x' = es_Labels x \<and> es_Annotations x' = es_Annotations x"
    if "typed_Create ?cl x w1 = (Inr y, w2) \<or> typed_Update ?cl x w1 = (Inr y, w2)" for x y w2
    using assms(1) that unfolding slice_laws_def by blast
  show ?thesis
  proof (cases r)
    case (Inl e)
    with assms(2,3) g obtain y where "IsNotFound e" "typed_Create ?cl ?es w1 = (Inr y, w')"
      by (auto simp: EndpointSliceOps_Apply_def get_or_missing_def caseIO_def Let_def thenIO_Inr split: if_splits)
    with wr [of ?es y w'] none [OF Inl] show ?thesis by auto
  next
    case (Inr old)
    with assms(2,3) g obtain y where "typed_Update ?cl (updated_slice codec old ?es) w1 = (Inr y, w')"
      by (auto simp: EndpointSliceOps_Apply_def get_or_missing_def caseIO_def Let_def updateExisting_def thenIO_Inr)
    with wr [of "updated_slice codec old ?es" y w'] found [OF Inr] show ?thesis by auto
  qed
qed

text \<open>
  C30. A label key that one run managed and the next does not want is gone after the next, whatever the
  object was before; the labels that the next run wants are there, and a label that neither run knows
  stays as it was. So changing the instance label in the settings leaves no stale label behind.
\<close>

theorem stale_labels_removed:
  assumes "codec_law codec" and "ascii (eo_ManagedLabelKey ops)" and "ascii (eo_TraefikInstanceLabelKey ops)"
    and "slice_laws (eo_Slices ops (eo_Namespace ops)) view" and "slice_laws (eo_Slices ops' (eo_Namespace ops')) view"
    and "\<not> eo_ReadOnly ops" and "\<not> eo_ReadOnly ops'"
    and "wf_map (of_nil (es_Labels es))" and "wf_map (of_nil (es_Annotations es))"
    and "wf_map (of_nil (es_Labels es'))" and "wf_map (of_nil (es_Annotations es'))" and "es_Name es' = es_Name es"
    and "EndpointSliceOps_Apply codec ops es w = (Inr (), w1)" and "EndpointSliceOps_Apply codec ops' es' w1 = (Inr (), w2)"
  shows "\<exists>x y. view w1 (es_Name es) = Some x \<and> view w2 (es_Name es) = Some y \<and> (\<forall>k.
    go_get (of_nil (es_Labels y)) k =
      (if go_get (of_nil (es_Labels (prepared codec ops' es'))) k \<noteq> None then go_get (of_nil (es_Labels (prepared codec ops' es'))) k
       else if k \<in> managed_labels ops es then None
       else go_get (of_nil (es_Labels x)) k))"
proof -
  note p = prepared_maps [OF assms(8,9), of codec ops] and p' = prepared_maps [OF assms(10,11), of codec ops']
  obtain x where x: "view w1 (es_Name es) = Some x"
      "case view w (es_Name es) of
         None \<Rightarrow> es_Labels x = es_Labels (prepared codec ops es) \<and> es_Annotations x = es_Annotations (prepared codec ops es)
       | Some old \<Rightarrow> es_Labels x = es_Labels (updated_slice codec old (prepared codec ops es))
           \<and> es_Annotations x = es_Annotations (updated_slice codec old (prepared codec ops es))"
    using slice_Apply_stores [OF assms(4,6,13)] by blast
  obtain t where t: "go_get (of_nil (es_Annotations (prepared codec ops es))) managedLabelKeysAnnotation = Some t"
      "set (parseManagedKeys codec t) = managed_labels ops es" using prepared_tracking [OF assms(1-3)] by blast
  have "go_get (of_nil (es_Annotations x)) managedLabelKeysAnnotation = Some t"
    using x(2) t(1) updated_slice_get(2) [OF p] by (auto split: option.splits)
  then have tx: "set (parseManagedKeys codec (get_str (of_nil (es_Annotations x)) managedLabelKeysAnnotation)) = managed_labels ops es"
    using t(2) by (simp add: get_str_def)
  obtain y where y: "view w2 (es_Name es) = Some y" "es_Labels y = es_Labels (updated_slice codec x (prepared codec ops' es'))"
    using slice_Apply_stores [OF assms(5,7,14)] x(1) assms(12) by auto
  have "k \<noteq> []" if "k \<in> managed_labels ops es" for k using that by (auto simp: managed_labels_def)
  then show ?thesis using x(1) y updated_slice_get(1) [OF p', of codec x] tx by (auto intro!: exI [of _ x] exI [of _ y])
qed

section \<open>Witnesses\<close>

text \<open>A codec with the round trip, and a store of EndpointSlices in memory.\<close>

fun demo_dec :: "string \<Rightarrow> string \<Rightarrow> string list option" where
  "demo_dec acc [] = (if acc = [] then Some [] else None)"
| "demo_dec acc [c] = (if c = CHR '';'' then Some [rev acc] else None)"
| "demo_dec acc (c # x # s) =
     (if c = CHR '';'' then map_option ((#) (rev acc)) (demo_dec [] (x # s)) else demo_dec (x # acc) s)"

definition demo_enc :: "string list \<Rightarrow> string" where
  "demo_enc ks = concat (map (\<lambda>k. concat (map (\<lambda>c. [CHR ''c'', c]) k) @ '';'') ks)"

definition demo_codec :: keys_codec where
  "demo_codec = \<lparr>keys_Marshal = (\<lambda>ks. Some (if ks = [] then ''[]'' else CHR ''k'' # demo_enc ks)),
     keys_Unmarshal = (\<lambda>s. if s = ''[]'' then Some [] else demo_dec [] (tl s))\<rparr>"

lemma demo_dec_semicolon: "demo_dec acc (CHR '';'' # s) = map_option ((#) (rev acc)) (demo_dec [] s)"
  by (cases s) auto

lemma demo_dec_chars: "demo_dec acc (concat (map (\<lambda>c. [CHR ''c'', c]) k) @ s) = demo_dec (rev k @ acc) s"
  by (induction k arbitrary: acc) auto

lemma demo_dec_enc: "demo_dec [] (demo_enc ks) = Some ks"
proof (induction ks)
  case (Cons k ks)
  have "demo_enc (k # ks) = concat (map (\<lambda>c. [CHR ''c'', c]) k) @ CHR '';'' # demo_enc ks" by (simp add: demo_enc_def)
  with Cons show ?case by (simp only: demo_dec_chars demo_dec_semicolon) simp
qed (simp add: demo_enc_def)

lemma demo_codec_law: "codec_law demo_codec"
  by (auto simp: codec_law_def demo_codec_def demo_dec_enc)

definition mem_slices :: "(EndpointSlice list, EndpointSlice) TypedClient" where
  "mem_slices = \<lparr>
     typed_Get = (\<lambda>n w. case find (\<lambda>x. es_Name x = n) w of None \<Rightarrow> (Inl (KubeErr NotFound n), w) | Some x \<Rightarrow> (Inr x, w)),
     typed_Create = (\<lambda>x w. (Inr x, x # w)), typed_Update = (\<lambda>x w. (Inr x, x # w)),
     typed_Delete = (\<lambda>n w. (Inr (), filter (\<lambda>x. es_Name x \<noteq> n) w)), typed_List = (\<lambda>s w. (Inr w, w))\<rparr>"

lemma mem_slice_calls:
  "typed_Get mem_slices n w = (r, w') \<Longrightarrow> w' = w"
  "typed_Get mem_slices n w = (Inr x, w') \<Longrightarrow> find (\<lambda>x. es_Name x = n) w = Some x \<and> es_Name x = n"
  "typed_Get mem_slices n w = (Inl e, w') \<Longrightarrow> find (\<lambda>x. es_Name x = n) w = None"
  "typed_Create mem_slices x w = (Inr y, w') \<or> typed_Update mem_slices x w = (Inr y, w') \<Longrightarrow> w' = x # w"
  by (auto simp: mem_slices_def find_Some_iff split: option.splits)

lemma mem_slice_put: "(\<lambda>n. find (\<lambda>x. es_Name x = n) (x # w)) = (\<lambda>n. find (\<lambda>x. es_Name x = n) w)(es_Name x \<mapsto> x)"
  by (rule ext) simp

lemma mem_slice_laws: "slice_laws mem_slices (\<lambda>w n. find (\<lambda>x. es_Name x = n) w)"
  unfolding slice_laws_def
proof (intro conjI allI impI)
  fix x y w w'
  assume "typed_Create mem_slices x w = (Inr y, w') \<or> typed_Update mem_slices x w = (Inr y, w')"
  from mem_slice_calls(4) [OF this] mem_slice_put [of x w]
  show "\<exists>x'. (\<lambda>n. find (\<lambda>x. es_Name x = n) w') = (\<lambda>n. find (\<lambda>x. es_Name x = n) w)(es_Name x \<mapsto> x')
      \<and> es_Labels x' = es_Labels x \<and> es_Annotations x' = es_Annotations x" by blast
qed (use mem_slice_calls(1-3) in blast)+

definition demo_ops :: "string \<Rightarrow> EndpointSlice list EndpointSliceOps" where
  "demo_ops key = \<lparr>eo_Slices = (\<lambda>_. mem_slices), eo_Namespace = ''ns'', eo_ManagedLabelKey = ''managed'',
     eo_ManagedLabelValue = ''true'', eo_TraefikInstanceLabelKey = key, eo_TraefikInstanceLabelValue = ''edge'',
     eo_ManagedAnnoKey = [], eo_ManagedAnnoValue = [], eo_ReadOnly = False\<rparr>"

definition demo_slice :: EndpointSlice where
  "demo_slice = \<lparr>es_Name = ''s'', es_Namespace = ''ns'', es_Labels = None, es_Annotations = None,
     es_AddressType = AddressTypeIPv4, es_Endpoints = [], es_Ports = []\<rparr>"

definition demo_old :: EndpointSlice where
  "demo_old = demo_slice\<lparr>es_Labels := Some [(''team'', ''blue'')]\<rparr>"

definition demo_run1 :: "EndpointSlice list" where
  "demo_run1 = snd (EndpointSliceOps_Apply demo_codec (demo_ops ''app'') demo_slice [demo_old])"

definition demo_run2 :: "EndpointSlice list" where
  "demo_run2 = snd (EndpointSliceOps_Apply demo_codec (demo_ops ''instance'') demo_slice demo_run1)"

lemma demo_runs:
  "EndpointSliceOps_Apply demo_codec (demo_ops ''app'') demo_slice [demo_old] = (Inr (), demo_run1)"
  "EndpointSliceOps_Apply demo_codec (demo_ops ''instance'') demo_slice demo_run1 = (Inr (), demo_run2)"
proof -
  have "fst (EndpointSliceOps_Apply demo_codec (demo_ops ''app'') demo_slice [demo_old]) = Inr ()"
      "fst (EndpointSliceOps_Apply demo_codec (demo_ops ''instance'') demo_slice demo_run1) = Inr ()"
    by (simp_all add: EndpointSliceOps_Apply_def get_or_missing_def updateExisting_def caseIO_def thenIO_def bindIO_def
        demo_ops_def mem_slices_def IsNotFound_def Let_def split: option.split)
  then show "EndpointSliceOps_Apply demo_codec (demo_ops ''app'') demo_slice [demo_old] = (Inr (), demo_run1)"
    "EndpointSliceOps_Apply demo_codec (demo_ops ''instance'') demo_slice demo_run1 = (Inr (), demo_run2)"
    unfolding demo_run1_def demo_run2_def by (simp_all only: prod_eq_iff fst_conv snd_conv)
qed

lemma demo_keys:
  "''app'' \<in> managed_labels (demo_ops ''app'') demo_slice" "''team'' \<notin> managed_labels (demo_ops ''app'') demo_slice"
  "go_get (of_nil (es_Labels (prepared demo_codec (demo_ops ''instance'') demo_slice))) ''app'' = None"
  "go_get (of_nil (es_Labels (prepared demo_codec (demo_ops ''instance'') demo_slice))) ''team'' = None"
  by (simp_all add: managed_labels_def prepared_def ensureManagedKeysTracking_def eo_ensureManagedMeta_def demo_ops_def
      demo_slice_def of_nil_def Let_def)

lemma demo_fields:
  "slice_laws (eo_Slices (demo_ops k) (eo_Namespace (demo_ops k))) (\<lambda>w n. find (\<lambda>x. es_Name x = n) w)"
  "\<not> eo_ReadOnly (demo_ops k)" "wf_map (of_nil (es_Labels demo_slice))" "wf_map (of_nil (es_Annotations demo_slice))"
  "ascii (eo_ManagedLabelKey (demo_ops ''app''))" "ascii (eo_TraefikInstanceLabelKey (demo_ops ''app''))"
  using mem_slice_laws by (simp_all add: demo_ops_def demo_slice_def of_nil_def ascii_def)

lemma demo_run1_labels:
  assumes "find (\<lambda>x. es_Name x = ''s'') demo_run1 = Some x"
  shows "go_get (of_nil (es_Labels x)) ''app'' = Some ''edge''" and "go_get (of_nil (es_Labels x)) ''team'' = Some ''blue''"
proof -
  let ?p = "prepared demo_codec (demo_ops ''app'') demo_slice"
  have x: "es_Labels x = es_Labels (updated_slice demo_codec demo_old ?p)"
    using slice_Apply_stores [OF demo_fields(1,2) demo_runs(1)] assms by (auto simp: demo_old_def demo_slice_def)
  have "go_get (of_nil (es_Labels ?p)) ''app'' = Some ''edge''" "go_get (of_nil (es_Labels ?p)) ''team'' = None"
    by (simp_all add: prepared_def ensureManagedKeysTracking_def eo_ensureManagedMeta_def demo_ops_def demo_slice_def of_nil_def Let_def)
  then show "go_get (of_nil (es_Labels x)) ''app'' = Some ''edge''" "go_get (of_nil (es_Labels x)) ''team'' = Some ''blue''"
    unfolding x updated_slice_get(1) [OF prepared_maps [OF demo_fields(3,4)]]
    by (simp_all add: demo_old_def demo_slice_def of_nil_def get_str_def parseManagedKeys_def gomap_simps)
qed

text \<open>
  The slice carries a label \<open>team\<close> of somebody else. One run labels it with \<open>app\<close>, the next with
  \<open>instance\<close>: then \<open>app\<close> is gone, and \<open>team\<close> is still there.
\<close>

theorem stale_labels_removed_witness:
  "\<exists>x y. find (\<lambda>x. es_Name x = ''s'') demo_run1 = Some x \<and> find (\<lambda>x. es_Name x = ''s'') demo_run2 = Some y
     \<and> go_get (of_nil (es_Labels x)) ''app'' = Some ''edge'' \<and> go_get (of_nil (es_Labels y)) ''app'' = None
     \<and> go_get (of_nil (es_Labels y)) ''team'' = Some ''blue''"
proof -
  have n: "es_Name demo_slice = ''s''" by (simp add: demo_slice_def)
  obtain x y where x: "find (\<lambda>x. es_Name x = ''s'') demo_run1 = Some x" and y: "find (\<lambda>x. es_Name x = ''s'') demo_run2 = Some y"
      and k: "\<And>k. go_get (of_nil (es_Labels y)) k =
        (if go_get (of_nil (es_Labels (prepared demo_codec (demo_ops ''instance'') demo_slice))) k \<noteq> None
         then go_get (of_nil (es_Labels (prepared demo_codec (demo_ops ''instance'') demo_slice))) k
         else if k \<in> managed_labels (demo_ops ''app'') demo_slice then None else go_get (of_nil (es_Labels x)) k)"
    using stale_labels_removed [OF demo_codec_law demo_fields(5,6,1,1,2,2,3,4,3,4) refl demo_runs, unfolded n] by blast
  have "go_get (of_nil (es_Labels y)) ''app'' = None" by (subst k) (simp add: demo_keys)
  moreover have "go_get (of_nil (es_Labels y)) ''team'' = go_get (of_nil (es_Labels x)) ''team''"
    by (subst k) (simp add: demo_keys)
  ultimately show ?thesis using x y demo_run1_labels [OF x] by simp
qed

text \<open>An update on its own: the tracked key \<open>old\<close> goes, the foreign key \<open>team\<close> stays, the new one comes.\<close>

theorem updated_slice_keys_witness:
  "map (go_get (of_nil (es_Labels (updated_slice demo_codec
      (demo_slice\<lparr>es_Labels := Some [(''old'', ''1''), (''team'', ''blue'')],
         es_Annotations := Some [(managedLabelKeysAnnotation, CHR ''k'' # demo_enc [''old''])]\<rparr>)
      (demo_slice\<lparr>es_Labels := Some [(''new'', ''2'')]\<rparr>))))) [''old'', ''team'', ''new''] = [None, Some ''blue'', Some ''2'']"
proof -
  let ?o = "demo_slice\<lparr>es_Labels := Some [(''old'', ''1''), (''team'', ''blue'')],
         es_Annotations := Some [(managedLabelKeysAnnotation, CHR ''k'' # demo_enc [''old''])]\<rparr>"
    and ?n = "demo_slice\<lparr>es_Labels := Some [(''new'', ''2'')]\<rparr>"
  have "wf_map (of_nil (es_Labels ?n))" "wf_map (of_nil (es_Annotations ?n))"
    by (simp_all add: demo_slice_def of_nil_def wf_map_def)
  note k = updated_slice_keys [OF this, of demo_codec ?o, THEN conjunct2, THEN conjunct1, rule_format]
  have "parseManagedKeys demo_codec (CHR ''k'' # demo_enc [''old'']) = [''old'']" by code_simp
  then show ?thesis
    unfolding list.map k by (simp add: demo_slice_def of_nil_def gomap_simps get_str_def)
qed

end
