(* ===== verification/Metrics.thy ===== *)
theory Metrics
  imports Kube AppConfig
begin

text \<open>
  Setting up the metrics (\<^verbatim>\<open>internal/observability/metrics_otel/otelmetrics.go\<close> and
  \<^verbatim>\<open>metrics_prometheus/metrics.go\<close>): a registry with the metrics of the controller, and on the same registry an OpenTelemetry
  meter provider with nine instruments.

  The two SDKs are parameters: the record \<open>otel_sdk\<close> has the constructors that may fail (the seams of the
  source), and registering a metric is a function that fails where \<open>MustRegister\<close> panics. The values a metric
  measures are not modelled, only its kind, its name, its help text and its labels.

  Shown: when setting up OpenTelemetry fails, the provider that was made is shut down again and never becomes the
  global one, and when it succeeds the provider that is returned is the global one; no two metrics have the
  same name and every name is one Prometheus allows, so registering them does not panic.
\<close>

section \<open>OpenTelemetry\<close>

datatype instrument =
    Float64Histogram string string string
  | Int64Counter string string
  | Int64UpDownCounter string string

text \<open>The instruments in the order \<open>SetupOTel\<close> makes them.\<close>

definition otel_instruments :: "instrument list" where
  "otel_instruments =
     [Float64Histogram ''pangolin_controller_reconcile_phase_duration_seconds'' ''Duration of each reconcile phase.'' ''s'',
      Float64Histogram ''pangolin_controller_fetch_duration_seconds'' ''Duration of remote fetch cycle HTTP requests.'' ''s'',
      Float64Histogram ''pangolin_controller_k8s_request_duration_seconds'' ''Duration of Kubernetes API requests.'' ''s'',
      Int64Counter ''pangolin_controller_k8s_requests_total'' ''Total Kubernetes API requests.'',
      Int64Counter ''pangolin_controller_retries_total'' ''Total number of retry attempts by reason.'',
      Int64UpDownCounter ''pangolin_controller_active_reconcile_routines'' ''Number of active reconcile routines by phase.'',
      Float64Histogram ''pangolin_controller_gc_run_duration_seconds'' ''Duration of GC runs.'' ''s'',
      Float64Histogram ''pangolin_controller_config_parse_duration_seconds'' ''Duration of config parsing by section.'' ''s'',
      Int64Counter ''pangolin_controller_loop_iterations_total'' ''Number of controller loop iterations by outcome.'']"

text \<open>The names that other packages may use for them, the attribute keys, and the bounds of the histograms, in milliseconds.\<close>

definition otel_metric_constants :: "string list" where
  "otel_metric_constants =
     [''pangolin_controller_reconcile_phase_duration_seconds'', ''pangolin_controller_fetch_duration_seconds'',
      ''pangolin_controller_k8s_request_duration_seconds'', ''pangolin_controller_gc_run_duration_seconds'',
      ''pangolin_controller_config_parse_duration_seconds'', ''pangolin_controller_k8s_requests_total'',
      ''pangolin_controller_retries_total'', ''pangolin_controller_loop_iterations_total'']"

definition otel_attributes :: "string list" where
  "otel_attributes =
     [''phase'', ''result'', ''status_class'', ''verb'', ''resource_kind'', ''forced'', ''reason'', ''operation'', ''section'',
      ''outcome'']"

definition defaultDurationBuckets :: "int list" where
  "defaultDurationBuckets = [1, 5, 10, 25, 50, 100, 250, 500, 1000, 2500, 5000, 10000]"

fun instrument_name :: "instrument \<Rightarrow> string" where
  "instrument_name (Float64Histogram n _ _) = n"
| "instrument_name (Int64Counter n _) = n"
| "instrument_name (Int64UpDownCounter n _) = n"

text \<open>Every constant names an instrument, the keys differ, and the bounds increase, as a histogram requires.\<close>

lemma otel_constants_ok:
  "set otel_metric_constants \<subseteq> set (map instrument_name otel_instruments)"
  "distinct otel_attributes" "sorted_wrt (<) defaultDurationBuckets"
  by code_simp+

record ('w, 'p) otel_sdk =
  resource_New :: "string \<Rightarrow> string \<Rightarrow> string \<Rightarrow> ('w, unit) io"
  newPromExporter :: "('w, unit) io"
  newMeterProviderFromReader :: "'w \<Rightarrow> 'p \<times> 'w"
  make_instrument :: "'p \<Rightarrow> instrument \<Rightarrow> ('w, unit) io"
  mp_Shutdown :: "'p \<Rightarrow> ('w, unit) io"
  SetMeterProvider :: "'p \<Rightarrow> 'w \<Rightarrow> 'w"
  runtime_Start :: "('w, unit) io"

definition getInstanceID :: "host \<Rightarrow> string result \<Rightarrow> string" where
  "getInstanceID h hostname =
     (let uid = Getenv h ''POD_UID'' in
      if uid \<noteq> [] then uid else case hostname of Inr hn \<Rightarrow> hn | Inl _ \<Rightarrow> ''unknown'')"

text \<open>The nine assignments: on the first failure the provider is shut down, whatever that returns.\<close>

fun make_instruments :: "('w, 'p) otel_sdk \<Rightarrow> 'p \<Rightarrow> instrument list \<Rightarrow> ('w, unit) io" where
  "make_instruments sdk mp [] = retIO ()"
| "make_instruments sdk mp (i # is) =
     caseIO (make_instrument sdk mp i)
       (\<lambda>err. caseIO (mp_Shutdown sdk mp) (\<lambda>_. failIO err) (\<lambda>_. failIO err))
       (\<lambda>_. make_instruments sdk mp is)"

definition SetupOTel ::
  "('w, 'p) otel_sdk \<Rightarrow> host \<Rightarrow> string result \<Rightarrow> string \<Rightarrow> bool \<Rightarrow> ('w, 'p) io" where
  "SetupOTel sdk h hostname version registry =
     (if \<not> registry then failIO (ErrMsg ''registry is nil'')
      else
        thenIO (resource_New sdk ''pangolin-kube-controller'' version (getInstanceID h hostname))
       (thenIO (newPromExporter sdk)
         (\<lambda>w. case newMeterProviderFromReader sdk w of (mp, w') \<Rightarrow>
            thenIO (make_instruments sdk mp otel_instruments)
              (\<lambda>w. caseIO (runtime_Start sdk) (\<lambda>_. retIO mp) (\<lambda>_. retIO mp) (SetMeterProvider sdk mp w)) w')))"

definition OTel_Shutdown :: "('w, 'p) otel_sdk \<Rightarrow> 'p option \<Rightarrow> ('w, unit) io" where
  "OTel_Shutdown sdk provider = (case provider of None \<Rightarrow> retIO () | Some mp \<Rightarrow> mp_Shutdown sdk mp)"

section \<open>Prometheus\<close>

datatype metric_kind = Histogram | Counter | Gauge

record metric =
  mt_Kind :: metric_kind
  mt_Name :: string
  mt_Help :: string
  mt_Labels :: "string list"

text \<open>The metrics \<open>NewCollector\<close> registers, in that order; a metric with labels is a vector.\<close>

definition collector_metrics :: "metric list" where
  "collector_metrics =
     [\<lparr>mt_Kind = Histogram, mt_Name = ''pangolin_kube_controller_reconcile_seconds'', mt_Help = ''Duration of a full successful reconcile loop'', mt_Labels = []\<rparr>,
      \<lparr>mt_Kind = Counter, mt_Name = ''pangolin_kube_controller_reconcile_errors_total'', mt_Help = ''Total errors during reconcile steps'', mt_Labels = []\<rparr>,
      \<lparr>mt_Kind = Counter, mt_Name = ''pangolin_kube_controller_objects_applied_total'', mt_Help = ''Applied (create/patch) objects by kind'', mt_Labels = [''kind'', ''action'']\<rparr>,
      \<lparr>mt_Kind = Counter, mt_Name = ''pangolin_kube_controller_objects_deleted_total'', mt_Help = ''Deleted objects by kind'', mt_Labels = [''kind'']\<rparr>,
      \<lparr>mt_Kind = Gauge, mt_Name = ''pangolin_kube_controller_ready'', mt_Help = ''Readiness state of the controller (1=ready,0=not ready)'', mt_Labels = []\<rparr>,
      \<lparr>mt_Kind = Gauge, mt_Name = ''pangolin_kube_controller_consecutive_errors'', mt_Help = ''Number of consecutive reconcile errors'', mt_Labels = []\<rparr>,
      \<lparr>mt_Kind = Gauge, mt_Name = ''pangolin_kube_controller_last_fetch_success_timestamp_seconds'', mt_Help = ''Unix timestamp of last successful fetch'', mt_Labels = []\<rparr>,
      \<lparr>mt_Kind = Gauge, mt_Name = ''pangolin_kube_controller_desired_objects_count'', mt_Help = ''Desired objects count by kind'', mt_Labels = [''kind'']\<rparr>,
      \<lparr>mt_Kind = Counter, mt_Name = ''pangolin_kube_controller_gc_deleted_total'', mt_Help = ''GC deleted objects by kind and reason'', mt_Labels = [''kind'', ''reason'']\<rparr>,
      \<lparr>mt_Kind = Counter, mt_Name = ''pangolin_kube_controller_gc_runs_total'', mt_Help = ''GC runs by result'', mt_Labels = [''result'']\<rparr>,
      \<lparr>mt_Kind = Counter, mt_Name = ''pangolin_kube_controller_instance_label_detect_success_total'', mt_Help = ''Successful instance label resolutions'', mt_Labels = []\<rparr>,
      \<lparr>mt_Kind = Counter, mt_Name = ''pangolin_kube_controller_instance_label_detect_failure_total'', mt_Help = ''Failed instance label resolutions/verification'', mt_Labels = []\<rparr>,
      \<lparr>mt_Kind = Gauge, mt_Name = ''pangolin_kube_controller_instance_label_last_check_timestamp_seconds'', mt_Help = ''Unix timestamp of last instance label verification'', mt_Labels = []\<rparr>]"

record ('r, 'p) Collector =
  col_Registry :: 'r
  col_OTel :: "'p option"

fun MustRegister :: "(metric \<Rightarrow> 'r \<Rightarrow> 'r option) \<Rightarrow> metric list \<Rightarrow> 'r \<Rightarrow> 'r option" where
  "MustRegister register [] r = Some r"
| "MustRegister register (m # ms) r = Option.bind (register m r) (MustRegister register ms)"

text \<open>
  \<open>reg\<close> is the new registry with the collectors of the Go runtime and the process. A failure of
  \<open>SetupOTel\<close> is only logged. \<open>None\<close> is a panic.
\<close>

definition NewCollector ::
  "(metric \<Rightarrow> 'r \<Rightarrow> 'r option) \<Rightarrow> 'r \<Rightarrow> ('w, 'p) io \<Rightarrow> 'w \<Rightarrow> (('r, 'p) Collector \<times> 'w) option" where
  "NewCollector register reg setup w =
     map_option (\<lambda>r. case setup w of
         (Inl _, w') \<Rightarrow> (\<lparr>col_Registry = r, col_OTel = None\<rparr>, w')
       | (Inr ot, w') \<Rightarrow> (\<lparr>col_Registry = r, col_OTel = Some ot\<rparr>, w'))
       (MustRegister register collector_metrics reg)"

definition ShutdownOTel :: "('w, 'p) otel_sdk \<Rightarrow> ('r, 'p) Collector \<Rightarrow> ('w, unit) io" where
  "ShutdownOTel sdk c = (case col_OTel c of None \<Rightarrow> retIO () | Some ot \<Rightarrow> OTel_Shutdown sdk (Some ot))"

section \<open>A failed setup leaves no provider behind\<close>

text \<open>
  The providers that are running and the global one, seen through \<open>live\<close> and \<open>globl\<close>: making a provider adds a
  new one, shutting it down removes it, only \<open>SetMeterProvider\<close> changes the global one.
\<close>

definition otel_laws :: "('w, 'p) otel_sdk \<Rightarrow> ('w \<Rightarrow> 'p set) \<Rightarrow> ('w \<Rightarrow> 'p option) \<Rightarrow> bool" where
  "otel_laws sdk live globl \<longleftrightarrow>
     (\<forall>s v i w. live (snd (resource_New sdk s v i w)) = live w \<and> globl (snd (resource_New sdk s v i w)) = globl w)
   \<and> (\<forall>w. live (snd (newPromExporter sdk w)) = live w \<and> globl (snd (newPromExporter sdk w)) = globl w)
   \<and> (\<forall>w. fst (newMeterProviderFromReader sdk w) \<notin> live w
        \<and> live (snd (newMeterProviderFromReader sdk w)) = insert (fst (newMeterProviderFromReader sdk w)) (live w)
        \<and> globl (snd (newMeterProviderFromReader sdk w)) = globl w)
   \<and> (\<forall>p i w. live (snd (make_instrument sdk p i w)) = live w \<and> globl (snd (make_instrument sdk p i w)) = globl w)
   \<and> (\<forall>p w. live (snd (mp_Shutdown sdk p w)) = live w - {p} \<and> globl (snd (mp_Shutdown sdk p w)) = globl w)
   \<and> (\<forall>p w. live (SetMeterProvider sdk p w) = live w \<and> globl (SetMeterProvider sdk p w) = Some p)
   \<and> (\<forall>w. live (snd (runtime_Start sdk w)) = live w \<and> globl (snd (runtime_Start sdk w)) = globl w)"

lemma make_instruments_effect:
  assumes "otel_laws sdk live globl" and "make_instruments sdk mp is w = (r, w')"
  shows "globl w' = globl w \<and> live w' = (case r of Inl _ \<Rightarrow> live w - {mp} | Inr _ \<Rightarrow> live w)"
  using assms(2)
proof (induction "is" arbitrary: w)
  case (Cons i "is")
  obtain x v where x: "make_instrument sdk mp i w = (x, v)" by fastforce
  have v: "live v = live w" "globl v = globl w" using assms(1) x by (simp_all add: otel_laws_def) (metis snd_conv)+
  show ?case
  proof (cases x)
    case (Inr u)
    with Cons.prems x have "make_instruments sdk mp is v = (r, w')" by (simp add: caseIO_def)
    from Cons.IH [OF this] v show ?thesis by (simp split: sum.splits)
  next
    case (Inl e)
    obtain y v' where y: "mp_Shutdown sdk mp v = (y, v')" by fastforce
    then have "live v' = live v - {mp}" "globl v' = globl v"
      using assms(1) by (simp_all add: otel_laws_def) (metis snd_conv)+
    with Inl Cons.prems x y v show ?thesis by (auto simp: caseIO_def split: sum.splits)
  qed
qed auto

lemma SetupOTel_effect:
  assumes "otel_laws sdk live globl" and "SetupOTel sdk h hostname version registry w = (r, w')"
  shows "case r of
      Inr mp \<Rightarrow> mp \<in> live w' \<and> live w' - {mp} = live w \<and> globl w' = Some mp
    | Inl _ \<Rightarrow> live w' = live w \<and> globl w' = globl w"
proof (cases registry)
  case False
  with assms(2) show ?thesis by (auto simp: SetupOTel_def)
next
  case True
  let ?res = "resource_New sdk ''pangolin-kube-controller'' version (getInstanceID h hostname)"
  obtain r1 w1 where r1: "?res w = (r1, w1)" by fastforce
  obtain r2 w2 where r2: "newPromExporter sdk w1 = (r2, w2)" by fastforce
  obtain mp w3 where mp: "newMeterProviderFromReader sdk w2 = (mp, w3)" by fastforce
  obtain r4 w4 where r4: "make_instruments sdk mp otel_instruments w3 = (r4, w4)" by fastforce
  obtain r5 w5 where r5: "runtime_Start sdk (SetMeterProvider sdk mp w4) = (r5, w5)" by fastforce
  have e: "live w1 = live w" "globl w1 = globl w" "live w2 = live w1" "globl w2 = globl w1"
      "mp \<notin> live w2" "live w3 = insert mp (live w2)" "globl w3 = globl w2" "live w5 = live w4" "globl w5 = Some mp"
    using assms(1) r1 r2 mp r5 unfolding otel_laws_def by (metis fst_conv snd_conv)+
  note m = make_instruments_effect [OF assms(1) r4]
  show ?thesis
  proof (cases r1)
    case (Inl x)
    with assms(2) True r1 e show ?thesis by (auto simp: SetupOTel_def io_defs)
  next
    case i1: (Inr x)
    show ?thesis
    proof (cases r2)
      case (Inl y)
      with assms(2) True r1 r2 i1 e show ?thesis by (auto simp: SetupOTel_def io_defs)
    next
      case i2: (Inr y)
      with assms(2) True r1 r2 i1 mp r4 r5
      have "(r, w') = (case r4 of Inl err \<Rightarrow> (Inl err, w4) | Inr _ \<Rightarrow> (Inr mp, w5))"
        by (auto simp: SetupOTel_def io_defs split: sum.splits)
      with m e show ?thesis by (auto split: sum.splits)
    qed
  qed
qed

text \<open>
  Setting up OpenTelemetry either returns a provider that is running and is the global one, or fails
  and leaves the running providers and the global one as they were.
\<close>

theorem SetupOTel_clean:
  assumes "otel_laws sdk live globl" and "SetupOTel sdk h hostname version registry w = (r, w')"
  shows "case r of
      Inr mp \<Rightarrow> mp \<in> live w' \<and> live w' - {mp} = live w \<and> globl w' = Some mp
    | Inl _ \<Rightarrow> live w' = live w \<and> globl w' = globl w"
  by (rule SetupOTel_effect [OF assms])

section \<open>Names\<close>

text \<open>\<open>[a-zA-Z_:][a-zA-Z0-9_:]*\<close>.\<close>

definition name_char :: "char \<Rightarrow> bool" where
  "name_char c \<longleftrightarrow> 97 \<le> byte_of c \<and> byte_of c \<le> 122 \<or> 65 \<le> byte_of c \<and> byte_of c \<le> 90 \<or> c = CHR ''_'' \<or> c = CHR '':''"

definition metric_name_ok :: "string \<Rightarrow> bool" where
  "metric_name_ok s \<longleftrightarrow> s \<noteq> [] \<and> name_char (hd s) \<and> list_all (\<lambda>c. name_char c \<or> is_digit c) s"

text \<open>What is relied on of a registry: a metric with a valid name that is not taken is accepted.\<close>

definition register_law :: "(metric \<Rightarrow> 'r \<Rightarrow> 'r option) \<Rightarrow> ('r \<Rightarrow> string set) \<Rightarrow> bool" where
  "register_law register taken \<longleftrightarrow>
     (\<forall>m r. metric_name_ok (mt_Name m) \<and> list_all metric_name_ok (mt_Labels m) \<and> mt_Name m \<notin> taken r \<longrightarrow>
        (\<exists>r'. register m r = Some r' \<and> taken r' = insert (mt_Name m) (taken r)))"

lemma collector_names_distinct: "distinct (map mt_Name collector_metrics)"
  by (simp add: collector_metrics_def)

lemma collector_names_ok:
  "list_all (\<lambda>m. metric_name_ok (mt_Name m) \<and> list_all metric_name_ok (mt_Labels m)) collector_metrics"
  by (simp add: collector_metrics_def metric_name_ok_def name_char_def byte_of_def)

lemma MustRegister_all:
  assumes "register_law register taken"
  shows "list_all (\<lambda>m. metric_name_ok (mt_Name m) \<and> list_all metric_name_ok (mt_Labels m)) ms \<Longrightarrow>
    distinct (map mt_Name ms) \<Longrightarrow> set (map mt_Name ms) \<inter> taken r = {} \<Longrightarrow>
    \<exists>r'. MustRegister register ms r = Some r' \<and> taken r' = taken r \<union> set (map mt_Name ms)"
proof (induction ms arbitrary: r)
  case (Cons m ms)
  then have "metric_name_ok (mt_Name m) \<and> list_all metric_name_ok (mt_Labels m) \<and> mt_Name m \<notin> taken r" by simp
  then obtain r1 where r1: "register m r = Some r1" "taken r1 = insert (mt_Name m) (taken r)"
    using assms unfolding register_law_def by blast
  with Cons.IH [of r1] Cons.prems show ?case by auto
qed simp

lemma MustRegister_collector:
  assumes "register_law register taken" and "taken reg \<inter> set (map mt_Name collector_metrics) = {}"
  obtains r where "MustRegister register collector_metrics reg = Some r"
    and "taken r = taken reg \<union> set (map mt_Name collector_metrics)"
  using MustRegister_all [OF assms(1) collector_names_ok collector_names_distinct, of reg] assms(2) that by (auto simp: Int_commute)

text \<open>
  Making the collector does not panic: with a registry in which no name of the controller is taken,
  all metrics are registered, and a failure to set up OpenTelemetry is not a failure to make the
  collector.
\<close>

theorem NewCollector_no_panic:
  assumes "register_law register taken" and "taken reg \<inter> set (map mt_Name collector_metrics) = {}"
  shows "\<exists>c w'. NewCollector register reg setup w = Some (c, w')
    \<and> taken (col_Registry c) = taken reg \<union> set (map mt_Name collector_metrics)
    \<and> (col_OTel c = None \<longleftrightarrow> isl (fst (setup w)))"
proof -
  obtain r where r: "MustRegister register collector_metrics reg = Some r"
      "taken r = taken reg \<union> set (map mt_Name collector_metrics)"
    using assms by (rule MustRegister_collector)
  then show ?thesis by (cases "setup w"; cases "fst (setup w)") (auto simp: NewCollector_def)
qed

section \<open>Instances\<close>

definition demo_sdk :: "instrument option \<Rightarrow> (nat list \<times> nat option, nat) otel_sdk" where
  "demo_sdk bad =
     \<lparr>resource_New = (\<lambda>_ _ _ w. (Inr (), w)), newPromExporter = (\<lambda>w. (Inr (), w)),
      newMeterProviderFromReader = (\<lambda>w. (Suc (Max (set (0 # fst w))), (Suc (Max (set (0 # fst w))) # fst w, snd w))),
      make_instrument = (\<lambda>p i w. (if bad = Some i then Inl (ErrMsg ''no'') else Inr (), w)),
      mp_Shutdown = (\<lambda>p w. (Inr (), (removeAll p (fst w), snd w))),
      SetMeterProvider = (\<lambda>p w. (fst w, Some p)), runtime_Start = (\<lambda>w. (Inr (), w))\<rparr>"

lemma demo_sdk_laws: "otel_laws (demo_sdk bad) (\<lambda>w. set (fst w)) snd"
proof -
  have "Suc (Max (set (0 # xs))) \<notin> set xs" for xs :: "nat list"
  proof
    assume "Suc (Max (set (0 # xs))) \<in> set xs"
    then have "Suc (Max (set (0 # xs))) \<le> Max (set (0 # xs))" by (intro Max_ge) auto
    then show False by simp
  qed
  then show ?thesis by (simp add: otel_laws_def demo_sdk_def)
qed

definition setup_demo :: "instrument option \<Rightarrow> nat result \<times> (nat list \<times> nat option)" where
  "setup_demo bad = SetupOTel (demo_sdk bad) example_host (Inr ''node'') ''dev'' True ([], None)"

theorem SetupOTel_clean_witness:
  "isl (fst (setup_demo (Some (hd otel_instruments)))) \<and> set (fst (snd (setup_demo (Some (hd otel_instruments))))) = {}
   \<and> (\<exists>mp. fst (setup_demo None) = Inr mp \<and> snd (snd (setup_demo None)) = Some mp)"
proof -
  let ?bad = "Some (hd otel_instruments)"
  have c: "isl (fst (setup_demo ?bad))" "\<not> isl (fst (setup_demo None))"
    unfolding setup_demo_def SetupOTel_def otel_instruments_def by (simp_all add: demo_sdk_def io_defs)
  have s: "case fst (setup_demo bad) of
      Inr mp \<Rightarrow> mp \<in> set (fst (snd (setup_demo bad))) \<and> set (fst (snd (setup_demo bad))) - {mp} = set [] \<and> snd (snd (setup_demo bad)) = Some mp
    | Inl _ \<Rightarrow> set (fst (snd (setup_demo bad))) = set [] \<and> snd (snd (setup_demo bad)) = None" for bad
    using SetupOTel_clean [OF demo_sdk_laws [of bad],
        of example_host "Inr ''node''" "''dev''" True "([], None)" "fst (setup_demo bad)" "snd (setup_demo bad)"]
    by (simp add: setup_demo_def split: sum.splits)
  from s [of ?bad] s [of None] c show ?thesis by (auto split: sum.splits)
qed

definition demo_register :: "metric \<Rightarrow> string list \<Rightarrow> string list option" where
  "demo_register m r = (if mt_Name m \<in> set r then None else Some (mt_Name m # r))"

lemma demo_register_law: "register_law demo_register set"
  by (simp add: register_law_def demo_register_def)

theorem NewCollector_no_panic_witness:
  "\<exists>c w'. NewCollector demo_register []
     (failIO (ErrMsg ''no'') :: (unit, unit) io) () = Some (c, w') \<and> col_OTel c = None"
  using NewCollector_no_panic [OF demo_register_law, of "[]" "failIO (ErrMsg ''no'') :: (unit, unit) io" "()"] by auto

end
