(* ===== verification/Reporting.thy ===== *)
theory Reporting
  imports Loop
begin

text \<open>
  What the controller reports: the metrics of the poll loop (\<^verbatim>\<open>internal/controller/loop.go\<close>,
  \<^verbatim>\<open>readiness.go\<close>, with the collector of \<^verbatim>\<open>internal/observability\<close>) and the log lines of its decisions.

  The functions of the loop are translated a second time, now with the metrics they write: \<open>f_m\<close> is the
  function \<open>f\<close> on the state of the loop and the collector. The collector may be missing, and its OpenTelemetry
  part as well; a metric is then not written. Durations that are observed are kept in a list.

  Shown: the loop with metrics does to its state what the loop of \<open>Loop.thy\<close> does, and returns when it does;
  and what one iteration adds to the metrics. \<open>Accounting.thy\<close> adds this up over whole runs.
\<close>

section \<open>The collector\<close>

record LoopMetrics =
  ConsecutiveErrors :: int
  ReconcileErrors :: nat
  Ready_gauge :: int
  LastFetchSuccess :: int
  ReconcileDuration :: "int list"
  has_OTel :: bool
  LoopIterationsTotal :: "string \<Rightarrow> nat"
  ConfigParseDuration :: "int list"

type_synonym 'w reportst = "'w loopst \<times> LoopMetrics option"

text \<open>The collector as it is made: every value is zero.\<close>

definition new_collector :: "bool \<Rightarrow> LoopMetrics" where
  "new_collector otel =
     \<lparr>ConsecutiveErrors = 0, ReconcileErrors = 0, Ready_gauge = 0, LastFetchSuccess = 0, ReconcileDuration = [],
      has_OTel = otel, LoopIterationsTotal = (\<lambda>_. 0), ConfigParseDuration = []\<rparr>"

definition setReady :: "int \<Rightarrow> LoopMetrics option \<Rightarrow> LoopMetrics option" where
  "setReady v collector = (case collector of None \<Rightarrow> None | Some m \<Rightarrow> Some (m\<lparr>Ready_gauge := v\<rparr>))"

text \<open>\<open>LoopIterationsTotal.Add\<close> with an outcome attribute, when there is an OpenTelemetry part.\<close>

definition count_iteration :: "string \<Rightarrow> LoopMetrics option \<Rightarrow> LoopMetrics option" where
  "count_iteration o' collector =
     (case collector of
        None \<Rightarrow> None
      | Some m \<Rightarrow>
          Some (if has_OTel m
                then m\<lparr>LoopIterationsTotal := (LoopIterationsTotal m)(o' := Suc (LoopIterationsTotal m o'))\<rparr>
                else m))"

section \<open>The parts of an iteration with their metrics\<close>

definition resetConsecutiveErrors_m :: "'w reportst \<Rightarrow> 'w reportst" where
  "resetConsecutiveErrors_m = (\<lambda>(s, collector).
     (s\<lparr>consecutiveErrors := 0\<rparr>,
      case collector of None \<Rightarrow> None | Some m \<Rightarrow> Some (m\<lparr>ConsecutiveErrors := 0\<rparr>)))"

definition handleReconcileError_m :: "'w reportst \<Rightarrow> 'w reportst" where
  "handleReconcileError_m = (\<lambda>(s, collector).
     let s = s\<lparr>consecutiveErrors := consecutiveErrors s + 1\<rparr> in
     (s, case collector of
           None \<Rightarrow> None
         | Some m \<Rightarrow>
             let m = m\<lparr>ReconcileErrors := Suc (ReconcileErrors m)\<rparr>;
                 m = m\<lparr>ConsecutiveErrors := consecutiveErrors s\<rparr>
             in count_iteration ''error'' (Some m)))"

definition handleFetchOutcome_m ::
  "'w looplib \<Rightarrow> 'w Controller \<Rightarrow> bool \<Rightarrow> bool \<Rightarrow> 'w reportst \<Rightarrow> bool \<times> 'w reportst" where
  "handleFetchOutcome_m lib c ok proceed = (\<lambda>(s, collector).
     if \<not> ok then
       (let s = s\<lparr>consecutiveErrors := consecutiveErrors s + 1\<rparr>;
            collector = (case collector of
                None \<Rightarrow> None
              | Some m \<Rightarrow>
                  let m = m\<lparr>ConsecutiveErrors := consecutiveErrors s\<rparr>
                  in Some (m\<lparr>ReconcileErrors := Suc (ReconcileErrors m)\<rparr>));
            collector = count_iteration ''error'' collector
        in (True, sleepWithBackoff lib c (consecutiveErrors s) s, collector))
     else if \<not> proceed then
       (let t = clock lib s;
            s = s\<lparr>consecutiveErrors := 0, lastSuccessfulReconcile := t\<rparr>;
            collector = (case collector of
                None \<Rightarrow> None
              | Some m \<Rightarrow>
                  let m = m\<lparr>ConsecutiveErrors := 0\<rparr>;
                      m = m\<lparr>LastFetchSuccess := t div Second\<rparr>
                  in setReady 1 (Some m));
            collector = count_iteration ''nochange'' collector
        in (True, sleepWithBackoff lib c 0 s, collector))
     else (False, s, collector))"

text \<open>Decoding does not move the clock of the model, so the time observed for it is zero.\<close>

definition observe_parse :: "int \<Rightarrow> LoopMetrics option \<Rightarrow> LoopMetrics option" where
  "observe_parse d collector =
     (case collector of
        None \<Rightarrow> None
      | Some m \<Rightarrow> Some (if has_OTel m then m\<lparr>ConfigParseDuration := ConfigParseDuration m @ [d]\<rparr> else m))"

definition processAndApply_m ::
  "'w looplib \<Rightarrow> (TraefikConfig \<Rightarrow> ('w kst, unit) io) \<Rightarrow> 'w Controller \<Rightarrow> string \<Rightarrow> 'w reportst \<Rightarrow> bool \<times> 'w reportst" where
  "processAndApply_m lib par c body = (\<lambda>(s, collector).
     let pstart = clock lib s;
         parsed = parseTraefikConfig (json_of lib body);
         collector = observe_parse (clock lib s - pstart) collector in
     case parsed of
       Inl err \<Rightarrow>
         (let (s, collector) = handleReconcileError_m (s, collector)
          in (False, sleepWithBackoff lib c (consecutiveErrors s) s, collector))
     | Inr cfg \<Rightarrow>
         (case applyConfig par c (Some cfg) (ks s) of
            (Inl err, k) \<Rightarrow>
              (let (s, collector) = handleReconcileError_m (s\<lparr>ks := k\<rparr>, collector)
               in (False, sleepWithBackoff lib c (consecutiveErrors s) s, collector))
          | (Inr _, k) \<Rightarrow> (True, s\<lparr>ks := k\<rparr>, collector)))"

definition recordSyncSuccess_m :: "'w looplib \<Rightarrow> int \<Rightarrow> 'w reportst \<Rightarrow> 'w reportst" where
  "recordSyncSuccess_m lib start = (\<lambda>(s, collector).
     let t = clock lib s;
         s = s\<lparr>lastSuccessfulReconcile := t\<rparr>;
         elapsed = t - start in
     (s, case collector of
           None \<Rightarrow> None
         | Some m \<Rightarrow>
             let m = m\<lparr>LastFetchSuccess := t div Second\<rparr>;
                 m = (case setReady 1 (Some m) of None \<Rightarrow> m | Some m \<Rightarrow> m);
                 m = m\<lparr>ReconcileDuration := ReconcileDuration m @ [elapsed]\<rparr>
             in count_iteration ''success'' (Some m)))"

section \<open>The loop with its metrics\<close>

definition runLoop_iter_m ::
  "'w looplib \<Rightarrow> (TraefikConfig \<Rightarrow> ('w kst, unit) io) \<Rightarrow> 'w Controller \<Rightarrow> 'w reportst \<Rightarrow> outcome \<times> 'w reportst" where
  "runLoop_iter_m lib par c = (\<lambda>(s, collector).
     if ctx_done lib (kube (ks s)) then (Cancelled, s, collector)
     else
       let start = clock lib s;
           logAtInfo = shouldLogFetchInfo (c_cfg c) start (lastFetchInfoLog s);
           s = s\<lparr>lastFetchInfoLog := logPollingStart logAtInfo start (lastFetchInfoLog s)\<rparr>
       in case k_io (fetchConfigOnce (lib_host lib) (c_net c) (http_Do lib) (c_cfg c)
                  (computeIfNoneMatch (lastETagIsHeader s) (lastETag s))) (ks s) of
            (Inl err, k) \<Rightarrow>
              (let (s, collector) = handleReconcileError_m (s\<lparr>ks := k\<rparr>, collector)
               in (FetchFailed, sleepWithBackoff lib c (consecutiveErrors s) s, collector))
          | (Inr (etagHeader, body, status), k) \<Rightarrow>
              (case shouldProceedAfterStatus body etagHeader status (lastETag s) (lastHash s) (lastETagIsHeader s) of
                 (cfgBody, etagHeaderAdj, proceed, ok, hash) \<Rightarrow>
                   (case handleFetchOutcome_m lib c ok proceed (s\<lparr>ks := k\<rparr>, collector) of
                      (True, sm) \<Rightarrow> (if ok then NoChange else Rejected, sm)
                    | (False, sm) \<Rightarrow>
                        (let body = (case cfgBody of None \<Rightarrow> [] | Some b \<Rightarrow> b) in
                         case processAndApply_m lib par c body (resetConsecutiveErrors_m sm) of
                           (False, sm) \<Rightarrow> (ApplyFailed etagHeaderAdj body, sm)
                         | (True, s, collector) \<Rightarrow>
                             (let s = updateSignaturesAfterSuccess etagHeaderAdj body s;
                                  (s, collector) = recordSyncSuccess_m lib start (s, collector)
                              in (Applied etagHeaderAdj body, sleepWithBackoff lib c 0 s, collector))))))"

partial_function (option) runLoop_m ::
  "'w looplib \<Rightarrow> (TraefikConfig \<Rightarrow> ('w kst, unit) io) \<Rightarrow> 'w Controller \<Rightarrow> 'w reportst \<Rightarrow> 'w reportst option" where
  "runLoop_m lib par c sm =
     (case runLoop_iter_m lib par c sm of
        (Cancelled, sm') \<Rightarrow> Some sm'
      | (_, sm') \<Rightarrow> runLoop_m lib par c sm')"

definition Ready_m :: "'w looplib \<Rightarrow> 'w Controller \<Rightarrow> 'w reportst \<Rightarrow> bool \<times> 'w reportst" where
  "Ready_m lib c = (\<lambda>(s, collector).
     let ts = lastSuccessfulReconcile s in
     if ts = 0 then (False, s, setReady 0 collector)
     else
       let pi = (if PollInterval (c_cfg c) > 0 then PollInterval (c_cfg c) else Second)
       in if clock lib s - ts > wrap64 (5 * pi) then (False, s, setReady 0 collector)
          else (True, s, setReady 1 collector))"

section \<open>Log lines\<close>

datatype log_line = LogInfo string | LogDebug string

definition orNone :: "string \<Rightarrow> string" where
  "orNone v = (if v = [] then ''<none>'' else v)"

definition logFetchDecision :: "bool \<Rightarrow> bool \<Rightarrow> bool \<Rightarrow> string \<Rightarrow> string \<Rightarrow> int \<Rightarrow> log_line list" where
  "logFetchDecision ok proceed info etag hash payloadLen =
     (if \<not> ok then []
      else if proceed then
        [LogInfo (''Detected Traefik config update (etag='' @ orNone etag @ '' sha256='' @ hash @ ''); reconciling''),
         LogDebug (''Traefik config update payload bytes='' @ itoa payloadLen)]
      else if info then [LogInfo (''Traefik config unchanged (etag='' @ orNone etag @ '')'')]
      else [LogDebug (''Traefik config unchanged (etag='' @ orNone etag @ '')'')])"

definition onNewLeader :: "string \<Rightarrow> string \<Rightarrow> log_line list" where
  "onNewLeader id' current = (if current \<noteq> id' then [LogInfo (''New leader observed: '' @ current)] else [])"

definition logServerStart :: "string \<Rightarrow> bool \<Rightarrow> log_line list" where
  "logServerStart addr tls =
     (if tls then [LogInfo (''metrics server starting with TLS on '' @ addr)] else [LogInfo (''metrics server starting on '' @ addr)])"

section \<open>The same loop\<close>

lemma handleFetchOutcome_projects:
  "handleFetchOutcome lib c ok proceed s = map_prod id fst (handleFetchOutcome_m lib c ok proceed (s, m))"
  by (simp add: handleFetchOutcome_def handleFetchOutcome_m_def Let_def)

lemma processAndApply_projects:
  "processAndApply lib par c body s = map_prod id fst (processAndApply_m lib par c body (s, m))"
  by (simp add: processAndApply_def processAndApply_m_def handleReconcileError_def handleReconcileError_m_def Let_def
      split: sum.split prod.split)

lemma reset_projects: "resetConsecutiveErrors s = fst (resetConsecutiveErrors_m (s, m))"
  by (simp add: resetConsecutiveErrors_def resetConsecutiveErrors_m_def)

lemma success_projects: "recordSyncSuccess lib s = fst (recordSyncSuccess_m lib start (s, m))"
  by (simp add: recordSyncSuccess_def recordSyncSuccess_m_def Let_def)

lemma iter_m_cases:
  fixes lib :: "'w looplib"
  assumes "runLoop_iter_m lib par c (s, m) = (out, s', m')"
  obtains (cancelled) "out = Cancelled" "s' = s" "m' = m" "runLoop_iter lib par c s = (Cancelled, s)"
    | (fetch) s1 :: "'w loopst" where "out = FetchFailed" "consecutiveErrors s' = consecutiveErrors s1 + 1"
      "m' = snd (handleReconcileError_m (s1, m))" "runLoop_iter lib par c s = (FetchFailed, s')"
    | (ended) s1 ok where "handleFetchOutcome_m lib c ok False (s1, m) = (True, s', m')" "out = (if ok then NoChange else Rejected)"
      "runLoop_iter lib par c s = (out, s')"
    | (failed) s1 b e where "processAndApply_m lib par c b (resetConsecutiveErrors_m (s1, m)) = (False, s', m')" "out = ApplyFailed e b"
      "runLoop_iter lib par c s = (out, s')"
    | (applied) s1 b e s2 m2 s3 start where "processAndApply_m lib par c b (resetConsecutiveErrors_m (s1, m)) = (True, s2, m2)"
      "recordSyncSuccess_m lib start (s3, m2) = (s3\<lparr>lastSuccessfulReconcile := clock lib s3\<rparr>, m')"
      "consecutiveErrors s' = consecutiveErrors s2" "out = Applied e b" "runLoop_iter lib par c s = (out, s')"
proof (cases "ctx_done lib (kube (ks s))")
  case True
  with assms cancelled show ?thesis by (simp add: runLoop_iter_def runLoop_iter_m_def)
next
  case False
  let ?s = "s\<lparr>lastFetchInfoLog := logPollingStart (shouldLogFetchInfo (c_cfg c) (clock lib s) (lastFetchInfoLog s)) (clock lib s)
      (lastFetchInfoLog s)\<rparr>"
  obtain r k where f: "k_io (fetchConfigOnce (lib_host lib) (c_net c) (http_Do lib) (c_cfg c)
      (computeIfNoneMatch (lastETagIsHeader s) (lastETag s))) (ks s) = (r, k)" by fastforce
  show ?thesis
  proof (cases r)
    case (Inl e)
    with assms False f show ?thesis
      by (intro fetch [of "?s\<lparr>ks := k\<rparr>"])
        (auto simp: runLoop_iter_m_def runLoop_iter_def handleReconcileError_m_def handleReconcileError_def Let_def)
  next
    case (Inr x)
    obtain etag body status where x: "x = (etag, body, status)" by (metis prod_cases3)
    obtain cb e proceed ok h where p:
      "shouldProceedAfterStatus body etag status (lastETag s) (lastHash s) (lastETagIsHeader s) = (cb, e, proceed, ok, h)"
      by (metis prod_cases5)
    note step = False f Inr x p Let_def runLoop_iter_m_def runLoop_iter_def handleFetchOutcome_projects [where m = m]
    show ?thesis
    proof (cases "ok \<and> proceed")
      case False
      then have "\<exists>t. handleFetchOutcome_m lib c ok proceed (?s\<lparr>ks := k\<rparr>, m) = (True, t)"
          "handleFetchOutcome_m lib c ok proceed = handleFetchOutcome_m lib c ok False"
        by (auto simp: handleFetchOutcome_m_def Let_def fun_eq_iff)
      with assms show ?thesis by (intro ended [of ok "?s\<lparr>ks := k\<rparr>"]) (auto simp: step)
    next
      case True
      let ?b = "case cb of None \<Rightarrow> [] | Some b \<Rightarrow> b" and ?t = "resetConsecutiveErrors_m (?s\<lparr>ks := k\<rparr>, m)"
      obtain b2 s2 m2 where q: "processAndApply_m lib par c ?b ?t = (b2, s2, m2)" by (metis prod_cases3)
      have q': "processAndApply lib par c ?b (resetConsecutiveErrors (?s\<lparr>ks := k\<rparr>)) = (b2, s2)"
        using q processAndApply_projects [of lib par c ?b "fst ?t" "snd ?t"]
        by (simp add: reset_projects [of "?s\<lparr>ks := k\<rparr>" m])
      have o': "handleFetchOutcome_m lib c ok proceed (?s\<lparr>ks := k\<rparr>, m) = (False, ?s\<lparr>ks := k\<rparr>, m)"
        using True by (simp add: handleFetchOutcome_m_def)
      show ?thesis
      proof (cases b2)
        case False
        with assms q q' o' show ?thesis by (intro failed [of ?b "?s\<lparr>ks := k\<rparr>" e]) (auto simp: step)
      next
        case True
        with assms q q' o' show ?thesis
          by (intro applied [of ?b "?s\<lparr>ks := k\<rparr>" s2 m2 "clock lib s" "updateSignaturesAfterSuccess e ?b s2" e])
            (auto simp: step recordSyncSuccess_m_def recordSyncSuccess_def)
      qed
    qed
  qed
qed

text \<open>An iteration with metrics does to the state of the loop what the iteration without them does.\<close>

lemma runLoop_iter_projects:
  "runLoop_iter lib par c s = map_prod id fst (runLoop_iter_m lib par c (s, m))"
proof -
  obtain out s' m' where r: "runLoop_iter_m lib par c (s, m) = (out, s', m')" by (metis prod_cases3)
  then show ?thesis by (cases rule: iter_m_cases) (simp_all add: r)
qed

lemma Ready_projects: "Ready lib c s = fst (Ready_m lib c (s, m))" and Ready_m_state: "fst (snd (Ready_m lib c (s, m))) = s"
  by (simp_all add: Ready_def Ready_m_def Let_def)

lemma runLoop_m_Some: "runLoop_m lib par c sm = Some sm' \<Longrightarrow> runLoop lib par c (fst sm) = Some (fst sm')"
proof (induction rule: runLoop_m.raw_induct [rotated 1, consumes 1, case_names iteration])
  case (iteration runLoop' lib par c sm sm')
  obtain out t where r: "runLoop_iter_m lib par c sm = (out, t)" by (metis surj_pair)
  then have "runLoop_iter lib par c (fst sm) = (out, fst t)"
    using runLoop_iter_projects [of lib par c "fst sm" "snd sm"] by simp
  then show ?case using iteration(2) iteration(1) [of lib par c t sm'] r
    by (subst runLoop.simps) (auto split: outcome.splits)
qed

lemma runLoop_Some_m: "runLoop lib par c s = Some s' \<Longrightarrow> \<exists>m'. runLoop_m lib par c (s, m) = Some (s', m')"
proof (induction arbitrary: m rule: runLoop.raw_induct [rotated 1, consumes 1, case_names iteration])
  case (iteration runLoop' lib par c s s')
  obtain out t m' where r: "runLoop_iter_m lib par c (s, m) = (out, t, m')" by (metis prod_cases3)
  then have "runLoop_iter lib par c s = (out, t)" using runLoop_iter_projects [of lib par c s m] by simp
  then show ?case using iteration(2) iteration(1) [of lib par c t s' m'] r
    by (subst runLoop_m.simps) (auto split: outcome.splits)
qed

text \<open>So does the loop: it returns when the loop without metrics does, and in the same state.\<close>

lemma runLoop_projects: "runLoop lib par c s = map_option fst (runLoop_m lib par c (s, m))"
  using runLoop_m_Some [of lib par c "(s, m)"] runLoop_Some_m [of lib par c s _ m]
  by (cases "runLoop lib par c s"; cases "runLoop_m lib par c (s, m)") (force+)

section \<open>What an iteration adds\<close>

fun attribute_of :: "outcome \<Rightarrow> string option" where
  "attribute_of (Applied _ _) = Some ''success''"
| "attribute_of NoChange = Some ''nochange''"
| "attribute_of Cancelled = None"
| "attribute_of _ = Some ''error''"

lemmas metrics_defs = handleReconcileError_m_def handleFetchOutcome_m_def resetConsecutiveErrors_m_def
  processAndApply_m_def recordSyncSuccess_m_def observe_parse_def setReady_def count_iteration_def Let_def

lemma processAndApply_m_effect:
  assumes "processAndApply_m lib par c b (resetConsecutiveErrors_m (s, Some m)) = (r, s', m')"
  shows "\<exists>m1. m' = Some m1 \<and> has_OTel m1 = has_OTel m \<and> Ready_gauge m1 = Ready_gauge m
    \<and> ConsecutiveErrors m1 = consecutiveErrors s' \<and> consecutiveErrors s' = (if r then 0 else 1)
    \<and> ReconcileErrors m1 = ReconcileErrors m + (if r then 0 else 1)
    \<and> LoopIterationsTotal m1 = (if r \<or> \<not> has_OTel m then LoopIterationsTotal m
        else (LoopIterationsTotal m)(''error'' := Suc (LoopIterationsTotal m ''error'')))
    \<and> ReconcileDuration m1 = ReconcileDuration m"
  using assms by (auto simp: metrics_defs split: sum.splits prod.splits)

lemma runLoop_iter_m_effect:
  assumes "runLoop_iter_m lib par c (s, Some m) = (out, s', m')"
  shows "\<exists>m1. m' = Some m1 \<and> has_OTel m1 = has_OTel m
    \<and> Ready_gauge m1 = (if good_poll out then 1 else Ready_gauge m)
    \<and> ConsecutiveErrors m1 = (if out = Cancelled then ConsecutiveErrors m else consecutiveErrors s')
    \<and> (out = Cancelled \<longrightarrow> s' = s)
    \<and> ReconcileErrors m1 = ReconcileErrors m + (if attribute_of out = Some ''error'' then 1 else 0)
    \<and> length (ReconcileDuration m1) = length (ReconcileDuration m) + (if attribute_of out = Some ''success'' then 1 else 0)
    \<and> (has_OTel m \<longrightarrow> LoopIterationsTotal m1 = (case attribute_of out of
          None \<Rightarrow> LoopIterationsTotal m
        | Some a \<Rightarrow> (LoopIterationsTotal m)(a := Suc (LoopIterationsTotal m a))))"
  using assms
proof (cases rule: iter_m_cases)
  case (fetch s1)
  then show ?thesis by (simp add: metrics_defs good_poll_def)
next
  case (ended s1 ok)
  then show ?thesis by (auto simp: metrics_defs good_poll_def split: if_splits)
next
  case (failed s1 b e)
  with processAndApply_m_effect [OF failed(1)] show ?thesis by (auto simp: good_poll_def)
next
  case (applied s1 b e s2 m2 s3 start)
  with processAndApply_m_effect [OF applied(1)] show ?thesis by (auto simp: metrics_defs good_poll_def)
qed (simp add: good_poll_def)

section \<open>Log lines at info level\<close>

text \<open>
  An unchanged configuration is reported at info level only if the interval for it has passed, and once
  at most when there is none.
\<close>

theorem unchanged_info_rate:
  assumes "logFetchDecision True False (shouldLogFetchInfo cfg t last_log) etag hash n = [LogInfo msg]"
  shows "msg = ''Traefik config unchanged (etag='' @ orNone etag @ '')''
    \<and> (last_log = None \<or> (\<exists>l. last_log = Some l \<and> 0 < FetchLogInterval cfg \<and> FetchLogInterval cfg \<le> t - l))"
  using assms by (auto simp: logFetchDecision_def shouldLogFetchInfo_def Let_def split: if_splits option.splits)

end
