(* ===== verification/Orchestration.thy ===== *)
theory Orchestration
  imports Labels HttpServer Metrics Reporting
begin

text \<open>
  The life of the process: leader election (\<^verbatim>\<open>internal/controller/controller.go\<close>,
  \<^verbatim>\<open>internal/controller/leader_election.go\<close>), the client set-up (\<^verbatim>\<open>internal/kube/client.go\<close>), the groups of
  goroutines that run the server, the controller and the label monitor
  (\<^verbatim>\<open>internal/orchestration/run.go\<close>), and the exit code (\<^verbatim>\<open>cmd/controller/main.go\<close>).

  Parameters: the leader election of client-go, of which the documentation says that the callback
  for a lost leadership is always called when it ends; the \<open>errgroup\<close>, whose \<open>Wait\<close> returns the first
  error of its functions in the order in which they returned; the scheduler; and what \<^verbatim>\<open>net/http\<close> does
  once the server listens and when it is shut down.

  Shown: with leader election and any \<open>ON_LOSE\<close> but \<open>pause\<close>, a process that has started its controller
  never ends with code zero, also on a normal shutdown; with \<open>pause\<close>, losing the lease never asks for
  an exit; what the HTTP-only mode returns; and what becomes of the metrics provider
  that starting the process makes: it is shut down when the controller proper was started, and on no other path.
\<close>

section \<open>Leadership\<close>

text \<open>
  The controller's part of the state that outlives a loop, with the flags of the election and the metrics of the
  collector that the controller writes.
\<close>

record 'w leadst =
  lead_loop :: "'w loopst"
  exitRequested :: bool
  lctx_cancelled :: bool
  lead_metrics :: "LoopMetrics option"

definition hostnameFallback :: "string result \<Rightarrow> string" where
  "hostnameFallback hostname = (case hostname of Inl _ \<Rightarrow> ''unknown'' | Inr h \<Rightarrow> h)"

definition makeLeaderIdentity :: "host \<Rightarrow> string result \<Rightarrow> int \<Rightarrow> string" where
  "makeLeaderIdentity h hostname nowNano =
     (let podName = Getenv h ''POD_NAME'';
          podName = (if podName = [] then hostnameFallback hostname else podName);
          uid = Getenv h ''POD_UID'';
          uid = (if uid = [] then itoa nowNano else uid)
      in podName @ ''_'' @ uid)"

definition handleLeadershipLoss :: "Config \<Rightarrow> 'w leadst \<Rightarrow> 'w leadst" where
  "handleLeadershipLoss cfg s =
     (let behavior = OnLoseBehavior cfg in
      if EqualFold behavior ''exit'' \<or> behavior = [] then s\<lparr>exitRequested := True, lctx_cancelled := True\<rparr>
      else if EqualFold behavior ''pause'' then s\<lparr>lead_metrics := setReady 0 (lead_metrics s)\<rparr>
      else s\<lparr>exitRequested := True, lctx_cancelled := True\<rparr>)"

definition ExitRequested :: "'w leadst \<Rightarrow> bool" where
  "ExitRequested s = exitRequested s"

text \<open>The loop starts with fresh local variables; what the controller keeps stays.\<close>

definition fresh_locals :: "'w loopst \<Rightarrow> 'w loopst" where
  "fresh_locals s = s\<lparr>lastETag := [], lastHash := [], lastETagIsHeader := False, consecutiveErrors := 0, lastFetchInfoLog := None\<rparr>"

definition OnStartedLeading ::
  "'w looplib \<Rightarrow> (TraefikConfig \<Rightarrow> ('w kst, unit) io) \<Rightarrow> 'w Controller \<Rightarrow> 'w leadst \<Rightarrow> 'w leadst option" where
  "OnStartedLeading lib par c s =
     map_option (\<lambda>(l, m). s\<lparr>lead_loop := l, lead_metrics := m\<rparr>)
       (runLoop_m lib par c (fresh_locals (lead_loop s), lead_metrics s))"

definition OnStoppedLeading :: "Config \<Rightarrow> 'w leadst \<Rightarrow> 'w leadst" where
  "OnStoppedLeading cfg s = handleLeadershipLoss cfg s"

record 's LeaderCallbacks =
  cb_OnStartedLeading :: "'s \<Rightarrow> 's option"
  cb_OnStoppedLeading :: "'s \<Rightarrow> 's"

definition leaderCallbacks ::
  "'w looplib \<Rightarrow> (TraefikConfig \<Rightarrow> ('w kst, unit) io) \<Rightarrow> 'w Controller \<Rightarrow> 'w leadst LeaderCallbacks" where
  "leaderCallbacks lib par c =
     \<lparr>cb_OnStartedLeading = OnStartedLeading lib par c, cb_OnStoppedLeading = OnStoppedLeading (c_cfg c)\<rparr>"

record LeaderElectionConfig =
  lec_LockName :: string
  lec_LockNamespace :: string
  lec_Identity :: string
  lec_LeaseDuration :: int
  lec_RenewDeadline :: int
  lec_RetryPeriod :: int
  lec_ReleaseOnCancel :: bool

type_synonym 's elector = "LeaderElectionConfig \<Rightarrow> 's LeaderCallbacks \<Rightarrow> 's \<Rightarrow> 's option"

definition RunLeaderElection ::
  "'w leadst elector \<Rightarrow> string result \<Rightarrow> 'w looplib \<Rightarrow> (TraefikConfig \<Rightarrow> ('w kst, unit) io) \<Rightarrow> 'w Controller
    \<Rightarrow> 'w leadst \<Rightarrow> 'w leadst option" where
  "RunLeaderElection RunOrDie hostname lib par c s =
     (let l = lead_loop s; s = s\<lparr>lead_loop := l\<lparr>ks := startGraceDeletionPool (ks l)\<rparr>\<rparr>; cfg = c_cfg c in
      if \<not> LeaderEnabled cfg then OnStartedLeading lib par c s
      else RunOrDie
        \<lparr>lec_LockName = LeaseLockName cfg, lec_LockNamespace = LeaseLockNamespace cfg,
         lec_Identity = makeLeaderIdentity (lib_host lib) hostname (clock lib (lead_loop s)),
         lec_LeaseDuration = LeaseDuration cfg, lec_RenewDeadline = RenewDeadline cfg, lec_RetryPeriod = RetryPeriod cfg,
         lec_ReleaseOnCancel = True\<rparr>
        (leaderCallbacks lib par c) s)"

section \<open>Groups of goroutines\<close>

definition shutdown_error :: goerr where
  "shutdown_error = ErrMsg ''leadership lost: exit requested''"

definition ErrHTTPServerImmediateExit :: goerr where
  "ErrHTTPServerImmediateExit = ErrMsg ''http server exited immediately without error''"

text \<open>The errors the standard library marks: a closed server, a context that was cancelled or ran out.\<close>

record go_errors =
  is_ServerClosed :: "goerr \<Rightarrow> bool"
  is_Canceled :: "goerr \<Rightarrow> bool"
  is_DeadlineExceeded :: "goerr \<Rightarrow> bool"

definition http_task :: "go_errors \<Rightarrow> goerr option \<Rightarrow> goerr option" where
  "http_task errs r = (case r of None \<Rightarrow> None | Some err \<Rightarrow> if \<not> is_ServerClosed errs err then Some err else None)"

text \<open>The default starter: \<open>listen\<close> is what \<^verbatim>\<open>net/http\<close> returns when it stops listening at an address.\<close>

definition startHTTPServer :: "(string \<Rightarrow> listening \<Rightarrow> goerr option) \<Rightarrow> 's Server \<Rightarrow> goerr option" where
  "startHTTPServer listen httpSrv =
     (case Start httpSrv of
        (Inl err, _) \<Rightarrow> Some err
      | (Inr how, srv) \<Rightarrow> listen (srv_Addr srv) how)"

text \<open>\<open>httpSrv.Shutdown\<close> within its timeout; the error is only logged.\<close>

definition shutdown_server :: "go_errors \<Rightarrow> ('w \<Rightarrow> goerr option \<times> 'w) \<Rightarrow> 'w \<Rightarrow> goerr option \<times> 'w" where
  "shutdown_server errs http_Shutdown w =
     (case http_Shutdown w of (r, w) \<Rightarrow> (Server_Shutdown (is_Canceled errs) (is_DeadlineExceeded errs) r, w))"

text \<open>HTTP-only mode; \<open>exitSeenFirst\<close> says whether the exit of the server was seen before the end of the context.\<close>

definition runHTTPOnlyWithStarter ::
  "go_errors \<Rightarrow> (goerr option list \<Rightarrow> goerr option) \<Rightarrow> ('w \<Rightarrow> goerr option \<times> 'w) \<Rightarrow> ('s Server \<Rightarrow> goerr option)
    \<Rightarrow> 's Server \<Rightarrow> bool \<Rightarrow> 'w \<Rightarrow> goerr option \<times> 'w" where
  "runHTTPOnlyWithStarter errs Wait http_Shutdown startFn httpSrv exitSeenFirst w =
     (let started = startFn (SetReadinessFunc (Some (\<lambda>_. False)) httpSrv);
          w = snd (shutdown_server errs http_Shutdown w) in
      case Wait [http_task errs started] of
        Some err \<Rightarrow>
          if \<not> is_Canceled errs err then (Some err, w)
          else if exitSeenFirst then (case started of None \<Rightarrow> Some ErrHTTPServerImmediateExit | Some e \<Rightarrow> Some e, w)
          else (None, w)
      | None \<Rightarrow>
          if exitSeenFirst then (case started of None \<Rightarrow> Some ErrHTTPServerImmediateExit | Some e \<Rightarrow> Some e, w)
          else (None, w))"

definition runHTTPOnly ::
  "go_errors \<Rightarrow> (goerr option list \<Rightarrow> goerr option) \<Rightarrow> ('w \<Rightarrow> goerr option \<times> 'w) \<Rightarrow> (string \<Rightarrow> listening \<Rightarrow> goerr option)
    \<Rightarrow> 's Server \<Rightarrow> bool \<Rightarrow> 'w \<Rightarrow> goerr option \<times> 'w" where
  "runHTTPOnly errs Wait http_Shutdown listen httpSrv exitSeenFirst w =
     runHTTPOnlyWithStarter errs Wait http_Shutdown (startHTTPServer listen) httpSrv exitSeenFirst w"

section \<open>Clients\<close>

record RESTConfig =
  rest_QPS :: float64
  rest_Burst :: int

record kube_setup =
  inClusterConfig :: "RESTConfig result"
  newDynamicForConfig :: "RESTConfig \<Rightarrow> unit result"
  newKubernetesForConfig :: "RESTConfig \<Rightarrow> unit result"
  to_float32 :: "float64 \<Rightarrow> float64"

definition NewClients :: "kube_setup \<Rightarrow> Config \<Rightarrow> RESTConfig result" where
  "NewClients setup cfg =
     (case inClusterConfig setup of
        Inl err \<Rightarrow> Inl (Wrap ''in-cluster config error'' err)
      | Inr restCfg \<Rightarrow>
          let restCfg = (if 0 < ClientQPS cfg then restCfg\<lparr>rest_QPS := to_float32 setup (ClientQPS cfg)\<rparr> else restCfg);
              restCfg = (if ClientBurst cfg > 0 then restCfg\<lparr>rest_Burst := ClientBurst cfg\<rparr> else restCfg) in
          case newDynamicForConfig setup restCfg of
            Inl err \<Rightarrow> Inl (Wrap ''dynamic client error'' err)
          | Inr _ \<Rightarrow>
              (case newKubernetesForConfig setup restCfg of
                 Inl err \<Rightarrow> Inl (Wrap ''clientset error'' err)
               | Inr _ \<Rightarrow> Inr restCfg))"

section \<open>The process\<close>

text \<open>
  Three functions run together: the server (what starting it returned), the election and the monitor.
  When the context of the group is done, \<open>stop\<close> is called. The group ends, if it does, with the results of the
  functions in the order in which they returned.
\<close>

type_synonym 'w go_group =
  "goerr option \<Rightarrow> ('w leadst \<Rightarrow> 'w leadst option) \<Rightarrow> ('w \<Rightarrow> (unit result \<times> 'w) option) \<Rightarrow> ('w leadst \<Rightarrow> 'w leadst)
    \<Rightarrow> 'w leadst \<Rightarrow> (goerr option list \<times> 'w leadst) option"

record ('w, 'r, 'p) process =
  p_register :: "metric \<Rightarrow> 'r \<Rightarrow> 'r option"
  p_registry :: 'r
  p_sdk :: "('w, 'p) otel_sdk"
  p_GetMeterProvider :: "'w \<Rightarrow> 'p option"
  p_version :: string
  p_listen :: "string \<Rightarrow> listening \<Rightarrow> goerr option"
  p_http_Shutdown :: "'w \<Rightarrow> goerr option \<times> 'w"
  p_setup :: kube_setup
  p_rules :: label_rules
  p_classes :: "'w class_client"
  p_tick :: "int \<Rightarrow> 'w \<Rightarrow> bool \<times> 'w"
  p_dyn :: "'w dynamic"
  p_services :: "string \<Rightarrow> ('w, Service) TypedClient"
  p_slices :: "string \<Rightarrow> ('w, EndpointSlice) TypedClient"
  p_env :: "'w outside"
  p_net :: netlib
  p_slot :: "'w \<Rightarrow> bool"
  p_done :: "'w \<Rightarrow> bool"
  p_lib :: "'w looplib"
  p_par :: "TraefikConfig \<Rightarrow> ('w kst, unit) io"
  p_RunOrDie :: "'w leadst elector"
  p_hostname :: "string result"
  p_group :: "'w go_group"
  p_Wait :: "goerr option list \<Rightarrow> goerr option"
  p_errors :: go_errors

definition makeController :: "('w, 'r, 'p) process \<Rightarrow> Config \<Rightarrow> 'w Controller" where
  "makeController p cfg =
     NewController cfg (p_dyn p) (p_services p) (p_slices p) (p_env p) (p_net p) (p_slot p) (p_done p)"

definition proc_world :: "'w leadst \<Rightarrow> 'w" where
  "proc_world s = kube (ks (lead_loop s))"

definition set_world :: "'w \<Rightarrow> 'w leadst \<Rightarrow> 'w leadst" where
  "set_world w s = (let l = lead_loop s; k = ks l in s\<lparr>lead_loop := l\<lparr>ks := k\<lparr>kube := w\<rparr>\<rparr>\<rparr>)"

definition newCollector :: "('w, 'r, 'p) process \<Rightarrow> 'w \<Rightarrow> (('r, 'p) Collector \<times> 'w) option" where
  "newCollector p =
     NewCollector (p_register p) (p_registry p)
       (SetupOTel (p_sdk p) (lib_host (p_lib p)) (p_hostname p) (p_version p) True)"

text \<open>
  The flush before the end: the global meter provider is shut down when it is one of the SDK
  (\<open>p_GetMeterProvider\<close>); the error is only logged.
\<close>

definition flush_metrics :: "('w, 'r, 'p) process \<Rightarrow> ('r, 'p) Collector \<Rightarrow> 'w \<Rightarrow> 'w" where
  "flush_metrics p collector w =
     (if col_OTel collector \<noteq> None then
        case p_GetMeterProvider p w of
          Some mp \<Rightarrow> snd (mp_Shutdown (p_sdk p) mp w)
        | None \<Rightarrow> w
      else w)"

definition stop_controller :: "('w, 'r, 'p) process \<Rightarrow> ('r, 'p) Collector \<Rightarrow> 'w leadst \<Rightarrow> 'w leadst" where
  "stop_controller p collector s =
     set_world (flush_metrics p collector (snd (shutdown_server (p_errors p) (p_http_Shutdown p) (proc_world s)))) s"

text \<open>
  The settings are shared: the server sees the instance label that was resolved. \<open>HCertificates\<close> is the handler of
  \<open>Certificates\<close> for the Secrets of the settings. \<open>None\<close> means that the call does not return: it
  runs for ever, or it panics because a pattern or a metric is registered twice. \<open>NewController\<close> sets the
  readiness gauge to zero.
\<close>

definition runControllerWithStarter ::
  "('w, 'r, 'p) process \<Rightarrow> Config \<Rightarrow> 'w loopst Server \<Rightarrow> ('r, 'p) Collector \<Rightarrow> ('w loopst Server \<Rightarrow> goerr option)
    \<Rightarrow> 'w leadst \<Rightarrow> (goerr option \<times> 'w leadst) option" where
  "runControllerWithStarter p cfg httpSrv collector startFn s =
     (case NewClients (p_setup p) cfg of
        Inl err \<Rightarrow> Some (Some err, s)
      | Inr _ \<Rightarrow>
          (case RegisterCertificatesHandler httpSrv of
             None \<Rightarrow> None
           | Some httpSrv \<Rightarrow>
               (case ResolveInstanceLabel (p_rules p) (p_classes p) cfg (proc_world s) of
                  (Inl err, w) \<Rightarrow> Some (Some err, set_world w s)
                | (Inr cfg, w) \<Rightarrow>
                    (let ctrl = makeController p cfg;
                         s = s\<lparr>lead_metrics := setReady 0 (lead_metrics s)\<rparr>;
                         httpSrv = SetReadinessFunc (Some (Ready (p_lib p) ctrl)) (httpSrv\<lparr>sv_cfg := cfg\<rparr>) in
                     case p_group p (http_task (p_errors p) (startFn httpSrv))
                            (RunLeaderElection (p_RunOrDie p) (p_hostname p) (p_lib p) (p_par p) ctrl)
                            (Monitor (p_classes p) (p_tick p) cfg) (stop_controller p collector) (set_world w s) of
                       None \<Rightarrow> None
                     | Some (results, s) \<Rightarrow>
                         Some ((let failed = (case p_Wait p results of
                                     None \<Rightarrow> None
                                   | Some err \<Rightarrow> if \<not> is_Canceled (p_errors p) err then Some err else None) in
                                if failed \<noteq> None then failed
                                else if ExitRequested s then Some shutdown_error
                                else None), s)))))"

definition runController ::
  "('w, 'r, 'p) process \<Rightarrow> Config \<Rightarrow> 'w loopst Server \<Rightarrow> ('r, 'p) Collector \<Rightarrow> 'w leadst
    \<Rightarrow> (goerr option \<times> 'w leadst) option" where
  "runController p cfg httpSrv collector s =
     runControllerWithStarter p cfg httpSrv collector (startHTTPServer (p_listen p)) s"

definition RunWithStarter ::
  "('w, 'r, 'p) process \<Rightarrow> Config \<Rightarrow> ('w loopst Server \<Rightarrow> goerr option) option \<Rightarrow> bool \<Rightarrow> 'w leadst
    \<Rightarrow> (goerr option \<times> 'w leadst) option" where
  "RunWithStarter p cfg startFn exitSeenFirst s =
     (let startFn = (case startFn of None \<Rightarrow> startHTTPServer (p_listen p) | Some f \<Rightarrow> f) in
      case newCollector p (proc_world s) of
        None \<Rightarrow> None
      | Some (collector, w) \<Rightarrow>
          (let s = (set_world w s)\<lparr>lead_metrics := Some (new_collector (col_OTel collector \<noteq> None))\<rparr> in
           case NewServer cfg True of
             None \<Rightarrow> None
           | Some httpSrv \<Rightarrow>
               if StandaloneHTTPOnly cfg then
                 (case runHTTPOnlyWithStarter (p_errors p) (p_Wait p) (p_http_Shutdown p) startFn httpSrv exitSeenFirst w of
                    (r, w) \<Rightarrow> Some (r, set_world w s))
               else runControllerWithStarter p cfg httpSrv collector startFn s))"

definition Run :: "('w, 'r, 'p) process \<Rightarrow> Config \<Rightarrow> bool \<Rightarrow> 'w leadst \<Rightarrow> (goerr option \<times> 'w leadst) option" where
  "Run p cfg exitSeenFirst s = RunWithStarter p cfg None exitSeenFirst s"

text \<open>\<open>main\<close> of the controller: the exit code.\<close>

definition controller_main :: "('w, 'r, 'p) process \<Rightarrow> Config \<Rightarrow> bool \<Rightarrow> 'w leadst \<Rightarrow> int option" where
  "controller_main p cfg exitSeenFirst s =
     map_option (\<lambda>(err, _). if err \<noteq> None then 1 else 0) (Run p cfg exitSeenFirst s)"

section \<open>What is assumed\<close>

text \<open>
  The election returns only after its callback for a lost leadership, and writes the exit flag only
  through its callbacks.
\<close>

definition elect_law :: "'w leadst elector \<Rightarrow> bool" where
  "elect_law elect \<longleftrightarrow> (\<forall>ec cb s s'. elect ec cb s = Some s' \<longrightarrow>
     (\<exists>t. s' = cb_OnStoppedLeading cb t
        \<and> ((\<forall>a b. cb_OnStartedLeading cb a = Some b \<longrightarrow> exitRequested b = exitRequested a) \<longrightarrow> exitRequested t = exitRequested s)))"

definition wait_returns_first :: "(goerr option list \<Rightarrow> goerr option) \<Rightarrow> bool" where
  "wait_returns_first Wait \<longleftrightarrow> (\<forall>rs. Wait rs = (case filter (\<lambda>r. r \<noteq> None) rs of [] \<Rightarrow> None | r # _ \<Rightarrow> r))"

text \<open>
  A group ends after each of its functions has returned; its results are theirs, in some order. When
  \<open>stop\<close> leaves the exit flag alone, only the election writes it, and nothing runs before it with the flag changed.
\<close>

definition group_law :: "'w go_group \<Rightarrow> bool" where
  "group_law grp \<longleftrightarrow> (\<forall>http lead mon stop s results s'.
     (\<forall>t. exitRequested (stop t) = exitRequested t) \<and> grp http lead mon stop s = Some (results, s') \<longrightarrow>
     (\<exists>a b v r v'. lead a = Some b \<and> exitRequested a = exitRequested s \<and> exitRequested s' = exitRequested b
        \<and> mon v = Some (r, v') \<and> mset results = {#http, None, (case r of Inl e \<Rightarrow> Some e | Inr _ \<Rightarrow> None)#}))"

section \<open>Exit codes\<close>

lemma handleLeadershipLoss_exit:
  "exitRequested (handleLeadershipLoss cfg s) \<longleftrightarrow> exitRequested s \<or> \<not> EqualFold (OnLoseBehavior cfg) ''pause''"
proof -
  have n: "fold_case ''exit'' \<noteq> fold_case ''pause''" "fold_case [] \<noteq> fold_case ''pause''" by code_simp+
  have "\<not> EqualFold b ''pause''" if "EqualFold b ''exit'' \<or> b = []" for b
    using that n by (auto simp: EqualFold_def simp del: fold_case.simps)
  then show ?thesis by (auto simp: handleLeadershipLoss_def Let_def)
qed

lemma OnStartedLeading_exit: "OnStartedLeading lib par c a = Some b \<Longrightarrow> exitRequested b = exitRequested a"
  by (auto simp: OnStartedLeading_def)

lemma RunLeaderElection_exit:
  assumes "elect_law elect" and "RunLeaderElection elect hn lib par c a = Some b"
  shows "exitRequested b \<longleftrightarrow>
    exitRequested a \<or> LeaderEnabled (c_cfg c) \<and> \<not> EqualFold (OnLoseBehavior (c_cfg c)) ''pause''"
proof -
  let ?a = "a\<lparr>lead_loop := (lead_loop a)\<lparr>ks := startGraceDeletionPool (ks (lead_loop a))\<rparr>\<rparr>"
  show ?thesis
  proof (cases "LeaderEnabled (c_cfg c)")
    case True
    with assms(2) obtain ec where "elect ec (leaderCallbacks lib par c) ?a = Some b"
      by (auto simp: RunLeaderElection_def Let_def)
    with assms(1) obtain t where t: "b = cb_OnStoppedLeading (leaderCallbacks lib par c) t"
        "(\<forall>a b. cb_OnStartedLeading (leaderCallbacks lib par c) a = Some b \<longrightarrow> exitRequested b = exitRequested a) \<longrightarrow>
          exitRequested t = exitRequested ?a"
      unfolding elect_law_def by blast
    have "exitRequested t = exitRequested a"
      using t(2) OnStartedLeading_exit [of lib par c] by (simp add: leaderCallbacks_def)
    with t(1) True show ?thesis by (simp add: leaderCallbacks_def OnStoppedLeading_def handleLeadershipLoss_exit)
  next
    case False
    with assms(2) have "OnStartedLeading lib par c ?a = Some b" by (simp add: RunLeaderElection_def Let_def)
    from OnStartedLeading_exit [OF this] False show ?thesis by simp
  qed
qed

lemma resolve_keeps_leader:
  assumes "ResolveInstanceLabel rules cl cfg w = (Inr cfg', w')"
  shows "LeaderEnabled cfg' = LeaderEnabled cfg" and "OnLoseBehavior cfg' = OnLoseBehavior cfg"
    and "IngressClassLabelStrict cfg' = IngressClassLabelStrict cfg"
    and "EnablePprof cfg' = EnablePprof cfg" and "MetricsPlaintextOK cfg' = MetricsPlaintextOK cfg"
    and "MetricsTLSCertFile cfg' = MetricsTLSCertFile cfg" and "MetricsTLSKeyFile cfg' = MetricsTLSKeyFile cfg"
  using assms by (auto simp: ResolveInstanceLabel_def bindIO_def caseIO_def split: if_splits sum.splits prod.splits)

lemma Monitor_lenient:
  assumes "\<not> IngressClassLabelStrict cfg" and "Monitor cl tick cfg v = Some (r, v')"
  shows "r = Inr ()"
proof (cases "IngressClass cfg = [] \<or> TraefikInstanceLabelKey cfg = []")
  case False
  with assms(2) obtain t where t: "monitor_round cl tick cfg t = Inl (r, v')"
    by (auto simp: Monitor_def iterate_Some_iff)
  show ?thesis
  proof (cases r)
    case (Inl e)
    with t monitor_round_cases(2) [of cl tick cfg t e v'] assms(1) show ?thesis by simp
  qed simp
qed (use assms(2) in \<open>auto simp: Monitor_def\<close>)

lemma makeController_cfg [simp]: "c_cfg (makeController p cfg) = cfg"
  by (simp add: makeController_def NewController_def)

lemma set_world_exit [simp]: "exitRequested (set_world w s) = exitRequested s" "proc_world (set_world w s) = w"
  by (simp_all add: set_world_def proc_world_def Let_def)

lemma metrics_world [simp]: "proc_world (s\<lparr>lead_metrics := m\<rparr>) = proc_world s"
  by (simp add: proc_world_def)

lemma stop_controller_exit: "exitRequested (stop_controller p collector t) = exitRequested t"
  by (simp add: stop_controller_def)

text \<open>A server that is allowed to listen ends without an error of its own when \<^verbatim>\<open>net/http\<close> reports that it was closed.\<close>

lemma server_closed:
  assumes "EnablePprof (sv_cfg srv) \<longrightarrow> MetricsPlaintextOK (sv_cfg srv)
      \<or> MetricsTLSCertFile (sv_cfg srv) \<noteq> [] \<and> MetricsTLSKeyFile (sv_cfg srv) \<noteq> []"
    and "\<forall>addr how e. listen addr how = Some e \<longrightarrow> is_ServerClosed errs e"
  shows "http_task errs (startHTTPServer listen srv) = None"
  using assms by (auto simp: http_task_def startHTTPServer_def Start_def checkPprofPlaintextAllowed_def Let_def split: option.split)

text \<open>The state in which the group starts: the collector is new, and the gauge of readiness is zero.\<close>

definition group_state :: "('r, 'p) Collector \<Rightarrow> 'w \<Rightarrow> 'w \<Rightarrow> 'w leadst \<Rightarrow> 'w leadst" where
  "group_state collector w0 w s =
     set_world w ((set_world w0 s)\<lparr>lead_metrics := setReady 0 (Some (new_collector (col_OTel collector \<noteq> None)))\<rparr>)"

lemma group_state_fields [simp]:
  "exitRequested (group_state collector w0 w s) = exitRequested s" "proc_world (group_state collector w0 w s) = w"
  by (simp_all add: group_state_def set_world_def proc_world_def Let_def)

text \<open>What \<open>main\<close> does with the controller, once the clients, the server and the label are there.\<close>

lemma controller_main_group:
  fixes p :: "('w, 'r, 'p) process"
  assumes "\<not> StandaloneHTTPOnly cfg" and "newCollector p (proc_world s) = Some (collector, w0)"
    and "NewClients (p_setup p) cfg = Inr rest"
    and "ResolveInstanceLabel (p_rules p) (p_classes p) cfg w0 = (Inr cfg', w)"
  obtains srv :: "'w loopst Server" where "sv_cfg srv = cfg'" and
    "controller_main p cfg seen s = map_option
       (\<lambda>(results, s'). case p_Wait p results of
            Some err \<Rightarrow> if \<not> is_Canceled (p_errors p) err \<or> exitRequested s' then 1 else 0
          | None \<Rightarrow> if exitRequested s' then 1 else 0)
       (p_group p (http_task (p_errors p) (startHTTPServer (p_listen p) srv))
          (RunLeaderElection (p_RunOrDie p) (p_hostname p) (p_lib p) (p_par p) (makeController p cfg'))
          (Monitor (p_classes p) (p_tick p) cfg') (stop_controller p collector) (group_state collector w0 w s))"
proof -
  obtain s0 s1 :: "'w loopst Server" where sv: "NewServer cfg True = Some s0" "RegisterCertificatesHandler s0 = Some s1"
    by (rule server_exists)
  let ?srv = "SetReadinessFunc (Some (Ready (p_lib p) (makeController p cfg'))) (s1\<lparr>sv_cfg := cfg'\<rparr>)"
  have "sv_cfg ?srv = cfg'" by (simp add: SetReadinessFunc_def)
  then show thesis
    by (rule that)
      (use assms sv in \<open>simp add: controller_main_def Run_def RunWithStarter_def runControllerWithStarter_def ExitRequested_def
         group_state_def Let_def map_option_case split: option.split prod.split\<close>)
qed

text \<open>
  C21. The exit code of a process that was shut down in the normal way: the server may listen and was closed,
  the monitor is not strict, and nothing failed at the start. Without leader election, and with it when
  \<open>ON_LOSE\<close> is \<open>pause\<close>, the code is 0. With leader election and any other \<open>ON_LOSE\<close> it is 1: the election
  calls back for a lost leadership whenever it ends, also because the process is told to stop, and
  the controller then reports that an exit was requested.
\<close>

theorem shutdown_exit_code:
  fixes p :: "('w, 'r, 'p) process"
  assumes "elect_law (p_RunOrDie p)" and "wait_returns_first (p_Wait p)" and "group_law (p_group p)"
    and "\<not> StandaloneHTTPOnly cfg" and "\<not> exitRequested s" and "\<not> IngressClassLabelStrict cfg"
    and "EnablePprof cfg \<longrightarrow> MetricsPlaintextOK cfg \<or> MetricsTLSCertFile cfg \<noteq> [] \<and> MetricsTLSKeyFile cfg \<noteq> []"
    and "\<forall>addr how e. p_listen p addr how = Some e \<longrightarrow> is_ServerClosed (p_errors p) e"
    and "newCollector p (proc_world s) = Some (collector, w0)"
    and "NewClients (p_setup p) cfg = Inr rest"
    and "ResolveInstanceLabel (p_rules p) (p_classes p) cfg w0 = (Inr cfg', w)"
    and "controller_main p cfg seen s = Some code"
  shows "code = (if LeaderEnabled cfg \<and> \<not> EqualFold (OnLoseBehavior cfg) ''pause'' then 1 else 0)"
proof -
  let ?lead = "RunLeaderElection (p_RunOrDie p) (p_hostname p) (p_lib p) (p_par p) (makeController p cfg')"
  let ?s = "group_state collector w0 w s"
  note keep = resolve_keeps_leader [OF assms(11)]
  obtain srv :: "'w loopst Server" where srv: "sv_cfg srv = cfg'" and main: "controller_main p cfg seen s = map_option
       (\<lambda>(results, s'). case p_Wait p results of
            Some err \<Rightarrow> if \<not> is_Canceled (p_errors p) err \<or> exitRequested s' then 1 else 0
          | None \<Rightarrow> if exitRequested s' then 1 else 0)
       (p_group p (http_task (p_errors p) (startHTTPServer (p_listen p) srv)) ?lead
          (Monitor (p_classes p) (p_tick p) cfg') (stop_controller p collector) ?s)"
    by (rule controller_main_group [OF assms(4,9-11)])
  have h: "http_task (p_errors p) (startHTTPServer (p_listen p) srv) = None"
    using server_closed [of srv "p_listen p"] assms(7,8) keep srv by simp
  obtain results s' where g: "p_group p None ?lead (Monitor (p_classes p) (p_tick p) cfg') (stop_controller p collector) ?s = Some (results, s')"
    using assms(12) unfolding main h by (auto split: option.splits)
  with assms(3) stop_controller_exit obtain a b v r v' where l: "?lead a = Some b" "exitRequested a = exitRequested ?s"
      "exitRequested s' = exitRequested b" "Monitor (p_classes p) (p_tick p) cfg' v = Some (r, v')"
      "mset results = {#None, None, (case r of Inl e \<Rightarrow> Some e | Inr _ \<Rightarrow> None)#}"
    unfolding group_law_def by blast
  have "r = Inr ()" using Monitor_lenient [OF _ l(4)] assms(6) keep(3) by simp
  with l(5) have "set_mset (mset results) = {None}" by simp
  then have "filter (\<lambda>r. r \<noteq> None) results = []" by (simp add: filter_empty_conv)
  with assms(2) have "p_Wait p results = None" unfolding wait_returns_first_def by simp
  moreover have "exitRequested s' \<longleftrightarrow> LeaderEnabled cfg \<and> \<not> EqualFold (OnLoseBehavior cfg) ''pause''"
    using RunLeaderElection_exit [OF assms(1) l(1)] l(2,3) keep(1,2) assms(5) by simp
  ultimately show ?thesis using assms(12) unfolding main h g by simp
qed

text \<open>
  What the HTTP-only mode returns: an error of the server is returned; a server that ends on its own
  is an error too, also when it reports none; and when the context ends first the result is success.
\<close>

theorem runHTTPOnly_spec:
  assumes "wait_returns_first Wait" and "startFn (SetReadinessFunc (Some (\<lambda>_. False)) httpSrv) = started"
  shows "fst (runHTTPOnlyWithStarter errs Wait http_Shutdown startFn httpSrv seen w) =
    (case started of
       None \<Rightarrow> if seen then Some ErrHTTPServerImmediateExit else None
     | Some e \<Rightarrow> if seen \<or> \<not> is_ServerClosed errs e \<and> \<not> is_Canceled errs e then Some e else None)"
  using assms by (auto simp: runHTTPOnlyWithStarter_def wait_returns_first_def http_task_def Let_def split: option.split)

section \<open>The metrics provider\<close>

lemma newCollector_Some:
  assumes "newCollector p w = Some (collector, w1)"
    and "SetupOTel (p_sdk p) (lib_host (p_lib p)) (p_hostname p) (p_version p) True w = (r, w2)"
  shows "w2 = w1" and "col_OTel collector = (case r of Inr mp \<Rightarrow> Some mp | Inl _ \<Rightarrow> None)"
  using assms by (cases r; auto simp: newCollector_def NewCollector_def)+

text \<open>
  The rest of the program leaves the meter providers alone: the shutdown of the server, the requests for
  ingress classes, and the functions that run in the group; \<open>stop\<close> is called once.
\<close>

definition providers_untouched :: "('w, 'r, 'p) process \<Rightarrow> ('w \<Rightarrow> 'p set) \<Rightarrow> bool" where
  "providers_untouched p live \<longleftrightarrow>
     (let same = (\<lambda>v w. live v = live w \<and> p_GetMeterProvider p v = p_GetMeterProvider p w) in
      (\<forall>w. same (snd (p_http_Shutdown p w)) w)
    \<and> (\<forall>n w. same (snd (ic_Get (p_classes p) n w)) w) \<and> (\<forall>w. same (snd (ic_List (p_classes p) w)) w)
    \<and> (\<forall>http cfg mon stop s results s'.
         p_group p http (RunLeaderElection (p_RunOrDie p) (p_hostname p) (p_lib p) (p_par p) (makeController p cfg)) mon stop s
           = Some (results, s') \<longrightarrow>
         (\<exists>t. same (proc_world t) (proc_world s) \<and> same (proc_world s') (proc_world (stop t)))))"

text \<open>The controller proper is started: this is not the HTTP-only mode, there are clients, and the label is resolved.\<close>

definition controller_starts :: "('w, 'r, 'p) process \<Rightarrow> Config \<Rightarrow> 'w \<Rightarrow> bool" where
  "controller_starts p cfg w \<longleftrightarrow>
     \<not> StandaloneHTTPOnly cfg \<and> \<not> isl (NewClients (p_setup p) cfg)
   \<and> \<not> isl (fst (ResolveInstanceLabel (p_rules p) (p_classes p) cfg w))"

lemma resolve_frame:
  assumes "\<And>n w. P (snd (ic_Get cl n w)) = P w" and "\<And>w. P (snd (ic_List cl w)) = P w"
  shows "P (snd (ResolveInstanceLabel rules cl cfg w)) = P w"
proof -
  have "P (snd (resolveFromIngressClass rules cl x u w)) = P w" for x u
    using assms(1) [of x w] assms(2) [of w]
    by (auto simp: resolveFromIngressClass_def io_defs Let_def split: sum.splits prod.splits list.splits)
  then show ?thesis
    by (auto simp: ResolveInstanceLabel_def io_defs split: sum.splits prod.splits)
      (metis snd_conv)+
qed

lemma stop_controller_effect:
  assumes "otel_laws (p_sdk p) live (p_GetMeterProvider p)" and "providers_untouched p live"
    and "newCollector p w = Some (collector, w1)"
    and "live (proc_world t) = live w1" and "p_GetMeterProvider p (proc_world t) = p_GetMeterProvider p w1"
  shows "live (proc_world (stop_controller p collector t)) = live w"
    and "live w1 = live w \<union> set_option (col_OTel collector)"
proof -
  let ?otel = "SetupOTel (p_sdk p) (lib_host (p_lib p)) (p_hostname p) (p_version p) True"
  obtain r w2 where r: "?otel w = (r, w2)" by fastforce
  note col = newCollector_Some [OF assms(3) r]
  let ?v = "snd (p_http_Shutdown p (proc_world t))"
  have v: "live ?v = live w1" "p_GetMeterProvider p ?v = p_GetMeterProvider p w1"
    using assms(2,4,5) by (simp_all add: providers_untouched_def Let_def)
  have stop: "proc_world (stop_controller p collector t) = flush_metrics p collector ?v"
    by (simp add: stop_controller_def shutdown_server_def split: prod.split)
  have sd: "live (snd (mp_Shutdown (p_sdk p) mp u)) = live u - {mp}" for mp u
    using assms(1) by (simp add: otel_laws_def)
  note clean = SetupOTel_effect [OF assms(1) r, unfolded col(1)]
  show "live (proc_world (stop_controller p collector t)) = live w"
    unfolding stop flush_metrics_def col(2) using v clean sd by (cases r) (auto simp: v)
  show "live w1 = live w \<union> set_option (col_OTel collector)" unfolding col(2) using clean by (cases r) auto
qed

lemma Run_world:
  assumes "newCollector p (proc_world s) = Some (collector, w0)" and "Run p cfg seen s = Some (r, s')"
  shows "\<not> controller_starts p cfg w0 \<Longrightarrow>
      proc_world s' \<in> {snd (p_http_Shutdown p w0), w0, snd (ResolveInstanceLabel (p_rules p) (p_classes p) cfg w0)}"
    and "controller_starts p cfg w0 \<Longrightarrow>
      \<exists>http cfg' mon results. p_group p http
          (RunLeaderElection (p_RunOrDie p) (p_hostname p) (p_lib p) (p_par p) (makeController p cfg')) mon (stop_controller p collector)
          (group_state collector w0 (snd (ResolveInstanceLabel (p_rules p) (p_classes p) cfg w0)) s) = Some (results, s')"
proof -
  obtain s0 s1 :: "'a loopst Server" where sv: "NewServer cfg True = Some s0" "RegisterCertificatesHandler s0 = Some s1"
    by (rule server_exists)
  obtain x w where res: "ResolveInstanceLabel (p_rules p) (p_classes p) cfg w0 = (x, w)" by fastforce
  note defs = Run_def RunWithStarter_def runControllerWithStarter_def controller_starts_def Let_def
  show "\<not> controller_starts p cfg w0 \<Longrightarrow>
      proc_world s' \<in> {snd (p_http_Shutdown p w0), w0, snd (ResolveInstanceLabel (p_rules p) (p_classes p) cfg w0)}"
    using assms sv res
    by (auto simp: defs runHTTPOnlyWithStarter_def shutdown_server_def split: sum.splits prod.splits option.splits if_splits)
  show "\<exists>http cfg' mon results. p_group p http
      (RunLeaderElection (p_RunOrDie p) (p_hostname p) (p_lib p) (p_par p) (makeController p cfg')) mon (stop_controller p collector)
      (group_state collector w0 (snd (ResolveInstanceLabel (p_rules p) (p_classes p) cfg w0)) s) = Some (results, s')"
    if "controller_starts p cfg w0"
  proof -
    from that res obtain rest cfg' where "NewClients (p_setup p) cfg = Inr rest" "x = Inr cfg'" "\<not> StandaloneHTTPOnly cfg"
      by (cases "NewClients (p_setup p) cfg"; cases x) (auto simp: controller_starts_def)
    with assms sv res show ?thesis
      by (simp add: defs group_state_def split: option.splits prod.splits) (blast+)
  qed
qed

text \<open>
  C38. What becomes of the metrics provider that starting the process makes, when only the set-up of the
  metrics and the flush at the end touch the meter providers. If the controller proper was started, the
  providers that run after \<open>Run\<close> has returned are those that ran before, whether the set-up of the metrics
  succeeded or not. If it was not, because this is the HTTP-only mode, or because the clients or the label
  failed, the provider that the set-up made still runs: on these paths nothing shuts it down.
\<close>

theorem provider_shut_down:
  assumes "otel_laws (p_sdk p) live (p_GetMeterProvider p)" and "providers_untouched p live"
    and "newCollector p (proc_world s) = Some (collector, w0)" and "Run p cfg seen s = Some (r, s')"
  shows "live (proc_world s') =
    live (proc_world s) \<union> (if controller_starts p cfg w0 then {} else set_option (col_OTel collector))"
proof -
  let ?w = "snd (ResolveInstanceLabel (p_rules p) (p_classes p) cfg w0)" and ?get = "p_GetMeterProvider p"
  note frame = assms(2) [unfolded providers_untouched_def Let_def]
  have w: "live ?w = live w0" "?get ?w = ?get w0"
    by (rule resolve_frame; use frame in simp)+
  have h: "live (snd (p_http_Shutdown p w0)) = live w0" using frame by simp
  show ?thesis
  proof (cases "controller_starts p cfg w0")
    case False
    from Run_world(1) [OF assms(3,4) False] have "live (proc_world s') = live w0" using h w(1) by (elim insertE emptyE) simp_all
    with False stop_controller_effect(2) [OF assms(1-3), of "set_world w0 s"] show ?thesis by simp
  next
    case True
    let ?lead = "\<lambda>cfg'. RunLeaderElection (p_RunOrDie p) (p_hostname p) (p_lib p) (p_par p) (makeController p cfg')"
    from Run_world(2) [OF assms(3,4) True] obtain http cfg' mon results where
      "p_group p http (?lead cfg') mon (stop_controller p collector) (group_state collector w0 ?w s) = Some (results, s')" by blast
    then have "\<exists>t. (live (proc_world t) = live ?w \<and> ?get (proc_world t) = ?get ?w)
        \<and> live (proc_world s') = live (proc_world (stop_controller p collector t))"
      using frame group_state_fields(2) [of collector w0 ?w s] by metis
    then obtain t where t: "live (proc_world t) = live w0" "?get (proc_world t) = ?get w0"
        "live (proc_world s') = live (proc_world (stop_controller p collector t))"
      using w by auto
    with True stop_controller_effect(1) [OF assms(1-3) t(1,2)] show ?thesis by simp
  qed
qed

section \<open>Witnesses\<close>

definition first_error :: "goerr option list \<Rightarrow> goerr option" where
  "first_error rs = (case filter (\<lambda>r. r \<noteq> None) rs of [] \<Rightarrow> None | r # _ \<Rightarrow> r)"

lemma first_error_law: "wait_returns_first first_error"
  by (simp add: wait_returns_first_def first_error_def)

definition closed_errors :: go_errors where
  "closed_errors = \<lparr>is_ServerClosed = (\<lambda>e. e = ErrMsg ''http: Server closed''), is_Canceled = (\<lambda>_. False), is_DeadlineExceeded = (\<lambda>_. False)\<rparr>"

theorem runHTTPOnly_spec_witness:
  "fst (runHTTPOnlyWithStarter closed_errors first_error (\<lambda>w. (None, w)) (\<lambda>_. Some (ErrMsg ''address in use''))
     (the (NewServer (newDefaults example_host) True) :: unit Server) False ()) = Some (ErrMsg ''address in use'')"
  by (subst runHTTPOnly_spec [OF first_error_law refl]) (simp add: closed_errors_def)

text \<open>
  A process with leader election whose context ends before the lease is acquired, and a group that
  runs its functions one after the other.
\<close>

definition no_resources :: "'w ResourceClient" where
  "no_resources = \<lparr>api_Get = (\<lambda>n. failIO (KubeErr NotFound n)), api_Create = (\<lambda>u _. retIO u),
     api_Patch = (\<lambda>n _ _. failIO (KubeErr NotFound n)), api_Delete = (\<lambda>n. failIO (KubeErr NotFound n)), api_List = (\<lambda>_. retIO [])\<rparr>"

text \<open>The world of the example: the providers that run and the global one. The classes do not change.\<close>

type_synonym demo_world = "nat list \<times> nat option"

definition fixed_classes :: "'w class_client" where
  "fixed_classes = \<lparr>ic_Get = (\<lambda>n w. (fst (ic_Get mem_classes n demo_classes), w)),
     ic_List = (\<lambda>w. (fst (ic_List mem_classes demo_classes), w))\<rparr>"

definition demo_process :: "(demo_world, string list, nat) process" where
  "demo_process = \<lparr>
     p_register = demo_register, p_registry = [],
     p_sdk = demo_sdk None, p_GetMeterProvider = snd, p_version = ''dev'',
     p_listen = (\<lambda>_ _. Some (ErrMsg ''http: Server closed'')), p_http_Shutdown = (\<lambda>w. (None, w)),
     p_setup = \<lparr>inClusterConfig = Inr \<lparr>rest_QPS = Fin 5, rest_Burst = 10\<rparr>, newDynamicForConfig = (\<lambda>_. Inr ()),
       newKubernetesForConfig = (\<lambda>_. Inr ()), to_float32 = id\<rparr>,
     p_rules = any_rules, p_classes = fixed_classes, p_tick = (\<lambda>_ w. (False, w)),
     p_dyn = (\<lambda>_ _. no_resources), p_services = (\<lambda>_. no_objects), p_slices = (\<lambda>_. no_objects),
     p_env = \<lparr>UnmarshalJSON = (\<lambda>_. Inl (ErrMsg ''json'')), wait = (\<lambda>_ w. (True, w))\<rparr>, p_net = example_net,
     p_slot = (\<lambda>_. True), p_done = (\<lambda>_. True),
     p_lib = \<lparr>lib_host = example_host, http_Do = (\<lambda>_ w. (Inl (ErrMsg ''down''), w)), now = (\<lambda>_. 0), draw = (\<lambda>_. max_draw),
       ctx_done = (\<lambda>_. True), json_of = (\<lambda>_. RawText [])\<rparr>,
     p_par = (\<lambda>_. retIO ()),
     p_RunOrDie = (\<lambda>_ cb s. Some (cb_OnStoppedLeading cb s)), p_hostname = Inr ''pod'',
     p_group = (\<lambda>http lead mon stop s. case lead s of None \<Rightarrow> None | Some b \<Rightarrow>
        (case mon (proc_world b) of None \<Rightarrow> None | Some (r, v) \<Rightarrow>
           Some ([http, None, (case r of Inl e \<Rightarrow> Some e | Inr _ \<Rightarrow> None)], stop b))),
     p_Wait = first_error, p_errors = closed_errors\<rparr>"

definition leader_cfg :: "string \<Rightarrow> Config" where
  "leader_cfg on_lose = (newDefaults example_host)\<lparr>LeaderEnabled := True, OnLoseBehavior := on_lose\<rparr>"

definition demo_proc_state :: "demo_world leadst" where
  "demo_proc_state = \<lparr>lead_loop = initial_loopst \<lparr>kube = ([], None), graceDelQueue = None, inflight = []\<rparr>,
     exitRequested = False, lctx_cancelled = False, lead_metrics = None\<rparr>"

lemma demo_process_laws:
  "elect_law (p_RunOrDie demo_process)" "wait_returns_first (p_Wait demo_process)" "group_law (p_group demo_process)"
proof -
  show "elect_law (p_RunOrDie demo_process)" by (auto simp: elect_law_def demo_process_def)
  show "wait_returns_first (p_Wait demo_process)" by (simp add: demo_process_def first_error_law)
  show "group_law (p_group demo_process)"
    unfolding group_law_def
  proof (intro allI impI)
    fix http lead mon stop s results s'
    assume "(\<forall>t. exitRequested (stop t) = exitRequested t) \<and> p_group demo_process http lead mon stop s = Some (results, s')"
    then obtain b r v where "lead s = Some b" "mon (proc_world b) = Some (r, v)" "exitRequested s' = exitRequested b"
        "results = [http, None, (case r of Inl e \<Rightarrow> Some e | Inr _ \<Rightarrow> None)]"
      by (auto simp: demo_process_def split: option.splits prod.splits)
    then show "\<exists>a b v r v'. lead a = Some b \<and> exitRequested a = exitRequested s \<and> exitRequested s' = exitRequested b
        \<and> mon v = Some (r, v') \<and> mset results = {#http, None, (case r of Inl e \<Rightarrow> Some e | Inr _ \<Rightarrow> None)#}"
      by (intro exI [of _ s] exI [of _ b] exI [of _ "proc_world b"] exI [of _ r] exI [of _ v]) simp
  qed
qed

lemma leader_cfg_fields:
  "TraefikInstanceLabelKey (leader_cfg m) = []" "\<not> IngressClassProvided (leader_cfg m)" "\<not> StandaloneHTTPOnly (leader_cfg m)"
  "\<not> IngressClassLabelStrict (leader_cfg m)" "LeaderEnabled (leader_cfg m)" "OnLoseBehavior (leader_cfg m) = m"
  "\<not> EnablePprof (leader_cfg m)"
proof -
  have "TraefikInstanceLabelKey (newDefaults example_host) = []" "\<not> IngressClassProvided (newDefaults example_host)"
      "\<not> StandaloneHTTPOnly (newDefaults example_host)" "\<not> IngressClassLabelStrict (newDefaults example_host)"
      "\<not> EnablePprof (newDefaults example_host)"
    by code_simp+
  then show "TraefikInstanceLabelKey (leader_cfg m) = []" "\<not> IngressClassProvided (leader_cfg m)" "\<not> StandaloneHTTPOnly (leader_cfg m)"
      "\<not> IngressClassLabelStrict (leader_cfg m)" "LeaderEnabled (leader_cfg m)" "OnLoseBehavior (leader_cfg m) = m"
      "\<not> EnablePprof (leader_cfg m)"
    by (simp_all add: leader_cfg_def)
qed

abbreviation leader_cfg' :: "string \<Rightarrow> Config" where
  "leader_cfg' m \<equiv> (leader_cfg m)\<lparr>TraefikInstanceLabelKey := InstanceLabelKey, TraefikInstanceLabelValue := ''edge'',
     IngressClass := ''public''\<rparr>"

lemma demo_resolve:
  "ResolveInstanceLabel (p_rules demo_process) (p_classes demo_process) (leader_cfg m) w = (Inr (leader_cfg' m), w)"
proof -
  have "resolveFromIngressClass any_rules fixed_classes x False w = (Inr (InstanceLabelKey, ''edge'', ''public''), w)" for x
    by code_simp
  then show ?thesis
    by (simp add: ResolveInstanceLabel_def leader_cfg_fields bindIO_def caseIO_def demo_process_def)
qed

lemma demo_collector:
  obtains collector w0 where "newCollector demo_process (proc_world demo_proc_state) = Some (collector, w0)"
proof -
  obtain r where "MustRegister demo_register collector_metrics [] = Some r"
    by (rule MustRegister_collector [OF demo_register_law, of "[]"]) simp_all
  then obtain x where "newCollector demo_process (proc_world demo_proc_state) = Some x"
    by (simp add: newCollector_def NewCollector_def demo_process_def)
  with that show thesis by (cases x) simp
qed

lemma demo_clients: obtains rest where "NewClients (p_setup demo_process) (leader_cfg m) = Inr rest"
  by (auto simp: NewClients_def demo_process_def Let_def)

lemma demo_main_ends: "\<exists>code. controller_main demo_process (leader_cfg m) False demo_proc_state = Some code"
proof -
  obtain collector w0 where col: "newCollector demo_process (proc_world demo_proc_state) = Some (collector, w0)"
    by (rule demo_collector)
  obtain rest where n: "NewClients (p_setup demo_process) (leader_cfg m) = Inr rest" by (rule demo_clients)
  let ?c = "makeController demo_process (leader_cfg' m)" and ?s = "group_state collector w0 w0 demo_proc_state"
  let ?lead = "RunLeaderElection (p_RunOrDie demo_process) (p_hostname demo_process) (p_lib demo_process) (p_par demo_process) ?c"
  let ?mon = "Monitor (p_classes demo_process) (p_tick demo_process) (leader_cfg' m)"
  have "LeaderEnabled (c_cfg ?c)" using leader_cfg_fields(5) [of m] by simp
  then obtain b where "?lead ?s = Some b" by (auto simp: RunLeaderElection_def demo_process_def Let_def)
  moreover obtain r where "?mon (proc_world b) = Some r"
    by (auto simp: Monitor_def iterate.simps monitor_round_def demo_process_def)
  ultimately have "\<exists>x. p_group demo_process http ?lead ?mon stop ?s = Some x" for http stop
    by (simp add: demo_process_def split: prod.split)
  moreover obtain f http where "controller_main demo_process (leader_cfg m) False demo_proc_state
      = map_option f (p_group demo_process http ?lead ?mon (stop_controller demo_process collector) ?s)"
    by (rule controller_main_group [OF leader_cfg_fields(3) col n demo_resolve, of False]) (erule that)
  ultimately show ?thesis by simp
qed

theorem shutdown_exit_code_witness:
  "controller_main demo_process (leader_cfg ''exit'') False demo_proc_state = Some 1
   \<and> controller_main demo_process (leader_cfg ''pause'') False demo_proc_state = Some 0"
proof -
  have f: "\<not> exitRequested demo_proc_state"
      "\<forall>addr how e. p_listen demo_process addr how = Some e \<longrightarrow> is_ServerClosed (p_errors demo_process) e"
    by (simp_all add: demo_proc_state_def demo_process_def closed_errors_def)
  obtain collector w0 where col: "newCollector demo_process (proc_world demo_proc_state) = Some (collector, w0)"
    by (rule demo_collector)
  have code: "controller_main demo_process (leader_cfg m) False demo_proc_state
      = Some (if \<not> EqualFold m ''pause'' then 1 else 0)" for m
  proof -
    obtain code where c: "controller_main demo_process (leader_cfg m) False demo_proc_state = Some code"
      using demo_main_ends by blast
    obtain rest where n: "NewClients (p_setup demo_process) (leader_cfg m) = Inr rest" by (rule demo_clients)
    from c shutdown_exit_code [OF demo_process_laws leader_cfg_fields(3) f(1) leader_cfg_fields(4) _ f(2) col n demo_resolve c]
    show ?thesis by (simp add: leader_cfg_fields)
  qed
  have "\<not> EqualFold ''exit'' ''pause''" "EqualFold ''pause'' ''pause''" by code_simp+
  with code show ?thesis by simp
qed

definition http_only_cfg :: Config where
  "http_only_cfg = (leader_cfg ''exit'')\<lparr>StandaloneHTTPOnly := True\<rparr>"

lemma startGraceDeletionPool_kube: "kube (startGraceDeletionPool k) = kube k"
  by (simp add: startGraceDeletionPool_def split: option.split)

lemma demo_lead_world:
  assumes "RunLeaderElection (p_RunOrDie demo_process) (p_hostname demo_process) (p_lib demo_process) (p_par demo_process)
    (makeController demo_process cfg) a = Some b"
  shows "proc_world b = proc_world a"
proof (cases "LeaderEnabled cfg")
  case True
  with assms show ?thesis
    by (auto simp: RunLeaderElection_def demo_process_def leaderCallbacks_def OnStoppedLeading_def
        handleLeadershipLoss_def startGraceDeletionPool_kube proc_world_def Let_def split: if_splits)
next
  case False
  have "ctx_done (p_lib demo_process) w" for w by (simp add: demo_process_def)
  then have "runLoop_m (p_lib demo_process) par c sm = Some sm" for par c sm
    by (subst runLoop_m.simps) (simp add: runLoop_iter_m_def split: prod.split)
  with False assms show ?thesis
    by (auto simp: RunLeaderElection_def OnStartedLeading_def fresh_locals_def startGraceDeletionPool_kube proc_world_def Let_def)
qed

lemma demo_untouched: "providers_untouched demo_process (\<lambda>w. set (fst w))"
proof -
  have "\<exists>t. proc_world t = proc_world s \<and> s' = stop t"
    if "p_group demo_process http (RunLeaderElection (p_RunOrDie demo_process) (p_hostname demo_process) (p_lib demo_process)
        (p_par demo_process) (makeController demo_process cfg)) mon stop s = Some (results, s')" for http cfg mon stop s results s'
  proof -
    have grp: "p_group demo_process = (\<lambda>http lead mon stop s. case lead s of None \<Rightarrow> None | Some b \<Rightarrow>
        (case mon (proc_world b) of None \<Rightarrow> None | Some (r, v) \<Rightarrow>
           Some ([http, None, (case r of Inl e \<Rightarrow> Some e | Inr _ \<Rightarrow> None)], stop b)))"
      by (simp add: demo_process_def)
    from that [unfolded grp] show ?thesis using demo_lead_world by (auto split: option.splits prod.splits)
  qed
  moreover have "p_http_Shutdown demo_process = (\<lambda>w. (None, w))" "p_classes demo_process = fixed_classes"
    by (simp_all add: demo_process_def)
  ultimately show ?thesis unfolding providers_untouched_def Let_def by (simp add: fixed_classes_def) metis
qed

theorem provider_shut_down_witness:
  "\<exists>r s' q t. Run demo_process (leader_cfg ''exit'') False demo_proc_state = Some (r, s') \<and> fst (proc_world s') = []
     \<and> Run demo_process http_only_cfg False demo_proc_state = Some (q, t) \<and> fst (proc_world t) \<noteq> []"
proof -
  let ?s = demo_proc_state and ?live = "\<lambda>w :: demo_world. set (fst w)"
  have sel: "p_sdk demo_process = demo_sdk None" "p_GetMeterProvider demo_process = snd" by (simp_all add: demo_process_def)
  obtain collector w0 where col: "newCollector demo_process (proc_world ?s) = Some (collector, w0)" by (rule demo_collector)
  note shut = provider_shut_down [of demo_process ?live ?s, unfolded sel, OF demo_sdk_laws demo_untouched col]
  have w: "proc_world ?s = ([], None)" by (simp add: demo_proc_state_def proc_world_def initial_loopst_def)
  obtain r s' where run: "Run demo_process (leader_cfg ''exit'') False ?s = Some (r, s')"
    using demo_main_ends [of "''exit''"] by (auto simp: controller_main_def)
  obtain rest where "NewClients (p_setup demo_process) (leader_cfg ''exit'') = Inr rest" by (rule demo_clients)
  then have "controller_starts demo_process (leader_cfg ''exit'') w0"
    by (simp add: controller_starts_def leader_cfg_fields(3) demo_resolve)
  with shut [OF run] w have a: "fst (proc_world s') = []" by simp
  obtain s0 s1 :: "demo_world loopst Server" where "NewServer http_only_cfg True = Some s0" by (rule server_exists)
  with col have "\<exists>x. Run demo_process http_only_cfg False ?s = Some x"
    by (simp add: Run_def RunWithStarter_def http_only_cfg_def Let_def split: prod.split)
  then obtain q t where run': "Run demo_process http_only_cfg False ?s = Some (q, t)" by auto
  let ?r = "SetupOTel (demo_sdk None) example_host (Inr ''pod'') ''dev'' True ([], None)"
  have "\<not> isl (fst ?r)" unfolding SetupOTel_def otel_instruments_def by (simp add: demo_sdk_def io_defs)
  moreover have "col_OTel collector = (case fst ?r of Inr mp \<Rightarrow> Some mp | Inl _ \<Rightarrow> None)"
    by (rule newCollector_Some(2) [OF col, of _ "snd ?r"]) (simp add: demo_process_def w)
  ultimately have "col_OTel collector \<noteq> None" by (cases "fst ?r") auto
  moreover have "\<not> controller_starts demo_process http_only_cfg w0" by (simp add: controller_starts_def http_only_cfg_def)
  ultimately have "fst (proc_world t) \<noteq> []" using shut [OF run'] w by auto
  with run run' a show ?thesis by blast
qed

end
