(* ===== verification/ClusterSetup.thy ===== *)
theory ClusterSetup
  imports Reconcile
begin

text \<open>
  Small parts around the controller: the check for the custom resource definitions
  (\<^verbatim>\<open>internal/kube/crd.go\<close>), the bounds of the collector object (\<^verbatim>\<open>internal/reconcile/gc.go\<close>), the status class
  of the metrics (\<^verbatim>\<open>internal/observability/metrics_otel/attributes.go\<close>) and the build string
  (\<^verbatim>\<open>internal/version/version.go\<close>).

  Shown: the check passes exactly when the definition of every resource type the controller writes is
  installed.
\<close>

section \<open>Custom resource definitions\<close>

definition traefikCRDs :: "string list" where
  "traefikCRDs = [''middlewares'', ''ingressroutes'', ''traefikservices'', ''serverstransports'',
     ''ingressroutetcps'', ''ingressrouteudps'', ''serverstransporttcps'']"

definition CheckCRDs :: "(string \<Rightarrow> ('w, unit) io) \<Rightarrow> ('w, unit) io" where
  "CheckCRDs crd_Get =
     loopIO (\<lambda>resource.
       let name = resource @ ''.'' @ Group in
       caseIO (crd_Get name) (\<lambda>err. failIO (Wrap (''required CRD not found: '' @ name) err)) (\<lambda>_. retIO ())) traefikCRDs"

text \<open>Reading a definition changes none, and succeeds exactly when it is installed.\<close>

definition crd_laws :: "(string \<Rightarrow> ('w, unit) io) \<Rightarrow> ('w \<Rightarrow> string set) \<Rightarrow> bool" where
  "crd_laws crd_Get installed \<longleftrightarrow> (\<forall>w n. installed (snd (crd_Get n w)) = installed w
     \<and> (fst (crd_Get n w) = Inr () \<longleftrightarrow> n \<in> installed w))"

lemma check_loop:
  assumes "crd_laws crd_Get installed"
  shows "fst (loopIO (\<lambda>resource.
       let name = resource @ ''.'' @ Group in
       caseIO (crd_Get name) (\<lambda>err. failIO (Wrap (''required CRD not found: '' @ name) err)) (\<lambda>_. retIO ())) rs w) = Inr ()
     \<longleftrightarrow> (\<forall>r \<in> set rs. r @ ''.'' @ Group \<in> installed w)"
proof (induction rs arbitrary: w)
  case (Cons r rs)
  obtain x w1 where g: "crd_Get (r @ ''.'' @ Group) w = (x, w1)" by fastforce
  have "installed (snd (crd_Get (r @ ''.'' @ Group) w)) = installed w
      \<and> (fst (crd_Get (r @ ''.'' @ Group) w) = Inr () \<longleftrightarrow> r @ ''.'' @ Group \<in> installed w)"
    using assms unfolding crd_laws_def by blast
  with g have "installed w1 = installed w" "x = Inr () \<longleftrightarrow> r @ ''.'' @ Group \<in> installed w" by simp_all
  with g Cons.IH [of w1] show ?case
    by (cases x) (auto simp: thenIO_def bindIO_def caseIO_def Let_def)
qed simp

definition written_types :: "'w Controller \<Rightarrow> GVR set" where
  "written_types c = {gvrMiddleware c, gvrIngressRoute c, gvrTraefikService c, gvrServersTransport c,
     gvrIngressRouteTCP c, gvrIngressRouteUDP c, gvrServersTransportTCP c}"

text \<open>
  The check and the controller agree on the resource types: the check passes exactly when the
  definition of every type that a controller writes is installed.
\<close>

theorem CheckCRDs_covers_controller:
  assumes "crd_laws crd_Get installed"
  shows "fst (CheckCRDs crd_Get w) = Inr () \<longleftrightarrow>
    (\<forall>g \<in> written_types (NewController cfg dyn svcs slices env net slot cancelled).
       gvr_Resource g @ ''.'' @ gvr_Group g \<in> installed w)"
  unfolding CheckCRDs_def check_loop [OF assms]
  by (auto simp: traefikCRDs_def written_types_def NewController_def traefik_gvr_def)

section \<open>The collector object\<close>

record GC =
  gc_workers :: int
  gc_queue :: int
  gc_gracePeriod :: int

definition NewGC :: "int \<Rightarrow> int \<Rightarrow> int \<Rightarrow> GC" where
  "NewGC workers gracePeriod queueSize =
     (let workers = (if workers \<le> 0 then 1 else workers);
          queueSize = (if queueSize \<le> 0 then 256 else queueSize)
      in \<lparr>gc_workers = workers, gc_queue = queueSize, gc_gracePeriod = gracePeriod\<rparr>)"

definition Workers :: "GC \<Rightarrow> int" where
  "Workers gc = gc_workers gc"

text \<open>It has the same bounds as the queue of the controller.\<close>

lemma NewGC_bounds:
  "Workers (NewGC (GCWorkers cfg) d q) = gcSem (NewController cfg dyn svcs slices env net slot cancelled)"
  "gc_queue (NewGC n d (GCGraceQueueSize cfg)) = queue_size cfg"
  by (simp_all add: Workers_def NewGC_def NewController_def queue_size_def Let_def)

section \<open>Metrics and version\<close>

definition StatusClass :: "int \<Rightarrow> string" where
  "StatusClass code =
     (if code = 0 then ''0''
      else if code \<ge> 100 \<and> code < 200 then ''1xx''
      else if code \<ge> 200 \<and> code < 300 then ''2xx''
      else if code \<ge> 300 \<and> code < 400 then ''3xx''
      else if code \<ge> 400 \<and> code < 500 then ''4xx''
      else if code \<ge> 500 \<and> code < 600 then ''5xx''
      else ''unknown'')"

lemma StatusClass_digit:
  "100 \<le> code \<Longrightarrow> code < 600 \<Longrightarrow> StatusClass code = itoa (code div 100) @ ''xx''"
proof -
  assume "100 \<le> code" "code < 600"
  then have "code div 100 \<in> {1, 2, 3, 4, 5}" by auto
  moreover have "itoa 1 = ''1''" "itoa 2 = ''2''" "itoa 3 = ''3''" "itoa 4 = ''4''" "itoa 5 = ''5''" by code_simp+
  ultimately show ?thesis using \<open>100 \<le> code\<close> \<open>code < 600\<close> by (auto simp: StatusClass_def)
qed

record Info =
  info_Version :: string
  info_Commit :: string
  info_Date :: string

definition Info_String :: "Info \<Rightarrow> string" where
  "Info_String i = ''Version='' @ info_Version i @ '' Commit='' @ info_Commit i @ '' Date='' @ info_Date i"

text \<open>The variables that the linker may set, with the values they have if it does not.\<close>

definition build_defaults :: Info where
  "build_defaults = \<lparr>info_Version = ''dev'', info_Commit = ''none'', info_Date = ''unknown''\<rparr>"

definition version_Get :: "string \<Rightarrow> string \<Rightarrow> string \<Rightarrow> Info" where
  "version_Get ver commit date = \<lparr>info_Version = ver, info_Commit = commit, info_Date = date\<rparr>"

definition version_String :: "string \<Rightarrow> string \<Rightarrow> string \<Rightarrow> string" where
  "version_String ver commit date = Info_String (version_Get ver commit date)"

lemma version_String_default:
  "version_String (info_Version build_defaults) (info_Commit build_defaults) (info_Date build_defaults) =
     ''Version=dev Commit=none Date=unknown''"
  by (simp add: version_String_def version_Get_def build_defaults_def Info_String_def)

section \<open>Witness\<close>

definition demo_crds :: "string list \<Rightarrow> string \<Rightarrow> (unit, unit) io" where
  "demo_crds names n w = (if n \<in> set names then Inr () else Inl (KubeErr NotFound n), w)"

theorem CheckCRDs_covers_controller_witness:
  "fst (CheckCRDs (demo_crds (map (\<lambda>r. r @ ''.traefik.io'') traefikCRDs)) ()) = Inr ()
   \<and> fst (CheckCRDs (demo_crds [''middlewares.traefik.io'']) ()) \<noteq> Inr ()"
proof -
  have laws: "crd_laws (demo_crds ns) (\<lambda>_. set ns)" for ns by (simp add: crd_laws_def demo_crds_def)
  have eq: "fst (CheckCRDs (demo_crds ns) ()) = Inr () \<longleftrightarrow>
      (\<forall>g \<in> written_types (demo demo_cfg). gvr_Resource g @ ''.'' @ gvr_Group g \<in> set ns)" for ns
    unfolding demo_def by (rule CheckCRDs_covers_controller [OF laws])
  have types: "written_types (demo demo_cfg) = traefik_gvr ` set traefikCRDs"
    by (auto simp: written_types_def demo_def NewController_def traefikCRDs_def)
  show ?thesis unfolding eq types by (simp add: traefikCRDs_def traefik_gvr_def Group_def)
qed

end
