(* ===== verification/Paths.thy ===== *)
theory Paths
  imports Iteration
begin

text \<open>
  The functions of \<^verbatim>\<open>path/filepath\<close> that the developer tools use, on a system whose separator is the
  slash (where \<open>ToSlash\<close> and \<open>FromSlash\<close> change nothing): \<open>Clean\<close>, \<open>Join\<close>, \<open>Dir\<close>, \<open>Base\<close>, \<open>Ext\<close>,
  \<open>IsAbs\<close> and \<open>Rel\<close>. A path is worked on through its parts: the names between the slashes with empty names, dots and
  inner double dots resolved.

  Shown: \<open>Clean\<close> is idempotent and what it returns is normal; for absolute paths, \<open>Rel\<close> leaves the base
  exactly when the parts of the base do not begin those of the target.
\<close>

section \<open>Clean\<close>

abbreviation slash :: char where
  "slash \<equiv> CHR ''/''"

definition IsAbs :: "string \<Rightarrow> bool" where
  "IsAbs p \<longleftrightarrow> HasPrefix p ''/''"

text \<open>One name of a path against the names before it, the last one first.\<close>

definition clean_push :: "bool \<Rightarrow> string \<Rightarrow> string list \<Rightarrow> string list" where
  "clean_push rooted c st =
     (if c = [] \<or> c = ''.'' then st
      else if c = ''..'' then
        (case st of
           [] \<Rightarrow> if rooted then [] else [''..'']
         | t # ts \<Rightarrow> if t = ''..'' then ''..'' # st else ts)
      else c # st)"

definition clean_parts :: "bool \<Rightarrow> string list \<Rightarrow> string list" where
  "clean_parts rooted cs = rev (fold (clean_push rooted) cs [])"

definition parts :: "string \<Rightarrow> string list" where
  "parts p = clean_parts (IsAbs p) (Split p slash)"

definition path_of :: "bool \<Rightarrow> string list \<Rightarrow> string" where
  "path_of rooted cs =
     (if rooted then slash # Join cs ''/'' else if cs = [] then ''.'' else Join cs ''/'')"

definition Clean :: "string \<Rightarrow> string" where
  "Clean p = path_of (IsAbs p) (parts p)"

section \<open>The other functions\<close>

definition path_Join :: "string list \<Rightarrow> string" where
  "path_Join elems = (case dropWhile (\<lambda>e. e = []) elems of [] \<Rightarrow> [] | es \<Rightarrow> Clean (Join es ''/''))"

definition Dir :: "string \<Rightarrow> string" where
  "Dir p = Clean (case CutLast p slash of None \<Rightarrow> [] | Some (d, _) \<Rightarrow> d @ ''/'')"

definition Base :: "string \<Rightarrow> string" where
  "Base p =
     (if p = [] then ''.''
      else
        let q = rev (dropWhile (\<lambda>c. c = slash) (rev p));
            b = (case CutLast q slash of None \<Rightarrow> q | Some (_, b) \<Rightarrow> b)
        in if b = [] then ''/'' else b)"

definition Ext :: "string \<Rightarrow> string" where
  "Ext p =
     (let b = (case CutLast p slash of None \<Rightarrow> p | Some (_, b) \<Rightarrow> b)
      in case CutLast b (CHR ''.'') of None \<Rightarrow> [] | Some (_, e) \<Rightarrow> CHR ''.'' # e)"

fun drop_common :: "string list \<Rightarrow> string list \<Rightarrow> string list \<times> string list" where
  "drop_common (b # bs) (t # ts) = (if b = t then drop_common bs ts else (b # bs, t # ts))"
| "drop_common bs ts = (bs, ts)"

definition Rel :: "string \<Rightarrow> string \<Rightarrow> string result" where
  "Rel basepath targpath =
     (let err = ErrMsg (''Rel: can't make '' @ targpath @ '' relative to '' @ basepath);
          targ = Clean targpath
      in if targ = Clean basepath then Inr ''.''
         else if IsAbs basepath \<noteq> IsAbs targpath then Inl err
         else case drop_common (parts basepath) (if targ = ''.'' then [''.''] else parts targpath) of
             ([], ts) \<Rightarrow> Inr (Join ts ''/'')
           | (b # bs, ts) \<Rightarrow>
               if b = ''..'' \<and> ts \<noteq> [] then Inl err
               else Inr (Join (''..'' # replicate (length bs) ''..'' @ ts) ''/''))"

section \<open>Normal paths\<close>

definition name_ok :: "string \<Rightarrow> bool" where
  "name_ok c \<longleftrightarrow> c \<noteq> [] \<and> c \<noteq> ''.'' \<and> c \<noteq> ''..'' \<and> slash \<notin> set c"

definition normal :: "bool \<Rightarrow> string list \<Rightarrow> bool" where
  "normal rooted cs \<longleftrightarrow>
     (\<exists>n ns. cs = replicate n ''..'' @ ns \<and> (\<forall>c \<in> set ns. name_ok c) \<and> (rooted \<longrightarrow> n = 0))"

lemma normalI: "cs = replicate n ''..'' @ ns \<Longrightarrow> \<forall>c \<in> set ns. name_ok c \<Longrightarrow> (rooted \<Longrightarrow> n = 0) \<Longrightarrow> normal rooted cs"
  by (auto simp: normal_def)

lemma normal_names: "\<forall>c \<in> set ns. name_ok c \<Longrightarrow> normal rooted ns"
  by (rule normalI [of _ 0]) auto

lemma normal_push:
  assumes "normal rooted (rev st)" and "slash \<notin> set c"
  shows "normal rooted (rev (clean_push rooted c st))"
proof -
  obtain n ns where n: "rev st = replicate n ''..'' @ ns" "\<forall>c \<in> set ns. name_ok c" "rooted \<longrightarrow> n = 0"
    using assms(1) by (auto simp: normal_def)
  consider (skip) "c = [] \<or> c = ''.''" | (up) "c = ''..''" | (down) "name_ok c"
    using assms(2) by (auto simp: name_ok_def)
  then show ?thesis
  proof cases
    case skip
    with assms(1) show ?thesis by (auto simp: clean_push_def)
  next
    case down
    with n have "rev (clean_push rooted c st) = replicate n ''..'' @ ns @ [c]" by (simp add: clean_push_def name_ok_def)
    from normalI [OF this] n down show ?thesis by auto
  next
    case up
    show ?thesis
    proof (cases ns rule: rev_cases)
      case Nil
      with n(1) have "st = replicate n ''..''" by (metis append_Nil2 rev_replicate rev_rev_ident)
      then have "rev (clean_push rooted c st) = replicate (if rooted then 0 else Suc n) ''..'' @ []"
        using up n(3) by (cases n) (auto simp: clean_push_def replicate_append_same)
      then show ?thesis by (rule normalI) (auto split: if_splits)
    next
      case (snoc ms m)
      with n(1) have "st = m # rev (replicate n ''..'' @ ms)" by (metis append.assoc rev_append rev_rev_ident rev_singleton_conv append_Cons append_Nil)
      with up n(2) snoc have "rev (clean_push rooted c st) = replicate n ''..'' @ ms"
        by (simp add: clean_push_def name_ok_def)
      from normalI [OF this] n snoc show ?thesis by auto
    qed
  qed
qed

lemma clean_parts_normal:
  assumes "\<forall>c \<in> set cs. slash \<notin> set c"
  shows "normal rooted (clean_parts rooted cs)"
proof -
  have "normal rooted (rev (fold (clean_push rooted) cs st))" if "normal rooted (rev st)" for st
    using assms that by (induction cs arbitrary: st) (auto intro: normal_push)
  from this [of "[]"] show ?thesis by (simp add: clean_parts_def normal_def)
qed

lemma parts_normal: "normal (IsAbs p) (parts p)"
  unfolding parts_def using Split_parts_no_sep by (intro clean_parts_normal) blast

lemma fold_names: "\<forall>c \<in> set ns. name_ok c \<Longrightarrow> fold (clean_push rooted) ns st = rev ns @ st"
  by (induction ns arbitrary: st) (auto simp: clean_push_def name_ok_def)

lemma fold_ups: "(clean_push False ''..'' ^^ n) [] = replicate n ''..''"
proof (induction n)
  case (Suc n)
  then show ?case by (cases n) (simp_all add: clean_push_def)
qed simp

lemma clean_parts_id:
  assumes "normal rooted cs"
  shows "clean_parts rooted cs = cs"
proof -
  obtain n ns where "cs = replicate n ''..'' @ ns" "\<forall>c \<in> set ns. name_ok c" "rooted \<longrightarrow> n = 0"
    using assms by (auto simp: normal_def)
  then show ?thesis by (cases rooted) (auto simp: clean_parts_def fold_names fold_ups)
qed

lemma normal_no_slash:
  assumes "normal rooted cs" and "c \<in> set cs"
  shows "slash \<notin> set c \<and> c \<noteq> []"
proof -
  obtain n ns where "cs = replicate n ''..'' @ ns" "\<forall>c \<in> set ns. name_ok c" using assms(1) by (auto simp: normal_def)
  with assms(2) have "c = ''..'' \<or> name_ok c" by (auto split: if_splits)
  then show ?thesis by (auto simp: name_ok_def)
qed

text \<open>A path that is made of normal parts has those parts.\<close>

lemma path_of_parts:
  assumes "normal rooted cs"
  shows "IsAbs (path_of rooted cs) = rooted" and "parts (path_of rooted cs) = cs"
proof -
  show a: "IsAbs (path_of rooted cs) = rooted"
  proof (cases cs)
    case (Cons c cs')
    with normal_no_slash [OF assms, of c] obtain x c' where "c = x # c'" "x \<noteq> slash" by (cases c) auto
    with Cons show ?thesis by (cases cs') (auto simp: path_of_def IsAbs_def HasPrefix_def)
  qed (auto simp: path_of_def IsAbs_def HasPrefix_def)
  have j: "Split (Join cs ''/'') slash = cs" if "cs \<noteq> []"
    using that normal_no_slash [OF assms] by (intro Split_Join) auto
  have skip: "clean_parts r ([] # xs) = clean_parts r xs" for r xs by (simp add: clean_parts_def clean_push_def)
  show "parts (path_of rooted cs) = cs"
    unfolding parts_def a using j skip clean_parts_id [OF assms]
    by (cases "cs = []") (auto simp: path_of_def clean_parts_def clean_push_def)
qed

lemma Clean_parts [simp]: "parts (Clean p) = parts p" "IsAbs (Clean p) = IsAbs p"
  by (simp_all add: Clean_def path_of_parts [OF parts_normal])

lemma Clean_idem: "Clean (Clean p) = Clean p"
  unfolding Clean_def [of "Clean p"] Clean_parts by (rule Clean_def [symmetric])

lemma path_of_inj:
  assumes "normal r cs" and "normal r ds" and "path_of r cs = path_of r ds"
  shows "cs = ds"
proof -
  have "cs = parts (path_of r cs)" by (rule path_of_parts(2) [OF assms(1), symmetric])
  also have "\<dots> = ds" unfolding assms(3) by (rule path_of_parts(2) [OF assms(2)])
  finally show ?thesis .
qed

section \<open>Below a directory\<close>

lemma drop_common_prefix:
  "drop_common bs ts = (bs', ts') \<Longrightarrow> \<exists>cs. bs = cs @ bs' \<and> ts = cs @ ts' \<and> (bs' = [] \<or> ts' = [] \<or> hd bs' \<noteq> hd ts')"
proof (induction bs ts rule: drop_common.induct)
  case (1 b bs t ts)
  show ?case
  proof (cases "b = t")
    case True
    with 1 obtain cs where "bs = cs @ bs'" "ts = cs @ ts'" "bs' = [] \<or> ts' = [] \<or> hd bs' \<noteq> hd ts'" by auto
    with True show ?thesis by (intro exI [of _ "b # cs"]) simp
  qed (use 1 in auto)
qed auto

lemma drop_common_Nil: "fst (drop_common bs ts) = [] \<longleftrightarrow> prefix bs ts"
  by (induction bs ts rule: drop_common.induct) auto

lemma abs_names: "IsAbs p \<Longrightarrow> \<forall>c \<in> set (parts p). name_ok c"
  using parts_normal [of p] by (auto simp: normal_def)

text \<open>A relative path that leaves its base begins with two dots.\<close>

definition leaves :: "string \<Rightarrow> bool" where
  "leaves rel \<longleftrightarrow> rel = ''..'' \<or> HasPrefix rel ''../''"

lemma leaves_path:
  assumes "normal False cs"
  shows "leaves (path_of False cs) \<longleftrightarrow> cs \<noteq> [] \<and> hd cs = ''..''"
proof (cases cs)
  case Nil
  then show ?thesis by (simp add: leaves_def path_of_def HasPrefix_def)
next
  case (Cons c cs')
  have s: "slash \<notin> set c" using normal_no_slash [OF assms, of c] Cons by simp
  have "prefix (''..'' @ [slash]) (c @ slash # r) \<longleftrightarrow> c = ''..''" for r
  proof
    assume "prefix (''..'' @ [slash]) (c @ slash # r)"
    then obtain z where "''..'' @ slash # z = c @ slash # r" by (auto simp: prefix_def)
    then have "Split (''..'' @ slash # z) slash = Split (c @ slash # r) slash" by simp
    with s show "c = ''..''" by (simp add: Split_append_sep del: append.simps)
  qed simp
  moreover have "\<not> prefix ''../'' c" using s by (auto simp: prefix_def)
  moreover have "c @ slash # r \<noteq> ''..''" for r by (auto dest!: arg_cong [where f = set])
  ultimately show ?thesis using Cons by (cases cs') (auto simp: leaves_def path_of_def HasPrefix_def)
qed

lemma Clean_path: "normal False cs \<Longrightarrow> Clean (path_of False cs) = path_of False cs"
  by (simp add: Clean_def path_of_parts)

lemma Rel_abs:
  assumes "IsAbs base" and "IsAbs target"
  obtains rel where "Rel base target = Inr rel" and "leaves (Clean rel) \<longleftrightarrow> \<not> prefix (parts base) (parts target)"
proof -
  note ok = abs_names [OF assms(1)] abs_names [OF assms(2)]
  have d: "Clean target \<noteq> ''.''" using assms(2) Clean_parts(2) [of target] by (auto simp: IsAbs_def HasPrefix_def)
  show thesis
  proof (cases "Clean target = Clean base")
    case True
    then have "parts target = parts base" using Clean_parts(1) by metis
    moreover have "\<not> leaves (Clean ''.'')" by code_simp
    ultimately show thesis using that [of "''.''"] True by (simp add: Rel_def Let_def)
  next
    case False
    obtain bs ts where c: "drop_common (parts base) (parts target) = (bs, ts)" by fastforce
    from drop_common_prefix [OF c] obtain cs where cs: "parts base = cs @ bs" "parts target = cs @ ts" by blast
    have pre: "bs = [] \<longleftrightarrow> prefix (parts base) (parts target)" using drop_common_Nil [of "parts base" "parts target"] c by simp
    show thesis
    proof (cases bs)
      case Nil
      have n: "ts \<noteq> []" "\<forall>c \<in> set ts. name_ok c" "normal False ts"
        using cs Nil False ok assms by (auto simp: Clean_def intro!: normal_names)
      then have "Rel base target = Inr (path_of False ts)" "hd ts \<noteq> ''..''"
        using c Nil False assms d by (auto simp: Rel_def Let_def path_of_def name_ok_def)
      then show thesis using that pre Nil n leaves_path [OF n(3)] by (simp add: Clean_path)
    next
      case (Cons b bs')
      let ?r = "replicate (Suc (length bs')) ''..'' @ ts"
      have n: "normal False ?r" by (rule normalI [OF refl]) (use cs ok in auto)
      have "b \<noteq> ''..''" using cs ok Cons by (auto simp: name_ok_def)
      then have "Rel base target = Inr (path_of False ?r)"
        using c Cons False assms d by (simp add: Rel_def Let_def path_of_def)
      then show thesis using that pre Cons leaves_path [OF n] Clean_path [OF n] by simp
    qed
  qed
qed

text \<open>Joining a path to a directory.\<close>

lemma Split_append: "Split (x @ slash # y) slash = Split x slash @ Split y slash"
proof (induction x)
  case (Cons c x)
  then show ?case by (cases "Split x slash") auto
qed simp

lemma join_parts:
  assumes "IsAbs base" and "\<not> IsAbs rel" and "\<not> leaves (Clean rel)"
  shows "IsAbs (path_Join [base, Clean rel])" and "parts (path_Join [base, Clean rel]) = parts base @ parts rel"
proof -
  have b: "base \<noteq> []" using assms(1) by (auto simp: IsAbs_def HasPrefix_def)
  then have j: "path_Join [base, Clean rel] = Clean (base @ slash # Clean rel)" by (simp add: path_Join_def)
  have a: "IsAbs (base @ slash # Clean rel)" using assms(1) b by (cases base) (auto simp: IsAbs_def HasPrefix_def)
  then show "IsAbs (path_Join [base, Clean rel])" unfolding j by simp
  have n: "normal False (parts rel)" using parts_normal [of rel] assms(2) by simp
  have c: "Clean rel = path_of False (parts rel)" using assms(2) by (simp add: Clean_def)
  have names: "\<forall>c \<in> set (parts rel). name_ok c"
  proof -
    obtain k ns where "parts rel = replicate k ''..'' @ ns" "\<forall>c \<in> set ns. name_ok c" using n by (auto simp: normal_def)
    moreover have "k = 0" using assms(3) leaves_path [OF n] c calculation(1) by (cases k) auto
    ultimately show ?thesis by simp
  qed
  have "Split (Clean rel) slash = (if parts rel = [] then [''.''] else parts rel)"
    unfolding c path_of_def using normal_no_slash [OF n] by (auto intro!: Split_Join)
  then have "fold (clean_push True) (Split (Clean rel) slash) st = rev (parts rel) @ st" for st
    using fold_names [OF names] by (simp add: clean_push_def)
  moreover have "rev (parts base) = fold (clean_push True) (Split base slash) []"
    using assms(1) by (simp add: parts_def clean_parts_def)
  ultimately have "clean_parts True (Split base slash @ Split (Clean rel) slash) = parts base @ parts rel"
    by (simp add: clean_parts_def rev_swap)
  then show "parts (path_Join [base, Clean rel]) = parts base @ parts rel"
    unfolding j Clean_parts parts_def [of "base @ slash # Clean rel"] using a by (simp add: Split_append)
qed

section \<open>Walking up\<close>

text \<open>
  The loop with which the tools look for \<^verbatim>\<open>go.mod\<close>: from a directory to its parents, until one is found
  or a directory is its own parent.
\<close>

definition walk_step :: "(string \<Rightarrow> 'a option) \<Rightarrow> string \<Rightarrow> (string + 'a) + string" where
  "walk_step found d =
     (case found d of
        Some x \<Rightarrow> Inl (Inr x)
      | None \<Rightarrow> if Dir d = d then Inl (Inl d) else Inr (Dir d))"

definition walk_up :: "(string \<Rightarrow> 'a option) \<Rightarrow> string \<Rightarrow> (string + 'a) option" where
  "walk_up found d = iterate (walk_step found) d"

fun first_found :: "('a \<Rightarrow> 'b option) \<Rightarrow> 'a list \<Rightarrow> 'b option" where
  "first_found f [] = None"
| "first_found f (x # xs) = (case f x of Some y \<Rightarrow> Some y | None \<Rightarrow> first_found f xs)"

text \<open>A directory and its parents up to the root.\<close>

definition ups :: "string list \<Rightarrow> string list" where
  "ups cs = map (\<lambda>k. path_of True (take k cs)) (rev [0..<Suc (length cs)])"

lemma Join_snoc: "Join (xs @ [x]) sep = (if xs = [] then x else Join xs sep @ sep @ x)"
  by (induction xs sep rule: Join.induct) auto

lemma Dir_path:
  assumes "normal True (cs @ [c])"
  shows "Dir (path_of True (cs @ [c])) = path_of True cs"
proof -
  let ?d = "if cs = [] then [] else slash # Join cs ''/''"
  have n: "normal True cs" using assms by (auto simp: normal_def)
  have "path_of True (cs @ [c]) = ?d @ slash # c" by (simp add: path_of_def Join_snoc)
  moreover have "slash \<notin> set c" using normal_no_slash [OF assms] by simp
  ultimately have "Dir (path_of True (cs @ [c])) = Clean (?d @ ''/'')"
    unfolding Dir_def using CutLast_append [of slash c ?d] by simp
  moreover have "IsAbs (?d @ ''/'')" by (simp add: IsAbs_def HasPrefix_def)
  moreover have "Split (?d @ [slash]) slash = (if cs = [] then [[], []] else [] # cs @ [[]])"
    using Split_append [of ?d "[]"] Split_Join [of cs slash] normal_no_slash [OF n] by simp
  then have "parts (?d @ ''/'') = cs" using clean_parts_id [OF n] calculation(2)
    unfolding parts_def by (simp add: clean_parts_def clean_push_def)
  ultimately show ?thesis by (simp add: Clean_def)
qed

lemma walk_up_abs:
  assumes "normal True cs"
  shows "walk_up found (path_of True cs) =
    Some (case first_found found (ups cs) of None \<Rightarrow> Inl ''/'' | Some x \<Rightarrow> Inr x)"
  using assms
proof (induction cs rule: rev_induct)
  case Nil
  have "Dir ''/'' = ''/''" "path_of True [] = ''/''" by code_simp+
  then show ?case
    by (simp add: walk_up_def iterate.simps [of _ "''/''"] walk_step_def ups_def split: option.split)
next
  case (snoc c cs)
  have n: "normal True cs" using snoc.prems by (auto simp: normal_def)
  have "ups (cs @ [c]) = path_of True (cs @ [c]) # ups cs" by (simp add: ups_def)
  moreover have "path_of True cs \<noteq> path_of True (cs @ [c])" using path_of_inj [OF n snoc.prems] by auto
  ultimately show ?case using snoc.IH [OF n] Dir_path [OF snoc.prems]
    by (simp add: walk_up_def iterate.simps [of _ "path_of True (cs @ [c])"] walk_step_def split: option.split)
qed

end
