(* ===== verification/TestSchema.thy ===== *)
theory TestSchema
  imports Routing Paths "HOL-Library.Multiset"
begin

text \<open>
  The schema helpers of the tests (\<^verbatim>\<open>internal/testschema\<close>): loading the Traefik CRDs from the repository,
  checking an object against the CRD of its kind, removing the metadata the server fills in, and writing
  objects as one YAML text in a fixed order.

  YAML itself (\<^verbatim>\<open>sigs.k8s.io/yaml\<close>) is a parameter. The file system is given by functions: the lines of a file
  as the scanner returns them, the entries of a directory, the bytes of a file.

  Shown: \<open>schema_Validate\<close> finds nothing exactly for objects of a known kind, group, version and with a name
  (\<open>schema_Validate_iff\<close>), and so nothing for the IngressRoute of any router the controller accepts
  (\<open>ingress_routes_well_formed\<close>); \<open>DeterministicYAML\<close> does not depend on the order of its objects, and
  \<open>splitYAMLDocuments\<close> takes its text apart again; scrubbing removes five members of the metadata
  and nothing else.
\<close>

section \<open>Loader\<close>

record CRD =
  crd_Name :: string
  crd_Group :: string
  crd_Kind :: string
  crd_Versions :: "(string \<times> bool \<times> iface option option) list"

text \<open>\<open>strings.Split\<close> at a longer separator.\<close>

function SplitStr :: "string \<Rightarrow> string \<Rightarrow> string list" where
  "SplitStr sep [] = [[]]"
| "SplitStr sep (c # s) =
     (if sep \<noteq> [] \<and> prefix sep (c # s) then [] # SplitStr sep (drop (length sep - 1) s)
      else case SplitStr sep s of [] \<Rightarrow> [[c]] | w # ws \<Rightarrow> (c # w) # ws)"
  by pat_completeness auto
termination
  by (relation "measure (\<lambda>(sep, s). length s)") auto

definition doc_sep :: string where
  "doc_sep = [CHR 0x0A] @ ''---''"

definition splitYAMLDocuments :: "string \<Rightarrow> string list" where
  "splitYAMLDocuments b =
     (let parts = SplitStr doc_sep b in
      if length parts = 1 then
        let p = TrimSpace (hd parts) in if p = [] then [] else [p]
      else filter (\<lambda>p. p \<noteq> []) (map TrimSpace parts))"

definition is_module_line :: "string \<Rightarrow> bool" where
  "is_module_line l \<longleftrightarrow>
     (let line = TrimSpace l in HasPrefix line ''module '' \<and> Contains line ''pangolin-kube-controller'')"

text \<open>\<open>lines p\<close> is \<open>None\<close> when the file cannot be opened; the result is \<open>None\<close> when the search does not end.\<close>

definition RepoRoot :: "(string \<Rightarrow> string list option) \<Rightarrow> string \<Rightarrow> string option" where
  "RepoRoot lines wd =
     map_option (case_sum (\<lambda>_. ''.'') id)
       (walk_up (\<lambda>d. case lines (path_Join [d, ''go.mod'']) of
                    None \<Rightarrow> None
                  | Some ls \<Rightarrow> if list_ex is_module_line ls then Some d else None) wd)"

definition TestDataPath :: "string \<Rightarrow> string list \<Rightarrow> string" where
  "TestDataPath repo elems = path_Join ([repo, ''test'', ''testdata''] @ elems)"

definition loadCRDsFromFile ::
  "(string \<Rightarrow> string result) \<Rightarrow> (string \<Rightarrow> CRD result) \<Rightarrow> string \<Rightarrow> CRD list result" where
  "loadCRDsFromFile ReadFile unmarshal p =
     bindE (wrapE (''read '' @ Base p) (ReadFile p)) (\<lambda>b.
       let docs = splitYAMLDocuments b in
       foldE (\<lambda>d out.
           if d = [] then Inr out
           else bindE (wrapE (''unmarshal CRD '' @ Base p) (unmarshal d)) (\<lambda>crd. Inr (out @ [crd])))
         docs [])"

definition LoadTraefikCRDs ::
  "(string \<Rightarrow> (string \<times> bool) list result) \<Rightarrow> (string \<Rightarrow> string result) \<Rightarrow> (string \<Rightarrow> CRD result) \<Rightarrow> string \<Rightarrow>
   string \<Rightarrow> CRD list result" where
  "LoadTraefikCRDs ReadDir ReadFile unmarshal repo version =
     (let dir = path_Join [TestDataPath repo [''crds'', ''traefik''], version] in
      bindE (wrapE (''read CRD dir '' @ dir) (ReadDir dir)) (\<lambda>entries.
      bindE (foldE (\<lambda>(name, isDir) out.
                if isDir then Inr out
                else if Ext name = ''.yaml'' \<or> Ext name = ''.yml''
                then bindE (loadCRDsFromFile ReadFile unmarshal (path_Join [dir, name])) (\<lambda>crds. Inr (out @ crds))
                else Inr out)
              entries [])
        (\<lambda>out. if out = [] then Inl (ErrMsg (''no CRDs found for version '' @ version)) else Inr out)))"

section \<open>Validation\<close>

text \<open>The accessors of \<open>unstructured.Unstructured\<close>: a string that is not there is empty.\<close>

definition obj_kind :: "obj \<Rightarrow> string" where
  "obj_kind u = str_or_empty (map_get u ''kind'')"

definition obj_apiVersion :: "obj \<Rightarrow> string" where
  "obj_apiVersion u = str_or_empty (map_get u ''apiVersion'')"

definition obj_name :: "obj \<Rightarrow> string" where
  "obj_name u = str_or_empty (map_get (of_nil (as_map (map_get u ''metadata''))) ''name'')"

definition MapCRDByKind :: "CRD list \<Rightarrow> CRD gomap" where
  "MapCRDByKind crds = fold (\<lambda>c m. go_put m (crd_Kind c) c) crds []"

definition has_schema :: "iface option option \<Rightarrow> bool" where
  "has_schema s \<longleftrightarrow> (case s of Some (Some _) \<Rightarrow> True | _ \<Rightarrow> False)"

definition resolveSchema :: "CRD option \<Rightarrow> string \<Rightarrow> string result" where
  "resolveSchema crd version =
     (case crd of
        None \<Rightarrow> Inl (ErrMsg ''nil CRD'')
      | Some c \<Rightarrow>
          (case find (\<lambda>(name, served, schema). name = version \<and> served \<and> has_schema schema) (crd_Versions c) of
             Some (name, _) \<Rightarrow> Inr name
           | None \<Rightarrow>
               (case find (\<lambda>(name, served, schema). has_schema schema) (crd_Versions c) of
                  Some (name, _) \<Rightarrow> Inr name
                | None \<Rightarrow> Inl (ErrMsg (''no schema found for CRD '' @ crd_Name c)))))"

definition validateAPIVersion :: "string \<Rightarrow> string \<Rightarrow> string \<Rightarrow> goerr list" where
  "validateAPIVersion apiv expectedGroup expectedVersion =
     (if apiv = [] then [ErrMsg ''missing apiVersion'']
      else case Cut apiv slash of (grp, version, _) \<Rightarrow>
        (if grp \<noteq> expectedGroup
         then [ErrMsg (''group mismatch: got '' @ grp @ '' want '' @ expectedGroup)] else [])
        @ (if expectedVersion \<noteq> [] \<and> version \<noteq> [] \<and> version \<noteq> expectedVersion
           then [ErrMsg (''version mismatch: got '' @ version @ '' want '' @ expectedVersion)] else []))"

definition lightValidate :: "obj option \<Rightarrow> string \<Rightarrow> string \<Rightarrow> string \<Rightarrow> goerr list" where
  "lightValidate obj grp kind version =
     (case obj of
        None \<Rightarrow> [ErrMsg ''nil object'']
      | Some u \<Rightarrow>
          (if obj_kind u \<noteq> kind then [ErrMsg (''kind mismatch: got '' @ obj_kind u @ '' want '' @ kind)] else [])
          @ validateAPIVersion (obj_apiVersion u) grp version
          @ (if obj_name u = [] then [ErrMsg ''metadata.name is empty''] else []))"

definition ValidatorFor :: "CRD option \<Rightarrow> string \<Rightarrow> (obj option \<Rightarrow> goerr list) result" where
  "ValidatorFor crd version =
     bindE (resolveSchema crd version) (\<lambda>effectiveVersion.
       case crd of
         None \<Rightarrow> Inl (ErrMsg ''nil CRD'')
       | Some c \<Rightarrow> Inr (\<lambda>obj. lightValidate obj (crd_Group c) (crd_Kind c) effectiveVersion))"

definition schema_Validate :: "obj option \<Rightarrow> CRD gomap \<Rightarrow> goerr list" where
  "schema_Validate obj crdMap =
     (case obj of
        None \<Rightarrow> [ErrMsg ''nil obj'']
      | Some u \<Rightarrow>
          (case go_get crdMap (obj_kind u) of
             None \<Rightarrow> [ErrMsg (''no CRD for kind '' @ obj_kind u)]
           | Some crd \<Rightarrow>
               (case ValidatorFor (Some crd) ''v1alpha1'' of Inl err \<Rightarrow> [err] | Inr fn \<Rightarrow> fn (Some u))))"

section \<open>Scrubbing and ordering\<close>

definition scrubbed :: "string list" where
  "scrubbed = [''resourceVersion'', ''uid'', ''generation'', ''creationTimestamp'', ''managedFields'']"

definition ScrubObjectMeta :: "obj option \<Rightarrow> obj option" where
  "ScrubObjectMeta obj =
     (case obj of
        None \<Rightarrow> None
      | Some u \<Rightarrow>
          (case map_get u ''metadata'' of
             IMap meta \<Rightarrow> Some (go_put u ''metadata'' (IMap (fold (\<lambda>k m. go_del m k) scrubbed meta)))
           | _ \<Rightarrow> Some u))"

definition kindNameKey :: "obj \<Rightarrow> string" where
  "kindNameKey m =
     (let kind = str_or_empty (map_get m ''kind'');
          name = (case as_map (map_get m ''metadata'') of None \<Rightarrow> [] | Some md \<Rightarrow> str_or_empty (map_get md ''name''))
      in ToLower kind @ ''/'' @ ToLower name)"

text \<open>The loop over the sorted documents: \<open>first\<close> is \<open>idx > 0\<close> negated.\<close>

fun write_docs :: "(obj \<Rightarrow> string result) \<Rightarrow> bool \<Rightarrow> obj list \<Rightarrow> string result" where
  "write_docs marshal first [] = Inr []"
| "write_docs marshal first (m # ms) =
     bindE (marshal m) (\<lambda>b.
     bindE (write_docs marshal False ms) (\<lambda>rest.
       Inr ((if first then [] else ''---'' @ [CHR 0x0A]) @ b @ rest)))"

definition DeterministicYAML :: "(obj \<Rightarrow> string result) \<Rightarrow> obj list \<Rightarrow> string result" where
  "DeterministicYAML marshal objs = write_docs marshal True (sort_key kindNameKey objs)"

section \<open>What is valid\<close>

definition api_version_ok :: "string \<Rightarrow> string \<Rightarrow> string \<Rightarrow> bool" where
  "api_version_ok apiv grp version \<longleftrightarrow>
     apiv \<noteq> [] \<and> fst (Cut apiv slash) = grp
     \<and> (version = [] \<or> fst (snd (Cut apiv slash)) = [] \<or> fst (snd (Cut apiv slash)) = version)"

lemma validateAPIVersion_Nil: "validateAPIVersion apiv grp version = [] \<longleftrightarrow> api_version_ok apiv grp version"
  by (auto simp: validateAPIVersion_def api_version_ok_def split: prod.split)

lemma Validate_Nil:
  "schema_Validate (Some u) crds = [] \<longleftrightarrow>
     (\<exists>c v. go_get crds (obj_kind u) = Some c \<and> resolveSchema (Some c) ''v1alpha1'' = Inr v
        \<and> obj_kind u = crd_Kind c \<and> api_version_ok (obj_apiVersion u) (crd_Group c) v \<and> obj_name u \<noteq> [])"
  by (auto simp: schema_Validate_def ValidatorFor_def lightValidate_def validateAPIVersion_Nil bindE_def
      split: option.split sum.split)

text \<open>
  \<open>Validate\<close> reports nothing exactly when the kind of the object has a CRD with a schema, and the
  object is of that kind, has an API version of the group of the CRD and of the version the schema was taken from (or
  without a version), and has a name.
\<close>

theorem schema_Validate_iff:
  "schema_Validate (Some u) crds = [] \<longleftrightarrow>
     (\<exists>c v. go_get crds (obj_kind u) = Some c \<and> resolveSchema (Some c) ''v1alpha1'' = Inr v
        \<and> obj_kind u = crd_Kind c \<and> api_version_ok (obj_apiVersion u) (crd_Group c) v \<and> obj_name u \<noteq> [])"
  by (rule Validate_Nil)

text \<open>The CRD of IngressRoute as Traefik publishes it: its group, its kind and a schema for the version in use.\<close>

definition ingress_route_crd :: "CRD gomap \<Rightarrow> bool" where
  "ingress_route_crd crds \<longleftrightarrow>
     (case go_get crds ''IngressRoute'' of
        None \<Rightarrow> False
      | Some c \<Rightarrow> crd_Group c = Group \<and> crd_Kind c = ''IngressRoute''
          \<and> list_ex (\<lambda>(name, served, schema). name = Version \<and> served \<and> has_schema schema) (crd_Versions c))"

lemma resolveSchema_served:
  assumes "list_ex (\<lambda>(name, served, schema). name = v \<and> served \<and> has_schema schema) (crd_Versions c)"
  shows "resolveSchema (Some c) v = Inr v"
proof -
  have "find (\<lambda>(name, served, schema). name = v \<and> served \<and> has_schema schema) (crd_Versions c) \<noteq> None"
    using assms by (auto simp: find_None_iff list_ex_iff)
  then obtain x where x: "find (\<lambda>(name, served, schema). name = v \<and> served \<and> has_schema schema) (crd_Versions c) = Some x"
    by blast
  then have "fst x = v" by (auto simp: find_Some_iff)
  with x show ?thesis by (cases x) (simp add: resolveSchema_def)
qed

text \<open>
  Every IngressRoute the controller makes is well formed: for a router with a name that the
  transformation accepts, the schema check against Traefik's CRD finds nothing.
\<close>

theorem ingress_routes_well_formed:
  assumes "TransformRouterToIngressRoute name raw cfg = Inr u" and "name \<noteq> []" and "ingress_route_crd crds"
  shows "schema_Validate (Some u) crds = []"
proof -
  from assms(1) obtain m where m: "raw = RawJSON (IMap m)" by (rule Transform_Inr)
  note t = Transform_Inr_eq [OF assms(1) [unfolded m]]
  from assms(3) obtain c where c: "go_get crds ''IngressRoute'' = Some c" "crd_Group c = Group" "crd_Kind c = ''IngressRoute''"
      "list_ex (\<lambda>(name, served, schema). name = ''v1alpha1'' \<and> served \<and> has_schema schema) (crd_Versions c)"
    by (auto simp: ingress_route_crd_def Version_def split: option.splits)
  have "map_get (AnnotateRouterEntryPointsIfPresent s (router_meta name cfg)) ''name'' = IStr name" for s
  proof -
    have "go_get (router_meta name cfg) ''name'' = Some (IStr name)"
      using router_meta_get(1) [of name cfg] by (auto simp: map_get_def split: option.splits)
    then show ?thesis
      by (auto simp: AnnotateRouterEntryPointsIfPresent_def map_get_def Let_def split: option.split list.split)
  qed
  then have "obj_name u = name" by (simp add: obj_name_def t(2) of_nil_def)
  moreover have "obj_kind u = ''IngressRoute''" "obj_apiVersion u = GroupVersion"
    by (simp_all add: obj_kind_def obj_apiVersion_def t)
  moreover have "api_version_ok GroupVersion Group ''v1alpha1''" by code_simp
  ultimately show ?thesis using c resolveSchema_served [OF c(4)] assms(2) by (auto simp: Validate_Nil)
qed

section \<open>Scrubbing\<close>

lemma fold_del_get: "go_get (fold (\<lambda>k m. go_del m k) ks m) k = (if k \<in> set ks then None else go_get m k)"
  by (induction ks arbitrary: m) auto

text \<open>
  Scrubbing an object with metadata removes from it the five members the server fills in, leaves its
  other members and everything outside the metadata as they are, and doing it again changes nothing.
\<close>

theorem ScrubObjectMeta_exact:
  assumes "map_get u ''metadata'' = IMap meta"
  shows "\<exists>v meta'. ScrubObjectMeta (Some u) = Some v \<and> map_get v ''metadata'' = IMap meta'
    \<and> (\<forall>k. go_get meta' k = (if k \<in> set scrubbed then None else go_get meta k))
    \<and> (\<forall>k. k \<noteq> ''metadata'' \<longrightarrow> go_get v k = go_get u k)
    \<and> ScrubObjectMeta (Some v) = Some v"
proof -
  let ?d = "fold (\<lambda>k m. go_del m k) scrubbed" and ?v = "go_put u ''metadata'' (IMap (fold (\<lambda>k m. go_del m k) scrubbed meta))"
  have "go_del m k = m" if "go_get m k = None" for m :: obj and k
    using that by (induction m) (auto simp: go_del_def gomap_simps split: if_splits)
  then have "fold (\<lambda>k m. go_del m k) ks m = m" if "\<forall>k \<in> set ks. go_get m k = None" for ks and m :: obj
    using that by (induction ks) auto
  then have "?d (?d meta) = ?d meta" by (simp add: fold_del_get)
  then have "ScrubObjectMeta (Some ?v) = Some ?v" by (simp add: ScrubObjectMeta_def map_get_def go_put_same)
  with assms show ?thesis
    by (intro exI [of _ ?v] exI [of _ "?d meta"]) (simp add: ScrubObjectMeta_def map_get_def fold_del_get)
qed

section \<open>Order and round trip\<close>

lemma sort_key_perm:
  assumes "mset xs = mset ys" and "distinct (map f xs)"
  shows "sort_key f xs = sort_key f ys"
  by (rule sort_key_inj_key_eq) (use assms in \<open>simp_all add: distinct_map\<close>)

text \<open>
  The YAML text depends on which objects there are and not on the order they come in, as long as
  no two have the same kind and name, letter case aside.
\<close>

theorem DeterministicYAML_order_independent:
  assumes "mset xs = mset ys" and "distinct (map kindNameKey xs)"
  shows "DeterministicYAML marshal xs = DeterministicYAML marshal ys"
  using sort_key_perm [OF assms] by (simp add: DeterministicYAML_def)

text \<open>What is relied on of the YAML encoder: a document ends in a line break, is not blank and has no line that begins with three dashes.\<close>

definition yaml_law :: "(obj \<Rightarrow> string result) \<Rightarrow> bool" where
  "yaml_law marshal \<longleftrightarrow>
     (\<forall>m b. marshal m = Inr b \<longrightarrow>
        (\<exists>c. b = c @ [CHR 0x0A] \<and> \<not> Contains ([CHR 0x0A] @ c) doc_sep \<and> TrimSpace b \<noteq> []))"

lemma SplitStr_none: "\<not> Contains x doc_sep \<Longrightarrow> SplitStr doc_sep x = [x]"
proof (induction x)
  case (Cons c x)
  then have "\<not> Contains x doc_sep" "\<not> prefix doc_sep (c # x)" by (auto simp: Contains_def sublist_Cons_right)
  with Cons show ?case by simp
qed simp

lemma SplitStr_first: "\<not> Contains x doc_sep \<Longrightarrow> SplitStr doc_sep (x @ doc_sep @ r) = x # SplitStr doc_sep r"
proof (induction x)
  case Nil
  then show ?case by (simp add: doc_sep_def)
next
  case (Cons c x)
  then have x: "\<not> Contains x doc_sep" "\<not> prefix doc_sep (c # x)" by (auto simp: Contains_def sublist_Cons_right)
  have "\<not> prefix doc_sep (c # x @ doc_sep @ r)"
  proof (cases x)
    case (Cons a y)
    then show ?thesis using x(2) by (cases y; cases "tl y") (auto simp: doc_sep_def)
  qed (simp add: doc_sep_def)
  with Cons.IH [OF x(1)] show ?case by simp
qed

lemma strip_newline: "strip white_space (CHR 0x0A # x) = strip white_space x"
  by (subst strip.simps) (simp add: white_space_def)

lemma TrimSpace_newline: "TrimSpace (CHR 0x0A # x) = TrimSpace x"
  by (simp add: TrimSpace_def strip_newline)

lemma strip_snoc_newline:
  "strip white_space (x @ [CHR 0x0A]) = (if strip white_space x = [] then [] else strip white_space x @ [CHR 0x0A])"
proof (induction "length x" arbitrary: x rule: less_induct)
  case less
  show ?case
  proof (cases x)
    case Nil
    have "strip white_space [] = []" by (rule strip_id) simp
    with Nil strip_newline [of "[]"] show ?thesis by simp
  next
    case (Cons c y)
    have last: "w \<noteq> x @ [CHR 0x0A]" if "w \<in> set white_space" for w
      using that Cons by (auto simp: white_space_def)
    have f: "find (\<lambda>w. w \<noteq> [] \<and> prefix w (x @ [CHR 0x0A])) white_space = find (\<lambda>w. w \<noteq> [] \<and> prefix w x) white_space"
      by (rule find_cong [OF refl]) (use last in \<open>auto simp: prefix_snoc\<close>)
    show ?thesis
    proof (cases "find (\<lambda>w. w \<noteq> [] \<and> prefix w x) white_space")
      case None
      with f have "strip white_space x = x" "strip white_space (x @ [CHR 0x0A]) = x @ [CHR 0x0A]"
        by (simp_all add: strip.simps [of _ x] strip.simps [of _ "x @ [CHR 0x0A]"])
      with Cons show ?thesis by simp
    next
      case (Some w)
      then have w: "w \<noteq> []" "prefix w x" by (auto simp: find_Some_iff)
      then have "length (drop (length w) x) < length x" "drop (length w) (x @ [CHR 0x0A]) = drop (length w) x @ [CHR 0x0A]"
        by (auto simp: prefix_def)
      with less [of "drop (length w) x"] f Some show ?thesis
        by (simp add: strip.simps [of _ x] strip.simps [of _ "x @ [CHR 0x0A]"])
    qed
  qed
qed

lemma TrimSpace_snoc_newline: "TrimSpace (x @ [CHR 0x0A]) = TrimSpace x"
proof -
  have "strip (map rev white_space) (CHR 0x0A # y) = strip (map rev white_space) y" for y
    by (subst strip.simps) (simp add: white_space_def)
  then show ?thesis by (simp add: TrimSpace_def strip_snoc_newline)
qed

lemma SplitStr_last: "\<not> Contains x doc_sep \<Longrightarrow> SplitStr doc_sep (x @ [CHR 0x0A]) = [x @ [CHR 0x0A]]"
proof (induction x)
  case Nil
  then show ?case by (simp add: doc_sep_def)
next
  case (Cons c x)
  then have x: "\<not> Contains x doc_sep" "\<not> prefix doc_sep (c # x)" by (auto simp: Contains_def sublist_Cons_right)
  have "\<not> prefix doc_sep (c # x @ [CHR 0x0A])"
  proof (cases x)
    case (Cons a y)
    then show ?thesis using x(2) by (cases y; cases "tl y") (auto simp: doc_sep_def)
  qed (simp add: doc_sep_def)
  with Cons.IH [OF x(1)] show ?case by simp
qed

text \<open>The text of one document and more, as the separator sees it.\<close>

lemma write_docs_first:
  assumes "yaml_law marshal" and "write_docs marshal True (m # ms) = Inr out"
  obtains c where "projr (marshal m) = c @ [CHR 0x0A]" "\<not> Contains c doc_sep" "\<not> Contains (CHR 0x0A # c) doc_sep"
      "TrimSpace (projr (marshal m)) \<noteq> []" "ms = [] \<longrightarrow> out = c @ [CHR 0x0A]"
      "ms \<noteq> [] \<longrightarrow> (\<exists>out'. write_docs marshal True ms = Inr out' \<and> out = c @ doc_sep @ CHR 0x0A # out')"
proof -
  from assms(2) obtain b rest where b: "marshal m = Inr b" "write_docs marshal False ms = Inr rest" "out = b @ rest"
    by (auto simp: bindE_def split: sum.splits)
  with assms(1) obtain c where c: "b = c @ [CHR 0x0A]" "\<not> Contains (CHR 0x0A # c) doc_sep" "TrimSpace b \<noteq> []"
    by (auto simp: yaml_law_def)
  have "\<exists>out'. write_docs marshal True ms = Inr out' \<and> rest = ''---'' @ CHR 0x0A # out'" if "ms \<noteq> []"
    using that b(2) by (cases ms) (auto simp: bindE_def split: sum.splits)
  with b c show thesis
    by (intro that [of c]) (auto simp: Contains_def sublist_Cons_right doc_sep_def)
qed

lemma split_written:
  assumes "yaml_law marshal"
  shows "write_docs marshal True ms = Inr out \<Longrightarrow> ms \<noteq> [] \<Longrightarrow>
    map TrimSpace (SplitStr doc_sep (CHR 0x0A # out)) = map (\<lambda>m. TrimSpace (projr (marshal m))) ms
    \<and> map TrimSpace (SplitStr doc_sep out) = map (\<lambda>m. TrimSpace (projr (marshal m))) ms
    \<and> (\<forall>m \<in> set ms. TrimSpace (projr (marshal m)) \<noteq> [])"
proof (induction ms arbitrary: out)
  case (Cons m ms)
  obtain c where c: "projr (marshal m) = c @ [CHR 0x0A]" "\<not> Contains c doc_sep" "\<not> Contains (CHR 0x0A # c) doc_sep"
      "TrimSpace (projr (marshal m)) \<noteq> []" "ms = [] \<longrightarrow> out = c @ [CHR 0x0A]"
      "ms \<noteq> [] \<longrightarrow> (\<exists>out'. write_docs marshal True ms = Inr out' \<and> out = c @ doc_sep @ CHR 0x0A # out')"
    using assms Cons.prems(1) by (rule write_docs_first)
  show ?case
  proof (cases "ms = []")
    case True
    with c SplitStr_last [OF c(2)] SplitStr_last [OF c(3)] show ?thesis by (simp add: TrimSpace_newline)
  next
    case False
    with c(6) obtain out' where o: "write_docs marshal True ms = Inr out'" "out = c @ doc_sep @ CHR 0x0A # out'" by blast
    from Cons.IH [OF o(1) False] SplitStr_first [OF c(2)] SplitStr_first [OF c(3)] c(1,4) o(2) show ?thesis
      by (simp add: TrimSpace_newline TrimSpace_snoc_newline)
  qed
qed simp

text \<open>
  C39. Writing objects as one YAML text and splitting the text into documents gives the documents back,
  one per object, in the order of kinds and names, each as the encoder wrote it but for white space
  around it.
\<close>

theorem YAML_documents_roundtrip:
  assumes "yaml_law marshal" and "DeterministicYAML marshal objs = Inr out"
  shows "splitYAMLDocuments out = map (\<lambda>m. TrimSpace (projr (marshal m))) (sort_key kindNameKey objs)"
proof (cases "sort_key kindNameKey objs")
  case Nil
  with assms(2) show ?thesis by (simp add: DeterministicYAML_def splitYAMLDocuments_def)
next
  case (Cons m ms)
  with assms split_written [OF assms(1), of "m # ms" out]
  have s: "map TrimSpace (SplitStr doc_sep out) = map (\<lambda>m. TrimSpace (projr (marshal m))) (m # ms)"
      "\<forall>m \<in> set (m # ms). TrimSpace (projr (marshal m)) \<noteq> []"
    by (simp_all add: DeterministicYAML_def)
  have "filter (\<lambda>p. p \<noteq> []) (map TrimSpace (SplitStr doc_sep out)) = map TrimSpace (SplitStr doc_sep out)"
    unfolding s(1) using s(2) by (intro filter_True) auto
  then have "splitYAMLDocuments out = map TrimSpace (SplitStr doc_sep out)"
    by (cases "SplitStr doc_sep out"; cases "tl (SplitStr doc_sep out)") (auto simp: splitYAMLDocuments_def Let_def)
  with s(1) Cons show ?thesis by simp
qed

section \<open>Instances\<close>

definition schema_demo_crds :: "CRD gomap" where
  "schema_demo_crds = MapCRDByKind [\<lparr>crd_Name = ''ingressroutes.traefik.io'', crd_Group = ''traefik.io'', crd_Kind = ''IngressRoute'',
     crd_Versions = [(''v1alpha1'', True, Some (Some (IMap [])))]\<rparr>]"

theorem ingress_routes_well_formed_witness:
  "schema_Validate (Some (projr (TransformRouterToIngressRoute ''r'' (RawJSON (IMap example_router)) example_rc))) schema_demo_crds = []"
proof -
  have "ingress_route_crd schema_demo_crds" by code_simp
  from ingress_routes_well_formed [OF example_router_accepted _ this] show ?thesis by simp
qed

theorem ScrubObjectMeta_exact_witness:
  "\<exists>v meta'. ScrubObjectMeta (Some [(''kind'', IStr ''A''), (''metadata'', IMap [(''uid'', IStr ''1''), (''name'', IStr ''n'')])]) = Some v
     \<and> map_get v ''metadata'' = IMap meta' \<and> go_get meta' ''uid'' = None \<and> go_get meta' ''name'' = Some (IStr ''n'')"
proof -
  let ?u = "[(''kind'', IStr ''A''), (''metadata'', IMap [(''uid'', IStr ''1''), (''name'', IStr ''n'')])]"
  have m: "map_get ?u ''metadata'' = IMap [(''uid'', IStr ''1''), (''name'', IStr ''n'')]" by (simp add: get_Cons)
  have k: "''uid'' \<in> set scrubbed" "''name'' \<notin> set scrubbed"
      "go_get [(''uid'', IStr ''1''), (''name'', IStr ''n'')] ''name'' = Some (IStr ''n'')"
    by (simp_all add: scrubbed_def gomap_simps)
  obtain v meta' where v: "ScrubObjectMeta (Some ?u) = Some v" "map_get v ''metadata'' = IMap meta'"
      "\<forall>k. go_get meta' k = (if k \<in> set scrubbed then None else go_get [(''uid'', IStr ''1''), (''name'', IStr ''n'')] k)"
    using ScrubObjectMeta_exact [OF m] by (elim exE conjE)
  from v(3) [rule_format, of "''uid''"] v(3) [rule_format, of "''name''"] k
  have "go_get meta' ''uid'' = None" "go_get meta' ''name'' = Some (IStr ''n'')" by (simp_all only: if_True if_False)
  with v(1,2) show ?thesis by blast
qed

definition demo_yaml :: "obj \<Rightarrow> string result" where
  "demo_yaml m = Inr (''kind: x'' @ [CHR 0x0A])"

lemma demo_yaml_law: "yaml_law demo_yaml"
proof -
  have "\<not> Contains ([CHR 0x0A] @ ''kind: x'') doc_sep" "TrimSpace (''kind: x'' @ [CHR 0x0A]) = ''kind: x''"
    by code_simp+
  then show ?thesis by (auto simp: yaml_law_def demo_yaml_def)
qed

definition demo_docs :: "obj list" where
  "demo_docs = [[(''kind'', IStr ''B'')], [(''kind'', IStr ''A'')]]"

lemma demo_yaml_writes: "\<exists>out. write_docs demo_yaml f ms = Inr out"
proof (induction ms arbitrary: f)
  case (Cons m ms)
  from Cons.IH [of False] obtain rest where "write_docs demo_yaml False ms = Inr rest" by blast
  moreover have "demo_yaml m = Inr (''kind: x'' @ [CHR 0x0A])" by (simp add: demo_yaml_def)
  ultimately show ?case by (simp add: bindE_def)
qed simp

theorem YAML_documents_roundtrip_witness:
  "\<exists>out. DeterministicYAML demo_yaml demo_docs = Inr out \<and> splitYAMLDocuments out = [''kind: x'', ''kind: x'']"
proof -
  obtain out where o: "DeterministicYAML demo_yaml demo_docs = Inr out"
    using demo_yaml_writes by (auto simp: DeterministicYAML_def)
  have "TrimSpace (projr (demo_yaml m)) = ''kind: x''" for m
    unfolding demo_yaml_def sum.sel TrimSpace_snoc_newline by code_simp
  then have "splitYAMLDocuments out = map (\<lambda>_. ''kind: x'') (sort_key kindNameKey demo_docs)"
    unfolding YAML_documents_roundtrip [OF demo_yaml_law o] by simp
  also have "\<dots> = [''kind: x'', ''kind: x'']" by (simp add: map_replicate_const demo_docs_def numeral_2_eq_2)
  finally show ?thesis using o by blast
qed

theorem DeterministicYAML_order_independent_witness:
  "DeterministicYAML demo_yaml demo_docs = DeterministicYAML demo_yaml (rev demo_docs)"
proof -
  have "char_of (97 :: nat) = CHR ''a''" "char_of (98 :: nat) = CHR ''b''" by code_simp+
  then have "ToLower ''A'' = ''a''" "ToLower ''B'' = ''b''" by (simp_all add: ascii_lower_def byte_of_def)
  then have "kindNameKey [(''kind'', IStr ''A'')] = ''a/''" "kindNameKey [(''kind'', IStr ''B'')] = ''b/''"
    unfolding kindNameKey_def get_Cons Let_def by simp_all
  then have "distinct (map kindNameKey demo_docs)" unfolding demo_docs_def by simp
  from DeterministicYAML_order_independent [OF mset_rev [symmetric] this] show ?thesis .
qed

end
