(* ===== verification/TestSupport.thy ===== *)
theory TestSupport
  imports Paths Kube TraefikConfig AppConfig Apply
begin

text \<open>
  Helpers of the tests: object builders (\<^verbatim>\<open>internal/transform/testutil/objects.go\<close>), the embedded CRDs
  (\<^verbatim>\<open>test/assets.go\<close>), the settings of the end-to-end tests (\<^verbatim>\<open>test/e2e/helpers.go\<close>), the client that records
  the options of a call (\<^verbatim>\<open>internal/transform/testutil/resource_interface_spy.go\<close>) and the helper that expects no
  panic (\<^verbatim>\<open>internal/testutil/helpers.go\<close>).

  The decoder of apimachinery and the file system are parameters. The raw text that error messages quote is
  left out.

  Shown: an object is built with the kind, version, name and namespace asked for; writing the CRDs leaves all
  of them in a new directory or nothing at all; the recording client sees the options that server-side apply
  is specified to send, and none of the calls it does not expect.
\<close>

section \<open>Objects\<close>

text \<open>An \<open>Unstructured\<close> is its object, which may be nil.\<close>

definition ToUnstructuredFromMap :: "(raw_message \<Rightarrow> obj result) \<Rightarrow> obj option \<Rightarrow> obj option result" where
  "ToUnstructuredFromMap unmarshal m =
     (case Marshal (obj_iface m) of
        Inl err \<Rightarrow> Inl (Wrap ''marshal map'' err)
      | Inr b \<Rightarrow>
          (case unmarshal b of
             Inr u \<Rightarrow> Inr (Some u)
           | Inl err \<Rightarrow>
               if go_get (of_nil m) ''apiVersion'' = None then Inr m
               else if go_get (of_nil m) ''kind'' = None then Inr m
               else Inl (Wrap ''unmarshal JSON'' err)))"

definition ToUnstructuredFromRaw :: "(raw_message \<Rightarrow> obj result) \<Rightarrow> raw_message \<Rightarrow> obj option result" where
  "ToUnstructuredFromRaw unmarshal raw =
     (case unmarshal raw of Inl err \<Rightarrow> Inl (Wrap ''unmarshal raw JSON'' err) | Inr u \<Rightarrow> Inr (Some u))"

definition BuildTraefikObject ::
  "(raw_message \<Rightarrow> obj result) \<Rightarrow> string \<Rightarrow> string \<Rightarrow> string \<Rightarrow> raw_message \<Rightarrow> obj option result" where
  "BuildTraefikObject unmarshal kind name ns specRaw =
     bindE (wrapE ''unmarshal spec raw'' (unmarshal_map specRaw)) (\<lambda>spec.
       ToUnstructuredFromMap unmarshal (Some
         [(''apiVersion'', IStr GroupVersion), (''kind'', IStr kind),
          (''metadata'', IMap [(''name'', IStr name), (''namespace'', IStr ns)]),
          (''spec'', obj_iface spec)]))"

section \<open>Settings of the end-to-end tests\<close>

definition TraefikVersion :: "host \<Rightarrow> string \<Rightarrow> string" where
  "TraefikVersion h defaultTag =
     (let v = TrimSpace (Getenv h ''TRAEFIK_CRD_VERSION'') in if v \<noteq> [] then v else defaultTag)"

definition UpdateGoldenEnabled :: "host \<Rightarrow> bool" where
  "UpdateGoldenEnabled h \<longleftrightarrow> Getenv h ''UPDATE_GOLDEN'' = ''1''"

definition GoldenPath :: "string \<Rightarrow> string" where
  "GoldenPath tag = path_Join [''test'', ''golden'', tag, ''extended_e2e_all.yaml'']"

section \<open>Embedded files\<close>

text \<open>What \<open>fs.WalkDir\<close> calls its function with, and what reading the file gives.\<close>

record walk_entry =
  we_path :: string
  we_isDir :: bool
  we_err :: "goerr option"
  we_ReadFile :: "string result"

record 'w tempfs =
  fs_MkdirTemp :: "('w, string) io"
  fs_WriteFile :: "string \<Rightarrow> string \<Rightarrow> ('w, unit) io"
  fs_RemoveAll :: "string \<Rightarrow> ('w, unit) io"

definition is_yaml :: "string \<Rightarrow> bool" where
  "is_yaml path \<longleftrightarrow> Ext path = ''.yaml'' \<or> Ext path = ''.yml''"

definition write_entry :: "'w tempfs \<Rightarrow> string \<Rightarrow> walk_entry \<Rightarrow> ('w, unit) io" where
  "write_entry fs dir e =
     (case we_err e of
        Some werr \<Rightarrow> failIO werr
      | None \<Rightarrow>
          if we_isDir e then retIO ()
          else if \<not> is_yaml (we_path e) then retIO ()
          else bindIO (liftIO (we_ReadFile e)) (fs_WriteFile fs (path_Join [dir, Base (we_path e)])))"

definition WriteCRDsToTempDir :: "'w tempfs \<Rightarrow> walk_entry list \<Rightarrow> ('w, string) io" where
  "WriteCRDsToTempDir fs crdsFS =
     bindIO (fs_MkdirTemp fs) (\<lambda>dir.
       caseIO (loopIO (write_entry fs dir) crdsFS)
         (\<lambda>err. caseIO (fs_RemoveAll fs dir) (\<lambda>_. failIO err) (\<lambda>_. failIO err))
         (\<lambda>_. retIO dir))"

section \<open>The recording client\<close>

record ResourceInterfaceSpy =
  LastCreateOptions :: CreateOptions
  LastPatchOptions :: PatchOptions

text \<open>The world of the client is the spy, or \<open>None\<close> after a panic.\<close>

definition spy_unexpected :: "string \<Rightarrow> (ResourceInterfaceSpy option, 'a) io" where
  "spy_unexpected method w = (Inl (ErrMsg (''unexpected call to '' @ method)), None)"

definition spy_Create :: "Unstructured \<Rightarrow> CreateOptions \<Rightarrow> (ResourceInterfaceSpy option, Unstructured) io" where
  "spy_Create obj options w = (Inr obj, map_option (\<lambda>r. r\<lparr>LastCreateOptions := options\<rparr>) w)"

definition spy_Patch :: "string \<Rightarrow> raw_message \<Rightarrow> PatchOptions \<Rightarrow> (ResourceInterfaceSpy option, Unstructured) io" where
  "spy_Patch name data options w =
     (Inr \<lparr>GetName = [], GetLabels = None, GetAnnotations = None, UnstructuredContent = []\<rparr>,
      map_option (\<lambda>r. r\<lparr>LastPatchOptions := options\<rparr>) w)"

definition spy_client :: "ResourceInterfaceSpy option ResourceClient" where
  "spy_client =
     \<lparr>api_Get = (\<lambda>_. spy_unexpected ''Get''), api_Create = spy_Create, api_Patch = spy_Patch,
      api_Delete = (\<lambda>_. spy_unexpected ''Delete''), api_List = (\<lambda>_. spy_unexpected ''List'')\<rparr>"

text \<open>A function that may panic returns the value of the panic.\<close>

definition catchPanic :: "('w \<Rightarrow> 'p option \<times> 'w) \<Rightarrow> 'w \<Rightarrow> ('p option \<times> bool) \<times> 'w" where
  "catchPanic fn w = (case fn w of (Some r, w') \<Rightarrow> ((Some r, True), w') | (None, w') \<Rightarrow> ((None, False), w'))"

definition AssertNoPanic :: "('p \<Rightarrow> string) \<Rightarrow> string \<Rightarrow> ('w \<Rightarrow> 'p option \<times> 'w) \<Rightarrow> 'w \<Rightarrow> string option \<times> 'w" where
  "AssertNoPanic format name fn w =
     (case catchPanic fn w of
        ((Some r, True), w') \<Rightarrow> (Some (''panic in '' @ name @ '': '' @ format r), w')
      | (_, w') \<Rightarrow> (None, w'))"

lemma AssertNoPanic_iff: "fst (AssertNoPanic format name fn w) = None \<longleftrightarrow> fst (fn w) = None"
  by (simp add: AssertNoPanic_def catchPanic_def split: prod.split option.split)

text \<open>
  Creating and patching an object with the recording client succeeds without an unexpected call, and the client
  has seen the options of server-side apply: validation is relaxed for a \<open>TraefikService\<close> only, the field
  manager is the controller's, and force is set exactly if one of its three sources asks for it.
\<close>

theorem spy_sees_options:
  assumes "Marshal (IMap u) = Inr bytes" and "UnmarshalJSON env bytes = Inr obj"
  shows "CreateUnstructured env spy_client u kind (Some r) =
      (Inr (), Some (r\<lparr>LastCreateOptions := \<lparr>co_FieldValidation = (if kind = ''TraefikService'' then ''Ignore'' else [])\<rparr>\<rparr>))
    \<and> PatchUnstructured env spy_client name u existing kind cfg (Some r) =
      (Inr (), Some (r\<lparr>LastPatchOptions := \<lparr>po_FieldManager = ''pangolin-kube-controller'',
         po_Force = (if pc_SSAForce cfg \<or> pc_Force cfg \<or> ForceNeededForMetadata existing u then Some True else None),
         po_FieldValidation = (if kind = ''TraefikService'' then ''Ignore'' else [])\<rparr>\<rparr>))"
proof -
  have ssa: "ssa_loop env patch f 5 b None w = (Inr (), w')" if "patch w = (Inr x, w')" for patch f b w x w'
    using that by (simp add: numeral_eq_Suc)
  show ?thesis
    using assms
    by (simp add: ssa CreateUnstructured_def PatchUnstructured_def ApplySSAWithRetry_def spy_client_def spy_Create_def spy_Patch_def
        io_defs Let_def patchOpts_def useForce_def IgnoreFieldValidation_def FieldValidationIgnore_def FieldManager_def)
qed

section \<open>All or nothing\<close>

text \<open>
  The files of the disk are seen through \<open>files\<close>. A new temporary directory is empty, a write touches its own
  file only, and removing a directory removes the files directly below it.
\<close>

definition inside :: "string \<Rightarrow> string \<Rightarrow> bool" where
  "inside dir p \<longleftrightarrow> (\<exists>b. name_ok b \<and> p = path_Join [dir, b])"

definition tempfs_laws :: "'w tempfs \<Rightarrow> ('w \<Rightarrow> string \<rightharpoonup> string) \<Rightarrow> bool" where
  "tempfs_laws fs files \<longleftrightarrow>
     (\<forall>w. files (snd (fs_MkdirTemp fs w)) = files w)
   \<and> (\<forall>w d p. fst (fs_MkdirTemp fs w) = Inr d \<and> inside d p \<longrightarrow> files w p = None)
   \<and> (\<forall>q c w. fst (fs_WriteFile fs q c w) = Inr () \<longrightarrow> files (snd (fs_WriteFile fs q c w)) = (files w)(q \<mapsto> c))
   \<and> (\<forall>q c w p. p \<noteq> q \<longrightarrow> files (snd (fs_WriteFile fs q c w)) p = files w p)
   \<and> (\<forall>d w p. files (snd (fs_RemoveAll fs d w)) p = (if inside d p then None else files w p))"

text \<open>The files that are copied, in the order of the walk.\<close>

fun copied :: "walk_entry list \<Rightarrow> (string \<times> string) list" where
  "copied [] = []"
| "copied (e # es) =
     (case we_ReadFile e of
        Inr c \<Rightarrow> if \<not> we_isDir e \<and> is_yaml (we_path e) then (Base (we_path e), c) # copied es else copied es
      | Inl _ \<Rightarrow> copied es)"

primrec put_all :: "string \<Rightarrow> (string \<times> string) list \<Rightarrow> (string \<rightharpoonup> string) \<Rightarrow> (string \<rightharpoonup> string)" where
  "put_all dir [] f = f"
| "put_all dir (x # cs) f = put_all dir cs (f(path_Join [dir, fst x] \<mapsto> snd x))"

lemma put_all_copied_Cons: "put_all dir (copied (e # es)) f = put_all dir (copied es) (put_all dir (copied [e]) f)"
  by (simp split: sum.split)

lemma write_entry_effect:
  assumes "tempfs_laws fs files" and "write_entry fs dir e w = (r, v)" and "name_ok (Base (we_path e))"
  shows "(r = Inr () \<longrightarrow> files v = put_all dir (copied [e]) (files w)) \<and> (\<forall>p. \<not> inside dir p \<longrightarrow> files v p = files w p)"
proof (cases "we_err e = None \<and> \<not> we_isDir e \<and> is_yaml (we_path e) \<and> \<not> isl (we_ReadFile e)")
  case True
  then obtain c where c: "we_ReadFile e = Inr c" by (cases "we_ReadFile e") auto
  let ?q = "path_Join [dir, Base (we_path e)]"
  have w: "fs_WriteFile fs ?q c w = (r, v)" using assms(2) True c by (simp add: write_entry_def bindIO_def caseIO_def liftIO_def)
  have q: "inside dir ?q" using assms(3) by (auto simp: inside_def)
  have other: "files v p = files w p" if "p \<noteq> ?q" for p
    using assms(1) w that unfolding tempfs_laws_def by (metis snd_conv)
  have "files v = (files w)(?q \<mapsto> c)" if "r = Inr ()"
    using assms(1) w that unfolding tempfs_laws_def by (metis fst_conv snd_conv)
  moreover have "files v p = files w p" if "\<not> inside dir p" for p
    by (rule other) (use that q in auto)
  moreover have "copied [e] = [(Base (we_path e), c)]" using True c by simp
  ultimately show ?thesis by simp
next
  case False
  with assms(2) show ?thesis
    by (cases "we_ReadFile e") (auto simp: write_entry_def io_defs split: option.splits if_splits)
qed

lemma walk_effect:
  assumes "tempfs_laws fs files" and "loopIO (write_entry fs dir) es w = (r, w')"
    and "\<forall>e \<in> set es. name_ok (Base (we_path e))"
  shows "(r = Inr () \<longrightarrow> files w' = put_all dir (copied es) (files w)) \<and> (\<forall>p. \<not> inside dir p \<longrightarrow> files w' p = files w p)"
  using assms(2,3)
proof (induction es arbitrary: w)
  case Nil
  then show ?case by (simp add: retIO_def)
next
  case (Cons e es)
  obtain x v where x: "write_entry fs dir e w = (x, v)" by fastforce
  note one = write_entry_effect [OF assms(1) x]
  show ?case
  proof (cases x)
    case (Inr u)
    with Cons.prems(1) x have "loopIO (write_entry fs dir) es v = (r, w')" by (simp add: thenIO_def bindIO_def caseIO_def)
    from Cons.IH [OF this] Cons.prems(2) have
      "(r = Inr () \<longrightarrow> files w' = put_all dir (copied es) (files v)) \<and> (\<forall>p. \<not> inside dir p \<longrightarrow> files w' p = files v p)" by simp
    moreover have "name_ok (Base (we_path e))" "x = Inr ()" using Cons.prems(2) Inr by simp_all
    with one have "files v = put_all dir (copied [e]) (files w)" "\<forall>p. \<not> inside dir p \<longrightarrow> files v p = files w p" by blast+
    ultimately show ?thesis unfolding put_all_copied_Cons [of dir e es] by metis
  next
    case (Inl err)
    with Cons.prems(1) x have "r = Inl err" "w' = v" by (simp_all add: thenIO_def bindIO_def caseIO_def failIO_def)
    moreover have "\<forall>p. \<not> inside dir p \<longrightarrow> files v p = files w p" using one Cons.prems(2) by simp
    ultimately show ?thesis by simp
  qed
qed

text \<open>
  Writing the embedded CRDs is all or nothing: on success the files on the disk are those of before with
  every YAML file of the walk added below the new directory, and on an error they are those of before.
\<close>

theorem WriteCRDsToTempDir_all_or_nothing:
  assumes "tempfs_laws fs files" and "\<forall>e \<in> set crdsFS. name_ok (Base (we_path e))"
    and "WriteCRDsToTempDir fs crdsFS w = (r, w')"
  shows "case r of Inr dir \<Rightarrow> files w' = put_all dir (copied crdsFS) (files w) | Inl _ \<Rightarrow> files w' = files w"
proof -
  obtain d w1 where d: "fs_MkdirTemp fs w = (d, w1)" by fastforce
  have w1: "files w1 = files w" using assms(1) d unfolding tempfs_laws_def by (metis snd_conv)
  show ?thesis
  proof (cases d)
    case (Inl err)
    with assms(3) d w1 show ?thesis by (auto simp: WriteCRDsToTempDir_def bindIO_def caseIO_def failIO_def)
  next
    case (Inr dir)
    obtain x w2 where x: "loopIO (write_entry fs dir) crdsFS w1 = (x, w2)" by fastforce
    obtain y w3 where y: "fs_RemoveAll fs dir w2 = (y, w3)" by fastforce
    note eff = walk_effect [OF assms(1) x assms(2)]
    have new: "files w p = None" if "inside dir p" for p
      using assms(1) d Inr that unfolding tempfs_laws_def by (metis fst_conv)
    have "files w3 p = (if inside dir p then None else files w2 p)" for p
      using assms(1) y unfolding tempfs_laws_def by (metis snd_conv)
    with eff w1 new have "files w3 = files w" by (intro ext) auto
    with assms(3) d Inr x y eff w1 show ?thesis
      by (cases x; cases y) (auto simp: WriteCRDsToTempDir_def bindIO_def caseIO_def failIO_def retIO_def)
  qed
qed

section \<open>Built objects\<close>

text \<open>Documented of the decoder: an object with a kind is decoded, and its strings are kept.\<close>

definition unmarshal_law :: "(raw_message \<Rightarrow> obj result) \<Rightarrow> bool" where
  "unmarshal_law unmarshal \<longleftrightarrow>
     (\<forall>m k. map_get m ''kind'' = IStr k \<and> k \<noteq> [] \<longrightarrow>
        (\<exists>u. unmarshal (RawJSON (IMap m)) = Inr u
           \<and> (\<forall>f x. map_get m f = IStr x \<longrightarrow> map_get u f = IStr x)
           \<and> (\<forall>f n. map_get m f = IMap n \<longrightarrow>
                (\<exists>n'. map_get u f = IMap n' \<and> (\<forall>g x. map_get n g = IStr x \<longrightarrow> map_get n' g = IStr x)))))"

text \<open>
  From a specification that is a JSON object, and a kind, an object is built; it has the API version of
  Traefik's resources and the kind, the name and the namespace that were asked for.
\<close>

theorem BuildTraefikObject_fields:
  assumes "unmarshal_law unmarshal" and "kind \<noteq> []" and "unmarshal_map specRaw = Inr spec" and "marshalable (obj_iface spec)"
  shows "\<exists>u meta. BuildTraefikObject unmarshal kind name ns specRaw = Inr (Some u)
    \<and> map_get u ''apiVersion'' = IStr GroupVersion \<and> map_get u ''kind'' = IStr kind
    \<and> map_get u ''metadata'' = IMap meta \<and> map_get meta ''name'' = IStr name \<and> map_get meta ''namespace'' = IStr ns"
proof -
  let ?meta = "[(''name'', IStr name), (''namespace'', IStr ns)]"
  let ?m = "[(''apiVersion'', IStr GroupVersion), (''kind'', IStr kind), (''metadata'', IMap ?meta), (''spec'', obj_iface spec)]"
  have g: "map_get (norm_map ?m) ''apiVersion'' = IStr GroupVersion" "map_get (norm_map ?m) ''kind'' = IStr kind"
      "map_get (norm_map ?m) ''metadata'' = IMap (norm_map ?meta)"
      "map_get (norm_map ?meta) ''name'' = IStr name" "map_get (norm_map ?meta) ''namespace'' = IStr ns"
    unfolding map_get_norm_map by (simp_all add: map_get_Cons)
  obtain u where u: "unmarshal (RawJSON (IMap (norm_map ?m))) = Inr u"
      "\<forall>f x. map_get (norm_map ?m) f = IStr x \<longrightarrow> map_get u f = IStr x"
      "\<forall>f n. map_get (norm_map ?m) f = IMap n \<longrightarrow>
        (\<exists>n'. map_get u f = IMap n' \<and> (\<forall>g x. map_get n g = IStr x \<longrightarrow> map_get n' g = IStr x))"
    using assms(1,2) g(2) unfolding unmarshal_law_def by blast
  obtain n' where n': "map_get u ''metadata'' = IMap n'" "\<forall>f x. map_get (norm_map ?meta) f = IStr x \<longrightarrow> map_get n' f = IStr x"
    using u(3) g(3) by blast
  have "Marshal (IMap ?m) = Inr (RawJSON (IMap (norm_map ?m)))" using assms(4) by (simp add: Marshal_def)
  then have "BuildTraefikObject unmarshal kind name ns specRaw = Inr (Some u)"
    using assms(3) u(1) by (simp add: BuildTraefikObject_def ToUnstructuredFromMap_def obj_iface_def wrapE_def)
  with u(2) g n' show ?thesis by blast
qed

section \<open>Witnesses\<close>

definition demo_unmarshal :: "raw_message \<Rightarrow> obj result" where
  "demo_unmarshal raw =
     (case raw of RawJSON (IMap m) \<Rightarrow> Inr m | _ \<Rightarrow> Inl (ErrMsg ''not an object''))"

theorem BuildTraefikObject_fields_witness:
  "\<exists>u meta. BuildTraefikObject demo_unmarshal ''Middleware'' ''m2'' ''default'' (RawJSON (IMap [(''headers'', IMap [])])) = Inr (Some u)
    \<and> map_get u ''kind'' = IStr ''Middleware'' \<and> map_get u ''metadata'' = IMap meta \<and> map_get meta ''namespace'' = IStr ''default''"
proof -
  have "unmarshal_law demo_unmarshal" by (simp add: unmarshal_law_def demo_unmarshal_def)
  from BuildTraefikObject_fields [OF this, of "''Middleware''" "RawJSON (IMap [(''headers'', IMap [])])"
      "Some [(''headers'', IMap [])]" "''m2''" "''default''"]
  show ?thesis by (auto simp: unmarshal_map_def obj_iface_def)
qed

text \<open>A disk in memory on which only one file can be written.\<close>

definition demo_fs :: "string list \<Rightarrow> (string \<rightharpoonup> string) tempfs" where
  "demo_fs writable =
     \<lparr>fs_MkdirTemp = (\<lambda>w. (if \<exists>p \<in> dom w. inside ''/tmp/c'' p then Inl (ErrMsg ''taken'') else Inr ''/tmp/c'', w)),
      fs_WriteFile = (\<lambda>q c w. if q \<in> set writable then (Inr (), w(q \<mapsto> c)) else (Inl (ErrMsg ''disk full''), w)),
      fs_RemoveAll = (\<lambda>d w. (Inr (), \<lambda>p. if inside d p then None else w p))\<rparr>"

lemma demo_fs_laws: "tempfs_laws (demo_fs writable) id"
  by (auto simp: tempfs_laws_def demo_fs_def split: if_splits)

definition demo_walk :: "walk_entry list" where
  "demo_walk =
     [\<lparr>we_path = ''crds'', we_isDir = True, we_err = None, we_ReadFile = Inl (ErrMsg ''is a directory'')\<rparr>,
      \<lparr>we_path = ''crds/a.yaml'', we_isDir = False, we_err = None, we_ReadFile = Inr ''A''\<rparr>,
      \<lparr>we_path = ''crds/b.yaml'', we_isDir = False, we_err = None, we_ReadFile = Inr ''B''\<rparr>]"

theorem WriteCRDsToTempDir_all_or_nothing_witness:
  "snd (WriteCRDsToTempDir (demo_fs [''/tmp/c/a.yaml'']) demo_walk Map.empty) = Map.empty
   \<and> snd (WriteCRDsToTempDir (demo_fs [''/tmp/c/a.yaml'', ''/tmp/c/b.yaml'']) demo_walk Map.empty)
       = [''/tmp/c/a.yaml'' \<mapsto> ''A'', ''/tmp/c/b.yaml'' \<mapsto> ''B'']"
proof -
  have ok: "\<forall>e \<in> set demo_walk. name_ok (Base (we_path e))" unfolding Ball_set [symmetric] by code_simp
  have j: "path_Join [''/tmp/c'', Base ''crds/a.yaml''] = ''/tmp/c/a.yaml''" "path_Join [''/tmp/c'', Base ''crds/b.yaml''] = ''/tmp/c/b.yaml''"
      "path_Join [''/tmp/c'', ''a.yaml''] = ''/tmp/c/a.yaml''" "path_Join [''/tmp/c'', ''b.yaml''] = ''/tmp/c/b.yaml''"
      "is_yaml ''crds/a.yaml''" "is_yaml ''crds/b.yaml''"
    by code_simp+
  have c: "copied demo_walk = [(''a.yaml'', ''A''), (''b.yaml'', ''B'')]" by code_simp
  let ?run = "\<lambda>ws. WriteCRDsToTempDir (demo_fs ws) demo_walk Map.empty"
  have r: "isl (fst (?run [''/tmp/c/a.yaml'']))" "fst (?run [''/tmp/c/a.yaml'', ''/tmp/c/b.yaml'']) = Inr ''/tmp/c''"
    by (simp_all add: WriteCRDsToTempDir_def demo_fs_def demo_walk_def write_entry_def io_defs j)
  note law = WriteCRDsToTempDir_all_or_nothing [OF demo_fs_laws ok prod.collapse [symmetric], where w = Map.empty]
  from law [of "[''/tmp/c/a.yaml'']"] r(1) have "snd (?run [''/tmp/c/a.yaml'']) = Map.empty" by (auto split: sum.splits)
  moreover from law [of "[''/tmp/c/a.yaml'', ''/tmp/c/b.yaml'']"] r(2)
  have "snd (?run [''/tmp/c/a.yaml'', ''/tmp/c/b.yaml'']) = [''/tmp/c/a.yaml'' \<mapsto> ''A'', ''/tmp/c/b.yaml'' \<mapsto> ''B'']"
    by (simp add: c j)
  ultimately show ?thesis by blast
qed

end
