(* ===== verification/DocCheck.thy ===== *)
theory DocCheck
  imports Kube Paths
begin

text \<open>
  The documentation checker (\<^verbatim>\<open>hack/tools/doccheck/main.go\<close>): list the packages of the module, parse their
  files, report missing package comments and undocumented exported identifiers, write a JSON and a
  Markdown report below the module root.

  A parsed file is the tree that \<^verbatim>\<open>go/parser\<close> returns, with the declarations the tool looks at as nodes
  of their own and every other node as \<open>OtherNode\<close>; a comment is its text, nil is \<open>None\<close>. The file system, the
  commands that are run and the parser are the record \<open>toolenv\<close>; the case of a letter outside ASCII is a field
  of it too. Warnings on the standard error are left out.

  Shown: the reports are written below the module root and nowhere else, whatever \<open>-outdir\<close> is
  (\<open>safeJoinUnder_within\<close>, \<open>doccheck_writes_below_root\<close>); the reported identifiers are exactly the exported
  undocumented ones of the declarations of the file (\<open>findMissingIdentifiers_exact\<close>); the commands run with
  one \<open>PATH\<close>, the safe one; and the module root is looked for in the current directory only.
\<close>

section \<open>Environment\<close>

abbreviation backslash :: string where
  "backslash \<equiv> [CHR 0x5C]"

abbreviation newline :: string where
  "newline \<equiv> [CHR 0x0A]"

definition safePath :: "string \<Rightarrow> string" where
  "safePath GOOS =
     (if GOOS = ''windows''
      then ''C:'' @ backslash @ ''Windows'' @ backslash @ ''System32;C:'' @ backslash @ ''Windows;C:'' @ backslash
        @ ''Windows'' @ backslash @ ''System32'' @ backslash @ ''Wbem''
      else ''/usr/local/sbin:/usr/local/bin:/usr/sbin:/usr/bin:/sbin:/bin'')"

definition sanitizedEnv :: "string \<Rightarrow> string list \<Rightarrow> string list" where
  "sanitizedEnv GOOS environ =
     filter (\<lambda>e. \<not> (HasPrefix e ''PATH='' \<or> HasPrefix e ''Path='')) environ @ [''PATH='' @ safePath GOOS]"

section \<open>Syntax trees\<close>

datatype tok = TokTYPE | TokCONST | TokVAR | TokIMPORT

text \<open>A doc comment that is there is \<open>True\<close>.\<close>

datatype spec = TypeSpec string bool | ValueSpec "string list" bool | ImportSpec

datatype node =
    GenDecl tok bool "spec list" "node list"
  | FuncDecl bool string bool "node list"
  | OtherNode "node list"

record ast_file =
  f_Name :: string
  f_Doc :: "string option"
  f_nodes :: "node list"

text \<open>\<open>ast.Inspect\<close>: a node, then the nodes below it.\<close>

fun inspect :: "node \<Rightarrow> node list" where
  "inspect (GenDecl t d ss ns) = GenDecl t d ss ns # concat (map inspect ns)"
| "inspect (FuncDecl r n d ns) = FuncDecl r n d ns # concat (map inspect ns)"
| "inspect (OtherNode ns) = OtherNode ns # concat (map inspect ns)"

record 'w toolenv =
  te_GOOS :: string
  te_environ :: "string list"
  te_upper :: "string \<Rightarrow> bool"
  te_Stat :: "string \<Rightarrow> bool"
  te_Abs :: "string \<Rightarrow> string result"
  te_go_list :: "string \<Rightarrow> string list \<Rightarrow> string result"
  te_go_list_dir :: "string \<Rightarrow> string list \<Rightarrow> string \<Rightarrow> string result"
  te_ReadDir :: "string \<Rightarrow> string list result"
  te_ParseFile :: "string \<Rightarrow> ast_file result"
  te_MarshalReport :: "(string \<times> string \<times> bool \<times> string list) list \<Rightarrow> string result"
  te_MkdirAll :: "string \<Rightarrow> ('w, unit) io"
  te_WriteFile :: "string \<Rightarrow> string \<Rightarrow> ('w, unit) io"

section \<open>Identifiers\<close>

definition isExported :: "(string \<Rightarrow> bool) \<Rightarrow> string \<Rightarrow> bool" where
  "isExported upper name =
     (case name of
        [] \<Rightarrow> False
      | c # _ \<Rightarrow> if byte_of c < 128 then 65 \<le> byte_of c \<and> byte_of c \<le> 90 else upper name)"

text \<open>The map \<open>missing\<close> is threaded through.\<close>

definition addMissingFuncDecl :: "(string \<Rightarrow> bool) \<Rightarrow> bool \<Rightarrow> string \<Rightarrow> bool \<Rightarrow> unit gomap \<Rightarrow> unit gomap" where
  "addMissingFuncDecl up recv name doc missing =
     (if \<not> recv \<and> isExported up name \<and> \<not> doc then go_put missing name () else missing)"

definition addMissingValueSpec ::
  "(string \<Rightarrow> bool) \<Rightarrow> bool \<Rightarrow> string list \<Rightarrow> bool \<Rightarrow> unit gomap \<Rightarrow> unit gomap" where
  "addMissingValueSpec up declDoc names doc missing =
     (if declDoc \<or> doc then missing
      else fold (\<lambda>n m. if isExported up n then go_put m n () else m) names missing)"

definition addMissingTypeSpec :: "(string \<Rightarrow> bool) \<Rightarrow> bool \<Rightarrow> string \<Rightarrow> bool \<Rightarrow> unit gomap \<Rightarrow> unit gomap" where
  "addMissingTypeSpec up declDoc name doc missing =
     (if isExported up name \<and> \<not> declDoc \<and> \<not> doc then go_put missing name () else missing)"

fun addMissingFromSpec :: "(string \<Rightarrow> bool) \<Rightarrow> bool \<Rightarrow> spec \<Rightarrow> unit gomap \<Rightarrow> unit gomap" where
  "addMissingFromSpec up declDoc (TypeSpec name doc) missing = addMissingTypeSpec up declDoc name doc missing"
| "addMissingFromSpec up declDoc (ValueSpec names doc) missing = addMissingValueSpec up declDoc names doc missing"
| "addMissingFromSpec up declDoc ImportSpec missing = missing"

definition isTrackedGenDecl :: "tok \<Rightarrow> bool" where
  "isTrackedGenDecl t \<longleftrightarrow> t = TokTYPE \<or> t = TokCONST \<or> t = TokVAR"

definition addMissingFromGenDecl ::
  "(string \<Rightarrow> bool) \<Rightarrow> tok \<Rightarrow> bool \<Rightarrow> spec list \<Rightarrow> unit gomap \<Rightarrow> unit gomap" where
  "addMissingFromGenDecl up t doc specs missing =
     (if \<not> isTrackedGenDecl t then missing else fold (addMissingFromSpec up doc) specs missing)"

fun addMissingFromNode :: "(string \<Rightarrow> bool) \<Rightarrow> node \<Rightarrow> unit gomap \<Rightarrow> unit gomap" where
  "addMissingFromNode up (GenDecl t doc specs _) missing = addMissingFromGenDecl up t doc specs missing"
| "addMissingFromNode up (FuncDecl recv name doc _) missing = addMissingFuncDecl up recv name doc missing"
| "addMissingFromNode up (OtherNode _) missing = missing"

definition collectMissingInFile :: "(string \<Rightarrow> bool) \<Rightarrow> ast_file \<Rightarrow> unit gomap \<Rightarrow> unit gomap" where
  "collectMissingInFile up file missing = fold (addMissingFromNode up) (concat (map inspect (f_nodes file))) missing"

definition sortedMissing :: "unit gomap \<Rightarrow> string list" where
  "sortedMissing missing = sorted_keys missing"

definition findMissingIdentifiers :: "(string \<Rightarrow> bool) \<Rightarrow> ast_file list \<Rightarrow> string list" where
  "findMissingIdentifiers up files = sortedMissing (fold (collectMissingInFile up) files [])"

section \<open>Packages\<close>

definition shouldParseFile :: "string \<Rightarrow> bool" where
  "shouldParseFile name \<longleftrightarrow> HasSuffix name ''.go'' \<and> \<not> HasSuffix name ''_test.go''"

fun first_doc_line :: "string \<Rightarrow> string list \<Rightarrow> bool" where
  "first_doc_line name [] = False"
| "first_doc_line name (l # lines) =
     (let line = TrimSpace l in
      if line = [] \<or> HasPrefix line ''go:build'' \<or> HasPrefix line ''+build'' then first_doc_line name lines
      else HasPrefix line (''Package '' @ name))"

definition hasPackageDoc :: "ast_file \<Rightarrow> bool" where
  "hasPackageDoc f =
     (case f_Doc f of
        None \<Rightarrow> False
      | Some doc \<Rightarrow>
          let txt = TrimSpace doc in
          if txt = [] then False else first_doc_line (f_Name f) (Split txt (CHR 0x0A)))"

definition parsePackageFiles :: "'w toolenv \<Rightarrow> string \<Rightarrow> ast_file list \<times> bool" where
  "parsePackageFiles te pkgDir =
     (case te_ReadDir te pkgDir of
        Inl _ \<Rightarrow> ([], False)
      | Inr files \<Rightarrow>
          fold (\<lambda>name (astFiles, missingPkgDoc).
              if \<not> shouldParseFile name then (astFiles, missingPkgDoc)
              else case te_ParseFile te (path_Join [pkgDir, name]) of
                  Inl _ \<Rightarrow> (astFiles, missingPkgDoc)
                | Inr f \<Rightarrow> (astFiles @ [f], if hasPackageDoc f then False else missingPkgDoc))
            files ([], True))"

definition isVendorPackage :: "string \<Rightarrow> bool" where
  "isVendorPackage pkg \<longleftrightarrow> pkg = ''vendor'' \<or> HasPrefix pkg ''vendor/'' \<or> Contains pkg ''/vendor/''"

definition isWithin :: "string \<Rightarrow> string \<Rightarrow> bool" where
  "isWithin base target =
     (case Rel base target of
        Inl _ \<Rightarrow> False
      | Inr r \<Rightarrow> let rel = Clean r in rel = ''.'' \<or> (rel \<noteq> ''..'' \<and> \<not> HasPrefix rel ''../''))"

record finding =
  PackagePath :: string
  PackageName :: string
  MissingPkgDoc :: bool
  MissingIdents :: "string list"

definition collectPackageFinding :: "'w toolenv \<Rightarrow> string \<Rightarrow> string \<Rightarrow> finding option" where
  "collectPackageFinding te modRoot pkg =
     (if isVendorPackage pkg then None
      else
        let fp = path_Join [modRoot, pkg] in
        if \<not> isWithin modRoot fp then None
        else case parsePackageFiles te fp of
            ([], _) \<Rightarrow> None
          | (f # fs, missingPkgDoc) \<Rightarrow>
              Some \<lparr>PackagePath = pkg, PackageName = f_Name f, MissingPkgDoc = missingPkgDoc,
                    MissingIdents = findMissingIdentifiers (te_upper te) (f # fs)\<rparr>)"

definition collectFindings :: "'w toolenv \<Rightarrow> string \<Rightarrow> string list \<Rightarrow> finding list" where
  "collectFindings te modRoot pkgs = List.map_filter (collectPackageFinding te modRoot) pkgs"

section \<open>Reports\<close>

definition render_finding :: "finding \<Rightarrow> string" where
  "render_finding f =
     ''## '' @ PackagePath f @ '' ('' @ PackageName f @ '')'' @ newline
     @ (if MissingPkgDoc f then ''- Missing package doc'' @ newline else [])
     @ (if MissingIdents f \<noteq> [] then ''- Missing exported docs: '' @ Join (MissingIdents f) '', '' @ newline else [])
     @ newline"

definition renderMarkdown :: "finding list \<Rightarrow> string" where
  "renderMarkdown rep =
     (let fs = filter (\<lambda>f. \<not> (\<not> MissingPkgDoc f \<and> MissingIdents f = [])) rep in
      if fs = [] then ''# Doccheck Summary'' @ newline @ newline @ ''All good.'' @ newline
      else ''# Doccheck Summary'' @ newline @ newline @ concat (map render_finding fs))"

definition writeReport :: "'w toolenv \<Rightarrow> string \<Rightarrow> finding list \<Rightarrow> ('w, unit) io" where
  "writeReport te outBase rep =
     thenIO (te_MkdirAll te outBase)
    (bindIO (wrapIO ''marshal report'' (liftIO (te_MarshalReport te
        (map (\<lambda>f. (PackagePath f, PackageName f, MissingPkgDoc f, MissingIdents f)) rep)))) (\<lambda>b.
       thenIO (te_WriteFile te (path_Join [outBase, ''report.json'']) b)
         (te_WriteFile te (path_Join [outBase, ''summary.md'']) (renderMarkdown rep))))"

section \<open>The module\<close>

definition goList :: "'w toolenv \<Rightarrow> string \<Rightarrow> string list result" where
  "goList te modRoot =
     (let env = sanitizedEnv (te_GOOS te) (te_environ te) in
      case te_go_list te modRoot env of
        Inl e \<Rightarrow> Inl (Wrap ''go list'' e)
      | Inr b \<Rightarrow>
          Inr (List.map_filter (\<lambda>l.
              let line = TrimSpace l in
              if line = [] then None
              else case te_go_list_dir te modRoot env line of
                  Inl _ \<Rightarrow> None
                | Inr db \<Rightarrow>
                    let d = TrimSpace db in
                    if d = [] then None
                    else case Rel modRoot d of Inl _ \<Rightarrow> None | Inr rel \<Rightarrow> Some rel)
            (Split (TrimSpace b) (CHR 0x0A))))"

definition safeJoinUnder :: "string \<Rightarrow> string \<Rightarrow> string result" where
  "safeJoinUnder base rel =
     (if IsAbs rel then Inl (ErrMsg (''outdir must be relative: '' @ rel))
      else if rel = ''..'' \<or> HasPrefix rel ''../'' \<or> Contains rel ''/../''
      then Inl (ErrMsg (''outdir must not traverse outside module root: '' @ rel))
      else
        let clean = Clean rel in
        if clean = ''..'' \<or> HasPrefix clean ''../''
        then Inl (ErrMsg (''outdir must not traverse outside module root: '' @ rel))
        else
          let joined = path_Join [base, clean] in
          if \<not> isWithin base joined then Inl (ErrMsg (''outdir must be within module root: '' @ rel))
          else Inr joined)"

text \<open>\<open>None\<close> when the search does not end.\<close>

definition findModuleRoot :: "'w toolenv \<Rightarrow> string result option" where
  "findModuleRoot te =
     map_option (\<lambda>r. case r of Inl _ \<Rightarrow> Inl (ErrMsg ''go.mod not found'') | Inr x \<Rightarrow> x)
       (walk_up (\<lambda>d. if te_Stat te (path_Join [d, ''go.mod'']) then Some (te_Abs te d) else None) ''.'')"

definition doccheck_run :: "'w toolenv \<Rightarrow> string \<Rightarrow> string result \<Rightarrow> ('w, unit) io" where
  "doccheck_run te outDir found =
     bindIO (liftIO found) (\<lambda>modRoot.
     bindIO (liftIO (goList te modRoot)) (\<lambda>pkgs.
     bindIO (liftIO (safeJoinUnder modRoot outDir)) (\<lambda>outBase.
       writeReport te outBase (collectFindings te modRoot pkgs))))"

text \<open>The exit code of \<open>main\<close>.\<close>

definition doccheck_main :: "'w toolenv \<Rightarrow> string \<Rightarrow> 'w \<Rightarrow> (int \<times> 'w) option" where
  "doccheck_main te outDir w =
     map_option (\<lambda>modRoot. case doccheck_run te outDir modRoot w of (Inl _, w') \<Rightarrow> (1, w') | (Inr _, w') \<Rightarrow> (0, w'))
       (findModuleRoot te)"

section \<open>Below the module root\<close>

lemma isWithin_prefix:
  assumes "IsAbs base" and "IsAbs target"
  shows "isWithin base target \<longleftrightarrow> prefix (parts base) (parts target)"
proof -
  obtain rel where "Rel base target = Inr rel" "leaves (Clean rel) \<longleftrightarrow> \<not> prefix (parts base) (parts target)"
    using assms by (rule Rel_abs)
  then show ?thesis by (auto simp: isWithin_def leaves_def HasPrefix_def)
qed

text \<open>
  For absolute paths, \<open>isWithin\<close> decides whether the target is the base or lies below it: the
  names of the base begin those of the target, after dots and double dots have been resolved in both.
\<close>

theorem isWithin_exact:
  assumes "IsAbs base" and "IsAbs target"
  shows "isWithin base target \<longleftrightarrow> prefix (parts base) (parts target)"
  using assms by (rule isWithin_prefix)

lemma safeJoin_below:
  assumes "IsAbs base" and "safeJoinUnder base rel = Inr p"
  shows "IsAbs p" and "parts p = parts base @ parts rel" and "\<forall>c \<in> set (parts p). name_ok c"
proof -
  have r: "\<not> IsAbs rel" "\<not> leaves (Clean rel)" "p = path_Join [base, Clean rel]"
    using assms(2) by (auto simp: safeJoinUnder_def leaves_def Let_def split: if_splits)
  show p: "IsAbs p" "parts p = parts base @ parts rel" using join_parts [OF assms(1) r(1,2)] r(3) by simp_all
  from abs_names [OF p(1)] show "\<forall>c \<in> set (parts p). name_ok c" .
qed

text \<open>
  An output directory that is accepted lies below the module root: its names are those of the
  root followed by those of the directory, and none of them is a double dot.
\<close>

theorem safeJoinUnder_within:
  assumes "IsAbs base" and "safeJoinUnder base rel = Inr p"
  shows "IsAbs p \<and> parts p = parts base @ parts rel \<and> (\<forall>c \<in> set (parts p). name_ok c)"
  using safeJoin_below [OF assms] by blast

text \<open>Every relative directory that does not go up is accepted.\<close>

lemma safeJoinUnder_accepts:
  assumes "IsAbs base" and "\<not> IsAbs rel" and "\<not> leaves (Clean rel)" and "rel \<noteq> ''..''" and "\<not> HasPrefix rel ''../''"
    and "\<not> Contains rel ''/../''"
  shows "safeJoinUnder base rel = Inr (path_Join [base, Clean rel])"
  using assms join_parts [OF assms(1-3)] isWithin_prefix [OF assms(1) join_parts(1) [OF assms(1-3)]]
  by (auto simp: safeJoinUnder_def leaves_def Let_def)

lemma join_name:
  assumes "IsAbs p" and "name_ok n"
  shows "IsAbs (path_Join [p, n])" and "parts (path_Join [p, n]) = parts p @ [n]"
proof -
  have n: "normal False [n]" using assms(2) by (auto intro: normal_names)
  have e: "path_of False [n] = n" by (simp add: path_of_def)
  have c: "Clean n = n" "parts n = [n]" "\<not> IsAbs n" "\<not> leaves (Clean n)"
    using Clean_path [OF n] path_of_parts [OF n] leaves_path [OF n] assms(2) unfolding e by (auto simp: name_ok_def)
  with join_parts [OF assms(1) c(3,4)] show "IsAbs (path_Join [p, n])" "parts (path_Join [p, n]) = parts p @ [n]"
    by simp_all
qed

definition below :: "string \<Rightarrow> string \<Rightarrow> bool" where
  "below base p \<longleftrightarrow> IsAbs p \<and> prefix (parts base) (parts p)"

text \<open>
  C40. The checker writes below the module root only: what every directory and file written there
  leaves alone, a run leaves alone, whatever the output directory that was asked for and the output of the
  commands.
\<close>

theorem doccheck_writes_below_root:
  assumes "IsAbs base"
    and "\<forall>p. below base p \<longrightarrow> keeps P (te_MkdirAll te p) \<and> (\<forall>b. keeps P (te_WriteFile te p b))"
  shows "keeps P (doccheck_run te outDir (Inr base))"
proof -
  have names: "name_ok ''report.json''" "name_ok ''summary.md''" by (simp_all add: name_ok_def)
  have w: "keeps P (writeReport te out rep)" if "safeJoinUnder base outDir = Inr out" for out rep
  proof -
    note s = safeJoin_below [OF assms(1) that]
    have b: "below base out" "below base (path_Join [out, ''report.json''])" "below base (path_Join [out, ''summary.md''])"
      using s join_name [OF s(1) names(1)] join_name [OF s(1) names(2)] by (auto simp: below_def)
    with assms(2) show ?thesis unfolding writeReport_def by (intro keeps_intros) auto
  qed
  show ?thesis
  proof (cases "safeJoinUnder base outDir")
    case (Inl e)
    then show ?thesis by (auto simp: doccheck_run_def keeps_def io_defs split: sum.split)
  next
    case (Inr out)
    with w [OF Inr] show ?thesis by (auto simp: doccheck_run_def keeps_def io_defs split: sum.split)
  qed
qed

section \<open>What is reported\<close>

text \<open>The names a declaration introduces without a comment.\<close>

fun undocumented :: "node \<Rightarrow> string \<Rightarrow> bool" where
  "undocumented (GenDecl t doc specs _) n \<longleftrightarrow>
     isTrackedGenDecl t \<and> \<not> doc
     \<and> (TypeSpec n False \<in> set specs \<or> (\<exists>names. ValueSpec names False \<in> set specs \<and> n \<in> set names))"
| "undocumented (FuncDecl recv name doc _) n \<longleftrightarrow> \<not> recv \<and> \<not> doc \<and> name = n"
| "undocumented (OtherNode _) n \<longleftrightarrow> False"

abbreviation keys :: "unit gomap \<Rightarrow> string set" where
  "keys m \<equiv> set (go_keys m)"

lemma keys_put [simp]: "keys (go_put m k ()) = insert k (keys m)"
  by (auto simp: set_go_keys)

lemma keys_fold:
  assumes "\<And>x m. keys (f x m) = keys m \<union> g x"
  shows "keys (fold f xs m) = keys m \<union> (\<Union>x \<in> set xs. g x)"
  by (induction xs arbitrary: m) (auto simp: assms)

lemma keys_spec:
  "keys (addMissingFromSpec up doc sp m) = keys m \<union>
     {n. isExported up n \<and> \<not> doc \<and> (sp = TypeSpec n False \<or> (\<exists>names. sp = ValueSpec names False \<and> n \<in> set names))}"
proof (cases sp)
  case (ValueSpec names d)
  have "keys (fold (\<lambda>n m. if isExported up n then go_put m n () else m) names m)
      = keys m \<union> (\<Union>n \<in> set names. if isExported up n then {n} else {})"
    by (rule keys_fold) auto
  with ValueSpec show ?thesis by (auto simp: addMissingValueSpec_def split: if_splits)
qed (auto simp: addMissingTypeSpec_def)

lemma keys_node: "keys (addMissingFromNode up x m) = keys m \<union> {n. isExported up n \<and> undocumented x n}"
proof (cases x)
  case (GenDecl t doc specs ns)
  then show ?thesis
    by (auto simp: addMissingFromGenDecl_def keys_fold [OF keys_spec])
qed (auto simp: addMissingFuncDecl_def)

lemma keys_file:
  "keys (collectMissingInFile up f m) =
     keys m \<union> {n. isExported up n \<and> (\<exists>x \<in> set (f_nodes f). \<exists>y \<in> set (inspect x). undocumented y n)}"
  by (auto simp: collectMissingInFile_def keys_fold [OF keys_node])

text \<open>
  The identifiers reported for a package are, sorted, exactly the exported names that a type,
  constant, variable or function declaration anywhere in its files introduces without a comment on the
  declaration or on the specification. Declarations inside function bodies count; methods do not.
\<close>

theorem findMissingIdentifiers_exact:
  "set (findMissingIdentifiers up files) =
     {n. isExported up n \<and> (\<exists>f \<in> set files. \<exists>x \<in> set (f_nodes f). \<exists>y \<in> set (inspect x). undocumented y n)}
   \<and> sorted (findMissingIdentifiers up files)"
proof
  have "set (findMissingIdentifiers up files) = keys (fold (collectMissingInFile up) files [])"
    by (simp add: findMissingIdentifiers_def sortedMissing_def sorted_keys_def)
  also have "\<dots> = {n. isExported up n \<and> (\<exists>f \<in> set files. \<exists>x \<in> set (f_nodes f). \<exists>y \<in> set (inspect x). undocumented y n)}"
    unfolding keys_fold [OF keys_file] by (auto simp: set_go_keys)
  finally show "set (findMissingIdentifiers up files) = \<dots>" .
  show "sorted (findMissingIdentifiers up files)"
    by (simp add: findMissingIdentifiers_def sortedMissing_def sorted_keys_sorted)
qed

text \<open>
  The commands are run with one \<open>PATH\<close> and it is the fixed one, whatever the environment of the
  tool; every other variable is handed on.
\<close>

theorem sanitizedEnv_path:
  "filter (\<lambda>e. HasPrefix e ''PATH='' \<or> HasPrefix e ''Path='') (sanitizedEnv GOOS environ) = [''PATH='' @ safePath GOOS]
   \<and> filter (\<lambda>e. \<not> (HasPrefix e ''PATH='' \<or> HasPrefix e ''Path='')) (sanitizedEnv GOOS environ) =
     filter (\<lambda>e. \<not> (HasPrefix e ''PATH='' \<or> HasPrefix e ''Path='')) environ"
  unfolding sanitizedEnv_def by (auto simp: HasPrefix_def filter_empty_conv)

text \<open>The summary says that all is good exactly when nothing is missing.\<close>

lemma renderMarkdown_all_good:
  "renderMarkdown rep = ''# Doccheck Summary'' @ newline @ newline @ ''All good.'' @ newline \<longleftrightarrow>
     (\<forall>f \<in> set rep. \<not> MissingPkgDoc f \<and> MissingIdents f = [])"
proof (cases "filter (\<lambda>f. \<not> (\<not> MissingPkgDoc f \<and> MissingIdents f = [])) rep")
  case Nil
  then show ?thesis by (auto simp: renderMarkdown_def filter_empty_conv)
next
  case (Cons f fs)
  then have "\<exists>f \<in> set rep. MissingPkgDoc f \<or> MissingIdents f \<noteq> []" by (fastforce dest: filter_eq_ConsD)
  with Cons show ?thesis by (auto simp: renderMarkdown_def render_finding_def)
qed

text \<open>
  The module root is the current directory or there is none: the search starts at the path
  \<open>.\<close>, which is its own parent, so it never reaches the directories above.
\<close>

theorem findModuleRoot_current_only:
  "findModuleRoot te = Some (if te_Stat te ''go.mod'' then te_Abs te ''.'' else Inl (ErrMsg ''go.mod not found''))"
proof -
  have "Dir ''.'' = ''.''" "path_Join [''.'', ''go.mod''] = ''go.mod''" by code_simp+
  then show ?thesis
    by (simp add: findModuleRoot_def walk_up_def iterate.simps [of _ "''.''"] walk_step_def)
qed

section \<open>Instances\<close>

theorem isWithin_exact_witness:
  "isWithin ''/repo'' ''/repo/./dist/../docs'' \<and> \<not> isWithin ''/repo'' ''/repository''"
proof -
  have a: "IsAbs ''/repo''" "IsAbs ''/repo/./dist/../docs''" "IsAbs ''/repository''" by code_simp+
  have "prefix (parts ''/repo'') (parts ''/repo/./dist/../docs'')" "\<not> prefix (parts ''/repo'') (parts ''/repository'')"
    by code_simp+
  with isWithin_exact [OF a(1,2)] isWithin_exact [OF a(1,3)] show ?thesis by simp
qed

theorem safeJoinUnder_within_witness:
  "safeJoinUnder ''/repo'' ''dist/doccheck'' = Inr ''/repo/dist/doccheck''
   \<and> parts ''/repo/dist/doccheck'' = parts ''/repo'' @ parts ''dist/doccheck''
   \<and> isl (safeJoinUnder ''/repo'' ''a/../../etc'')"
proof -
  have a: "IsAbs ''/repo''" "safeJoinUnder ''/repo'' ''dist/doccheck'' = Inr ''/repo/dist/doccheck''"
      "isl (safeJoinUnder ''/repo'' ''a/../../etc'')"
    by code_simp+
  with safeJoinUnder_within [OF a(1,2)] show ?thesis by blast
qed

text \<open>A tool that records the paths it writes.\<close>

definition demo_tool :: "string list toolenv" where
  "demo_tool =
     \<lparr>te_GOOS = ''linux'', te_environ = [''PATH=/tmp''], te_upper = (\<lambda>_. False), te_Stat = (\<lambda>_. True),
      te_Abs = (\<lambda>_. Inr ''/repo''), te_go_list = (\<lambda>_ _. Inr ''m''), te_go_list_dir = (\<lambda>_ _ _. Inr ''/repo''),
      te_ReadDir = (\<lambda>_. Inr [''a.go'']),
      te_ParseFile = (\<lambda>_. Inr \<lparr>f_Name = ''m'', f_Doc = None, f_nodes = [FuncDecl False ''Run'' False []]\<rparr>),
      te_MarshalReport = (\<lambda>_. Inr ''{}''),
      te_MkdirAll = (\<lambda>p w. (Inr (), p # w)), te_WriteFile = (\<lambda>p b w. (Inr (), p # w))\<rparr>"

theorem doccheck_writes_below_root_witness:
  "snd (doccheck_run demo_tool ''dist'' (Inr ''/repo'') []) =
     [''/repo/dist/summary.md'', ''/repo/dist/report.json'', ''/repo/dist'']
   \<and> list_all (below ''/repo'') (snd (doccheck_run demo_tool ''dist'' (Inr ''/repo'') []))"
proof
  show "snd (doccheck_run demo_tool ''dist'' (Inr ''/repo'') []) =
      [''/repo/dist/summary.md'', ''/repo/dist/report.json'', ''/repo/dist'']"
    by code_simp
  have "keeps (list_all (below ''/repo'')) (doccheck_run demo_tool ''dist'' (Inr ''/repo''))"
    by (rule doccheck_writes_below_root) (code_simp, simp add: demo_tool_def keeps_def)
  then show "list_all (below ''/repo'') (snd (doccheck_run demo_tool ''dist'' (Inr ''/repo'') []))"
    by (simp add: keeps_def)
qed

end
