(* ===== verification/FileMap.thy ===== *)
theory FileMap
  imports DocCheck "HOL-Library.Multiset"
begin

text \<open>
  The generator of the overview of Go files (\<^verbatim>\<open>hack/tools/genfilemap/main.go\<close>): the tracked Go files,
  grouped by folder, each with one line that says what it is for, taken from its package comment, its name or a table of
  path rules.

  \<open>git ls-files\<close> is a parameter; files, parser and commands are the record \<open>toolenv\<close> of \<open>DocCheck\<close>.

  Shown: every listed file is in the overview exactly once (\<open>overview_lists_once\<close>); a summary is one line
  (\<open>oneLine_single\<close>); the module root is the nearest parent with a \<^verbatim>\<open>go.mod\<close>; and the path rules for
  \<^verbatim>\<open>/internal/\<close> never apply to a tracked path, which has no slash before \<^verbatim>\<open>internal\<close>.
\<close>

section \<open>Text\<close>

definition at_space :: "string \<Rightarrow> bool" where
  "at_space s \<longleftrightarrow> list_ex (\<lambda>w. prefix w s) white_space"

fun take_word :: "string \<Rightarrow> string \<times> string" where
  "take_word [] = ([], [])"
| "take_word (c # s) = (if at_space (c # s) then ([], c # s) else (case take_word s of (w, r) \<Rightarrow> (c # w, r)))"

lemma take_word_append: "take_word s = (w, r) \<Longrightarrow> s = w @ r"
  by (induction s arbitrary: w) (auto split: if_splits prod.splits)

text \<open>\<open>strings.Fields\<close>.\<close>

function Fields :: "string \<Rightarrow> string list" where
  "Fields s =
     (case take_word (strip white_space s) of
        ([], _) \<Rightarrow> []
      | (c # w, r) \<Rightarrow> (c # w) # Fields r)"
  by pat_completeness auto

lemma strip_suffix: "suffix (strip ws s) s"
proof (induction ws s rule: strip.induct)
  case (1 ws s)
  then show ?case
    by (subst strip.simps) (auto split: option.split intro: suffix_drop suffix_order.trans)
qed

lemma take_word_shorter: "take_word (strip white_space s) = (c # w, r) \<Longrightarrow> length r < length s"
  using take_word_append [of "strip white_space s"] suffix_length_le [OF strip_suffix, of white_space s] by fastforce

termination Fields
  by (relation "measure length") (auto dest: take_word_shorter [OF sym])

declare Fields.simps [simp del]

definition hyphenToWords :: "string \<Rightarrow> string" where
  "hyphenToWords s =
     (let s = map (\<lambda>c. if c = CHR ''_'' then CHR '' '' else c) s;
          s = map (\<lambda>c. if c = CHR ''-'' then CHR '' '' else c) s;
          s = TrimSpace s
      in if s = [] then ''behavior'' else s)"

definition isTestFile :: "string \<Rightarrow> bool" where
  "isTestFile base \<longleftrightarrow> HasSuffix base ''_test.go''"

definition oneLine :: "string \<Rightarrow> string" where
  "oneLine s' =
     (let s = TrimSpace s' in
      if s = [] then []
      else
        let cut = takeWhile (\<lambda>c. c \<notin> {CHR 0x0A, CHR ''.'', CHR ''!''}) s; line = TrimSpace cut in
        if length cut < length s \<and> line \<noteq> [] then line
        else
          let line = Join (Fields (takeWhile (\<lambda>c. c \<noteq> CHR 0x0A) s)) '' '' in
          if length line > 180 then take 177 line @ ''...'' else line)"

definition TrimSuffix :: "string \<Rightarrow> string \<Rightarrow> string" where
  "TrimSuffix s suf = (if HasSuffix s suf then take (length s - length suf) s else s)"

section \<open>Path rules\<close>

record rule =
  r_prefix :: string
  r_contains :: string
  r_suffix :: string
  r_baseEq :: string
  r_summary :: string

abbreviation prefix_rule where
  "prefix_rule p s \<equiv> \<lparr>r_prefix = p, r_contains = [], r_suffix = [], r_baseEq = [], r_summary = s\<rparr>"

abbreviation contains_rule where
  "contains_rule p b s \<equiv> \<lparr>r_prefix = [], r_contains = p, r_suffix = [], r_baseEq = b, r_summary = s\<rparr>"

definition pathRules :: "rule list" where
  "pathRules =
     [prefix_rule ''cmd/healthcheck/'' ''Health probe binary. Runs liveness/readiness checks.'',
      \<lparr>r_prefix = [], r_contains = [], r_suffix = ''/main.go'', r_baseEq = [],
       r_summary = ''Entrypoint binary. Loads configuration and starts orchestration.''\<rparr>,
      contains_rule ''/internal/http/'' ''server.go'' ''HTTP server exposing metrics and health probes (and optional pprof).'',
      contains_rule ''/internal/reconcilers/core/'' ''reconciler.go''
        ''Core reconciler: fetches remote config, reconciles Traefik CRDs (SSA), GC, metrics, readiness.'',
      contains_rule ''/internal/observability/metrics/otel/'' [] ''OpenTelemetry metrics instruments and exporter wiring.'',
      contains_rule ''/internal/observability/log/'' [] ''Helpers for safe logging (e.g., JSON redaction).'',
      contains_rule ''/internal/observability/metrics/'' [] ''Prometheus metrics registry and handlers.'',
      contains_rule ''/internal/traefik/protocol/'' []
        ''Protocol helpers: HTTP/TCP/UDP transforms for Services, EndpointSlices, and IngressRoute TCP/UDP.'',
      contains_rule ''/internal/traefik/routing/'' []
        (''Router '' @ [CHR 0xE2, CHR 0x86, CHR 0x92] @ '' IngressRoute transformation and annotations.''),
      contains_rule ''/internal/traefik/sanitize/'' [] ''Normalize names and references to Kubernetes-safe values.'',
      contains_rule ''/internal/traefik/adapter/'' [] ''Adapter for dynamic ResourceInterface (test-friendly).'',
      contains_rule ''/internal/traefik/config/'' [] ''Lightweight Traefik dynamic config model and CRD group constants.'',
      contains_rule ''/internal/config/'' [] ''Configuration loading and normalization from environment (and optional file).'',
      contains_rule ''/internal/k8s/'' [] ''Constructs in-cluster Kubernetes clients with rate limits.'',
      contains_rule ''/internal/instancelabel/'' [] ''Resolve and verify Traefik instance label used on managed resources.'',
      contains_rule ''/internal/testschema/'' [] ''Test helpers for CRD loading, scrubbing, and validation.'',
      contains_rule ''/internal/version/'' [] ''Build metadata (Version/Commit/Date) helpers.'',
      prefix_rule ''test/'' ''Integration/E2E test helpers and assets.'']"

definition rule_applies :: "string \<Rightarrow> string \<Rightarrow> rule \<Rightarrow> bool" where
  "rule_applies rel base r \<longleftrightarrow>
     \<not> (r_prefix r \<noteq> [] \<and> \<not> HasPrefix rel (r_prefix r))
   \<and> \<not> (r_contains r \<noteq> [] \<and> \<not> Contains rel (r_contains r))
   \<and> \<not> (r_suffix r \<noteq> [] \<and> \<not> HasSuffix rel (r_suffix r))
   \<and> \<not> (r_baseEq r \<noteq> [] \<and> base \<noteq> r_baseEq r)"

definition pathHeuristicSummary :: "string \<Rightarrow> string \<Rightarrow> string option" where
  "pathHeuristicSummary rel base = map_option r_summary (find (rule_applies rel base) pathRules)"

section \<open>Summaries and groups\<close>

definition headerSummary :: "'w toolenv \<Rightarrow> string \<Rightarrow> string \<Rightarrow> string option" where
  "headerSummary te modRoot rel =
     (case te_ParseFile te (path_Join [modRoot, rel]) of
        Inl _ \<Rightarrow> None
      | Inr f \<Rightarrow> (case f_Doc f of
            None \<Rightarrow> None
          | Some doc \<Rightarrow> let line = oneLine doc in if line \<noteq> [] then Some line else None))"

definition summarizeFile :: "'w toolenv \<Rightarrow> string \<Rightarrow> string \<Rightarrow> string" where
  "summarizeFile te modRoot rel =
     (case headerSummary te modRoot rel of
        Some s \<Rightarrow> s
      | None \<Rightarrow>
          let base = Base rel; name = TrimSuffix base ''.go'' in
          if isTestFile base then ''Tests '' @ hyphenToWords (TrimSuffix name ''_test'') @ ''.''
          else case pathHeuristicSummary rel base of Some s \<Rightarrow> s | None \<Rightarrow> ''Go source file.'')"

text \<open>\<open>strings.Split\<close> never returns an empty slice.\<close>

definition deriveGroup :: "string \<Rightarrow> string" where
  "deriveGroup p =
     (let parts = Split p slash in
      if hd parts = ''cmd'' \<and> length parts \<ge> 2 then ''cmd''
      else if hd parts = ''internal'' \<and> length parts \<ge> 3 \<and> (parts ! 1 = ''service'' \<or> parts ! 1 = ''observability'')
      then Join (take 3 parts) ''/''
      else if hd parts = ''internal'' \<and> length parts \<ge> 2 then Join (take 2 parts) ''/''
      else if hd parts = ''test'' then ''test''
      else hd parts)"

record entry =
  e_Path :: string
  e_Summary :: string

definition groupFiles :: "'w toolenv \<Rightarrow> string \<Rightarrow> string list \<Rightarrow> entry list gomap" where
  "groupFiles te modRoot files =
     fold (\<lambda>p res.
         let gk = deriveGroup p; sum = summarizeFile te modRoot p
         in go_put res gk (of_nil (go_get res gk) @ [\<lparr>e_Path = p, e_Summary = sum\<rparr>]))
       files []"

definition sortedGroupKeys :: "entry list gomap \<Rightarrow> string list" where
  "sortedGroupKeys m = sorted_keys m"

section \<open>Files\<close>

text \<open>\<open>bufio.Scanner\<close>: lines up to 65535 bytes; a longer one ends the scan with an error.\<close>

fun scan :: "string list \<Rightarrow> string list \<times> goerr option" where
  "scan [] = ([], None)"
| "scan [l] = (if l = [] then ([], None) else if length l > 65535 then ([], Some (ErrMsg ''bufio.Scanner: token too long'')) else ([l], None))"
| "scan (l # ls) =
     (if length l > 65535 then ([], Some (ErrMsg ''bufio.Scanner: token too long''))
      else case scan ls of (out, e) \<Rightarrow> (l # out, e))"

definition tracked_go :: "string \<Rightarrow> bool" where
  "tracked_go p \<longleftrightarrow> HasSuffix p ''.go'' \<and> p \<noteq> [] \<and> \<not> (HasPrefix p ''vendor/'' \<or> Contains p ''/vendor/'')
     \<and> \<not> Contains p ''/node_modules/''"

text \<open>The tool has its own copy of the function of the same name in doccheck.\<close>

definition genfilemap_sanitizedEnv :: "string \<Rightarrow> string list \<Rightarrow> string list" where
  "genfilemap_sanitizedEnv GOOS environ = sanitizedEnv GOOS environ"

definition gitTrackedGoFiles ::
  "(string \<Rightarrow> string list \<Rightarrow> string result) \<Rightarrow> 'w toolenv \<Rightarrow> string \<Rightarrow> string list \<times> goerr option" where
  "gitTrackedGoFiles git te modRoot =
     (case git modRoot (genfilemap_sanitizedEnv (te_GOOS te) (te_environ te)) of
        Inl e \<Rightarrow> ([], Some (Wrap ''git ls-files'' e))
      | Inr b \<Rightarrow> (case scan (Split b (CHR 0x0A)) of (lines, e) \<Rightarrow> (filter tracked_go (map TrimSpace lines), e)))"

definition genfilemap_findModuleRoot :: "'w toolenv \<Rightarrow> string result option" where
  "genfilemap_findModuleRoot te =
     (case te_Abs te ''.'' of
        Inl e \<Rightarrow> Some (Inl e)
      | Inr d \<Rightarrow>
          map_option (\<lambda>r. case r of Inl last_d \<Rightarrow> Inl (ErrMsg (''go.mod not found from '' @ last_d)) | Inr x \<Rightarrow> Inr x)
            (walk_up (\<lambda>d. if te_Stat te (path_Join [d, ''go.mod'']) then Some d else None) d))"

section \<open>The overview\<close>

text \<open>The entries of a group in the order of their paths.\<close>

definition group_entries :: "entry list gomap \<Rightarrow> string \<Rightarrow> entry list" where
  "group_entries groups g = sort_key e_Path (of_nil (go_get groups g))"

abbreviation quote_open :: string where "quote_open \<equiv> [CHR 0xE2, CHR 0x80, CHR 0x9C]"
abbreviation quote_close :: string where "quote_close \<equiv> [CHR 0xE2, CHR 0x80, CHR 0x9D]"
abbreviation apostrophe :: string where "apostrophe \<equiv> [CHR 0xE2, CHR 0x80, CHR 0x99]"
abbreviation dash :: string where "dash \<equiv> [CHR 0xE2, CHR 0x80, CHR 0x94]"

definition overview :: "entry list gomap \<Rightarrow> string" where
  "overview groups =
     ''# Go Files Overview'' @ newline @ newline
     @ ''Purpose: quick, non-developer friendly guide to what each Go file does and why it exists. Grouped by folder.''
     @ newline @ newline
     @ ''## Notes'' @ newline @ newline @ ''- '' @ quote_open @ ''Tests'' @ quote_close
     @ '' entries are unit/integration tests that verify the behavior described; names indicate focus.'' @ newline
     @ ''- CRD = Custom Resource Definition (Traefik'' @ apostrophe
     @ ''s Kubernetes objects such as IngressRoute, Middleware, TraefikService).'' @ newline @ newline
     @ concat (map (\<lambda>g. ''## '' @ g @ newline
         @ concat (map (\<lambda>e. ''- '' @ e_Path e @ '' '' @ dash @ '' '' @ e_Summary e @ newline) (group_entries groups g))
         @ newline) (sortedGroupKeys groups))"

definition genfilemap_main ::
  "(string \<Rightarrow> string list \<Rightarrow> string result) \<Rightarrow> 'w toolenv \<Rightarrow> string \<Rightarrow> string result \<Rightarrow> ('w, unit) io" where
  "genfilemap_main git te out found =
     bindIO (liftIO found) (\<lambda>modRoot.
       case gitTrackedGoFiles git te modRoot of
         (_, Some e) \<Rightarrow> failIO e
       | (files, None) \<Rightarrow>
           let outPath = path_Join [modRoot, out] in
           thenIO (te_MkdirAll te (Dir outPath))
             (te_WriteFile te outPath (overview (groupFiles te modRoot files))))"

lemma groups_of_files:
  "wf_map (groupFiles te modRoot files)
   \<and> set (go_keys (groupFiles te modRoot files)) = deriveGroup ` set files
   \<and> of_nil (go_get (groupFiles te modRoot files) g) =
       map (\<lambda>p. \<lparr>e_Path = p, e_Summary = summarizeFile te modRoot p\<rparr>) (filter (\<lambda>p. deriveGroup p = g) files)"
proof (induction files rule: rev_induct)
  case Nil
  then show ?case by (simp add: groupFiles_def of_nil_def go_keys_def)
next
  case (snoc p files)
  have "groupFiles te modRoot (files @ [p]) = go_put (groupFiles te modRoot files) (deriveGroup p)
      (of_nil (go_get (groupFiles te modRoot files) (deriveGroup p)) @ [\<lparr>e_Path = p, e_Summary = summarizeFile te modRoot p\<rparr>])"
    by (simp add: groupFiles_def Let_def)
  with snoc show ?case by (auto simp: set_go_keys_put wf_intros of_nil_def)
qed

lemma mset_by_key:
  assumes "distinct ks" and "\<forall>x \<in> set xs. f x \<in> set ks"
  shows "mset (concat (map (\<lambda>k. filter (\<lambda>x. f x = k) xs) ks)) = mset xs"
  using assms
proof (induction ks arbitrary: xs)
  case (Cons k ks)
  let ?ys = "filter (\<lambda>x. f x \<noteq> k) xs"
  have "filter (\<lambda>x. f x = j) ?ys = filter (\<lambda>x. f x = j) xs" if "j \<in> set ks" for j
    unfolding filter_filter by (rule filter_cong) (use that Cons.prems(1) in auto)
  then have e: "map (\<lambda>j. filter (\<lambda>x. f x = j) ?ys) ks = map (\<lambda>j. filter (\<lambda>x. f x = j) xs) ks" by (rule map_cong [OF refl])
  have r: "mset (concat (map (\<lambda>j. filter (\<lambda>x. f x = j) xs) ks)) = mset ?ys"
    unfolding e [symmetric] by (rule Cons.IH) (use Cons.prems in auto)
  have "mset (concat (map (\<lambda>j. filter (\<lambda>x. f x = j) xs) (k # ks))) = mset (filter (\<lambda>x. f x = k) xs) + mset ?ys"
    by (simp only: list.map concat.simps mset_append r)
  also have "\<dots> = mset xs" unfolding mset_filter by (rule multiset_partition [symmetric])
  finally show ?case .
qed auto

text \<open>
  Every tracked file is in the overview exactly once: the entries under the headings, in the
  order they are written, are a rearrangement of the listed files.
\<close>

theorem overview_lists_once:
  "mset (map e_Path (concat (map (group_entries (groupFiles te modRoot files)) (sortedGroupKeys (groupFiles te modRoot files)))))
   = mset files"
proof -
  let ?g = "groupFiles te modRoot files"
  note g = groups_of_files [of te modRoot files]
  have "mset (map e_Path (group_entries ?g k)) = mset (filter (\<lambda>p. deriveGroup p = k) files)" for k
  proof -
    have "mset (map e_Path (group_entries ?g k)) = mset (map e_Path (of_nil (go_get ?g k)))" by (simp add: group_entries_def)
    then show ?thesis unfolding g [THEN conjunct2, THEN conjunct2] by (simp only: map_map comp_def entry.select_convs map_ident)
  qed
  then have "mset (map e_Path (concat (map (group_entries ?g) ks))) = mset (concat (map (\<lambda>k. filter (\<lambda>p. deriveGroup p = k) files) ks))" for ks
    by (induction ks) simp_all
  also have "mset (concat (map (\<lambda>k. filter (\<lambda>p. deriveGroup p = k) files) (sortedGroupKeys ?g))) = mset files"
  proof (rule mset_by_key)
    show "distinct (sortedGroupKeys ?g)" using g by (simp add: sortedGroupKeys_def sorted_keys_distinct)
    have "set (sortedGroupKeys ?g) = deriveGroup ` set files" using g by (simp add: sortedGroupKeys_def sorted_keys_def)
    then show "\<forall>x \<in> set files. deriveGroup x \<in> set (sortedGroupKeys ?g)" by blast
  qed
  finally show ?thesis .
qed

text \<open>
  The search for the module root ends: from an absolute directory it returns the nearest directory,
  going up, that holds a \<^verbatim>\<open>go.mod\<close>, and an error when none does.
\<close>

theorem genfilemap_findModuleRoot_nearest:
  assumes "te_Abs te ''.'' = Inr (path_of True cs)" and "normal True cs"
  shows "genfilemap_findModuleRoot te = Some (case find (\<lambda>d. te_Stat te (path_Join [d, ''go.mod''])) (ups cs) of
      None \<Rightarrow> Inl (ErrMsg ''go.mod not found from /'')
    | Some d \<Rightarrow> Inr d)"
proof -
  have "first_found (\<lambda>d. if te_Stat te (path_Join [d, ''go.mod'']) then Some d else None) ds
      = find (\<lambda>d. te_Stat te (path_Join [d, ''go.mod''])) ds" for ds
    by (induction ds) auto
  with assms show ?thesis
    by (simp add: genfilemap_findModuleRoot_def walk_up_abs split: option.split)
qed

text \<open>
  No path rule speaks of the packages under \<^verbatim>\<open>internal\<close>: the rules look for \<^verbatim>\<open>/internal/\<close> with a slash before it, and a
  tracked path begins with \<^verbatim>\<open>internal/\<close>. Such a file without a package comment that is neither a test nor a
  \<^verbatim>\<open>main.go\<close> has the summary of a file nothing is known of.
\<close>

theorem internal_rules_unused:
  assumes "HasPrefix rel ''internal/''" and "\<not> Contains rel ''/internal/''" and "\<not> HasSuffix rel ''/main.go''"
  shows "pathHeuristicSummary rel base = None"
proof -
  have c: "\<not> Contains rel (''/internal/'' @ s)" for s
    using assms(2) sublist_order.order.trans [of "''/internal/''" "''/internal/'' @ s" rel] by (auto simp: Contains_def)
  have p: "\<not> HasPrefix rel (CHR ''c'' # s)" "\<not> HasPrefix rel (CHR ''t'' # s)" for s
    using assms(1) by (auto simp: HasPrefix_def prefix_def)
  note n = c [of "''http/''", simplified] c [of "''reconcilers/core/''", simplified] c [of "''observability/metrics/otel/''", simplified]
    c [of "''observability/log/''", simplified] c [of "''observability/metrics/''", simplified] c [of "''traefik/protocol/''", simplified]
    c [of "''traefik/routing/''", simplified] c [of "''traefik/sanitize/''", simplified] c [of "''traefik/adapter/''", simplified]
    c [of "''traefik/config/''", simplified] c [of "''config/''", simplified] c [of "''k8s/''", simplified]
    c [of "''instancelabel/''", simplified] c [of "''testschema/''", simplified] c [of "''version/''", simplified]
  show ?thesis unfolding pathHeuristicSummary_def pathRules_def
    by (simp add: rule_applies_def n p assms(3))
qed

section \<open>Summaries are one line\<close>

lemma strip_set: "set (strip ws s) \<subseteq> set s"
  using strip_suffix set_mono_suffix by blast

lemma TrimSpace_set: "set (TrimSpace s) \<subseteq> set s"
  using strip_set [of "map rev white_space" "rev (strip white_space s)"] strip_set [of white_space s]
  by (auto simp: TrimSpace_def)

lemma Fields_set: "w \<in> set (Fields s) \<Longrightarrow> set w \<subseteq> set s"
proof (induction s rule: Fields.induct)
  case (1 s)
  obtain v r where t: "take_word (strip white_space s) = (v, r)" by fastforce
  have "set v \<union> set r \<subseteq> set s" using take_word_append [OF t] strip_set [of white_space s] by auto
  with 1 t show ?case by (subst (asm) (2) Fields.simps) (fastforce split: list.splits)
qed

lemma Join_set: "set (Join ws sep) \<subseteq> \<Union> (set ` set ws) \<union> set sep"
  by (induction ws sep rule: Join.induct) auto

text \<open>
  What is taken from a package comment is one line, and when the comment has no sentence end
  and no second line it is at most 180 bytes long.
\<close>

theorem oneLine_single:
  "CHR 0x0A \<notin> set (oneLine s)
   \<and> (set s \<inter> {CHR 0x0A, CHR ''.'', CHR ''!''} = {} \<longrightarrow> length (oneLine s) \<le> 180)"
proof -
  have tw: "CHR 0x0A \<notin> set (takeWhile (\<lambda>c. c \<noteq> CHR 0x0A) t)"
      "CHR 0x0A \<notin> set (takeWhile (\<lambda>c. c \<notin> {CHR 0x0A, CHR ''.'', CHR ''!''}) t)" for t
    by (auto dest: set_takeWhileD)
  have f: "CHR 0x0A \<notin> set (Join (Fields (takeWhile (\<lambda>c. c \<noteq> CHR 0x0A) t)) '' '')" for t
    using Join_set [of "Fields (takeWhile (\<lambda>c. c \<noteq> CHR 0x0A) t)" "'' ''"] Fields_set tw(1) [of t] by fastforce
  have "CHR 0x0A \<notin> set (oneLine s)"
    using f tw(2) TrimSpace_set unfolding oneLine_def Let_def by (auto dest!: in_set_takeD)
  moreover have "length (oneLine s) \<le> 180" if "set s \<inter> {CHR 0x0A, CHR ''.'', CHR ''!''} = {}"
  proof -
    have e: "takeWhile (\<lambda>c. c \<notin> {CHR 0x0A, CHR ''.'', CHR ''!''}) (TrimSpace s) = TrimSpace s"
      using that TrimSpace_set [of s] by (intro takeWhile_eq_all_conv [THEN iffD2]) auto
    show ?thesis unfolding oneLine_def Let_def e by simp
  qed
  ultimately show ?thesis by blast
qed

section \<open>Instances\<close>

theorem genfilemap_findModuleRoot_nearest_witness:
  "genfilemap_findModuleRoot (demo_tool\<lparr>te_Abs := \<lambda>_. Inr ''/repo/hack/tools'', te_Stat := \<lambda>p. p = ''/repo/go.mod''\<rparr>)
   = Some (Inr ''/repo'')"
proof -
  let ?cs = "[''repo'', ''hack'', ''tools'']"
  have e: "path_of True ?cs = ''/repo/hack/tools''" by code_simp
  have n: "normal True ?cs" by (rule normal_names) (simp add: name_ok_def)
  have f: "find (\<lambda>d. path_Join [d, ''go.mod''] = ''/repo/go.mod'') (ups ?cs) = Some ''/repo''" by code_simp
  have "te_Abs (demo_tool\<lparr>te_Abs := \<lambda>_. Inr ''/repo/hack/tools'', te_Stat := \<lambda>p. p = ''/repo/go.mod''\<rparr>) ''.'' =
      Inr (path_of True ?cs)"
    unfolding e by simp
  from genfilemap_findModuleRoot_nearest [OF this n] f show ?thesis by simp
qed

theorem internal_rules_unused_witness:
  "pathHeuristicSummary ''internal/config/env.go'' ''env.go'' = None
   \<and> summarizeFile (demo_tool\<lparr>te_ParseFile := \<lambda>_. Inl (ErrMsg [])\<rparr>) ''/repo'' ''internal/config/env.go'' = ''Go source file.''"
proof -
  have "HasPrefix ''internal/config/env.go'' ''internal/''" "\<not> Contains ''internal/config/env.go'' ''/internal/''"
      "\<not> HasSuffix ''internal/config/env.go'' ''/main.go''" "\<not> isTestFile ''env.go''" "Base ''internal/config/env.go'' = ''env.go''"
    by code_simp+
  with internal_rules_unused [of "''internal/config/env.go''"] show ?thesis
    by (simp add: summarizeFile_def headerSummary_def Let_def)
qed

theorem oneLine_single_witness:
  "oneLine ''Package main  starts it'' = ''Package main starts it'' \<and> length (oneLine ''Package main  starts it'') \<le> 180"
proof -
  have "set ''Package main  starts it'' \<inter> {CHR 0x0A, CHR ''.'', CHR ''!''} = {}" by code_simp
  with oneLine_single [of "''Package main  starts it''"] have "length (oneLine ''Package main  starts it'') \<le> 180" by blast
  moreover have "oneLine ''Package main  starts it'' = ''Package main starts it''" by code_simp
  ultimately show ?thesis by blast
qed

end
