(* ===== verification/ShaVectors.thy ===== *)
theory ShaVectors
  imports Sha256
begin

unbundle bit_operations_syntax

text \<open>
  The hash of \<^verbatim>\<open>Sha256.thy\<close> evaluated inside the logic: the constants as the numbers of the standard, and
  digests of messages of one block. Words are kept below \<open>2 ^ 32\<close> between the steps, so the numbers do not grow.
\<close>

section \<open>The constants\<close>

lemma root_search_ge: "0 \<le> r \<Longrightarrow> r \<le> root_search e n b r"
proof (induction b arbitrary: r)
  case (Suc b)
  have "r \<le> r + 2 ^ b" by simp
  with Suc.IH [of "r + 2 ^ b"] Suc.IH [of r] Suc.prems show ?case by (simp; linarith)
qed simp

lemma root_unique:
  assumes "(x :: int) ^ e \<le> n" "n < (x + 1) ^ e" "y ^ e \<le> n" "n < (y + 1) ^ e" "0 \<le> x" "0 \<le> y"
  shows "x = y"
proof (rule ccontr)
  have less: False if "u < v" "0 \<le> u" "n < (u + 1) ^ e" "v ^ e \<le> n" for u v :: int
    using that power_mono [of "u + 1" v e] by linarith
  assume "x \<noteq> y"
  then show False using less [of x y] less [of y x] assms by linarith
qed

lemma map_root_search:
  assumes "0 < e"
    and "list_all2 (\<lambda>p x. 0 \<le> x \<and> x ^ e \<le> p * 2 ^ m \<and> p * 2 ^ m < (x + 1) ^ e \<and> p * 2 ^ m < (2 ^ b) ^ e) ps xs"
  shows "map (\<lambda>p. root_search e (p * 2 ^ m) b 0) ps = xs"
  using assms(2)
proof (induction rule: list_all2_induct)
  case (Cons p ps x xs)
  then have "0 \<le> p * 2 ^ m" by (auto intro: order_trans [OF zero_le_power])
  with Cons assms(1) have "root_search e (p * 2 ^ m) b 0 = x"
    using root_search_correct [of 0 e "p * 2 ^ m" b] root_search_ge [of 0 e "p * 2 ^ m" b]
      root_unique [of "root_search e (p * 2 ^ m) b 0" e "p * 2 ^ m" x] by (simp add: zero_power)
  with Cons show ?case by simp
qed simp

lemma sha_h0_eval:
  "sha_h0 =
     [1779033703, 3144134277, 1013904242, 2773480762, 1359893119, 2600822924, 528734635, 1541459225]"
proof -
  have r: "map (\<lambda>p. root_search 2 (p * 2 ^ 64) 36 0) [2, 3, 5, 7, 11, 13, 17, 19] =
     [6074000999, 7439101573, 9603838834, 11363415354, 14244795007, 15485724812, 17708603819, 18721328409]"
    by (rule map_root_search) (simp_all)
  have e: "sha_h0 = map of_int (map (\<lambda>p. root_search 2 (p * 2 ^ 64) 36 0) [2, 3, 5, 7, 11, 13, 17, 19])"
    by (simp only: sha_h0_def map_map o_def)
  show ?thesis unfolding e r by simp
qed

lemma sha_k_eval:
  "sha_k =
     [1116352408, 1899447441, 3049323471, 3921009573, 961987163, 1508970993, 2453635748, 2870763221,
      3624381080, 310598401, 607225278, 1426881987, 1925078388, 2162078206, 2614888103, 3248222580,
      3835390401, 4022224774, 264347078, 604807628, 770255983, 1249150122, 1555081692, 1996064986,
      2554220882, 2821834349, 2952996808, 3210313671, 3336571891, 3584528711, 113926993, 338241895,
      666307205, 773529912, 1294757372, 1396182291, 1695183700, 1986661051, 2177026350, 2456956037,
      2730485921, 2820302411, 3259730800, 3345764771, 3516065817, 3600352804, 4094571909, 275423344,
      430227734, 506948616, 659060556, 883997877, 958139571, 1322822218, 1537002063, 1747873779,
      1955562222, 2024104815, 2227730452, 2361852424, 2428436474, 2756734187, 3204031479, 3329325298]"
proof -
  have r: "map (\<lambda>p. root_search 3 (p * 2 ^ 96) 36 0) small_primes =
     [5411319704, 6194414737, 7344290767, 8215976869, 9551921755, 10098905585, 11043570340, 11460697813,
      12214315672, 13195500289, 13492127166, 14311783875, 14809980276, 15046980094, 15499789991, 16133124468,
      16720292289, 16907126662, 17444216262, 17784676812, 17950125167, 18429019306, 18734950876, 19175934170,
      19734090066, 20001703533, 20132865992, 20390182855, 20516441075, 20764397895, 21588763473, 21813078375,
      22141143685, 22248366392, 22769593852, 22871018771, 23170020180, 23461497531, 23651862830, 23931792517,
      24205322401, 24295138891, 24734567280, 24820601251, 24990902297, 25075189284, 25569408389, 26045227120,
      26200031510, 26276752392, 26428864332, 26653801653, 26727943347, 27092625994, 27306805839, 27517677555,
      27725365998, 27793908591, 27997534228, 28131656200, 28198240250, 28526537963, 28973835255, 29099129074]"
    by (rule map_root_search) (simp_all add: small_primes_def)
  have e: "sha_k = map of_int (map (\<lambda>p. root_search 3 (p * 2 ^ 96) 36 0) small_primes)"
    by (simp only: sha_k_def map_map o_def)
  show ?thesis unfolding e r by simp
qed

section \<open>The steps\<close>

lemma word_rotr_eq:
  assumes "n < 32"
  shows "word_rotr n (x :: 32 word) = drop_bit n x OR push_bit (32 - n) (take_bit n x)"
proof (rule bit_eqI)
  fix i assume "possible_bit TYPE(32 word) i"
  with assms have "(i + n) mod 32 = (if i + n < 32 then i + n else i + n - 32)" "i < 32" by (auto simp: mod_if)
  moreover have "bit x k \<Longrightarrow> k < 32" for k using bit_imp_le_length [of x k] by simp
  ultimately show "bit (word_rotr n x) i = bit (drop_bit n x OR push_bit (32 - n) (take_bit n x)) i"
    using assms by (auto simp: bit_word_rotr_iff bit_simps add.commute)
qed

lemmas sha_eval = sha_S1_def sha_S0_def sha_s0_def sha_s1_def sha_ch_def sha_maj_def Let_def word_rotr_eq

lemma schedule_step:
  assumes "unat (sha_s1 (ws ! 1) + ws ! 6 + sha_s0 (ws ! 14) + ws ! 15) = m" and "of_nat m = w"
    and "sha_schedule n (w # ws) = r"
  shows "sha_schedule (Suc n) ws = r"
proof -
  have "of_nat (unat x) = x" for x :: "32 word" by simp
  with assms show ?thesis by (metis sha_schedule.simps(2))
qed

lemma rounds_step:
  assumes "map unat (sha_round (k, w) st) = ms" and "map of_nat ms = st'"
    and "fold sha_round (zip ks ws) st' = r"
  shows "fold sha_round (zip (k # ks) (w # ws)) st = r"
proof -
  have "map of_nat (map unat st) = st" for st :: "32 word list" by (simp add: o_def)
  with assms show ?thesis by (metis fold_simps(2) zip_Cons_Cons)
qed

lemma suc_48:
  "48 =
     Suc (Suc (Suc (Suc (Suc (Suc (Suc (Suc (Suc (Suc (Suc (Suc (
     Suc (Suc (Suc (Suc (Suc (Suc (Suc (Suc (Suc (Suc (Suc (Suc (
     Suc (Suc (Suc (Suc (Suc (Suc (Suc (Suc (Suc (Suc (Suc (Suc (
     Suc (Suc (Suc (Suc (Suc (Suc (Suc (Suc (Suc (Suc (Suc (Suc (0))))))))))))))))))))))))))))))))))))))))))))))))"
  by simp

section \<open>Digests of one block\<close>

text \<open>A message of less than 56 bytes is one block; its words and the text of the digest as numbers.\<close>

lemma replicate_num: "replicate (numeral k) x = x # replicate (pred_numeral k) x"
  by (simp add: numeral_eq_Suc)

lemma char_of_0: "char_of (0 :: nat) = CHR 0x00"
  by code_simp

lemma sha_pad_short:
  assumes "length m < 56"
  shows "sha_pad m = m @ CHR 0x80 # replicate (61 - length m) (CHR 0x00) @
    [char_of (8 * length m div 256), char_of (8 * length m mod 256)]"
proof -
  have "(119 - length m mod 64) mod 64 = 55 - length m"
    using assms by (simp add: mod_if)
  moreover have "be_bytes 8 n = replicate 6 (CHR 0x00) @ [char_of (n div 256), char_of (n mod 256)]" if "n < 65536" for n
  proof -
    have "n div 256 div 256 = 0" using that by (simp add: div_mult2_eq [symmetric])
    moreover have "8 = Suc (Suc (Suc (Suc (Suc (Suc (Suc (Suc 0)))))))" by simp
    ultimately show ?thesis using that by (simp only: be_bytes.simps) (simp add: replicate_num char_of_0)
  qed
  moreover have "replicate (55 - length m) c @ replicate 6 c @ xs = replicate (61 - length m) c @ xs" for c :: char and xs
    using assms by (simp flip: append_assoc replicate_add)
  ultimately show ?thesis using assms by (simp add: sha_pad_def )
qed

lemma be_word_4:
  "be_word [a, b, c, d] = of_nat (byte_of a * 2 ^ 24 + byte_of b * 2 ^ 16 + byte_of c * 2 ^ 8 + byte_of d)"
  by (simp add: push_bit_eq_mult algebra_simps)

lemma chunks_4: "chunks 4 (a # b # c # d # xs) = [a, b, c, d] # chunks 4 xs" "chunks 4 [] = []"
  by (subst chunks.simps, simp add: numeral_eq_Suc)+

definition hex_word :: "32 word \<Rightarrow> string" where
  "hex_word w = map (\<lambda>k. ''0123456789abcdef'' ! (unat w div 2 ^ k mod 16)) [28, 24, 20, 16, 12, 8, 4, 0]"

lemma hex_char_digit:
  assumes "d < 16"
  shows "hex_char d = ''0123456789abcdef'' ! d"
proof -
  have "list_all (\<lambda>d. hex_char d = ''0123456789abcdef'' ! d) [0..<16]" by code_simp
  with assms show ?thesis by (simp add: list_all_iff)
qed

lemma be_bytes_4:
  "be_bytes 4 n = map char_of [n div 2 ^ 24 mod 256, n div 2 ^ 16 mod 256, n div 2 ^ 8 mod 256, n mod 256]"
proof -
  have "4 = Suc (Suc (Suc (Suc 0)))" by simp
  then show ?thesis by (simp only: be_bytes.simps) (simp add: div_mult2_eq [symmetric])
qed

lemma byte_nibbles: "x mod 256 div 16 = x div 16 mod (16 :: nat)" "x mod 256 mod 16 = x mod (16 :: nat)"
  using mod_mult2_eq [of x 16 16] by (simp_all add: mod_mod_cancel)

lemma EncodeToString_be_bytes: "EncodeToString (be_bytes 4 (unat w)) = hex_word w"
  by (simp add: EncodeToString_def be_bytes_4 hex_word_def byte_of_def byte_nibbles hex_char_digit div_mult2_eq [symmetric])

lemma EncodeToString_concat: "EncodeToString (concat xss) = concat (map EncodeToString xss)"
  by (induction xss) (auto simp: EncodeToString_def)

lemma digest_block:
  assumes "map be_word (chunks 4 (sha_pad m)) = blk" and "length blk = 16"
    and "sha_schedule 48 (rev blk) = ws" and "fold sha_round (zip sha_k ws) sha_h0 = st"
  shows "EncodeToString (Sum256 m) = concat (map hex_word (map2 (+) sha_h0 st))"
proof -
  have "chunks 16 blk = [blk]"
    using assms(2) by (subst chunks.simps) (auto simp: chunks.simps [of _ "[]"])
  then show ?thesis
    using assms by (simp add: Sum256_def sha_block_def EncodeToString_concat EncodeToString_be_bytes o_def)
qed

lemma schedule_abc:
  "sha_schedule 48 [0x18, 0, 0, 0, 0, 0, 0, 0,
      0, 0, 0, 0, 0, 0, 0, 0x61626380] =
     [0x61626380, 0, 0, 0, 0, 0, 0, 0,
      0, 0, 0, 0, 0, 0, 0, 0x18,
      0x61626380, 0xf0000, 0x7da86405, 0x600003c6, 0x3e9d7b78, 0x183fc00, 0x12dcbfdb, 0xe2e2c38e,
      0xc8215c1a, 0xb73679a2, 0xe5bc3909, 0x32663c5b, 0x9d209d67, 0xec8726cb, 0x702138a4, 0xd3b7973b,
      0x93f5997f, 0x3b68ba73, 0xaff4ffc1, 0xf10a5c62, 0xa8b3996, 0x72af830a, 0x9409e33e, 0x24641522,
      0x9f47bf94, 0xf0a64f5a, 0x3e246a79, 0x27333ba3, 0xc4763f2, 0x840abf27, 0x7a290d5d, 0x65c43da,
      0xfb3e89cb, 0xcc7617db, 0xb9e66c34, 0xa9993667, 0x84badedd, 0xc21462bc, 0x1487472c, 0xb20f7a99,
      0xef57b9cd, 0xebe6b238, 0x9fe3095e, 0x78bc8d4b, 0xa43fcf15, 0x668b2ff8, 0xeeaba2cc, 0x12b1edeb]"
  unfolding suc_48
  by ((rule schedule_step, (simp add: sha_eval; fail), (simp; fail))+, simp)

lemma rounds_abc:
  "fold sha_round (zip sha_k
     [0x61626380, 0, 0, 0, 0, 0, 0, 0,
      0, 0, 0, 0, 0, 0, 0, 0x18,
      0x61626380, 0xf0000, 0x7da86405, 0x600003c6, 0x3e9d7b78, 0x183fc00, 0x12dcbfdb, 0xe2e2c38e,
      0xc8215c1a, 0xb73679a2, 0xe5bc3909, 0x32663c5b, 0x9d209d67, 0xec8726cb, 0x702138a4, 0xd3b7973b,
      0x93f5997f, 0x3b68ba73, 0xaff4ffc1, 0xf10a5c62, 0xa8b3996, 0x72af830a, 0x9409e33e, 0x24641522,
      0x9f47bf94, 0xf0a64f5a, 0x3e246a79, 0x27333ba3, 0xc4763f2, 0x840abf27, 0x7a290d5d, 0x65c43da,
      0xfb3e89cb, 0xcc7617db, 0xb9e66c34, 0xa9993667, 0x84badedd, 0xc21462bc, 0x1487472c, 0xb20f7a99,
      0xef57b9cd, 0xebe6b238, 0x9fe3095e, 0x78bc8d4b, 0xa43fcf15, 0x668b2ff8, 0xeeaba2cc, 0x12b1edeb]) sha_h0 =
     [0x506e3058, 0xd39a2165, 0x4d24d6c, 0xb85e2ce9, 0x5ef50f24, 0xfb121210, 0x948d25b6, 0x961f4894]"
  unfolding sha_k_eval sha_h0_eval
  by ((rule rounds_step, (simp add: sha_eval; fail), (simp; fail))+, simp)

lemma block_abc: \<open>map be_word (chunks 4 (sha_pad ''abc'')) =
     [0x61626380, 0, 0, 0, 0, 0, 0, 0,
      0, 0, 0, 0, 0, 0, 0, 0x18]\<close>
  by (simp add: sha_pad_short be_word_4 chunks_4 replicate_num char_of_0 byte_of_def del: be_word.simps)

text \<open>
  The first example of the standard: the digest of \<open>abc\<close>.
\<close>

theorem Sum256_test_vector: \<open>EncodeToString (Sum256 ''abc'') =
    ''ba7816bf8f01cfea414140de5dae2223b00361a396177a9cb410ff61f20015ad''\<close>
  using digest_block [OF block_abc _ _ rounds_abc] schedule_abc
  by (simp add: sha_h0_eval hex_word_def)

lemma schedule_empty_object:
  "sha_schedule 48 [0x10, 0, 0, 0, 0, 0, 0, 0,
      0, 0, 0, 0, 0, 0, 0, 0x7b7d8000] =
     [0x7b7d8000, 0, 0, 0, 0, 0, 0, 0,
      0, 0, 0, 0, 0, 0, 0, 0x10,
      0x7b7d8000, 0xa0000, 0x701eedb1, 0x40000284, 0xab7291b7, 0x102a800, 0x1ac7fc83, 0x7c7dc00b,
      0x1e15fc4, 0xc83abc72, 0xc41afb1f, 0xb4f7c56c, 0x23dfc430, 0x34feed97, 0xb718a272, 0x1ceef90e,
      0x9145bbb, 0x3f56addd, 0xcbe06430, 0xc5901267, 0xc94053f3, 0xbdb77fc8, 0xc4e25fcb, 0xb59329b7,
      0xf8f14113, 0x1fa804e6, 0x50ed06d6, 0x16508f78, 0x98d10a78, 0x2b4973ef, 0xb2e8bd41, 0xf3f3e37,
      0x88c3ecdc, 0x6b0a5d20, 0x41a9ac36, 0xadd68fdb, 0x3156f8d7, 0x1fc59279, 0x2b537742, 0x2276a8ad,
      0x832f9d0, 0xc9a748e7, 0xf3cc55b7, 0x35baa1f3, 0xe0ad07c3, 0x15d0285b, 0x98f56765, 0x7bd4acd1]"
  unfolding suc_48
  by ((rule schedule_step, (simp add: sha_eval; fail), (simp; fail))+, simp)

lemma rounds_empty_object:
  "fold sha_round (zip sha_k
     [0x7b7d8000, 0, 0, 0, 0, 0, 0, 0,
      0, 0, 0, 0, 0, 0, 0, 0x10,
      0x7b7d8000, 0xa0000, 0x701eedb1, 0x40000284, 0xab7291b7, 0x102a800, 0x1ac7fc83, 0x7c7dc00b,
      0x1e15fc4, 0xc83abc72, 0xc41afb1f, 0xb4f7c56c, 0x23dfc430, 0x34feed97, 0xb718a272, 0x1ceef90e,
      0x9145bbb, 0x3f56addd, 0xcbe06430, 0xc5901267, 0xc94053f3, 0xbdb77fc8, 0xc4e25fcb, 0xb59329b7,
      0xf8f14113, 0x1fa804e6, 0x50ed06d6, 0x16508f78, 0x98d10a78, 0x2b4973ef, 0xb2e8bd41, 0xf3f3e37,
      0x88c3ecdc, 0x6b0a5d20, 0x41a9ac36, 0xadd68fdb, 0x3156f8d7, 0x1fc59279, 0x2b537742, 0x2276a8ad,
      0x832f9d0, 0xc9a748e7, 0xf3cc55b7, 0x35baa1f3, 0xe0ad07c3, 0x15d0285b, 0x98f56765, 0x7bd4acd1]) sha_h0 =
     [0xda09893c, 0x9a4bb905, 0xd4d7b9a4, 0x52986f64, 0x43ecfd43, 0x84e215f7, 0xf13c874b, 0xc0ca3271]"
  unfolding sha_k_eval sha_h0_eval
  by ((rule rounds_step, (simp add: sha_eval; fail), (simp; fail))+, simp)

lemma block_empty_object: \<open>map be_word (chunks 4 (sha_pad ''{}'')) =
     [0x7b7d8000, 0, 0, 0, 0, 0, 0, 0,
      0, 0, 0, 0, 0, 0, 0, 0x10]\<close>
  by (simp add: sha_pad_short be_word_4 chunks_4 replicate_num char_of_0 byte_of_def del: be_word.simps)

lemma digest_empty_object: \<open>EncodeToString (Sum256 ''{}'') =
    ''44136fa355b3678a1146ad16f7e8649e94fb4fc21fe77e8310c060f61caaff8a''\<close>
  using digest_block [OF block_empty_object _ _ rounds_empty_object] schedule_empty_object
  by (simp add: sha_h0_eval hex_word_def)

lemma schedule_half_valid:
  "sha_schedule 48 [0x1a0, 0, 0x80000000, 0x7d7d7d7d, 0x72223a7b, 0x223a7b22, 0x74657273, 0x22726f75,
      0x7b7d7d2c, 0x226d223a, 0x73223a7b, 0x77617265, 0x64646c65, 0x7b226d69, 0x7470223a, 0x7b226874] =
     [0x7b226874, 0x7470223a, 0x7b226d69, 0x64646c65, 0x77617265, 0x73223a7b, 0x226d223a, 0x7b7d7d2c,
      0x22726f75, 0x74657273, 0x223a7b22, 0x72223a7b, 0x7d7d7d7d, 0x80000000, 0, 0x1a0,
      0x62705406, 0xde56f51b, 0xeb3d2594, 0x1e969cae, 0xa3c07a08, 0x496f9a51, 0x5dad24e0, 0x9236895a,
      0xecbd6c6d, 0xd410e222, 0xd2905c15, 0x2d4cf33f, 0xfdaa2edb, 0xc5a04513, 0x2528757c, 0x2c63d336,
      0xfbca9730, 0xc2b300af, 0x2a8f2215, 0x1871289d, 0x2bced11e, 0xa22a2d07, 0x41eb33f4, 0x7e627cdf,
      0x16a7c7a4, 0x977e2c37, 0x4d6171fa, 0x50cd9a24, 0x65214c62, 0x677e612f, 0xd0485f9a, 0x1afa14dc,
      0x3f4bda59, 0x408953f5, 0x84dea851, 0x8e906c72, 0xa491f11b, 0xda4adf85, 0x51742070, 0xacc3cee5,
      0xe2207736, 0x5c2aa716, 0x35683ff8, 0x98556cd4, 0x21e55b35, 0xd187b78, 0xc25e2c23, 0x72ec7070]"
  unfolding suc_48
  by ((rule schedule_step, (simp add: sha_eval; fail), (simp; fail))+, simp)

lemma rounds_half_valid:
  "fold sha_round (zip sha_k
     [0x7b226874, 0x7470223a, 0x7b226d69, 0x64646c65, 0x77617265, 0x73223a7b, 0x226d223a, 0x7b7d7d2c,
      0x22726f75, 0x74657273, 0x223a7b22, 0x72223a7b, 0x7d7d7d7d, 0x80000000, 0, 0x1a0,
      0x62705406, 0xde56f51b, 0xeb3d2594, 0x1e969cae, 0xa3c07a08, 0x496f9a51, 0x5dad24e0, 0x9236895a,
      0xecbd6c6d, 0xd410e222, 0xd2905c15, 0x2d4cf33f, 0xfdaa2edb, 0xc5a04513, 0x2528757c, 0x2c63d336,
      0xfbca9730, 0xc2b300af, 0x2a8f2215, 0x1871289d, 0x2bced11e, 0xa22a2d07, 0x41eb33f4, 0x7e627cdf,
      0x16a7c7a4, 0x977e2c37, 0x4d6171fa, 0x50cd9a24, 0x65214c62, 0x677e612f, 0xd0485f9a, 0x1afa14dc,
      0x3f4bda59, 0x408953f5, 0x84dea851, 0x8e906c72, 0xa491f11b, 0xda4adf85, 0x51742070, 0xacc3cee5,
      0xe2207736, 0x5c2aa716, 0x35683ff8, 0x98556cd4, 0x21e55b35, 0xd187b78, 0xc25e2c23, 0x72ec7070]) sha_h0 =
     [0xd43b51df, 0xc74ced51, 0xb2e11293, 0x7cd5478c, 0x7de4ad80, 0xe93c1a84, 0x9a26496, 0x44add8f2]"
  unfolding sha_k_eval sha_h0_eval
  by ((rule rounds_step, (simp add: sha_eval; fail), (simp; fail))+, simp)

lemma block_half_valid: \<open>map be_word (chunks 4 (sha_pad ''{"http":{"middlewares":{"m":{}},"routers":{"r":{}}}}'')) =
     [0x7b226874, 0x7470223a, 0x7b226d69, 0x64646c65, 0x77617265, 0x73223a7b, 0x226d223a, 0x7b7d7d2c,
      0x22726f75, 0x74657273, 0x223a7b22, 0x72223a7b, 0x7d7d7d7d, 0x80000000, 0, 0x1a0]\<close>
  by (simp add: sha_pad_short be_word_4 chunks_4 replicate_num char_of_0 byte_of_def del: be_word.simps)

lemma digest_half_valid: \<open>EncodeToString (Sum256 ''{"http":{"middlewares":{"m":{}},"routers":{"r":{}}}}'') =
    ''3e45384682b49bd6ef50060522253cc6cef2ffff8441831029263e41a08ea60b''\<close>
  using digest_block [OF block_half_valid _ _ rounds_half_valid] schedule_half_valid
  by (simp add: sha_h0_eval hex_word_def)

end
