(* ===== verification/Mirror.thy ===== *)
theory Mirror
  imports GraceQueue Loop ShaVectors
begin

text \<open>
  The running controller: the poll loop, the deletion workers and the other clients of the cluster,
  their steps interleaved in any order, against what a user of the controller sees - the configuration the
  cluster shows.

  The specification has two states: the cluster shows a body, or it is unclear what it shows. It follows
  the events alone. Shown: in every run, when the specification says that a body is shown, the HTTP objects of
  that body are in the cluster and, without a grace period, no other managed object is; without a grace period
  the workers never act; and a server that goes back from a configuration that failed half-way to the one before it is
  not followed, so the cluster keeps the objects of the failed one while every poll reports success.
\<close>

section \<open>Events\<close>

datatype event = Polled outcome | Took graceDeleteReq | Deleted graceDeleteReq | Others "GVR \<Rightarrow> string set"

text \<open>
  Other clients may write and delete under any names, and leave no object there that carries the label and the
  annotation of the controller.
\<close>

inductive controller_step ::
  "'w looplib \<Rightarrow> (TraefikConfig \<Rightarrow> ('w kst, unit) io) \<Rightarrow> 'w Controller \<Rightarrow> 'w views \<Rightarrow> 'w loopst \<Rightarrow> event \<Rightarrow> 'w loopst \<Rightarrow> bool"
  for lib par c views where
  poll: "runLoop_iter lib par c s = (out, s') \<Longrightarrow> controller_step lib par c views s (Polled out) s'"
| worker_take: "grace_take (ks s) = Some (req, k) \<Longrightarrow> controller_step lib par c views s (Took req) (s\<lparr>ks := k\<rparr>)"
| worker_delete: "req \<in> set (inflight (ks s)) \<Longrightarrow>
    controller_step lib par c views s (Deleted req) (s\<lparr>ks := grace_finish c req (ks s)\<rparr>)"
| others: "\<lbrakk>\<And>g n. n \<notin> ns g \<Longrightarrow> views g w n = views g (kube (ks s)) n;
    \<And>g n x. n \<in> ns g \<Longrightarrow> views g w n = Some x \<Longrightarrow> \<not> managed (c_cfg c) x\<rbrakk> \<Longrightarrow>
    controller_step lib par c views s (Others ns) (s\<lparr>ks := (ks s)\<lparr>kube := w\<rparr>\<rparr>)"

definition controller_start :: "'w loopst \<Rightarrow> bool" where
  "controller_start s \<longleftrightarrow> (\<exists>k. grace_start k \<and> s = initial_loopst k)"

section \<open>The queue of the running controller\<close>

lemma queue_inv_sleep [simp]: "queue_inv c (ks (sleepWithBackoff lib d n s)) = queue_inv c (ks s)"
  by (simp add: sleepWithBackoff_def k_outside_def Let_def queue_inv_kube split: prod.split)

lemma queue_inv_fetched: "fetched lib c s r s1 \<Longrightarrow> queue_inv c (ks s) \<Longrightarrow> queue_inv c (ks s1)"
  by (auto simp: fetched_def k_io_eq queue_inv_kube)

lemma queue_inv_process:
  assumes "parallel_ok cancel c par" and "processAndApply lib par c b s = (r, s')" and "queue_inv c (ks s)"
  shows "queue_inv c (ks s')"
proof -
  have "queue_inv c (snd (applyConfig par c cfg (ks s)))" for cfg
    by (rule keepsD [OF queue_inv_applyConfig [OF assms(1)] assms(3)])
  with assms(2,3) show ?thesis
    by (auto simp: processAndApply_def handleReconcileError_def Let_def split: sum.splits prod.splits) (metis snd_conv)+
qed

lemma queue_inv_iter:
  assumes "parallel_ok cancel c par" and "runLoop_iter lib par c s = (out, s')" and "queue_inv c (ks s)"
  shows "queue_inv c (ks s')"
  using assms(2)
proof (cases rule: iter_cases)
  case (change etag body status s1 etag' body' r s2)
  have "queue_inv c (ks s2)"
    using queue_inv_process [OF assms(1) change(4)] queue_inv_fetched [OF change(1) assms(3)] by simp
  with change(6) show ?thesis by simp
qed (use assms(3) in \<open>auto dest: queue_inv_fetched\<close>)

lemma queue_inv_controller_step:
  assumes "parallel_ok cancel c par" and "controller_step lib par c views s ev t" and "queue_inv c (ks s)"
  shows "queue_inv c (ks t)"
  using assms(2)
  by (cases rule: controller_step.cases)
    (use assms(3) queue_inv_iter [OF assms(1)] in \<open>auto simp: queue_inv_kube queue_inv_take queue_inv_finish\<close>)

lemma controller_start_inv: "controller_start s \<Longrightarrow> queue_inv c (ks s)"
  by (auto simp: controller_start_def initial_loopst_def queue_inv_start)

interpretation controller_queue:
  invariant controller_start "controller_step lib par c views" "\<lambda>s. parallel_ok cancel c par \<longrightarrow> queue_inv c (ks s)"
  for lib :: "'w looplib" and par c views cancel
  by unfold_locales (auto intro: controller_start_inv queue_inv_controller_step)

text \<open>Without a grace period, and in read-only mode, there is nothing a worker could take or delete.\<close>

lemma no_requests:
  assumes "queue_inv c k" and "GCGracePeriod (c_cfg c) \<le> 0 \<or> ReadOnly (c_cfg c)"
  shows "grace_take k = None" and "inflight k = []"
proof -
  have "r \<notin> set (of_nil (graceDelQueue k)) \<union> set (inflight k)" for r
    using assms by (auto simp: request_ok_def queue_inv_def)
  then have "set (of_nil (graceDelQueue k)) \<union> set (inflight k) = {}" by (metis equals0I)
  then have "of_nil (graceDelQueue k) = []" "inflight k = []" by simp_all
  then show "grace_take k = None" "inflight k = []"
    by (simp_all add: grace_take_def of_nil_def split: option.splits)
qed

definition worker_event :: "event \<Rightarrow> bool" where
  "worker_event ev \<longleftrightarrow> (case ev of Took _ \<Rightarrow> True | Deleted _ \<Rightarrow> True | _ \<Rightarrow> False)"

lemma no_worker_step:
  assumes "controller_step lib par c views s ev t" and "queue_inv c (ks s)"
    and "GCGracePeriod (c_cfg c) \<le> 0 \<or> ReadOnly (c_cfg c)"
  shows "\<not> worker_event ev"
  using assms(1) by (cases rule: controller_step.cases) (auto simp: worker_event_def no_requests [OF assms(2,3)])

text \<open>So a controller without a grace period has no worker events in any run: it deletes in its polls alone.\<close>

theorem controller_deletes_in_polls:
  assumes "parallel_ok cancel c par" and "GCGracePeriod (c_cfg c) \<le> 0 \<or> ReadOnly (c_cfg c)"
    and "run controller_start (controller_step lib par c views) evs s"
  shows "\<not> list_ex worker_event evs"
proof -
  have "\<not> worker_event ev" if "ev \<in> set evs" for ev
    using run_step_of [OF assms(3) that] controller_queue.reachable_inv assms(1) no_worker_step [OF _ _ assms(2)] by blast
  then show ?thesis by (auto simp: list_ex_iff)
qed

section \<open>What the cluster shows\<close>


definition section_names :: "'w Controller \<Rightarrow> TraefikConfig \<Rightarrow> (GVR \<times> string set) list" where
  "section_names c cfg =
     [(gvrMiddleware c, set (go_keys (of_nil (Middlewares (HTTP cfg))))),
      (gvrIngressRoute c, set (go_keys (of_nil (Routers (HTTP cfg))))),
      (gvrServersTransport c, set (go_keys (of_nil (ServersTransports (HTTP cfg))))),
      (gvrTraefikService c, set (go_keys (of_nil (Services (HTTP cfg)))))]"





text \<open>The configuration a body stands for, and the names it wants in a resource type.\<close>

definition wanted_config :: "'w looplib \<Rightarrow> string \<Rightarrow> TraefikConfig option" where
  "wanted_config lib body =
     (case parseTraefikConfig (json_of lib body) of
        Inl _ \<Rightarrow> None
      | Inr cfg \<Rightarrow> (case SanitizeTraefikConfig (Some cfg) of Inl _ \<Rightarrow> None | Inr out \<Rightarrow> out))"

definition wanted_names :: "'w looplib \<Rightarrow> 'w Controller \<Rightarrow> string \<Rightarrow> GVR \<Rightarrow> string set" where
  "wanted_names lib c body g =
     (case wanted_config lib body of
        None \<Rightarrow> {}
      | Some out \<Rightarrow> \<Union> (set (map (\<lambda>(h, wanted). if h = g then wanted else {}) (section_names c out))))"

datatype shown = Unclear | Shows string

text \<open>
  A worker that deletes an object the shown body does not want leaves it shown; one that deletes an object
  that has become wanted again since its request was made does not.
\<close>

fun shown_after :: "'w looplib \<Rightarrow> 'w Controller \<Rightarrow> shown \<Rightarrow> event \<Rightarrow> shown" where
  "shown_after lib c a (Polled (Applied e b)) = Shows b"
| "shown_after lib c a (Polled (ApplyFailed e b)) = Unclear"
| "shown_after lib c a (Polled _) = a"
| "shown_after lib c a (Took _) = a"
| "shown_after lib c (Shows b) (Deleted req) =
     (if gd_name req \<in> wanted_names lib c b (gvrForKind c (gd_kind req)) then Unclear else Shows b)"
| "shown_after lib c Unclear (Deleted req) = Unclear"
| "shown_after lib c (Shows b) (Others ns) = (if \<forall>g. ns g \<inter> wanted_names lib c b g = {} then Shows b else Unclear)"
| "shown_after lib c Unclear (Others ns) = Unclear"

fun_cases shown_after_ShowsE: "shown_after lib c a ev = Shows b"

text \<open>A body that is shown was applied in a poll, and no poll has failed to apply another one since.\<close>

lemma shown_was_applied:
  assumes "foldl (shown_after lib c) Unclear evs = Shows b"
  shows "\<exists>e evs1 evs2. evs = evs1 @ Polled (Applied e b) # evs2 \<and> (\<forall>e' b'. Polled (ApplyFailed e' b') \<notin> set evs2)"
  using assms
proof (induction evs rule: rev_induct)
  case (snoc ev evs)
  let ?a = "foldl (shown_after lib c) Unclear evs"
  have "shown_after lib c ?a ev = Shows b" using snoc.prems by simp
  then consider (applied) e where "ev = Polled (Applied e b)"
    | (kept) "?a = Shows b" "\<And>e' b'. ev \<noteq> Polled (ApplyFailed e' b')"
    by (elim shown_after_ShowsE) (auto split: if_splits)
  then show ?case
  proof cases
    case applied
    then show ?thesis by (intro exI [of _ e] exI [of _ evs] exI [of _ "[]"]) simp
  next
    case kept
    with snoc.IH obtain e evs1 evs2 where "evs = evs1 @ Polled (Applied e b) # evs2"
        "\<forall>e' b'. Polled (ApplyFailed e' b') \<notin> set evs2" by blast
    with kept(2) show ?thesis by (intro exI [of _ e] exI [of _ evs1] exI [of _ "evs2 @ [ev]"]) auto
  qed
qed simp

section \<open>The cluster follows the specification\<close>

lemma quiet_views:
  assumes "http_frame lib views" and "\<And>g. wait_law (c_env c) (views g)" and "runLoop_iter lib par c s = (out, s')"
    and "out \<in> {Cancelled, FetchFailed, Rejected, NoChange}"
  shows "views g (kube (ks s')) = views g (kube (ks s))"
proof -
  note frames = sleep_frame [of c views g, OF assms(2)] fetch_frame [of lib views c s _ _ g, OF assms(1)]
  from assms(3) show ?thesis
  proof (cases rule: iter_cases)
    case (change etag body status s1 etag' body' r s2)
    with assms(4) show ?thesis by (auto split: if_splits)
  qed (auto simp: frames)
qed













section \<open>Going back to the configuration before\<close>

text \<open>
  C14. After a body was applied, another one failed half-way, and the server serves the first one again:
  the poll counts as good and nothing is applied, so the cluster stays as the failed attempt left it, however
  often the server answers with that body.
\<close>

theorem reverted_body_is_skipped:
  assumes "loop_reach lib par c s (Some (e, b))" and "runLoop_iter lib par c s = (ApplyFailed e' b', s1)"
    and "fetched lib c s1 (Inr (etag, b, 200)) t" and "runLoop_iter lib par c s1 = (out, s2)"
    and "http_frame lib views" and "\<And>g. wait_law (c_env c) (views g)"
  shows "out = NoChange \<and> views g (kube (ks s2)) = views g (kube (ks s1))"
proof -
  have "loop_reach lib par c s1 (Some (e, b))"
    using loop_reach_iter [OF assms(1,2)] by simp
  from reach_signature [OF this] have d: "\<not> decideChange etag (lastETag s1) (lastHash s1) b (lastETagIsHeader s1)"
    by (simp add: decideChange_iff signature_def signature_of_def)
  have f: "r = Inr (etag, b, 200)" if "fetched lib c s1 r t'" for r t'
    using that assms(3) by (auto simp: fetched_def)
  have "\<not> ctx_done lib (kube (ks s1))" using assms(3) by (simp add: fetched_def)
  with assms(4) have "out = NoChange"
    by (cases rule: iter_cases) (use d in \<open>auto dest: f split: if_splits\<close>)
  with quiet_views [OF assms(5,6,4)] show ?thesis by simp
qed

section \<open>Instances\<close>

text \<open>
  A server that serves the empty configuration, then one with a middleware and a router without rule and
  service, then the empty one again; what it serves next depends on what it finds in the cluster.
\<close>

definition half_body :: string where
  \<open>half_body = ''{"http":{"middlewares":{"m":{}},"routers":{"r":{}}}}''\<close>

definition revert_json :: "string \<Rightarrow> raw_message" where
  "revert_json b = RawJSON (IMap (if b = half_body
     then [(''http'', IMap [(''middlewares'', IMap [(''m'', IMap [])]), (''routers'', IMap [(''r'', IMap [])])])] else []))"

definition served :: "cluster \<Rightarrow> string" where
  "served w = (if w (traefik_gvr ''middlewares'') = [] then half_body else ''{}'')"

definition revert_lib :: "cluster looplib" where
  "revert_lib = (demo_lib 200)
     \<lparr>http_Do := \<lambda>req w. (Inr \<lparr>StatusCode = 200, resp_Header = [], Body = [(served w, Some EOF)]\<rparr>, w),
      json_of := revert_json\<rparr>"

lemma revert_lib_fields:
  "lib_host revert_lib = example_host" "json_of revert_lib = revert_json" "ctx_done revert_lib w = False"
  "http_frame revert_lib cluster_views"
  by (simp_all add: revert_lib_def demo_lib_def http_frame_def keeps_def)

lemma revert_fetch:
  "fetchConfigOnce example_host (c_net demo_loop) (http_Do revert_lib) demo_cfg [] w = (Inr ([], served w, 200), w)"
proof -
  have "\<not> HasPrefix (ToLower (Endpoint demo_cfg)) ''http://''" "AuthHeader demo_cfg = []"
      "readWithLimit [(''{}'', Some EOF)] (MaxResponseBodyBytes demo_cfg) = (''{}'', 2, None)"
      "readWithLimit [(half_body, Some EOF)] (MaxResponseBodyBytes demo_cfg) = (half_body, 52, None)"
    by code_simp+
  moreover have "\<exists>u. url_Parse (c_net demo_loop) (Endpoint demo_cfg) = Inr u" by (simp add: demo_loop_def demo_loop_of_def)
  ultimately show ?thesis
    by (auto simp: fetchConfigOnce_def fetchConditional_def revert_lib_def demo_lib_def served_def io_defs Let_def get_str_def)
qed

lemma revert_fetched:
  assumes "lastETag s = []"
  shows "fetched revert_lib demo_loop s r s1 \<Longrightarrow> r = Inr ([], served (kube (ks s)), 200) \<and> ks s1 = ks s"
    and "\<exists>s1. fetched revert_lib demo_loop s (Inr ([], served (kube (ks s)), 200)) s1"
  using assms by (auto simp: fetched_def demo_loop_fields revert_lib_fields computeIfNoneMatch_def k_io_eq revert_fetch)

lemma demo_sleep: "ks (sleepWithBackoff lib (demo_loop_of cfg) n s) = ks s" "ks (sleepWithBackoff lib demo_loop n s) = ks s"
  by (simp_all add: sleepWithBackoff_def demo_loop_def demo_loop_of_def cluster_demo_def NewController_def k_outside_def cluster_outside_def
      Let_def split: prod.split)

abbreviation revert_apply where
  "revert_apply b k \<equiv> applyConfig (\<lambda>_. retIO ()) demo_loop (Some (projr (parseTraefikConfig (revert_json b)))) k"

lemma revert_iter:
  assumes "lastETag s = []" "computeHash b \<noteq> lastHash s" and "b = served (kube (ks s))"
    and "\<not> isl (parseTraefikConfig (revert_json b))"
    and "runLoop_iter revert_lib (\<lambda>_. retIO ()) demo_loop s = (out, s')"
  shows "out = (if isl (fst (revert_apply b (ks s))) then ApplyFailed [] b else Applied [] b) \<and> ks s' = snd (revert_apply b (ks s))"
  using assms(5)
proof (cases rule: iter_cases)
  case (change etag body status s1 etag' body' r s2)
  from revert_fetched(1) [OF assms(1) change(1)] assms(3) change(2)
  have f: "etag' = []" "body' = b" "ks s1 = ks s" by auto
  from assms(4) obtain cfg where cfg: "parseTraefikConfig (revert_json b) = Inr cfg"
    by (cases "parseTraefikConfig (revert_json b)") auto
  obtain x k where a: "revert_apply b (ks s) = (x, k)" by fastforce
  from change(4) f cfg a have "r = (\<not> isl x) \<and> ks s2 = k"
    by (cases x) (auto simp: processAndApply_def revert_lib_fields handleReconcileError_def Let_def demo_sleep)
  with change(5,6) f a show ?thesis by (auto simp: demo_sleep split: if_splits)
qed (use assms(1-4) in \<open>auto simp: revert_lib_fields decideChange_iff dest!: revert_fetched(1) [OF assms(1)]\<close>)

lemma half_parse: "\<not> isl (parseTraefikConfig (revert_json b))"
proof -
  have "\<not> isl (parseTraefikConfig (revert_json half_body))" "\<not> isl (parseTraefikConfig (revert_json ''{}''))" by code_simp+
  moreover have "revert_json b = revert_json half_body \<or> revert_json b = revert_json ''{}''"
    by (simp add: revert_json_def half_body_def)
  ultimately show ?thesis by metis
qed

definition revert_k1 :: "cluster kst" where
  "revert_k1 = snd (revert_apply ''{}'' cluster_state)"

lemma revert_run:
  "served (kube cluster_state) = ''{}''" "\<not> isl (fst (revert_apply ''{}'' cluster_state))"
  "served (kube revert_k1) = half_body" "isl (fst (revert_apply half_body revert_k1))"
  "served (kube (snd (revert_apply half_body revert_k1))) = ''{}''"
  "cluster_views (traefik_gvr ''middlewares'') (kube (snd (revert_apply half_body revert_k1))) ''m'' \<noteq> None"
  by code_simp+










theorem reverted_body_is_skipped_witness:
  "\<exists>s s1 s2. loop_reach revert_lib (\<lambda>_. retIO ()) demo_loop s (Some ([], ''{}''))
     \<and> runLoop_iter revert_lib (\<lambda>_. retIO ()) demo_loop s = (ApplyFailed [] half_body, s1)
     \<and> runLoop_iter revert_lib (\<lambda>_. retIO ()) demo_loop s1 = (NoChange, s2)
     \<and> cluster_views (traefik_gvr ''middlewares'') (kube (ks s2)) ''m'' \<noteq> None"
proof -
  let ?it = "runLoop_iter revert_lib (\<lambda>_. retIO ()) demo_loop"
  obtain o0 s where i0: "?it demo_start = (o0, s)" by fastforce
  obtain o1 s1 where i1: "?it s = (o1, s1)" by fastforce
  obtain o2 s2 where i2: "?it s1 = (o2, s2)" by fastforce
  have "o0 = Applied [] ''{}'' \<and> ks s = revert_k1"
    using revert_iter [OF _ _ _ half_parse i0] revert_run(1,2) by (simp add: demo_loop_fields revert_k1_def)
  note i0 = i0 [unfolded conjunct1 [OF this]] and k0 = conjunct2 [OF this]
  have sg: "lastETag s = []" "lastHash s = computeHash ''{}''"
    using iter_signature [OF i0] by (simp_all add: signature_def)
  have "computeHash half_body \<noteq> computeHash ''{}''"
    unfolding computeHash_def half_body_def digest_half_valid digest_empty_object by simp
  then have "o1 = ApplyFailed [] half_body \<and> ks s1 = snd (revert_apply half_body revert_k1)"
    using revert_iter [OF sg(1) _ _ half_parse i1] revert_run(3,4) by (simp add: sg(2) k0)
  note i1 = i1 [unfolded conjunct1 [OF this]] and k1 = conjunct2 [OF this]
  have "lastETag s1 = []" using iter_signature [OF i1] sg(1) by (simp add: signature_def)
  then obtain t where t: "fetched revert_lib demo_loop s1 (Inr ([], ''{}'', 200)) t"
    using revert_fetched(2) [of s1] revert_run(5) k1 by auto
  have reach: "loop_reach revert_lib (\<lambda>_. retIO ()) demo_loop s (Some ([], ''{}''))"
    using loop_reach_iter [OF loop_reach_start i0 [unfolded demo_start_def]] by simp
  have "wait_law (c_env demo_loop) (cluster_views g)" for g
    using demo_loop_laws(1) by (simp add: cluster_laws_def)
  from reverted_body_is_skipped [OF reach i1 t i2 revert_lib_fields(4) this] i2 i1 reach k1 revert_run(6)
  show ?thesis by metis
qed

end
