(* ===== verification/Kinds.thy ===== *)
theory Kinds
  imports GraceQueue
begin

text \<open>
  From resources to kinds (\<^verbatim>\<open>internal/controller/controller.go\<close>: \<open>resourceToKind\<close>, \<open>kindFor\<close>,
  \<open>titleCaseFirst\<close>). The conversions between strings and runes are those of the language: bytes are decoded as
  UTF-8, a byte that starts no valid sequence becomes U+FFFD, and a rune that is no scalar value is encoded as
  U+FFFD. The case table of \<open>unicode\<close> outside ASCII is a parameter.

  Shown: encoding runes and decoding them again gives the runes back; \<open>kindFor\<close> inverts \<open>gvrForKind\<close> on every
  kind of a deletion request; and a resource outside the table keeps its letters but for the case of the first.
\<close>

section \<open>Runes\<close>

definition RuneError :: nat where
  "RuneError = 0xFFFD"

definition in_range :: "nat \<Rightarrow> nat \<Rightarrow> nat \<Rightarrow> bool" where
  "in_range lo hi b \<longleftrightarrow> lo \<le> b \<and> b \<le> hi"

text \<open>
  The first rune of a non-empty list of bytes, and the number of its bytes. A zero byte continues no sequence, so
  the end of the list may be padded with them.
\<close>

definition decode_rune :: "nat list \<Rightarrow> nat \<times> nat" where
  "decode_rune bs =
     (case bs @ [0, 0, 0] of
        b0 # b1 # b2 # b3 # _ \<Rightarrow>
          if b0 < 0x80 then (b0, 1)
          else if in_range 0xC2 0xDF b0 \<and> in_range 0x80 0xBF b1 then (b0 mod 32 * 64 + b1 mod 64, 2)
          else if in_range 0xE0 0xEF b0 \<and> in_range (if b0 = 0xE0 then 0xA0 else 0x80) (if b0 = 0xED then 0x9F else 0xBF) b1
            \<and> in_range 0x80 0xBF b2 then (b0 mod 16 * 4096 + b1 mod 64 * 64 + b2 mod 64, 3)
          else if in_range 0xF0 0xF4 b0 \<and> in_range (if b0 = 0xF0 then 0x90 else 0x80) (if b0 = 0xF4 then 0x8F else 0xBF) b1
            \<and> in_range 0x80 0xBF b2 \<and> in_range 0x80 0xBF b3
            then (b0 mod 8 * 262144 + b1 mod 64 * 4096 + b2 mod 64 * 64 + b3 mod 64, 4)
          else (RuneError, 1)
      | _ \<Rightarrow> (RuneError, 1))"

lemma decode_rune_size: "0 < snd (decode_rune bs)"
  by (simp add: decode_rune_def split: list.split)

function runes :: "nat list \<Rightarrow> nat list" where
  "runes bs = (if bs = [] then [] else fst (decode_rune bs) # runes (drop (snd (decode_rune bs)) bs))"
  by pat_completeness auto
termination
  by (relation "measure length") (use decode_rune_size in \<open>auto simp: diff_less\<close>)

declare runes.simps [simp del]

definition scalar :: "nat \<Rightarrow> bool" where
  "scalar r \<longleftrightarrow> r < 0xD800 \<or> 0xE000 \<le> r \<and> r < 0x110000"

definition encode_rune :: "nat \<Rightarrow> nat list" where
  "encode_rune r =
     (if r < 0x80 then [r]
      else if r < 0x800 then [0xC0 + r div 64, 0x80 + r mod 64]
      else
        let r = (if scalar r then r else RuneError) in
        if r < 0x10000 then [0xE0 + r div 4096, 0x80 + r div 64 mod 64, 0x80 + r mod 64]
        else [0xF0 + r div 262144, 0x80 + r div 4096 mod 64, 0x80 + r div 64 mod 64, 0x80 + r mod 64])"

definition to_runes :: "string \<Rightarrow> nat list" where
  "to_runes s = runes (map byte_of s)"

definition of_runes :: "nat list \<Rightarrow> string" where
  "of_runes rs = map char_of (concat (map encode_rune rs))"

section \<open>Kinds\<close>

definition resourceToKind :: "(string \<times> string) list" where
  "resourceToKind =
     [(''ingressroutes'', ''IngressRoute''), (''middlewares'', ''Middleware''), (''traefikservices'', ''TraefikService''),
      (''serverstransports'', ''ServersTransport''), (''ingressroutetcps'', ''IngressRouteTCP''),
      (''ingressrouteudps'', ''IngressRouteUDP''), (''serverstransporttcps'', ''ServersTransportTCP''),
      (''services'', ''Service''), (''routers'', ''Router''), (''sites'', ''Site''), (''targets'', ''Target''),
      (''users'', ''User''), (''clients'', ''Client''), (''orgs'', ''Org''), (''resources'', ''Resource'')]"

definition ignoreFieldValidation :: "string \<Rightarrow> bool" where
  "ignoreFieldValidation kind \<longleftrightarrow> kind = ''TraefikService''"

text \<open>\<open>unicode.ToUpper\<close>; \<open>upper\<close> is its table outside ASCII.\<close>

definition unicode_ToUpper :: "(nat \<Rightarrow> nat) \<Rightarrow> nat \<Rightarrow> nat" where
  "unicode_ToUpper upper r = (if r < 128 then if in_range 97 122 r then r - 32 else r else upper r)"

definition titleCaseFirst :: "(nat \<Rightarrow> nat) \<Rightarrow> string \<Rightarrow> string" where
  "titleCaseFirst upper s =
     (if s = [] then s else let r = to_runes s in of_runes (r[0 := unicode_ToUpper upper (r ! 0)]))"

definition kindFor :: "(nat \<Rightarrow> nat) \<Rightarrow> string \<Rightarrow> string" where
  "kindFor upper resource =
     (case map_of resourceToKind resource of Some k \<Rightarrow> k | None \<Rightarrow> titleCaseFirst upper resource)"

section \<open>Decoding inverts encoding\<close>

lemma div_64_64: "(r :: nat) div 64 div 64 = r div 4096" "r div 4096 div 64 = r div 262144"
  by (simp_all add: div_mult2_eq [symmetric])

lemma lead_mod: "x < d \<Longrightarrow> d dvd a \<Longrightarrow> (a + x) mod d = (x :: nat)"
  by (auto elim!: dvdE)

lemma decode_encode:
  assumes "scalar r"
  shows "decode_rune (encode_rune r @ bs) = (r, length (encode_rune r))"
proof -
  define m0 m1 m2 where "m0 = r mod 64" and "m1 = r div 64 mod 64" and "m2 = r div 4096 mod 64"
  have m: "m0 < 64" "m1 < 64" "m2 < 64" by (simp_all add: m0_def m1_def m2_def)
  have r: "r = r div 64 * 64 + m0" "r div 64 = r div 4096 * 64 + m1" "r div 4096 = r div 262144 * 64 + m2"
    using div_mult_mod_eq [of "r div 64" 64] div_mult_mod_eq [of "r div 4096" 64]
    by (simp_all add: m0_def m1_def m2_def div_64_64)
  obtain x y z zs where pad: "bs @ [0, 0, 0] = x # y # z # zs"
    by (metis append_Cons append_Nil list.exhaust)
  have "r < 0x80 \<or> 0x80 \<le> r \<and> r < 0x800 \<or> 0x800 \<le> r \<and> r < 0x10000 \<or> 0x10000 \<le> r \<and> r < 0x110000"
    using assms unfolding scalar_def by linarith
  then consider "r < 0x80" | "0x80 \<le> r" "r < 0x800" | "0x800 \<le> r" "r < 0x10000" | "0x10000 \<le> r" "r < 0x110000"
    by blast
  then show ?thesis
  proof cases
    case 1
    then show ?thesis by (simp add: encode_rune_def decode_rune_def pad)
  next
    case 2
    with r(1) m(1) have q: "2 \<le> r div 64" "r div 64 < 32" by linarith+
    have "encode_rune r = [0xC0 + r div 64, 0x80 + m0]" using 2 by (simp add: encode_rune_def m0_def)
    moreover have "(0xC0 + r div 64) mod 32 = r div 64" "(0x80 + m0) mod 64 = m0" using q m by (simp_all add: lead_mod)
    ultimately show ?thesis using q m r(1) [symmetric] by (simp add: decode_rune_def in_range_def pad)
  next
    case 3
    with r(1,2) m have q: "r div 4096 < 16" "r div 4096 = 0 \<Longrightarrow> 32 \<le> m1" by linarith+
    have "m1 \<le> 31" if "r div 4096 = 13" using assms that r(1,2) m unfolding scalar_def by linarith
    moreover have "encode_rune r = [0xE0 + r div 4096, 0x80 + m1, 0x80 + m0]"
      using 3 assms by (simp add: encode_rune_def m0_def m1_def)
    moreover have "(0xE0 + r div 4096) mod 16 = r div 4096" "(0x80 + m1) mod 64 = m1" "(0x80 + m0) mod 64 = m0"
      using q m by (simp_all add: lead_mod)
    moreover have "r div 4096 * 4096 + m1 * 64 + m0 = r" using r by linarith
    ultimately show ?thesis using q m by (simp add: decode_rune_def in_range_def pad)
  next
    case 4
    with r m have q: "r div 262144 < 5" "r div 262144 = 0 \<Longrightarrow> 16 \<le> m2" "r div 262144 = 4 \<Longrightarrow> m2 \<le> 15" by linarith+
    have "encode_rune r = [0xF0 + r div 262144, 0x80 + m2, 0x80 + m1, 0x80 + m0]"
      using 4 assms by (simp add: encode_rune_def m0_def m1_def m2_def)
    moreover have "(0xF0 + r div 262144) mod 8 = r div 262144" "(0x80 + m2) mod 64 = m2" "(0x80 + m1) mod 64 = m1"
        "(0x80 + m0) mod 64 = m0"
      using q m by (simp_all add: lead_mod)
    moreover have "r div 262144 * 262144 + m2 * 4096 + m1 * 64 + m0 = r" using r by linarith
    ultimately show ?thesis using q m by (simp add: decode_rune_def in_range_def pad)
  qed
qed

lemma encode_rune_bytes: "list_all (\<lambda>b. b < 256) (encode_rune r)"
proof -
  have "0xC0 + r div 64 < 256" if "r < 0x800" using that less_mult_imp_div_less [of r 32 64] by simp
  moreover have "0xE0 + q div 4096 < 256" if "q < 0x10000" for q :: nat
    using that less_mult_imp_div_less [of q 16 4096] by simp
  moreover have "0xF0 + q div 262144 < 256" if "q < 0x110000" for q :: nat
    using that less_mult_imp_div_less [of q 5 262144] by simp
  moreover have "0x80 + q mod 64 < 256" for q :: nat using mod_less_divisor [of 64 q] by linarith
  ultimately show ?thesis by (simp add: encode_rune_def Let_def scalar_def RuneError_def)
qed

lemma encode_rune_nonempty: "encode_rune r \<noteq> []"
  by (simp add: encode_rune_def Let_def)

lemma runes_encode: "scalar r \<Longrightarrow> runes (encode_rune r @ bs) = r # runes bs"
  using decode_encode [of r bs] encode_rune_nonempty [of r] by (subst runes.simps) simp

text \<open>
  Runes survive the way to a string and back, if they are scalar values.
\<close>

theorem to_runes_of_runes:
  assumes "list_all scalar rs"
  shows "to_runes (of_runes rs) = rs"
proof -
  have "map (\<lambda>b. byte_of (char_of b)) bs = bs" if "list_all (\<lambda>b. b < 256) bs" for bs
    using that by (induction bs) (auto simp: byte_of_def)
  moreover have "list_all (\<lambda>b. b < 256) (concat (map encode_rune rs))"
    using encode_rune_bytes by (auto simp: list_all_iff)
  ultimately have "to_runes (of_runes rs) = runes (concat (map encode_rune rs))"
    by (simp add: to_runes_def of_runes_def o_def)
  also have "\<dots> = rs" using assms by (induction rs) (auto simp: runes_encode runes.simps [of "[]"])
  finally show ?thesis .
qed

section \<open>Kinds of resources\<close>

text \<open>
  \<open>kindFor\<close> is the inverse of \<open>gvrForKind\<close> on every kind that a deletion request can carry, so the queue and
  the table name the same resource types.
\<close>

theorem kindFor_gvrForKind:
  assumes "kind \<in> set grace_kinds"
  shows "kindFor upper (gvr_Resource (gvrForKind (NewController cfg dyn svcs slices env net slot cancelled) kind)) = kind"
  using assms
  by (auto simp: grace_kinds_def gvrForKind_def NewController_def traefik_gvr_def kindFor_def resourceToKind_def)

text \<open>
  The table of the controller agrees with the one that server-side apply uses on every resource that one
  knows; the two differ in what they do with others.
\<close>

theorem kindFor_agrees:
  assumes "KindFor resource \<noteq> resource"
  shows "kindFor upper resource = KindFor resource"
  using assms by (auto simp: KindFor_def kindFor_def resourceToKind_def split: if_splits)

lemma runes_ascii: "list_all (\<lambda>b. b < 128) bs \<Longrightarrow> runes bs = bs"
proof (induction bs)
  case (Cons b bs)
  then have "encode_rune b = [b]" "scalar b" by (auto simp: encode_rune_def scalar_def)
  with runes_encode [of b bs] Cons show ?case by simp
qed (simp add: runes.simps)

lemma titleCaseFirst_ascii:
  assumes "list_all (\<lambda>c. byte_of c < 128) (c # cs)"
  shows "titleCaseFirst upper (c # cs) = char_of (unicode_ToUpper upper (byte_of c)) # cs"
proof -
  have "runes (map byte_of (c # cs)) = map byte_of (c # cs)"
    using assms by (intro runes_ascii) (simp add: list_all_iff)
  moreover have "concat (map encode_rune (map byte_of cs)) = map byte_of cs" if "list_all (\<lambda>c. byte_of c < 128) cs" for cs
    using that by (induction cs) (auto simp: encode_rune_def)
  moreover have "unicode_ToUpper upper (byte_of c) < 128" using assms by (auto simp: unicode_ToUpper_def)
  moreover have "map char_of (map byte_of cs) = cs" by (induction cs) (auto simp: byte_of_def)
  ultimately show ?thesis using assms
    by (simp add: titleCaseFirst_def to_runes_def of_runes_def Let_def encode_rune_def)
qed

end
