(* ===== verification/Accounting.thy ===== *)
theory Accounting
  imports Orchestration
begin

text \<open>
  The metrics of the poll loop over whole runs: iterations of the loop, probes of the readiness handler, a lost
  leadership, and everything that the rest of the program and the cluster do, in any order. These are the parts
  that write the metrics of \<open>LoopMetrics\<close>: \<^verbatim>\<open>loop.go\<close>, \<open>Ready\<close> of \<^verbatim>\<open>readiness.go\<close>,
  and \<open>handleLeadershipLoss\<close> of \<^verbatim>\<open>controller.go\<close>.

  Shown: the counters agree with the iterations that took place, and the gauge of consecutive errors with the
  variable of the loop. The readiness gauge says what the last good poll, probe or pause said, so it can say ready
  when the controller is not.
\<close>

section \<open>Runs\<close>

datatype report_label = Iteration outcome | Probe bool | LeadershipLost | Outside

inductive report_step ::
  "'w looplib \<Rightarrow> (TraefikConfig \<Rightarrow> ('w kst, unit) io) \<Rightarrow> 'w Controller \<Rightarrow> 'w leadst \<Rightarrow> report_label \<Rightarrow> 'w leadst \<Rightarrow> bool"
  for lib par c where
  iterate: "runLoop_iter_m lib par c (lead_loop s, lead_metrics s) = (out, l, m) \<Longrightarrow>
    report_step lib par c s (Iteration out) (s\<lparr>lead_loop := l, lead_metrics := m\<rparr>)"
| probe: "Ready_m lib c (lead_loop s, lead_metrics s) = (b, l, m) \<Longrightarrow>
    report_step lib par c s (Probe b) (s\<lparr>lead_loop := l, lead_metrics := m\<rparr>)"
| lost: "report_step lib par c s LeadershipLost (OnStoppedLeading (c_cfg c) s)"
| outside: "report_step lib par c s Outside (s\<lparr>lead_loop := (lead_loop s)\<lparr>ks := k\<rparr>\<rparr>)"

text \<open>The collector is new, \<open>NewController\<close> has set the readiness gauge, and the loop has not begun.\<close>

definition report_start :: "bool \<Rightarrow> 'w leadst \<Rightarrow> bool" where
  "report_start otel s \<longleftrightarrow>
     (\<exists>k. lead_loop s = initial_loopst k) \<and> lead_metrics s = setReady 0 (Some (new_collector otel))"

text \<open>What the labels of a run add up to: iterations by their outcome attribute, and the last verdict on readiness.\<close>

definition tally :: "report_label list \<Rightarrow> string \<Rightarrow> nat" where
  "tally ls a = length (filter (\<lambda>l. \<exists>out. l = Iteration out \<and> attribute_of out = Some a) ls)"

fun verdict_after :: "Config \<Rightarrow> bool \<Rightarrow> report_label \<Rightarrow> bool" where
  "verdict_after cfg v (Iteration out) = (good_poll out \<or> v)"
| "verdict_after cfg v (Probe b) = b"
| "verdict_after cfg v LeadershipLost = (v \<and> \<not> EqualFold (OnLoseBehavior cfg) ''pause'')"
| "verdict_after cfg v Outside = v"

section \<open>The metrics account for the run\<close>

text \<open>The account of a run: its labels so far.\<close>

definition accounts :: "bool \<Rightarrow> Config \<Rightarrow> 'w leadst \<Rightarrow> report_label list \<Rightarrow> bool" where
  "accounts otel cfg s ls \<longleftrightarrow>
     (\<exists>m. lead_metrics s = Some m \<and> has_OTel m = otel \<and> ConsecutiveErrors m = consecutiveErrors (lead_loop s)
        \<and> ReconcileErrors m = tally ls ''error'' \<and> length (ReconcileDuration m) = tally ls ''success''
        \<and> (otel \<longrightarrow> LoopIterationsTotal m = tally ls)
        \<and> Ready_gauge m = (if foldl (verdict_after cfg) False ls then 1 else 0))"

lemma tally_snoc:
  "tally (ls @ [Iteration out]) = (case attribute_of out of
     None \<Rightarrow> tally ls
   | Some a \<Rightarrow> (tally ls)(a := Suc (tally ls a)))"
  "tally (ls @ [Probe b]) = tally ls" "tally (ls @ [LeadershipLost]) = tally ls" "tally (ls @ [Outside]) = tally ls"
  by (auto simp: tally_def fun_eq_iff split: option.split)

lemma accounts_iterate:
  assumes "runLoop_iter_m lib par c (lead_loop s, lead_metrics s) = (out, l, m)" and "accounts otel (c_cfg c) s ls"
  shows "accounts otel (c_cfg c) (s\<lparr>lead_loop := l, lead_metrics := m\<rparr>) (ls @ [Iteration out])"
proof -
  from assms(2) obtain m0 where m0: "lead_metrics s = Some m0" "has_OTel m0 = otel"
      "ConsecutiveErrors m0 = consecutiveErrors (lead_loop s)" "ReconcileErrors m0 = tally ls ''error''"
      "length (ReconcileDuration m0) = tally ls ''success''" "otel \<longrightarrow> LoopIterationsTotal m0 = tally ls"
      "Ready_gauge m0 = (if foldl (verdict_after (c_cfg c)) False ls then 1 else 0)"
    by (auto simp: accounts_def)
  from runLoop_iter_m_effect [OF assms(1) [unfolded m0(1)]] obtain m1 where m1: "m = Some m1" "has_OTel m1 = has_OTel m0"
      "Ready_gauge m1 = (if good_poll out then 1 else Ready_gauge m0)"
      "ConsecutiveErrors m1 = (if out = Cancelled then ConsecutiveErrors m0 else consecutiveErrors l)"
      "out = Cancelled \<longrightarrow> l = lead_loop s"
      "ReconcileErrors m1 = ReconcileErrors m0 + (if attribute_of out = Some ''error'' then 1 else 0)"
      "length (ReconcileDuration m1) = length (ReconcileDuration m0) + (if attribute_of out = Some ''success'' then 1 else 0)"
      "has_OTel m0 \<longrightarrow> LoopIterationsTotal m1 = (case attribute_of out of
          None \<Rightarrow> LoopIterationsTotal m0
        | Some a \<Rightarrow> (LoopIterationsTotal m0)(a := Suc (LoopIterationsTotal m0 a)))"
    by blast
  have "ConsecutiveErrors m1 = consecutiveErrors l" using m0(3) m1(4,5) by auto
  moreover have "ReconcileErrors m1 = tally (ls @ [Iteration out]) ''error''"
      "length (ReconcileDuration m1) = tally (ls @ [Iteration out]) ''success''"
    using m0(4,5) m1(6,7) by (simp_all add: tally_def)
  moreover have "otel \<longrightarrow> LoopIterationsTotal m1 = tally (ls @ [Iteration out])" using m0(2,6) m1(8)
    by (cases "attribute_of out") (simp_all add: tally_snoc)
  moreover have "Ready_gauge m1 = (if foldl (verdict_after (c_cfg c)) False (ls @ [Iteration out]) then 1 else 0)"
    using m0(7) m1(3) by simp
  ultimately show ?thesis using m0(2) m1(1,2) unfolding accounts_def by simp
qed

lemma accounts_lost:
  assumes "accounts otel cfg s ls"
  shows "accounts otel cfg (OnStoppedLeading cfg s) (ls @ [LeadershipLost])"
proof -
  have "fold_case ''exit'' \<noteq> fold_case ''pause''" "fold_case [] \<noteq> fold_case ''pause''" by code_simp+
  then have "\<not> EqualFold b ''pause''" if "EqualFold b ''exit'' \<or> b = []" for b
    using that by (auto simp: EqualFold_def simp del: fold_case.simps)
  with assms show ?thesis
    by (auto simp: accounts_def tally_snoc OnStoppedLeading_def handleLeadershipLoss_def setReady_def Let_def)
qed

interpretation metrics: fold_simulation "report_start otel" "report_step lib par c" "[]" "\<lambda>ls l. ls @ [l]" "accounts otel (c_cfg c)"
  for otel and lib :: "'w looplib" and par c
proof
  fix s :: "'w leadst" and ls l t
  assume a: "accounts otel (c_cfg c) s ls" and "report_step lib par c s l t"
  from this(2) show "accounts otel (c_cfg c) t (ls @ [l])"
  proof (cases rule: report_step.cases)
    case (iterate out l' m)
    with accounts_iterate [OF iterate(3) a] show ?thesis by simp
  next
    case (probe b l' m)
    with a show ?thesis by (auto simp: accounts_def tally_snoc Ready_m_def setReady_def Let_def split: if_splits)
  next
    case lost
    with accounts_lost [OF a] show ?thesis by simp
  qed (use a in \<open>auto simp: accounts_def tally_snoc\<close>)
qed (auto simp: report_start_def accounts_def new_collector_def initial_loopst_def setReady_def tally_def)

lemma run_accounts: "run (report_start otel) (report_step lib par c) ls s \<Longrightarrow> accounts otel (c_cfg c) s ls"
proof -
  have "foldl (\<lambda>ls l. ls @ [l]) a ls = a @ ls" for a by (induction ls arbitrary: a) simp_all
  then show "run (report_start otel) (report_step lib par c) ls s \<Longrightarrow> accounts otel (c_cfg c) s ls"
    using metrics.run_fold [of otel lib par c ls s] by simp
qed

text \<open>
  C16. In every run of the loop with its metrics, with probes, a lost leadership and the other parts of the
  program in between: the gauge of consecutive errors is the variable of the loop, the error counter is the
  number of iterations that failed to fetch, decode or apply, a duration was observed for each iteration that
  applied a configuration, each outcome attribute counts its iterations, and the readiness gauge is the verdict
  of the last good poll, probe or, with \<open>ON_LOSE\<close> equal to \<open>pause\<close>, lost leadership, which sets it to zero.
\<close>

theorem metrics_account_for_run:
  assumes "run (report_start otel) (report_step lib par c) ls s"
  shows "\<exists>m. lead_metrics s = Some m \<and> ConsecutiveErrors m = consecutiveErrors (lead_loop s)
    \<and> ReconcileErrors m = tally ls ''error'' \<and> length (ReconcileDuration m) = tally ls ''success''
    \<and> (otel \<longrightarrow> LoopIterationsTotal m = tally ls)
    \<and> Ready_gauge m = (if foldl (verdict_after (c_cfg c)) False ls then 1 else 0)"
  using run_accounts [OF assms] by (auto simp: accounts_def)

text \<open>
  The readiness gauge is not lowered when time passes: five poll intervals after the last good poll the
  controller is not ready, and the gauge says it is, unless a probe has asked in between.
\<close>

theorem ready_gauge_out_of_date:
  assumes "run (report_start otel) (report_step lib par c) ls s" and "foldl (verdict_after (c_cfg c)) False ls"
    and "5 * PollInterval (c_cfg c) < clock lib (lead_loop s) - lastSuccessfulReconcile (lead_loop s)"
    and "0 < PollInterval (c_cfg c)" and "PollInterval (c_cfg c) < 2 ^ 60"
  shows "map_option Ready_gauge (lead_metrics s) = Some 1 \<and> \<not> Ready lib c (lead_loop s)"
proof -
  from run_accounts [OF assms(1)] assms(2) have "map_option Ready_gauge (lead_metrics s) = Some 1"
    by (auto simp: accounts_def)
  moreover have "wrap64 (5 * PollInterval (c_cfg c)) = 5 * PollInterval (c_cfg c)"
    using assms(4,5) by (intro wrap64_id) auto
  ultimately show ?thesis using assms(3,4) by (simp add: Ready_def Let_def)
qed

section \<open>Instances\<close>

definition report_demo :: "cluster leadst" where
  "report_demo = \<lparr>lead_loop = demo_start, exitRequested = False, lctx_cancelled = False,
     lead_metrics = setReady 0 (Some (new_collector True))\<rparr>"

lemma report_demo_start: "report_start True report_demo"
  by (auto simp: report_start_def report_demo_def demo_start_def)

lemma report_demo_iterate:
  assumes "runLoop_iter lib par c demo_start = (out, s)"
  obtains m where "run (report_start True) (report_step lib par c) [Iteration out] (report_demo\<lparr>lead_loop := s, lead_metrics := m\<rparr>)"
proof -
  obtain m where "runLoop_iter_m lib par c (lead_loop report_demo, lead_metrics report_demo) = (out, s, m)"
    using assms runLoop_iter_projects [of lib par c demo_start "lead_metrics report_demo"]
    by (cases "runLoop_iter_m lib par c (demo_start, lead_metrics report_demo)") (auto simp: report_demo_def)
  from report_step.iterate [OF this] that show thesis
    using run_single [of "report_start True" report_demo "report_step lib par c"] report_demo_start by blast
qed

text \<open>A good poll, then a lost leadership in the mode \<open>pause\<close>: one iteration is counted, and the gauge is zero again.\<close>

definition pause_loop :: "cluster Controller" where
  "pause_loop = demo_loop_of (demo_cfg\<lparr>OnLoseBehavior := ''pause''\<rparr>)"

lemma pause_loop_fields:
  "c_cfg pause_loop = demo_cfg\<lparr>OnLoseBehavior := ''pause''\<rparr>" "c_net pause_loop = c_net demo_loop"
  "c_env pause_loop = c_env demo_loop"
  by (simp_all add: pause_loop_def demo_loop_def demo_loop_of_def cluster_demo_def NewController_def)

text \<open>The clock of this instance depends on the cluster, so that time passes when the cluster changes.\<close>

definition slow_lib :: "cluster looplib" where
  "slow_lib = (demo_lib 304)\<lparr>now := \<lambda>w. if w (traefik_gvr ''middlewares'') = [] then 3600 * Second else 1000\<rparr>"

lemma slow_lib_fields: "lib_host slow_lib = example_host" "ctx_done slow_lib w = False" "http_Do slow_lib = http_Do (demo_lib 304)"
    "now slow_lib (\<lambda>_. []) = 3600 * Second" "now slow_lib (kube cluster_state) = 1000"
  by (simp_all add: slow_lib_def demo_lib_def cluster_state_def)

lemma fetch_on_lose:
  "fetchConfigOnce h net do (cfg\<lparr>OnLoseBehavior := b\<rparr>) e = fetchConfigOnce h net do cfg e"
  by (simp add: fetchConfigOnce_def fetchConditional_def Let_def cong: if_cong)

lemma slow_iter:
  assumes "runLoop_iter slow_lib (\<lambda>_. retIO ()) c demo_start = (out, s)" and "c = demo_loop \<or> c = pause_loop"
  shows "out = NoChange" and "lastSuccessfulReconcile s = 1000"
proof -
  have f: "r = Inr ([], ''config'', 304) \<and> ks s1 = cluster_state" if "fetched slow_lib c demo_start r s1" for r s1
    using that assms(2) by (auto simp: fetched_def slow_lib_fields demo_loop_fields pause_loop_fields fetch_on_lose
        computeIfNoneMatch_def k_io_eq demo_fetch)
  show "out = NoChange" "lastSuccessfulReconcile s = 1000"
    using assms(1) by (cases rule: iter_cases; auto simp: slow_lib_fields clock_def dest!: f)+
qed

theorem metrics_account_for_run_witness:
  "\<exists>s m. run (report_start True) (report_step slow_lib (\<lambda>_. retIO ()) pause_loop) [Iteration NoChange, LeadershipLost] s
     \<and> lead_metrics s = Some m \<and> LoopIterationsTotal m ''nochange'' = 1 \<and> ReconcileErrors m = 0 \<and> Ready_gauge m = 0"
proof -
  let ?step = "report_step slow_lib (\<lambda>_. retIO ()) pause_loop"
  obtain o' s where r: "runLoop_iter slow_lib (\<lambda>_. retIO ()) pause_loop demo_start = (o', s)" by fastforce
  note o' = slow_iter [OF r]
  from report_demo_iterate [OF r] o'(1) obtain t where "run (report_start True) ?step [Iteration NoChange] t" by auto
  from run.step [OF this report_step.lost]
  have run: "run (report_start True) ?step [Iteration NoChange, LeadershipLost] (OnStoppedLeading (c_cfg pause_loop) t)"
    by (simp only: append.simps)
  have "EqualFold ''pause'' ''pause''" by code_simp
  then have "\<not> foldl (verdict_after (c_cfg pause_loop)) False [Iteration NoChange, LeadershipLost]"
    by (simp add: pause_loop_fields)
  moreover have "tally [Iteration NoChange, LeadershipLost] ''nochange'' = 1" "tally [Iteration NoChange, LeadershipLost] ''error'' = 0"
    by (simp_all add: tally_def)
  ultimately show ?thesis using metrics_account_for_run [OF run] run by auto
qed

theorem ready_gauge_out_of_date_witness:
  "\<exists>ls s. run (report_start True) (report_step slow_lib (\<lambda>_. retIO ()) demo_loop) ls s
     \<and> map_option Ready_gauge (lead_metrics s) = Some 1 \<and> \<not> Ready slow_lib demo_loop (lead_loop s)"
proof -
  let ?step = "report_step slow_lib (\<lambda>_. retIO ()) demo_loop"
  obtain o' s where r: "runLoop_iter slow_lib (\<lambda>_. retIO ()) demo_loop demo_start = (o', s)" by fastforce
  note o' = slow_iter [OF r]
  from report_demo_iterate [OF r] o'(1) obtain m where
    "run (report_start True) ?step [Iteration NoChange] (report_demo\<lparr>lead_loop := s, lead_metrics := m\<rparr>)" (is "run _ _ _ ?t") by auto
  from run.step [OF this report_step.outside [where k = "(ks s)\<lparr>kube := \<lambda>_. []\<rparr>"]]
  have run: "run (report_start True) ?step [Iteration NoChange, Outside] (?t\<lparr>lead_loop := (lead_loop ?t)\<lparr>ks := (ks s)\<lparr>kube := \<lambda>_. []\<rparr>\<rparr>\<rparr>)"
    (is "run _ _ _ ?u") by (simp only: append.simps)
  have "5 * PollInterval demo_cfg < 3600 * Second - 1000" "0 < PollInterval demo_cfg" "PollInterval demo_cfg < 2 ^ 60"
    by code_simp+
  moreover have "clock slow_lib (lead_loop ?u) = 3600 * Second" "lastSuccessfulReconcile (lead_loop ?u) = 1000"
    using o'(2) by (simp_all add: clock_def slow_lib_fields)
  ultimately have "map_option Ready_gauge (lead_metrics ?u) = Some 1 \<and> \<not> Ready slow_lib demo_loop (lead_loop ?u)"
    by (intro ready_gauge_out_of_date [OF run]) (simp_all add: good_poll_def demo_loop_fields)
  with run show ?thesis by blast
qed

end
