(* ===== verification/Spec2Isabelle.thy ===== *)
theory Spec2Isabelle
  imports Sanitize Routing AppConfig Diff Apply TcpUdp HttpConversion Reconcile Converge GraceQueue Backoff Fetch Loop
    Redact Labels Certificates HttpServer EndpointSlices Orchestration ClusterSetup TestSchema TestSupport FileMap Metrics
    Mirror Kinds Reporting Accounting
begin

text \<open>
  A verification of the pangolin-kube-controller: a controller that polls Pangolin for a Traefik
  configuration and keeps the Traefik custom resources of a Kubernetes namespace equal to it.

  \<^bold>\<open>The program and how its parts interact.\<close>
  \<^verbatim>\<open>cmd/controller/main.go\<close> loads the settings and calls \<^verbatim>\<open>internal/orchestration/run.go\<close>, which makes the clients, resolves
  the instance label, and runs three goroutines: the HTTP server (probes, metrics, certificates), the
  leader election around the poll loop, and the label monitor. An iteration of the loop
  (\<^verbatim>\<open>internal/controller/loop.go\<close>) fetches the configuration (\<^verbatim>\<open>fetch.go\<close>), decides by ETag and hash
  whether it changed (\<^verbatim>\<open>change_detection.go\<close>), decodes it, applies it (\<^verbatim>\<open>apply.go\<close>) and waits (\<^verbatim>\<open>backoff.go\<close>).
  Applying sanitises names and references (\<^verbatim>\<open>internal/transform/sanitize\<close>), transforms routers and services
  (\<^verbatim>\<open>internal/transform/routing\<close>, \<^verbatim>\<open>internal/transform/protocol\<close>), writes every desired object by server-side
  apply (\<^verbatim>\<open>internal/apply\<close>) and deletes the managed objects that are no longer desired, at once or through
  the queue of delayed deletions; its six phases run one after the other or as goroutines.

  \<^bold>\<open>The theories\<close>, with the sources they model; each opens with a text that says more.
  \<^item> Language and libraries: \<^verbatim>\<open>Prelude\<close> (strings, maps, errors, operations on a world), \<^verbatim>\<open>Sha256\<close> and
    \<^verbatim>\<open>ShaVectors\<close> (the hash, and digests evaluated by the kernel), \<^verbatim>\<open>GoValue\<close> (\<open>interface{}\<close> and JSON), \<^verbatim>\<open>NetAddr\<close>
    (addresses), \<^verbatim>\<open>Paths\<close> (\<^verbatim>\<open>path/filepath\<close>), \<^verbatim>\<open>Iteration\<close> (loops that may not end), \<^verbatim>\<open>Machine\<close> (labelled runs of a state
    machine; simulations and invariants as locales).
  \<^item> Data: \<^verbatim>\<open>TraefikConfig\<close> (\<^verbatim>\<open>transform/config\<close>), \<^verbatim>\<open>AppConfig\<close> (\<^verbatim>\<open>internal/config\<close>), \<^verbatim>\<open>Kube\<close> (the API client,
    \<^verbatim>\<open>kube/resources\<close>).
  \<^item> Transformation: \<^verbatim>\<open>Sanitize\<close>, \<^verbatim>\<open>Routing\<close>, \<^verbatim>\<open>TcpUdp\<close>, \<^verbatim>\<open>HttpConversion\<close>.
  \<^item> Writing objects: \<^verbatim>\<open>Diff\<close> (\<^verbatim>\<open>numeric.go\<close>, \<^verbatim>\<open>diff.go\<close>), \<^verbatim>\<open>Apply\<close> (\<^verbatim>\<open>metadata.go\<close>, \<^verbatim>\<open>unstructured.go\<close>,
    \<^verbatim>\<open>ingressroute.go\<close>, \<^verbatim>\<open>service.go\<close>), \<^verbatim>\<open>EndpointSlices\<close> (\<^verbatim>\<open>endpointslice.go\<close>).
  \<^item> Reconciliation (\<^verbatim>\<open>controller/apply.go\<close>): \<^verbatim>\<open>Reconcile\<close> (the phases), \<^verbatim>\<open>Converge\<close> (a sequential run), \<^verbatim>\<open>Tracking\<close> and
    \<^verbatim>\<open>Parallel\<close> (\<open>applyConfigParallel\<close>), \<^verbatim>\<open>GraceQueue\<close> (delayed deletion as a state machine).
  \<^item> The loop: \<^verbatim>\<open>Fetch\<close>, \<^verbatim>\<open>Backoff\<close>, \<^verbatim>\<open>Loop\<close> (\<^verbatim>\<open>loop.go\<close>, \<^verbatim>\<open>change_detection.go\<close>, \<^verbatim>\<open>readiness.go\<close>),
    \<^verbatim>\<open>Reporting\<close> (the same functions with the metrics they write, and log lines), \<^verbatim>\<open>Mirror\<close> (the loop, the deletion workers and other clients together),
    \<^verbatim>\<open>Kinds\<close> (\<open>kindFor\<close> of \<^verbatim>\<open>controller.go\<close>).
  \<^item> Around it: \<^verbatim>\<open>Redact\<close> (\<^verbatim>\<open>observability/logging\<close>), \<^verbatim>\<open>Labels\<close> (\<^verbatim>\<open>kube/labels\<close>), \<^verbatim>\<open>Certificates\<close>, \<^verbatim>\<open>HttpServer\<close>
    (with \<^verbatim>\<open>cmd/healthcheck\<close>), \<^verbatim>\<open>Orchestration\<close> (leader election, \<^verbatim>\<open>run.go\<close>, \<^verbatim>\<open>main.go\<close>),
    \<^verbatim>\<open>Accounting\<close> (the loop, the probes and the loss of leadership with the metrics they write), \<^verbatim>\<open>ClusterSetup\<close> (\<^verbatim>\<open>crd.go\<close>,
    \<^verbatim>\<open>gc.go\<close>, \<^verbatim>\<open>attributes.go\<close>, \<^verbatim>\<open>version.go\<close>), \<^verbatim>\<open>Metrics\<close> (\<^verbatim>\<open>otelmetrics.go\<close>, \<^verbatim>\<open>metrics.go\<close>).
  \<^item> Tools and helpers: \<^verbatim>\<open>DocCheck\<close> (\<^verbatim>\<open>hack/tools/doccheck\<close>), \<^verbatim>\<open>FileMap\<close> (\<^verbatim>\<open>hack/tools/genfilemap\<close>), \<^verbatim>\<open>TestSchema\<close>
    (\<^verbatim>\<open>internal/testschema\<close>), \<^verbatim>\<open>TestSupport\<close> (\<^verbatim>\<open>transform/testutil\<close>, \<^verbatim>\<open>internal/testutil\<close>, \<^verbatim>\<open>test/assets.go\<close>,
    \<^verbatim>\<open>test/e2e/helpers.go\<close>).
  \<^item> This theory holds what spans the transformation and the phases.

  A Go function is a definition of the same name; a method \<open>T.Op\<close> is \<open>T_Op\<close> where the bare name is taken. A struct is a
  record, an error a value of \<open>goerr\<close>, and an operation that calls the outside returns an error or a
  value together with the new world (\<open>io\<close>).

  \<^bold>\<open>What is shown.\<close>
  \<^item> The cluster converges: after a configuration was applied without an error by a controller that is not
    read-only, in sequence or in parallel, every entry of it has its object, with the spec, labels and annotations
    that were to be written, objects of others are untouched, and the managed objects that are not in it are
    gone without a grace period and stay for the workers with one. Garbage collection deletes exactly the stale managed
    objects; read-only mode writes nothing in either mode; a sequential run is a possible parallel run.
  \<^item> The loop: the remembered signature is that of the configuration applied last, so an update is never
    skipped before it has been applied; how errors escalate the wait; when the loop returns; the metrics account for the
    iterations that took place, with probes and the loss of leadership in between.
  \<^item> The running controller, its workers and other clients in any interleaving: whenever the events so far say that a
    configuration is shown, every object it wants is there and carries its entry, and without a grace period no other
    managed object is. What they do not
    say is shown too: after a configuration that failed half-way, going back to the one before it is skipped.
  \<^item> Sanitised names are valid, references stay intact, and the order in which Go visits its maps does not matter;
    every route refers to a Service that exists; every \<^verbatim>\<open>IngressRoute\<close> is well typed.
  \<^item> Bounds: backoff inside \<open>int64\<close> and within a fifth of its maximum, at most five patch calls, a bounded queue, a bounded body.
  \<^item> Secrets: redaction hides exactly the values under sensitive keys, and neither the preview nor the warning about a
    malformed object depends on them; credentials do not follow a redirect to another host or scheme;
    profiling is not served in plaintext.
  \<^item> The process: which label is resolved, when the monitor fails, the exit code, what the probes answer, where each
    setting of the configuration file comes from, that a failed OpenTelemetry setup leaves no provider behind, and on
    which paths the process shuts its provider down and on which it does not.
  \<^item> The tools write below the module root only, and their searches end.

  \<^bold>\<open>Interfaces.\<close> The API server, the network, the clock, the randomness, the file system and the
  third-party parsers are arguments. What is relied on of the API server is stated once in \<^verbatim>\<open>Kube\<close> and \<^verbatim>\<open>Converge\<close>
  (\<open>client_laws\<close>, \<open>content_law\<close>, \<open>decode_law\<close>, \<open>cluster_laws\<close>) and holds for a store in memory, which
  the witnesses use. The locale \<open>applier\<close> is the contract between writing one object and reconciling a
  section; it is interpreted on the three operations of \<^verbatim>\<open>internal/apply\<close>. The locales \<open>simulation\<close>, \<open>fold_simulation\<close> and
  \<open>invariant\<close> are the contracts between a state machine and its specification; they are interpreted on the deletion
  queue, the poll loop, its metrics and the running controller.

  \<^bold>\<open>Loops and fuel.\<close> Loops over data are structural or have a termination proof. The retry loop of server-side apply takes its
  bound (five attempts) from the source. The poll loop, the label monitor and the searches upwards in the
  file system may run for ever: they are iterations with the value \<open>None\<close> for not returning, and when they
  return is a theorem. No other fuel is used.

  \<^bold>\<open>Not modelled.\<close> Log lines other than the previews, the decision on a fetched configuration and the
  start of a server, and the recording of metrics other than those of the loop: they do not change what the
  controller does. The scheduling of goroutines is modelled for the phases
  of reconciliation and the workers of the deletion queue; of the three goroutines of the process only
  their results are. Signal set-up, timeouts and flag parsing are calls of libraries. Package comments (tracing, profiling) have no code. The constants of the tests and the variables that
  tests replace have no behaviour of their own. JSON texts
  are identified when they denote the same document, and numbers in them are exact.
\<close>

section \<open>Properties that span components\<close>

lemma sanitize_l4: "SanitizeTraefikConfig (Some (cfg\<lparr>TCP := t, UDP := u\<rparr>)) = SanitizeTraefikConfig (Some cfg)"
  by (simp add: SanitizeTraefikConfig_def buildNameMappings_def populateSanitizedMiddlewares_def
      populateSanitizedServices_def populateSanitizedTransports_def populateSanitizedRouters_def)

text \<open>The phases of the HTTP sections do not look at the clients for Services and EndpointSlices.\<close>

lemma typed_clients_unused:
  fixes c :: "'w Controller" and svcs :: "string \<Rightarrow> ('w, Service) TypedClient"
    and slices :: "string \<Rightarrow> ('w, EndpointSlice) TypedClient"
  defines "c' \<equiv> c\<lparr>c_services := svcs, c_slices := slices\<rparr>"
  shows "applyDesiredObjects c' = applyDesiredObjects c" and "gcStaleObjects c' = gcStaleObjects c"
    and "applyIngressRoute c' = applyIngressRoute c"
proof -
  have "gc_item c' g d k x = gc_item c g d k x" for g d k x
    by (simp add: c'_def gc_item_def staleManagedName_def scheduleGraceDeletion_def enqueueGraceDeletion_def
        res_ifc_def Let_def fun_eq_iff)
  then have "gc_item c' = gc_item c" by (simp add: fun_eq_iff)
  moreover have "res_ifc c' = res_ifc c" "c_cfg c' = c_cfg c" by (simp_all add: c'_def res_ifc_def fun_eq_iff)
  ultimately show "gcStaleObjects c' = gcStaleObjects c" by (intro ext) (simp add: gcStaleObjects_def)
qed (simp_all add: c'_def applyDesiredObjects_def applyIngressRoute_def route_ops_def res_ifc_def fun_eq_iff)

lemma sequential_no_l4:
  assumes "TCP s = None" and "UDP s = None"
  shows "applyConfigSequential (c\<lparr>c_services := svcs, c_slices := slices\<rparr>) s = applyConfigSequential c s"
  using assms
  by (simp add: applyConfigSequential_def reconcileMiddlewares_def reconcileRouters_def reconcileServersTransports_def
      reconcileServices_def reconcileTCP_def reconcileUDP_def typed_clients_unused Let_def
      case_prod_unfold split: option.split)

text \<open>The same for the phases that run in parallel.\<close>

lemma watched_typed_clients:
  "watched w0 calls (c\<lparr>c_services := svcs, c_slices := slices\<rparr>) =
   (watched w0 calls c)\<lparr>c_services := \<lambda>ns. watched_typed w0 calls (svcs ns), c_slices := \<lambda>ns. watched_typed w0 calls (slices ns)\<rparr>"
  by (simp add: watched_def)

lemma phases_no_l4:
  assumes "TCP s = None" and "UDP s = None"
  shows "phases (c\<lparr>c_services := svcs, c_slices := slices\<rparr>) s = phases c s"
  using assms
  by (simp add: phases_def reconcileMiddlewares_def reconcileRouters_def reconcileServersTransports_def
      reconcileServices_def reconcileTCP_def reconcileUDP_def typed_clients_unused Let_def
      case_prod_unfold fun_eq_iff split: option.split)

lemma run_events_typed: "run_events cancel (c\<lparr>c_services := svcs, c_slices := slices\<rparr>) evs s = run_events cancel c evs s"
proof -
  have "enqueueGraceDeletion (c\<lparr>c_services := svcs, c_slices := slices\<rparr>) req s = enqueueGraceDeletion c req s" for req s
    unfolding enqueueGraceDeletion_def Let_def by simp
  then show ?thesis by (induction cancel c evs s rule: run_events.induct) simp_all
qed

lemma parallel_ok_no_l4:
  "parallel_ok cancel (c\<lparr>c_services := svcs, c_slices := slices\<rparr>) par \<longleftrightarrow> parallel_ok cancel c par"
proof -
  let ?c = "c\<lparr>c_services := svcs, c_slices := slices\<rparr>"
  have "applyConfigParallel cancel ?c cfg evs s out = applyConfigParallel cancel c cfg evs s out"
    if l4: "TCP cfg = None" "UDP cfg = None" for cfg evs s out
  proof -
    have "phase_run ?c cfg evs w0 = phase_run c cfg evs w0" for w0
      by (simp add: fun_eq_iff phase_run_def watched_typed_clients phases_no_l4 [OF l4])
    then show ?thesis by (simp add: applyConfigParallel_def run_events_typed)
  qed
  then show ?thesis by (auto simp: parallel_ok_def parallel_by_def possible_def)
qed

text \<open>
  C29. Applying a configuration ignores its TCP and UDP sections, in sequence and in parallel: whatever
  they hold, the phases that run in parallel can do the same and the outcome is the same, and the clients for
  Services and EndpointSlices are never called. The six phases include the two protocols, but sanitising has
  dropped their sections before.
\<close>

theorem applyConfig_ignores_l4:
  "(parallel_ok cancel (c\<lparr>c_services := svcs, c_slices := slices\<rparr>) par \<longleftrightarrow> parallel_ok cancel c par)
   \<and> applyConfig par (c\<lparr>c_services := svcs, c_slices := slices\<rparr>) (Some (cfg\<lparr>TCP := t, UDP := u\<rparr>))
     = applyConfig par c (Some cfg)"
proof -
  have "applyConfig par (c\<lparr>c_services := svcs, c_slices := slices\<rparr>) (Some (cfg\<lparr>TCP := t, UDP := u\<rparr>)) s
      = applyConfig par c (Some cfg) s" for s
  proof (cases "SanitizeTraefikConfig (Some cfg)")
    case (Inr o')
    then obtain out where "o' = Some out" "TCP out = None" "UDP out = None"
      by (auto elim: SanitizeTraefikConfig_Inr)
    with Inr show ?thesis
      by (simp add: applyConfig_def sanitize_l4 io_defs sequential_no_l4)
  qed (simp add: applyConfig_def sanitize_l4 io_defs)
  then show ?thesis by (simp add: parallel_ok_no_l4 fun_eq_iff)
qed

theorem applyConfig_ignores_l4_witness:
  "TCP example_l4_cfg \<noteq> None \<and>
   (\<forall>par. applyConfig par (demo demo_cfg) (Some (example_l4_cfg\<lparr>TCP := None, UDP := None\<rparr>)) demo_state
      = applyConfig par (demo demo_cfg) (Some example_l4_cfg) demo_state)"
proof -
  have "(demo demo_cfg)\<lparr>c_services := \<lambda>_. no_objects, c_slices := \<lambda>_. no_objects\<rparr> = demo demo_cfg"
    by (simp add: demo_def NewController_def)
  with applyConfig_ignores_l4 [where c = "demo demo_cfg" and svcs = "\<lambda>_. no_objects" and slices = "\<lambda>_. no_objects"
      and cfg = example_l4_cfg and t = None and u = None]
  show ?thesis by (simp add: example_l4_cfg_def)
qed

end
